(* ===== verification/Prelude.thy ===== *)
theory Prelude
  imports Main "HOL-Library.Char_ord"
begin

text \<open>
  Shared vocabulary of the development: a result type for fallible Go functions
  (\<open>(T, error)\<close> returns), its monadic bind, the integer widths of Go on a
  64-bit platform, decimal printing and reading (\<open>strconv.Itoa\<close>,
  \<open>strconv.Atoi\<close>), an index loop over a rune slice, and the generic list
  and string lemmas the component theories use.

  A Go string is a HOL \<open>string\<close>; a Go \<open>rune\<close> is one element of it. The
  modelled code compares runes only with ASCII constants, so every rune above
  the ASCII range behaves the same way and is represented by a character of code
  128 to 255.
\<close>

named_theorems result_simps
  "unfolding rules for computations in the result type"

named_theorems consume_rules
  "facts saying that a parsing step never grows the remaining input"

section \<open>Results: a value or an error\<close>

text \<open>A Go function that returns a value and an error returns \<open>Inl\<close> the
  error or \<open>Inr\<close> the value. \<open>bindE\<close> is the \<open>if err != nil { return err }\<close>
  idiom.\<close>

type_synonym ('e, 'a) result = "'e + 'a"

fun bindE :: "('e, 'a) result \<Rightarrow> ('a \<Rightarrow> ('e, 'b) result) \<Rightarrow> ('e, 'b) result" where
  "bindE (Inl e) f = Inl e"
| "bindE (Inr x) f = f x"

definition guardE :: "bool \<Rightarrow> 'e \<Rightarrow> ('e, unit) result" where
  "guardE c e = (if c then Inr () else Inl e)"

definition is_ok :: "('e, 'a) result \<Rightarrow> bool" where
  "is_ok r = (case r of Inl _ \<Rightarrow> False | Inr _ \<Rightarrow> True)"

lemma bindE_eq_Inr [result_simps]:
  "bindE r f = Inr y \<longleftrightarrow> (\<exists>x. r = Inr x \<and> f x = Inr y)"
  by (cases r) auto

lemma bindE_eq_Inl [result_simps]:
  "bindE r f = Inl e \<longleftrightarrow> r = Inl e \<or> (\<exists>x. r = Inr x \<and> f x = Inl e)"
  by (cases r) auto

lemma bindE_cong [fundef_cong]:
  assumes "r = r'" and "\<And>x. r' = Inr x \<Longrightarrow> f x = g x"
  shows "bindE r f = bindE r' g"
  using assms by (cases r') auto

lemma bindE_assoc: "bindE (bindE r f) g = bindE r (\<lambda>x. bindE (f x) g)"
  by (cases r) auto

lemma guardE_eq_Inr [simp]: "guardE c e = Inr u \<longleftrightarrow> c"
  by (auto simp: guardE_def)

lemma guardE_eq_Inl [simp]: "guardE c e = Inl e' \<longleftrightarrow> \<not> c \<and> e' = e"
  by (auto simp: guardE_def)

lemma guardE_True [simp]: "guardE True e = Inr ()"
  by (simp add: guardE_def)

lemma guardE_False [simp]: "guardE False e = Inl e"
  by (simp add: guardE_def)

lemma is_ok_simps [simp]: "is_ok (Inr x)" "\<not> is_ok (Inl e)"
  by (simp_all add: is_ok_def)

section \<open>Index loops\<close>

text \<open>The loop \<open>for pos < len(s) && P(s[pos]) { pos++ }\<close>.\<close>

function scanWhile :: "('a \<Rightarrow> bool) \<Rightarrow> 'a list \<Rightarrow> nat \<Rightarrow> nat" where
  "scanWhile P s p = (if p < length s \<and> P (s ! p) then scanWhile P s (Suc p) else p)"
  by pat_completeness auto
termination by (relation "measure (\<lambda>(P, s, p). length s - p)") auto

declare scanWhile.simps [simp del]

lemma scanWhile_takeWhile:
  "scanWhile P s p = p + length (takeWhile P (drop p s))"
proof (induction P s p rule: scanWhile.induct)
  case (1 P s p)
  show ?case
  proof (cases "p < length s \<and> P (s ! p)")
    case True
    then have "drop p s = s ! p # drop (Suc p) s"
      by (simp add: Cons_nth_drop_Suc)
    with True 1 show ?thesis
      by (subst scanWhile.simps) simp
  next
    case False
    then have "takeWhile P (drop p s) = []"
      by (cases "p < length s") (auto simp: Cons_nth_drop_Suc [symmetric])
    with False show ?thesis
      by (subst scanWhile.simps) auto
  qed
qed

lemma scanWhile_ge: "p \<le> scanWhile P s p"
  by (simp add: scanWhile_takeWhile)

lemma scanWhile_le_length: "p \<le> length s \<Longrightarrow> scanWhile P s p \<le> length s"
  using length_takeWhile_le [of P "drop p s"] by (simp add: scanWhile_takeWhile)

lemma drop_scanWhile: "drop (scanWhile P s p) s = dropWhile P (drop p s)"
proof -
  have "drop (p + length (takeWhile P (drop p s))) s
      = drop (length (takeWhile P (drop p s))) (drop p s)"
    by (simp add: add.commute)
  also have "\<dots> = dropWhile P (drop p s)"
    by (rule dropWhile_eq_drop [symmetric])
  finally show ?thesis
    by (simp add: scanWhile_takeWhile)
qed

text \<open>The slice expression \<open>s[a:b]\<close>.\<close>

definition slice :: "'a list \<Rightarrow> nat \<Rightarrow> nat \<Rightarrow> 'a list" where
  "slice s a b = take (b - a) (drop a s)"

lemma slice_scanWhile: "slice s p (scanWhile P s p) = takeWhile P (drop p s)"
  by (simp add: slice_def scanWhile_takeWhile flip: takeWhile_eq_take)

lemma drop_eq_ConsD:
  assumes "drop p s = c # xs"
  shows "p < length s" "s ! p = c" "drop (Suc p) s = xs"
proof -
  show "p < length s"
    using assms by (metis drop_all list.discI not_le_imp_less)
  then have "s ! p # drop (Suc p) s = c # xs"
    using assms by (simp add: Cons_nth_drop_Suc)
  then show "s ! p = c" "drop (Suc p) s = xs" by simp_all
qed

lemma takeWhile_all_append:
  "list_all P xs \<Longrightarrow> (case ys of [] \<Rightarrow> True | y # _ \<Rightarrow> \<not> P y) \<Longrightarrow>
    takeWhile P (xs @ ys) = xs \<and> dropWhile P (xs @ ys) = ys"
  by (induction xs) (auto split: list.splits)

section \<open>Go integers\<close>

definition max_int64 :: int where "max_int64 = 2 ^ 63 - 1"

definition min_int64 :: int where "min_int64 = - (2 ^ 63)"

text \<open>Signed 64-bit wrap-around, as Go defines it for \<open>+\<close>, \<open>-\<close>, \<open>*\<close> and \<open><<\<close>.\<close>

definition wrap64 :: "int \<Rightarrow> int" where
  "wrap64 x = (x + 2 ^ 63) mod 2 ^ 64 - 2 ^ 63"

lemma wrap64_range: "min_int64 \<le> wrap64 x" "wrap64 x \<le> max_int64"
  using pos_mod_bound [of "2 ^ 64 :: int" "x + 2 ^ 63"]
    pos_mod_sign [of "2 ^ 64 :: int" "x + 2 ^ 63"]
  by (auto simp: wrap64_def min_int64_def max_int64_def)

lemma wrap64_id: "min_int64 \<le> x \<Longrightarrow> x \<le> max_int64 \<Longrightarrow> wrap64 x = x"
  by (simp add: wrap64_def min_int64_def max_int64_def mod_pos_pos_trivial)

section \<open>Go times\<close>

text \<open>A \<open>time.Time\<close> is a number of nanoseconds since Go's zero time, so the zero value is 0; a
  \<open>time.Duration\<close> is a 64-bit number of nanoseconds. \<open>t.Sub(u)\<close> saturates at the ends of
  the duration range.\<close>

type_synonym gotime = int

definition Second :: int where "Second = 1000000000"
definition Minute :: int where "Minute = 60 * Second"
definition Hour :: int where "Hour = 60 * Minute"

definition time_Sub :: "gotime \<Rightarrow> gotime \<Rightarrow> int" where
  "time_Sub t u = max min_int64 (min max_int64 (t - u))"

lemma time_Sub_ge:
  "d \<le> max_int64 \<Longrightarrow> min_int64 < d \<Longrightarrow> d \<le> time_Sub t u \<longleftrightarrow> d \<le> t - u"
  by (auto simp: time_Sub_def)

section \<open>Decimal numbers\<close>

definition isDigit :: "char \<Rightarrow> bool" where
  "isDigit c = (CHR ''0'' \<le> c \<and> c \<le> CHR ''9'')"

definition digit_char :: "nat \<Rightarrow> char" where
  "digit_char d = char_of (48 + d)"

definition backslash :: char where "backslash = CHR 0x5C"

text \<open>The verb \<open>%q\<close> on text of printable runes and ASCII control characters.\<close>

definition hex_digit :: "nat \<Rightarrow> char" where
  "hex_digit n = (if n < 10 then digit_char n else char_of (n + 87))"

definition quote_rune :: "char \<Rightarrow> string" where
  "quote_rune c = (let n = of_char c :: nat in
     if c = CHR 0x22 then [backslash, c] else if c = backslash then [backslash, backslash]
     else if n = 7 then backslash # ''a'' else if n = 8 then backslash # ''b'' else if n = 12 then backslash # ''f''
     else if n = 10 then backslash # ''n'' else if n = 13 then backslash # ''r'' else if n = 9 then backslash # ''t''
     else if n = 11 then backslash # ''v''
     else if n < 32 \<or> n = 127 then backslash # CHR ''x'' # [hex_digit (n div 16), hex_digit (n mod 16)]
     else [c])"

definition go_quote :: "string \<Rightarrow> string" where
  "go_quote s = [CHR 0x22] @ concat (map quote_rune s) @ [CHR 0x22]"

definition digit_val :: "char \<Rightarrow> nat" where
  "digit_val c = of_char c - 48"

text \<open>\<open>strconv.Itoa\<close> on a non-negative number.\<close>

fun itoa :: "nat \<Rightarrow> string" where
  "itoa n = (if n < 10 then [digit_char n] else itoa (n div 10) @ [digit_char (n mod 10)])"

declare itoa.simps [simp del]

definition itoa_int :: "int \<Rightarrow> string" where
  "itoa_int i = (if i < 0 then CHR ''-'' # itoa (nat (- i)) else itoa (nat i))"

definition digits_val :: "string \<Rightarrow> nat" where
  "digits_val s = foldl (\<lambda>n c. 10 * n + digit_val c) 0 s"

text \<open>\<open>strconv.Atoi\<close> on an unsigned numeral: a non-digit, the empty string or a
  value above the largest \<open>int\<close> is an error. (The lexer's number tokens carry no
  sign.)\<close>

definition atoi :: "string \<Rightarrow> nat option" where
  "atoi s = (if s \<noteq> [] \<and> list_all isDigit s \<and> int (digits_val s) \<le> max_int64
             then Some (digits_val s) else None)"

lemma isDigit_iff: "isDigit c \<longleftrightarrow> 48 \<le> (of_char c :: nat) \<and> (of_char c :: nat) \<le> 57"
  by (simp add: isDigit_def less_eq_char_def)

lemma isDigit_digit_char [simp]: "d < 10 \<Longrightarrow> isDigit (digit_char d)"
  by (simp add: isDigit_iff digit_char_def)

lemma digit_val_digit_char [simp]: "d < 10 \<Longrightarrow> digit_val (digit_char d) = d"
  by (simp add: digit_val_def digit_char_def)

lemma digits_val_snoc [simp]: "digits_val (s @ [c]) = 10 * digits_val s + digit_val c"
  by (simp add: digits_val_def)

lemma itoa_digits [simp]: "list_all isDigit (itoa n)"
  by (induction n rule: itoa.induct) (subst itoa.simps, simp)

lemma itoa_nonempty [simp]: "itoa n \<noteq> []"
  by (subst itoa.simps) simp

lemma digits_val_itoa [simp]: "digits_val (itoa n) = n"
proof (induction n rule: itoa.induct)
  case (1 n)
  then show ?case
    by (subst itoa.simps) (simp add: digits_val_def [of "[_]"])
qed

lemma atoi_itoa: "int n \<le> max_int64 \<Longrightarrow> atoi (itoa n) = Some n"
  by (simp add: atoi_def)

lemma atoi_bound: "atoi s = Some n \<Longrightarrow> int n \<le> max_int64"
  by (auto simp: atoi_def split: if_splits)

lemma itoa_inj: "itoa m = itoa n \<Longrightarrow> m = n"
  by (metis digits_val_itoa)

section \<open>White space\<close>

text \<open>\<open>unicode.IsSpace\<close> on the Latin-1 range and \<open>strings.TrimSpace\<close>.\<close>

definition isUniSpace :: "char \<Rightarrow> bool" where
  "isUniSpace c = (let n = (of_char c :: nat) in (9 \<le> n \<and> n \<le> 13) \<or> n = 32 \<or> n = 133 \<or> n = 160)"

definition TrimSpace :: "string \<Rightarrow> string" where
  "TrimSpace s = rev (dropWhile isUniSpace (rev (dropWhile isUniSpace s)))"

section \<open>List lookups\<close>

lemma find_append: "find P (xs @ ys) = (case find P xs of None \<Rightarrow> find P ys | Some x \<Rightarrow> Some x)"
  by (induction xs) simp_all

lemma find_SomeD: "find P xs = Some x \<Longrightarrow> x \<in> set xs \<and> P x"
  by (induction xs) (auto split: if_splits)

lemma find_only:
  assumes "q \<in> set xs" "P q" "\<And>x. x \<in> set xs \<Longrightarrow> P x \<Longrightarrow> x = q"
  shows "find P xs = Some q"
proof (cases "find P xs")
  case None
  then show ?thesis using assms(1,2) by (auto simp: find_None_iff)
next
  case (Some x)
  then show ?thesis using assms(3) find_SomeD [OF Some] by blast
qed

lemma find_map_hit:
  assumes "\<And>x. hit (upd x) = hit x"
  shows "find hit (map (\<lambda>x. if hit x then upd x else x) xs) = map_option upd (find hit xs)"
  by (induction xs) (simp_all add: assms)

lemma filter_head:
  assumes "filter P xs = y # ys"
  shows "y \<in> set xs \<and> P y"
proof -
  have "y \<in> set (filter P xs)" unfolding assms by simp
  then show ?thesis by simp
qed

section \<open>Column types\<close>

text \<open>The range of a Postgres \<open>INT\<close> column.\<close>

definition int4 :: "int \<Rightarrow> bool" where
  "int4 x = (- (2 ^ 31) \<le> x \<and> x < 2 ^ 31)"

end
