(* ===== verification/Lexer.thy ===== *)
theory Lexer
  imports Prelude
begin

text \<open>
  The tokenizer of the pipe-syntax query language
  (\<open>api/internal/querylang/lexer/lexer.go\<close>): the token kinds, the cursor over the
  rune slice, and \<open>Next\<close> with its three scanners. The lemmas describe each
  operation by the unread input \<open>rest\<close>, show that every call makes progress, and
  that the tokens of a rendered token list are read back one by one.
\<close>

datatype kind =
    EOF | Illegal | Ident | String | Number | Pipe | Eq | Neq | Gt | Gte | Lt | Lte
  | Colon | Comma | LParen | RParen | Minus | Plus | Star

record token =
  Kind :: kind
  Value :: string
  Pos :: nat

record lexer =
  l_input :: string
  l_pos :: nat

definition kind_String :: "kind \<Rightarrow> string" where
  "kind_String k = (case k of
      EOF \<Rightarrow> ''EOF'' | Illegal \<Rightarrow> ''ILLEGAL'' | Ident \<Rightarrow> ''IDENT'' | String \<Rightarrow> ''STRING''
    | Number \<Rightarrow> ''NUMBER'' | Pipe \<Rightarrow> ''PIPE'' | Eq \<Rightarrow> ''EQ'' | Neq \<Rightarrow> ''NEQ'' | Gt \<Rightarrow> ''GT''
    | Gte \<Rightarrow> ''GTE'' | Lt \<Rightarrow> ''LT'' | Lte \<Rightarrow> ''LTE'' | Colon \<Rightarrow> ''COLON'' | Comma \<Rightarrow> ''COMMA''
    | LParen \<Rightarrow> ''LPAREN'' | RParen \<Rightarrow> ''RPAREN'' | Minus \<Rightarrow> ''MINUS'' | Plus \<Rightarrow> ''PLUS''
    | Star \<Rightarrow> ''STAR'')"

definition Token :: "kind \<Rightarrow> string \<Rightarrow> nat \<Rightarrow> token" where
  "Token k v p = \<lparr>Kind = k, Value = v, Pos = p\<rparr>"

definition New :: "string \<Rightarrow> lexer" where
  "New inp = \<lparr>l_input = inp, l_pos = 0\<rparr>"

definition isIdentStart :: "char \<Rightarrow> bool" where
  "isIdentStart c = (c = CHR ''_'' \<or> (CHR ''a'' \<le> c \<and> c \<le> CHR ''z'')
                                 \<or> (CHR ''A'' \<le> c \<and> c \<le> CHR ''Z''))"

definition isIdentPart :: "char \<Rightarrow> bool" where
  "isIdentPart c = (isIdentStart c \<or> isDigit c \<or> c = CHR ''.'' \<or> c = CHR ''_'' \<or> c = CHR ''-'')"

definition isSpace :: "char \<Rightarrow> bool" where
  "isSpace c = (c = CHR '' '' \<or> c = CHR 0x09 \<or> c = CHR 0x0A \<or> c = CHR 0x0D)"

definition skipWhitespace :: "lexer \<Rightarrow> lexer" where
  "skipWhitespace l = l\<lparr>l_pos := scanWhile isSpace (l_input l) (l_pos l)\<rparr>"

text \<open>\<open>peek\<close> answers the zero rune past the end of the input.\<close>

definition peek :: "lexer \<Rightarrow> nat \<Rightarrow> char" where
  "peek l offset = (let p = l_pos l + offset in
     if p \<ge> length (l_input l) then CHR 0x00 else l_input l ! p)"

text \<open>The loop of \<open>lexString\<close>; the Boolean says whether the closing quote was seen.\<close>

function lexString_loop :: "string \<Rightarrow> nat \<Rightarrow> string \<Rightarrow> bool \<times> string \<times> nat" where
  "lexString_loop s p sb =
    (if p < length s then
       (let c = s ! p in
        if c = CHR 0x22 then (True, sb, Suc p)
        else if c = CHR 0x5C \<and> Suc p < length s
        then lexString_loop s (Suc (Suc p)) (sb @ [s ! Suc p])
        else lexString_loop s (Suc p) (sb @ [c]))
     else (False, sb, p))"
  by pat_completeness auto
termination by (relation "measure (\<lambda>(s, p, sb). length s - p)") auto

declare lexString_loop.simps [simp del]

definition lexString :: "lexer \<Rightarrow> token \<times> lexer" where
  "lexString l = (let start = l_pos l in
     case lexString_loop (l_input l) (Suc start) [] of (closed, sb, p) \<Rightarrow>
       (Token (if closed then String else Illegal) sb start, l\<lparr>l_pos := p\<rparr>))"

definition lexNumber :: "lexer \<Rightarrow> token \<times> lexer" where
  "lexNumber l = (let s = l_input l; start = l_pos l; p = scanWhile isDigit s start;
     q = (if p < length s \<and> s ! p = CHR ''.'' \<and> p + 1 < length s \<and> isDigit (s ! (p + 1))
          then scanWhile isDigit s (p + 1) else p)
   in (Token Number (slice s start q) start, l\<lparr>l_pos := q\<rparr>))"

definition lexIdent :: "lexer \<Rightarrow> token \<times> lexer" where
  "lexIdent l = (let s = l_input l; start = l_pos l; p = scanWhile isIdentPart s start
   in (Token Ident (slice s start p) start, l\<lparr>l_pos := p\<rparr>))"

definition emit :: "lexer \<Rightarrow> kind \<Rightarrow> string \<Rightarrow> token \<times> lexer" where
  "emit l k v = (Token k v (l_pos l), l\<lparr>l_pos := l_pos l + length v\<rparr>)"

definition Next :: "lexer \<Rightarrow> token \<times> lexer" where
  "Next l0 = (let l = skipWhitespace l0 in
     if l_pos l \<ge> length (l_input l) then (Token EOF [] (l_pos l), l)
     else let c = l_input l ! l_pos l in
       if c = CHR ''|'' then emit l Pipe ''|''
       else if c = CHR ''='' then emit l Eq ''=''
       else if c = CHR ''!'' \<and> peek l 1 = CHR ''='' then emit l Neq ''!=''
       else if c = CHR ''>'' \<and> peek l 1 = CHR ''='' then emit l Gte ''>=''
       else if c = CHR ''>'' then emit l Gt ''>''
       else if c = CHR ''<'' \<and> peek l 1 = CHR ''='' then emit l Lte ''<=''
       else if c = CHR ''<'' then emit l Lt ''<''
       else if c = CHR '':'' then emit l Colon '':''
       else if c = CHR '','' then emit l Comma '',''
       else if c = CHR ''('' then emit l LParen ''(''
       else if c = CHR '')'' then emit l RParen '')''
       else if c = CHR ''-'' then emit l Minus ''-''
       else if c = CHR ''+'' then emit l Plus ''+''
       else if c = CHR ''*'' then emit l Star ''*''
       else if c = CHR 0x22 then lexString l
       else if isDigit c then lexNumber l
       else if isIdentStart c then lexIdent l
       else emit l Illegal [c])"


section \<open>Progress\<close>

text \<open>What a pull-based token source promises its client: a call never grows the
  unread input, and a call that returns a token other than \<open>EOF\<close> shrinks it.\<close>

locale token_source =
  fixes pull :: "'s \<Rightarrow> token \<times> 's"
    and unread :: "'s \<Rightarrow> nat"
  assumes pull_le: "pull s = (t, s') \<Longrightarrow> unread s' \<le> unread s"
    and pull_less: "pull s = (t, s') \<Longrightarrow> Kind t \<noteq> EOF \<Longrightarrow> unread s' < unread s"
begin

text \<open>The measure of a client that keeps \<open>cur\<close> and one token of lookahead.\<close>

definition lookahead_size :: "token \<Rightarrow> token \<Rightarrow> 's \<Rightarrow> nat" where
  "lookahead_size cur nxt s =
     (if Kind cur = EOF then 0 else 1) + (if Kind nxt = EOF then 0 else 1) + unread s"

lemma lookahead_le:
  assumes "pull s = (t, s')"
  shows "lookahead_size nxt t s' \<le> lookahead_size cur nxt s"
  using pull_le [OF assms] pull_less [OF assms] by (auto simp: lookahead_size_def)

lemma lookahead_less:
  assumes "pull s = (t, s')" and "Kind cur \<noteq> EOF"
  shows "lookahead_size nxt t s' < lookahead_size cur nxt s"
  using assms pull_le [OF assms(1)] pull_less [OF assms(1)] by (auto simp: lookahead_size_def)

lemma reaches_eof:
  "\<exists>n \<le> unread s. Kind (fst (pull (((\<lambda>x. snd (pull x)) ^^ n) s))) = EOF"
proof (induction "unread s" arbitrary: s rule: less_induct)
  case less
  show ?case
  proof (cases "Kind (fst (pull s)) = EOF")
    case True
    then show ?thesis by (intro exI [of _ 0]) simp
  next
    case False
    obtain t s' where ts: "pull s = (t, s')" by fastforce
    with False pull_less have lt: "unread s' < unread s" by simp
    then obtain n where "n \<le> unread s'"
      "Kind (fst (pull (((\<lambda>x. snd (pull x)) ^^ n) s'))) = EOF"
      using less by blast
    with ts lt show ?thesis
      by (intro exI [of _ "Suc n"]) (simp add: funpow_swap1 [symmetric] funpow_Suc_right del: funpow.simps)
  qed
qed

end

definition rest :: "lexer \<Rightarrow> string" where
  "rest l = drop (l_pos l) (l_input l)"

definition unread_runes :: "lexer \<Rightarrow> nat" where
  "unread_runes l = length (rest l)"

lemma Token_sel [simp]:
  "Kind (Token k v p) = k" "Value (Token k v p) = v" "Pos (Token k v p) = p"
  by (simp_all add: Token_def)

lemma rest_New [simp]: "rest (New s) = s"
  by (simp add: rest_def New_def)

lemma rest_skipWhitespace: "rest (skipWhitespace l) = dropWhile isSpace (rest l)"
  by (simp add: rest_def skipWhitespace_def drop_scanWhile)

lemma lexString_loop_pos:
  "lexString_loop s p sb = (b, v, p') \<Longrightarrow> p \<le> length s \<Longrightarrow> p \<le> p' \<and> p' \<le> length s"
proof (induction s p sb arbitrary: b v p' rule: lexString_loop.induct)
  case (1 s p sb)
  from 1(3) show ?case
    using 1(1,2,4)
    by (subst (asm) lexString_loop.simps) (fastforce simp: Let_def split: if_splits)
qed

text \<open>The effect of one call on the cursor.\<close>

definition advances :: "lexer \<Rightarrow> token \<times> lexer \<Rightarrow> bool" where
  "advances l r = (l_input (snd r) = l_input l \<and> l_pos l < l_pos (snd r)
     \<and> l_pos (snd r) \<le> length (l_input l) \<and> Pos (fst r) = l_pos l)"

lemma advances_emit:
  "l_pos l + length v \<le> length (l_input l) \<Longrightarrow> v \<noteq> [] \<Longrightarrow> advances l (emit l k v)"
  by (simp add: advances_def emit_def)

lemma advances_lexString:
  assumes "l_pos l < length (l_input l)"
  shows "advances l (lexString l)"
proof -
  obtain b v p where "lexString_loop (l_input l) (Suc (l_pos l)) [] = (b, v, p)"
    by (metis prod_cases3)
  moreover from lexString_loop_pos [OF this] assms
  have "Suc (l_pos l) \<le> p \<and> p \<le> length (l_input l)" by simp
  ultimately show ?thesis by (simp add: advances_def lexString_def)
qed

lemma scanWhile_first:
  "p < length s \<Longrightarrow> P (s ! p) \<Longrightarrow> p < scanWhile P s p"
  using scanWhile_ge [of "Suc p" P s] by (subst scanWhile.simps) simp

lemma advances_lexNumber:
  assumes "l_pos l < length (l_input l)" "isDigit (l_input l ! l_pos l)"
  shows "advances l (lexNumber l)"
proof -
  let ?s = "l_input l" and ?p = "scanWhile isDigit (l_input l) (l_pos l)"
  have "l_pos l < ?p" "?p \<le> length ?s"
    using assms scanWhile_le_length [of "l_pos l" ?s isDigit] by (auto intro: scanWhile_first)
  moreover have "?p < length ?s \<Longrightarrow> ?p < scanWhile isDigit ?s (?p + 1)
      \<and> scanWhile isDigit ?s (?p + 1) \<le> length ?s"
    using scanWhile_ge [of "?p + 1" isDigit ?s] scanWhile_le_length [of "?p + 1" ?s isDigit]
    by simp
  ultimately show ?thesis
    by (auto simp: advances_def lexNumber_def Let_def)
qed

lemma advances_lexIdent:
  assumes "l_pos l < length (l_input l)" "isIdentStart (l_input l ! l_pos l)"
  shows "advances l (lexIdent l)"
  using assms scanWhile_first [of "l_pos l" "l_input l" isIdentPart]
    scanWhile_le_length [of "l_pos l" "l_input l" isIdentPart]
  by (simp add: advances_def lexIdent_def Let_def isIdentPart_def)

lemma peek1_bound: "peek l 1 = c \<Longrightarrow> c \<noteq> CHR 0x00 \<Longrightarrow> Suc (l_pos l) < length (l_input l)"
  by (auto simp: peek_def Let_def split: if_splits)

lemma skipWhitespace_pos:
  "l_pos l \<le> l_pos (skipWhitespace l)" "l_input (skipWhitespace l) = l_input l"
  by (simp_all add: skipWhitespace_def scanWhile_ge)

lemma Next_cases:
  "Next l = (Token EOF [] (l_pos (skipWhitespace l)), skipWhitespace l)
     \<and> length (l_input l) \<le> l_pos (skipWhitespace l)
   \<or> advances (skipWhitespace l) (Next l) \<and> Kind (fst (Next l)) \<noteq> EOF"
proof (cases "length (l_input l) \<le> l_pos (skipWhitespace l)")
  case True
  then show ?thesis by (simp add: Next_def Let_def skipWhitespace_pos)
next
  case False
  define m where "m = skipWhitespace l"
  define c where "c = l_input m ! l_pos m"
  from False have lt: "l_pos m < length (l_input m)"
    by (simp add: m_def skipWhitespace_pos)
  have two: "advances m (emit m k [x, y])" if "peek m (Suc 0) = CHR ''=''" for k x y
    using peek1_bound [of m "CHR ''=''"] that by (intro advances_emit) auto
  have kinds: "Kind (fst (emit m k v)) = k" "Kind (fst (lexString m)) \<noteq> EOF"
    "Kind (fst (lexNumber m)) \<noteq> EOF" "Kind (fst (lexIdent m)) \<noteq> EOF" for k v
    by (simp_all add: emit_def lexString_def lexNumber_def lexIdent_def Let_def split: prod.splits)
  have "advances m (Next l) \<and> Kind (fst (Next l)) \<noteq> EOF"
    using lt two advances_lexString [OF lt] advances_lexNumber [OF lt] advances_lexIdent [OF lt]
    unfolding Next_def Let_def m_def [symmetric] c_def [symmetric]
    by (simp add: kinds advances_emit)
  then show ?thesis by (simp add: m_def)
qed

lemma Next_unread:
  assumes "Next l = (t, l')"
  shows "unread_runes l' \<le> unread_runes l"
    "Kind t \<noteq> EOF \<Longrightarrow> unread_runes l' < unread_runes l"
  using Next_cases [of l] assms skipWhitespace_pos [of l]
  by (auto simp: unread_runes_def rest_def advances_def)

interpretation lex: token_source Next unread_runes
  using Next_unread by unfold_locales blast+


section \<open>Rendering tokens and reading them back\<close>

text \<open>A quoted string escapes the quote and the backslash; every other token is its
  own text. \<open>wf_token\<close> says which texts a kind may carry.\<close>

definition escape :: "string \<Rightarrow> string" where
  "escape v = concat (map (\<lambda>c. if c = CHR 0x22 \<or> c = CHR 0x5C then [CHR 0x5C, c] else [c]) v)"

definition wf_ident :: "string \<Rightarrow> bool" where
  "wf_ident v = (v \<noteq> [] \<and> isIdentStart (hd v) \<and> list_all isIdentPart v)"

definition wf_number :: "string \<Rightarrow> bool" where
  "wf_number v = (takeWhile isDigit v \<noteq> [] \<and>
     (case dropWhile isDigit v of [] \<Rightarrow> True
      | c # ds \<Rightarrow> c = CHR ''.'' \<and> ds \<noteq> [] \<and> list_all isDigit ds))"

definition symbol_text :: "kind \<Rightarrow> string option" where
  "symbol_text k = (case k of Pipe \<Rightarrow> Some ''|'' | Eq \<Rightarrow> Some ''='' | Neq \<Rightarrow> Some ''!=''
     | Gt \<Rightarrow> Some ''>'' | Gte \<Rightarrow> Some ''>='' | Lt \<Rightarrow> Some ''<'' | Lte \<Rightarrow> Some ''<=''
     | Colon \<Rightarrow> Some '':'' | Comma \<Rightarrow> Some '','' | LParen \<Rightarrow> Some ''('' | RParen \<Rightarrow> Some '')''
     | Minus \<Rightarrow> Some ''-'' | Plus \<Rightarrow> Some ''+'' | Star \<Rightarrow> Some ''*'' | _ \<Rightarrow> None)"

definition wf_token :: "kind \<Rightarrow> string \<Rightarrow> bool" where
  "wf_token k v = (case k of EOF \<Rightarrow> False | Illegal \<Rightarrow> False | Ident \<Rightarrow> wf_ident v
     | String \<Rightarrow> True | Number \<Rightarrow> wf_number v | _ \<Rightarrow> symbol_text k = Some v)"

definition token_text :: "kind \<Rightarrow> string \<Rightarrow> string" where
  "token_text k v = (if k = String then CHR 0x22 # escape v @ [CHR 0x22] else v)"

fun render :: "(kind \<times> string) list \<Rightarrow> string" where
  "render [] = []"
| "render ((k, v) # ts) = token_text k v @ CHR '' '' # render ts"

lemma char_classes:
  "isDigit c \<Longrightarrow> c \<notin> set ''|=!><:,()-+*_. '' \<and> c \<noteq> CHR 0x22 \<and> \<not> isIdentStart c \<and> \<not> isSpace c"
  "isIdentStart c \<Longrightarrow> c \<notin> set ''|=!><:,()-+*. '' \<and> c \<noteq> CHR 0x22 \<and> \<not> isDigit c \<and> \<not> isSpace c"
  by (auto simp: isDigit_def isIdentStart_def isSpace_def less_eq_char_def)

lemma escape_simps [simp]:
  "escape [] = []"
  "escape (c # v) = (if c = CHR 0x22 \<or> c = CHR 0x5C then CHR 0x5C # c # escape v else c # escape v)"
  by (simp_all add: escape_def)

lemma space_classes [simp]:
  "isSpace CHR '' ''" "\<not> isDigit CHR '' ''" "\<not> isIdentPart CHR '' ''" "\<not> isDigit CHR ''.''"
  "\<not> isSpace CHR 0x22"
  by (auto simp: isSpace_def isDigit_def isIdentPart_def isIdentStart_def)

lemma lexString_loop_escape:
  "drop p s = escape v @ CHR 0x22 # r \<Longrightarrow>
   lexString_loop s p sb = (True, sb @ v, p + length (escape v) + 1)"
proof (induction v arbitrary: p sb)
  case Nil
  then show ?case
    by (subst lexString_loop.simps) (auto dest: drop_eq_ConsD)
next
  case (Cons c v)
  show ?case
  proof (cases "c = CHR 0x22 \<or> c = CHR 0x5C")
    case True
    with Cons.prems have d: "drop p s = CHR 0x5C # c # escape v @ CHR 0x22 # r"
      by auto
    note d1 = drop_eq_ConsD [OF d]
    note d2 = drop_eq_ConsD [OF d1(3)]
    show ?thesis
      using d1 d2 Cons.IH [OF d2(3)] True
      by (subst lexString_loop.simps) (auto simp: Let_def)
  next
    case False
    with Cons.prems have d: "drop p s = c # escape v @ CHR 0x22 # r"
      by auto
    note d1 = drop_eq_ConsD [OF d]
    show ?thesis
      using d1 Cons.IH [OF d1(3)] False
      by (subst lexString_loop.simps) (auto simp: Let_def)
  qed
qed

lemma lexString_token:
  assumes "rest l = token_text String v @ r"
  shows "\<exists>l'. lexString l = (Token String v (l_pos l), l') \<and> rest l' = r"
proof -
  from assms have d: "drop (l_pos l) (l_input l) = CHR 0x22 # escape v @ CHR 0x22 # r"
    by (simp add: rest_def token_text_def)
  note d1 = drop_eq_ConsD [OF d]
  have "drop (Suc (Suc (l_pos l + length (escape v)))) (l_input l)
      = drop (length (escape v) + 1) (drop (Suc (l_pos l)) (l_input l))"
    by (simp add: add.commute)
  also have "\<dots> = r" using d1(3) by simp
  finally show ?thesis
    using lexString_loop_escape [OF d1(3), of "[]"]
    by (simp add: lexString_def rest_def Let_def)
qed

lemma lexIdent_token:
  assumes "rest l = v @ CHR '' '' # r" "wf_ident v"
  shows "\<exists>l'. lexIdent l = (Token Ident v (l_pos l), l') \<and> rest l' = CHR '' '' # r"
  using takeWhile_all_append [of isIdentPart v "CHR '' '' # r"] assms
  by (simp add: lexIdent_def Let_def rest_def slice_scanWhile drop_scanWhile wf_ident_def)

lemma lexNumber_token:
  assumes "rest l = v @ CHR '' '' # r" "wf_number v"
  shows "\<exists>l'. lexNumber l = (Token Number v (l_pos l), l') \<and> rest l' = CHR '' '' # r"
proof -
  let ?s = "l_input l" and ?a = "l_pos l"
  let ?p = "scanWhile isDigit ?s ?a"
  define ds where "ds = takeWhile isDigit v"
  have dsd: "list_all isDigit ds"
    by (metis ds_def list_all_iff set_takeWhileD)
  have d: "drop ?a ?s = v @ CHR '' '' # r" using assms by (simp add: rest_def)
  show ?thesis
  proof (cases "dropWhile isDigit v")
    case Nil
    then have "list_all isDigit v"
      by (simp add: list_all_iff dropWhile_eq_Nil_conv)
    with takeWhile_all_append [of isDigit v "CHR '' '' # r"] d
    have "slice ?s ?a ?p = v" "drop ?p ?s = CHR '' '' # r"
      by (simp_all add: slice_scanWhile drop_scanWhile)
    moreover from drop_eq_ConsD [OF this(2)] have "?s ! ?p \<noteq> CHR ''.''" by simp
    ultimately show ?thesis by (simp add: lexNumber_def Let_def rest_def)
  next
    case (Cons c fs)
    with assms(2) have c: "c = CHR ''.''" and fs: "fs \<noteq> []" "list_all isDigit fs"
      by (auto simp: wf_number_def)
    have v: "v = ds @ CHR ''.'' # fs"
      using takeWhile_dropWhile_id [of isDigit v] Cons c by (simp add: ds_def)
    have "drop ?p ?s = CHR ''.'' # fs @ CHR '' '' # r"
      using takeWhile_all_append [OF dsd, of "CHR ''.'' # fs @ CHR '' '' # r"] d v
      by (simp add: drop_scanWhile)
    note e = drop_eq_ConsD [OF this]
    from fs obtain f fs' where f: "fs = f # fs'" "isDigit f" by (cases fs) auto
    note e' = drop_eq_ConsD [OF e(3) [unfolded f, simplified]]
    let ?q = "scanWhile isDigit ?s (Suc ?p)"
    have dq: "drop ?q ?s = CHR '' '' # r"
      using takeWhile_all_append [OF fs(2), of "CHR '' '' # r"] e(3) by (simp add: drop_scanWhile)
    have "?q = ?a + length v"
      using takeWhile_all_append [OF fs(2), of "CHR '' '' # r"] e(3)
        takeWhile_all_append [OF dsd, of "CHR ''.'' # fs @ CHR '' '' # r"] d v
      by (simp add: scanWhile_takeWhile)
    then have "slice ?s ?a ?q = v" using d by (simp add: slice_def)
    with e e' f dq show ?thesis by (simp add: lexNumber_def Let_def rest_def)
  qed
qed

lemma emit_rest:
  assumes "rest l = v @ r"
  shows "\<exists>l'. emit l k v = (Token k v (l_pos l), l') \<and> rest l' = r"
proof -
  have "drop (l_pos l + length v) (l_input l) = drop (length v) (rest l)"
    by (simp add: rest_def add.commute)
  with assms show ?thesis by (simp add: emit_def rest_def)
qed

lemma peek_rest: "rest l = c # d # r \<Longrightarrow> peek l 1 = d"
  using drop_eq_ConsD [of "l_pos l" "l_input l" c "d # r"]
    drop_eq_ConsD [of "Suc (l_pos l)" "l_input l" d r]
  by (simp add: rest_def peek_def)

lemma Next_nonempty:
  assumes "rest (skipWhitespace l) = c # xs"
  shows "l_pos (skipWhitespace l) < length (l_input (skipWhitespace l))"
    "l_input (skipWhitespace l) ! l_pos (skipWhitespace l) = c"
  using drop_eq_ConsD [of _ _ c xs] assms by (simp_all add: rest_def)

lemma peek_after:
  "rest l = c # vs @ d # r \<Longrightarrow> peek l (Suc 0) = (case vs of [] \<Rightarrow> d | x # _ \<Rightarrow> x)"
  using peek_rest [of l c] by (cases vs) auto

lemma Next_symbol:
  assumes "rest (skipWhitespace l) = v @ CHR '' '' # r" "symbol_text k = Some v"
  shows "Next l = emit (skipWhitespace l) k v"
proof -
  define m where "m = skipWhitespace l"
  from assms(2) obtain c vs where v: "v = c # vs"
    by (auto simp: symbol_text_def split: kind.splits)
  then have rm: "rest m = c # vs @ CHR '' '' # r" using assms m_def by simp
  have m: "\<not> length (l_input m) \<le> l_pos m" "l_input m ! l_pos m = c"
    using Next_nonempty [OF rm [unfolded m_def]] by (simp_all add: m_def)
  note p1 = peek_after [OF rm]
  have "Some (c # vs) = symbol_text k" using assms(2) v by simp
  then show ?thesis
    unfolding Next_def Let_def m_def [symmetric] v m(2)
    by (cases k; simp add: symbol_text_def m p1)
qed

lemma Next_literal:
  assumes "rest (skipWhitespace l) = c # xs"
  shows "c = CHR 0x22 \<Longrightarrow> Next l = lexString (skipWhitespace l)"
    "isDigit c \<Longrightarrow> Next l = lexNumber (skipWhitespace l)"
    "isIdentStart c \<Longrightarrow> Next l = lexIdent (skipWhitespace l)"
  using Next_nonempty [OF assms] char_classes [of c]
  by (auto simp: Next_def Let_def)

lemma wf_number_Cons: "wf_number v \<Longrightarrow> \<exists>d ds. v = d # ds \<and> isDigit d"
  by (cases v) (auto simp: wf_number_def split: if_splits)

lemma Next_token:
  assumes "dropWhile isSpace (rest l) = token_text k v @ CHR '' '' # r" "wf_token k v"
  shows "\<exists>p l'. Next l = (Token k v p, l') \<and> rest l' = CHR '' '' # r"
proof -
  let ?m = "skipWhitespace l"
  have rm: "rest ?m = token_text k v @ CHR '' '' # r"
    using assms(1) by (simp add: rest_skipWhitespace)
  consider "k = String" | "k = Ident" | "k = Number" | "symbol_text k = Some v" "k \<noteq> String"
    using assms(2) by (cases k) (auto simp: wf_token_def symbol_text_def)
  then show ?thesis
  proof cases
    case 1
    with rm have "Next l = lexString ?m"
      by (intro Next_literal) (auto simp: token_text_def)
    with lexString_token rm 1 show ?thesis by metis
  next
    case 2
    with assms(2) have w: "wf_ident v" by (simp add: wf_token_def)
    then obtain c cs where "v = c # cs" "isIdentStart c"
      by (cases v) (auto simp: wf_ident_def)
    with rm 2 have "Next l = lexIdent ?m"
      by (intro Next_literal(3) [of l c]) (auto simp: token_text_def)
    with lexIdent_token [of ?m v r] rm 2 w show ?thesis by (auto simp: token_text_def)
  next
    case 3
    with assms(2) have w: "wf_number v" by (simp add: wf_token_def)
    then obtain c cs where "v = c # cs" "isDigit c" using wf_number_Cons by blast
    with rm 3 have "Next l = lexNumber ?m"
      by (intro Next_literal(2) [of l c]) (auto simp: token_text_def)
    with lexNumber_token [of ?m v r] rm 3 w show ?thesis by (auto simp: token_text_def)
  next
    case 4
    with rm have r4: "rest ?m = v @ CHR '' '' # r" by (simp add: token_text_def)
    with Next_symbol [OF r4 4(1)] emit_rest [OF r4] show ?thesis by metis
  qed
qed

lemma token_text_no_space:
  assumes "wf_token k v"
  shows "\<exists>c cs. token_text k v = c # cs \<and> \<not> isSpace c"
  using assms char_classes wf_number_Cons [of v]
  by (cases k; cases v)
     (auto simp: wf_token_def symbol_text_def token_text_def wf_ident_def isSpace_def)

lemma render_no_space:
  "list_all (\<lambda>(k, v). wf_token k v) ts \<Longrightarrow> dropWhile isSpace (render ts) = render ts"
  by (cases ts) (auto dest!: token_text_no_space)

lemma Next_blank:
  assumes "dropWhile isSpace (rest l) = []"
  shows "\<exists>p l'. Next l = (Token EOF [] p, l') \<and> rest l' = []"
proof -
  from assms have "rest (skipWhitespace l) = []" by (simp add: rest_skipWhitespace)
  then show ?thesis by (auto simp: Next_def Let_def rest_def)
qed

section \<open>Shape of the tokens\<close>

lemma takeWhile_list_all: "list_all P (takeWhile P xs)"
  by (metis list_all_iff set_takeWhileD)

lemma lexIdent_wf:
  assumes "rest l = c # xs" "isIdentStart c"
  shows "wf_ident (Value (fst (lexIdent l)))"
  using assms by (simp add: lexIdent_def Let_def rest_def slice_scanWhile wf_ident_def isIdentPart_def
      takeWhile_list_all)

lemma lexNumber_wf:
  assumes "rest l = c # xs" "isDigit c"
  shows "wf_number (Value (fst (lexNumber l)))"
proof -
  let ?s = "l_input l" and ?a = "l_pos l"
  let ?p = "scanWhile isDigit ?s ?a" and ?ds = "takeWhile isDigit (rest l)"
  let ?q = "scanWhile isDigit ?s (Suc ?p)" and ?fs = "takeWhile isDigit (drop (Suc ?p) ?s)"
  have ds: "slice ?s ?a ?p = ?ds" "?ds \<noteq> []" "list_all isDigit ?ds"
    using assms by (simp_all add: slice_scanWhile rest_def takeWhile_list_all)
  have wf1: "wf_number ?ds"
  proof -
    have "dropWhile isDigit ?ds = []" by (auto dest: set_takeWhileD)
    with ds(2) show ?thesis by (simp add: wf_number_def del: dropWhile_eq_Nil_conv)
  qed
  have wf2: "wf_number (?ds @ CHR ''.'' # ?fs)" if "?fs \<noteq> []"
    using ds that takeWhile_all_append [of isDigit ?ds "CHR ''.'' # ?fs"]
    by (simp add: wf_number_def takeWhile_list_all)
  have "slice ?s ?a ?q = ?ds @ CHR ''.'' # ?fs \<and> ?fs \<noteq> []"
    if c: "?p < length ?s" "?s ! ?p = CHR ''.''" "Suc ?p < length ?s" "isDigit (?s ! Suc ?p)"
  proof -
    have p: "?p = ?a + length ?ds" by (simp add: scanWhile_takeWhile rest_def)
    have "rest l = ?ds @ drop ?p ?s"
      by (simp add: drop_scanWhile rest_def)
    also have "drop ?p ?s = CHR ''.'' # drop (Suc ?p) ?s"
      using c by (metis Cons_nth_drop_Suc)
    also have "drop (Suc ?p) ?s = ?fs @ dropWhile isDigit (drop (Suc ?p) ?s)" by simp
    finally have "rest l = (?ds @ CHR ''.'' # ?fs) @ dropWhile isDigit (drop (Suc ?p) ?s)" by simp
    moreover have "?q - ?a = length (?ds @ CHR ''.'' # ?fs)"
      using p by (simp add: scanWhile_takeWhile [of _ _ "Suc _"])
    ultimately have "slice ?s ?a ?q = ?ds @ CHR ''.'' # ?fs"
      unfolding slice_def rest_def [symmetric] by (metis append_eq_conv_conj)
    moreover have "?fs \<noteq> []"
      using c by (simp add: Cons_nth_drop_Suc [symmetric])
    ultimately show ?thesis by blast
  qed
  then show ?thesis
    using wf1 wf2 ds(1) by (auto simp: lexNumber_def Let_def)
qed

lemma emit_wf:
  "symbol_text k = Some v \<Longrightarrow> wf_token (Kind (fst (emit l k v))) (Value (fst (emit l k v)))"
  by (cases k) (auto simp: emit_def wf_token_def symbol_text_def)

definition lexed_ok :: "token \<times> lexer \<Rightarrow> bool" where
  "lexed_ok r = (Kind (fst r) = EOF \<or> Kind (fst r) = Illegal
     \<or> wf_token (Kind (fst r)) (Value (fst r)))"

lemma lexed_ok_intros:
  "symbol_text k = Some v \<Longrightarrow> lexed_ok (emit l k v)"
  "lexed_ok (emit l Illegal v)"
  "lexed_ok (lexString l)"
  "rest l = c # xs \<Longrightarrow> isDigit c \<Longrightarrow> lexed_ok (lexNumber l)"
  "rest l = c # xs \<Longrightarrow> isIdentStart c \<Longrightarrow> lexed_ok (lexIdent l)"
proof -
  show "symbol_text k = Some v \<Longrightarrow> lexed_ok (emit l k v)"
    by (simp add: lexed_ok_def emit_wf)
  show "lexed_ok (emit l Illegal v)" by (simp add: lexed_ok_def emit_def)
  show "lexed_ok (lexString l)"
    by (auto simp: lexed_ok_def lexString_def wf_token_def Let_def split: prod.splits)
  have "Kind (fst (lexNumber l)) = Number" "Kind (fst (lexIdent l)) = Ident"
    by (simp_all add: lexNumber_def lexIdent_def Let_def)
  then show "rest l = c # xs \<Longrightarrow> isDigit c \<Longrightarrow> lexed_ok (lexNumber l)"
    "rest l = c # xs \<Longrightarrow> isIdentStart c \<Longrightarrow> lexed_ok (lexIdent l)"
    using lexNumber_wf [of l c xs] lexIdent_wf [of l c xs]
    by (simp_all add: lexed_ok_def wf_token_def)
qed

lemma Next_lexed_ok: "lexed_ok (Next l)"
proof (cases "rest (skipWhitespace l)")
  case Nil
  then show ?thesis
    by (simp add: lexed_ok_def Next_def Let_def rest_def)
next
  case (Cons c xs)
  define m where "m = skipWhitespace l"
  have m: "\<not> length (l_input m) \<le> l_pos m" "l_input m ! l_pos m = c"
    using Next_nonempty [OF Cons] by (simp_all add: m_def)
  show ?thesis
    using lexed_ok_intros(4,5) [OF Cons, folded m_def]
    unfolding Next_def Let_def m_def [symmetric] m(2)
    by (simp add: m(1) lexed_ok_intros(1-3) symbol_text_def)
qed

lemma Next_wf_token:
  "Next l = (t, l') \<Longrightarrow> Kind t \<noteq> EOF \<Longrightarrow> Kind t \<noteq> Illegal \<Longrightarrow> wf_token (Kind t) (Value t)"
  using Next_lexed_ok [of l] by (simp add: lexed_ok_def)

section \<open>The token stream\<close>

text \<open>All tokens up to the end of the input, as the parser pulls them.\<close>

function tokens :: "lexer \<Rightarrow> (kind \<times> string) list" where
  "tokens l = (let r = Next l in
     if Kind (fst r) = EOF then [] else (Kind (fst r), Value (fst r)) # tokens (snd r))"
  by pat_completeness auto
termination
  by (relation "measure unread_runes") (auto intro: Next_unread(2) [OF prod.collapse [symmetric]])

declare tokens.simps [simp del]

lemma tokens_render_rest:
  "dropWhile isSpace (rest l) = render ts \<Longrightarrow> list_all (\<lambda>(k, v). wf_token k v) ts \<Longrightarrow> tokens l = ts"
proof (induction ts arbitrary: l)
  case Nil
  then show ?case using Next_blank [of l] by (subst tokens.simps) (auto simp: Let_def)
next
  case (Cons kv ts)
  obtain k v where kv: "kv = (k, v)" by fastforce
  with Cons.prems obtain p l' where n: "Next l = (Token k v p, l')" "rest l' = CHR '' '' # render ts"
    using Next_token [of l k v "render ts"] by auto
  have "tokens l' = ts"
  proof (rule Cons.IH)
    show "dropWhile isSpace (rest l') = render ts"
      using n(2) Cons.prems(2) by (simp add: render_no_space)
    show "list_all (\<lambda>(k, v). wf_token k v) ts" using Cons.prems by simp
  qed
  moreover have "k \<noteq> EOF" using Cons.prems kv by (auto simp: wf_token_def)
  ultimately show ?case using n kv by (subst tokens.simps) (simp add: Let_def)
qed

section \<open>Properties\<close>

text \<open>Reading back a rendered token list: for every list of lexable tokens, lexing their
  texts separated by blanks returns exactly that list, whatever characters the quoted strings
  contain.\<close>

theorem tokens_render:
  assumes "list_all (\<lambda>(k, v). wf_token k v) ts"
  shows "tokens (New (render ts)) = ts"
  by (rule tokens_render_rest) (simp_all add: assms render_no_space)

theorem tokens_render_witness:
  "tokens (New (render [(Ident, ''host''), (Neq, ''!=''), (String, [CHR 0x22, CHR 0x5C, CHR ''a'']),
      (Pipe, ''|''), (Ident, ''head''), (Number, ''1.5'')]))
   = [(Ident, ''host''), (Neq, ''!=''), (String, [CHR 0x22, CHR 0x5C, CHR ''a'']),
      (Pipe, ''|''), (Ident, ''head''), (Number, ''1.5'')]"
  by (rule tokens_render) code_simp

text \<open>C40: Lexing ends: from the start of any input, \<open>EOF\<close> is returned after at most as many
  calls of \<open>Next\<close> as the input has runes.\<close>

theorem Next_reaches_EOF:
  "\<exists>n \<le> length s. Kind (fst (Next (((\<lambda>l. snd (Next l)) ^^ n) (New s)))) = EOF"
  using lex.reaches_eof [of "New s"] by (simp add: unread_runes_def)

end
