(* ===== verification/Ast.thy ===== *)
theory Ast
  imports Prelude
begin

text \<open>
  The parsed pipe-syntax tree (\<open>api/internal/querylang/ast/ast.go\<close>). The sealed
  interfaces \<open>PipeStage\<close> and \<open>Term\<close> are datatypes; a struct without variants is a
  record.
\<close>

record time_expr =
  Absolute :: string
  IsRelative :: bool
  RelativeSign :: int
  RelativeN :: int
  RelativeUnit :: string

datatype search_term =
    Comparison (cmp_field: string) (cmp_op: string) (cmp_value: string)
  | TimeBound (tb_kind: string) (tb_expr: time_expr)
  | FreeText (ft_query: string)

record bool_expr =
  Terms :: "search_term list"
  Conjs :: "string list"

record agg_call =
  Func :: string
  Field :: string
  Alias :: string

record sort_field =
  sf_Field :: string
  Desc :: bool

datatype pipe_stage =
    WhereStage bool_expr
  | StatsStage "agg_call list" "string list"
  | SortStage "sort_field list"
  | FieldsStage "string list"
  | HeadStage int bool
  | TailStage int bool

record ast_query =
  Base :: bool_expr
  Pipes :: "pipe_stage list"

definition zero_expr :: bool_expr where
  "zero_expr = \<lparr>Terms = [], Conjs = []\<rparr>"

definition absolute_time :: "string \<Rightarrow> time_expr" where
  "absolute_time v = \<lparr>Absolute = v, IsRelative = False, RelativeSign = 0, RelativeN = 0,
     RelativeUnit = []\<rparr>"

definition relative_time :: "int \<Rightarrow> int \<Rightarrow> string \<Rightarrow> time_expr" where
  "relative_time s n u = \<lparr>Absolute = [], IsRelative = True, RelativeSign = s, RelativeN = n,
     RelativeUnit = u\<rparr>"

end
