(* ===== verification/Parser.thy ===== *)
theory Parser
  imports Lexer Ast
begin

text \<open>
  The recursive-descent parser (\<open>api/internal/querylang/parser/parser.go\<close>): one
  definition per method, the parser state passed explicitly. A method that
  fails returns the structured error \<open>errorf\<close> builds (position and reason).
  The loops terminate because every iteration consumes a token; the section on
  consumption proves it from the \<open>token_source\<close> contract of the lexer.
\<close>

datatype reason =
    UnexpectedAfterQuery token
  | ExpectedTerm token
  | ExpectedComparator token
  | ExpectedValue token
  | ExpectedTime token
  | InvalidTimeNumber string
  | ExpectedTimeUnit nat token
  | ExpectedQuoted token
  | ExpectedStage token
  | UnknownStage string
  | ExpectedAgg token
  | UnknownAgg string
  | ExpectedAlias token
  | ExpectedSortField token
  | ExpectedField token
  | InvalidNumber string
  | Expected kind token

datatype parse_error = SyntaxError (err_pos: nat) (err_reason: reason)

record parser =
  p_lex :: lexer
  p_cur :: token
  p_next :: token

type_synonym 'a parse = "(parse_error, 'a \<times> parser) result"

definition errorf :: "parser \<Rightarrow> reason \<Rightarrow> parse_error" where
  "errorf p r = SyntaxError (Pos (p_cur p)) r"

definition advance :: "parser \<Rightarrow> parser" where
  "advance p = (let (t, l) = Next (p_lex p) in
     p\<lparr>p_cur := p_next p, p_next := t, p_lex := l\<rparr>)"

definition newParser :: "string \<Rightarrow> parser" where
  "newParser inp = (let (t, l) = Next (New inp) in
     advance \<lparr>p_lex = l, p_cur = Token EOF [] 0, p_next = t\<rparr>)"

definition expect :: "kind \<Rightarrow> parser \<Rightarrow> (parse_error, parser) result" where
  "expect k p = (if Kind (p_cur p) \<noteq> k then Inl (errorf p (Expected k (p_cur p)))
                 else Inr (advance p))"

definition isComparatorStart :: "kind \<Rightarrow> bool" where
  "isComparatorStart k = (k \<in> {Eq, Neq, Gt, Gte, Lt, Lte})"

definition isValidTimeUnit :: "string \<Rightarrow> bool" where
  "isValidTimeUnit u = (u \<in> {''s'', ''m'', ''h'', ''d'', ''w''})"

definition isValidAggFunc :: "string \<Rightarrow> bool" where
  "isValidAggFunc f = (f \<in> {''count'', ''sum'', ''avg'', ''min'', ''max''})"

definition atPipeStageKeyword :: "parser \<Rightarrow> bool" where
  "atPipeStageKeyword p = (if Kind (p_cur p) \<noteq> Ident \<or> isComparatorStart (Kind (p_next p)) then False
     else Value (p_cur p) \<in> {''where'', ''stats'', ''sort'', ''fields'', ''head'', ''tail''})"

definition canStartTerm :: "parser \<Rightarrow> bool" where
  "canStartTerm p = (Kind (p_cur p) = Ident \<or> Kind (p_cur p) = String)"

definition parseComparator :: "parser \<Rightarrow> string parse" where
  "parseComparator p = (if \<not> isComparatorStart (Kind (p_cur p))
     then Inl (errorf p (ExpectedComparator (p_cur p)))
     else Inr (Value (p_cur p), advance p))"

definition parseValue :: "parser \<Rightarrow> string parse" where
  "parseValue p = (if Kind (p_cur p) \<in> {Ident, String, Number}
     then Inr (Value (p_cur p), advance p)
     else Inl (errorf p (ExpectedValue (p_cur p))))"

definition parseComparison :: "parser \<Rightarrow> search_term parse" where
  "parseComparison p = (let field = Value (p_cur p) in
     bindE (parseComparator (advance p)) (\<lambda>(op, p).
     bindE (parseValue p) (\<lambda>(v, p). Inr (Comparison field op v, p))))"

definition parseTimeExpr :: "parser \<Rightarrow> time_expr parse" where
  "parseTimeExpr p =
    (if Kind (p_cur p) = String then Inr (absolute_time (Value (p_cur p)), advance p)
     else
       let (sign, p) = (if Kind (p_cur p) = Minus then (-1, advance p)
                        else if Kind (p_cur p) = Plus then (1, advance p) else (1, p)) in
       if Kind (p_cur p) \<noteq> Number then Inl (errorf p (ExpectedTime (p_cur p)))
       else case atoi (Value (p_cur p)) of
         None \<Rightarrow> Inl (errorf p (InvalidTimeNumber (Value (p_cur p))))
       | Some n \<Rightarrow> (let p = advance p in
           if Kind (p_cur p) \<noteq> Ident \<or> \<not> isValidTimeUnit (Value (p_cur p))
           then Inl (errorf p (ExpectedTimeUnit n (p_cur p)))
           else Inr (relative_time sign (int n) (Value (p_cur p)), advance p)))"

definition parseTimeBound :: "parser \<Rightarrow> search_term parse" where
  "parseTimeBound p = (let kind = Value (p_cur p) in
     bindE (expect Eq (advance p)) (\<lambda>p.
     bindE (parseTimeExpr p) (\<lambda>(e, p). Inr (TimeBound kind e, p))))"

definition parseExplicitFreeText :: "parser \<Rightarrow> search_term parse" where
  "parseExplicitFreeText p =
     bindE (expect Colon (advance p)) (\<lambda>p.
       if Kind (p_cur p) \<noteq> String then Inl (errorf p (ExpectedQuoted (p_cur p)))
       else Inr (FreeText (Value (p_cur p)), advance p))"

definition parseTerm :: "parser \<Rightarrow> search_term parse" where
  "parseTerm p = (case Kind (p_cur p) of
     Ident \<Rightarrow>
       (if Value (p_cur p) = ''earliest'' \<or> Value (p_cur p) = ''latest'' then parseTimeBound p
        else if Value (p_cur p) = ''message'' \<and> Kind (p_next p) = Colon then parseExplicitFreeText p
        else if isComparatorStart (Kind (p_next p)) then parseComparison p
        else Inr (FreeText (Value (p_cur p)), advance p))
   | String \<Rightarrow> Inr (FreeText (Value (p_cur p)), advance p)
   | _ \<Rightarrow> Inl (errorf p (ExpectedTerm (p_cur p))))"

definition parseFieldIdent :: "parser \<Rightarrow> string parse" where
  "parseFieldIdent p = (if Kind (p_cur p) \<noteq> Ident then Inl (errorf p (ExpectedField (p_cur p)))
     else Inr (Value (p_cur p), advance p))"

definition parseSortField :: "parser \<Rightarrow> sort_field parse" where
  "parseSortField p =
     (let (desc, p) = (if Kind (p_cur p) = Minus then (True, advance p)
                       else if Kind (p_cur p) = Plus then (False, advance p) else (True, p)) in
      if Kind (p_cur p) \<noteq> Ident then Inl (errorf p (ExpectedSortField (p_cur p)))
      else Inr (\<lparr>sf_Field = Value (p_cur p), Desc = desc\<rparr>, advance p))"

definition parseAggArg :: "parser \<Rightarrow> string parse" where
  "parseAggArg p =
     (if Kind (p_cur p) = LParen then
        let p = advance p;
          (field, p) = (if Kind (p_cur p) = Ident then (Value (p_cur p), advance p)
                        else if Kind (p_cur p) = Star then ([], advance p) else ([], p))
        in bindE (expect RParen p) (\<lambda>p. Inr (field, p))
      else Inr ([], p))"

definition parseAlias :: "parser \<Rightarrow> string parse" where
  "parseAlias p =
     (if Kind (p_cur p) = Ident \<and> Value (p_cur p) = ''as'' then
        let p = advance p in
        if Kind (p_cur p) \<noteq> Ident then Inl (errorf p (ExpectedAlias (p_cur p)))
        else Inr (Value (p_cur p), advance p)
      else Inr ([], p))"

definition parseAggCall :: "parser \<Rightarrow> agg_call parse" where
  "parseAggCall p =
     (if Kind (p_cur p) \<noteq> Ident then Inl (errorf p (ExpectedAgg (p_cur p)))
      else let fn = Value (p_cur p) in
      if \<not> isValidAggFunc fn then Inl (errorf p (UnknownAgg fn))
      else bindE (parseAggArg (advance p)) (\<lambda>(field, p).
           bindE (parseAlias p) (\<lambda>(alias, p).
           Inr (\<lparr>Func = fn, Field = field, Alias = alias\<rparr>, p))))"

definition parseHeadTailStage :: "bool \<Rightarrow> parser \<Rightarrow> pipe_stage parse" where
  "parseHeadTailStage tail p = (let p = advance p in
     if Kind (p_cur p) = Number then
       case atoi (Value (p_cur p)) of
         None \<Rightarrow> Inl (errorf p (InvalidNumber (Value (p_cur p))))
       | Some n \<Rightarrow> Inr ((if tail then TailStage (int n) True else HeadStage (int n) True), advance p)
     else Inr ((if tail then TailStage 0 False else HeadStage 0 False), p))"

section \<open>Consumption\<close>

definition p_size :: "parser \<Rightarrow> nat" where
  "p_size p = lex.lookahead_size (p_cur p) (p_next p) (p_lex p)"

lemma advance_sel [simp]:
  "p_cur (advance p) = p_next p" "p_next (advance p) = fst (Next (p_lex p))"
  "p_lex (advance p) = snd (Next (p_lex p))"
  by (simp_all add: advance_def Let_def split: prod.splits)

lemma advance_le [consume_rules]: "p_size (advance p) \<le> p_size p"
  unfolding p_size_def advance_sel by (rule lex.lookahead_le) simp

lemma advance_less: "Kind (p_cur p) \<noteq> EOF \<Longrightarrow> p_size (advance p) < p_size p"
  unfolding p_size_def advance_sel by (rule lex.lookahead_less) simp_all

lemmas advance_le_trans = order_trans [OF advance_le]

lemma expect_le [consume_rules]: "expect k p = Inr p' \<Longrightarrow> p_size p' \<le> p_size p"
  by (auto simp: expect_def advance_le split: if_splits)

lemma parseTimeExpr_le: "parseTimeExpr p = Inr (e, p') \<Longrightarrow> p_size p' \<le> p_size p"
  by (auto simp: parseTimeExpr_def Let_def split: if_splits option.splits
      intro: advance_le advance_le_trans)

lemma parseComparison_le:
  "parseComparison p = Inr (e, p') \<Longrightarrow> p_size p' \<le> p_size (advance p)"
  by (auto simp: parseComparison_def parseComparator_def parseValue_def Let_def result_simps
      split: if_splits intro: advance_le advance_le_trans)

lemma parseTimeBound_le:
  "parseTimeBound p = Inr (e, p') \<Longrightarrow> p_size p' \<le> p_size (advance p)"
  by (auto simp: parseTimeBound_def Let_def result_simps
      dest!: parseTimeExpr_le expect_le)

lemma parseExplicitFreeText_le:
  "parseExplicitFreeText p = Inr (e, p') \<Longrightarrow> p_size p' \<le> p_size (advance p)"
  by (auto simp: parseExplicitFreeText_def result_simps split: if_splits
      dest!: expect_le intro: advance_le_trans)

lemma parseTerm_less: "parseTerm p = Inr (t, p') \<Longrightarrow> p_size p' < p_size p"
  by (rule le_less_trans [OF _ advance_less])
     (auto simp: parseTerm_def split: kind.splits if_splits
       dest: parseComparison_le parseTimeBound_le parseExplicitFreeText_le)

lemma parseFieldIdent_le: "parseFieldIdent p = Inr (x, p') \<Longrightarrow> p_size p' \<le> p_size p"
  by (auto simp: parseFieldIdent_def advance_le split: if_splits)

lemma parseSortField_le: "parseSortField p = Inr (x, p') \<Longrightarrow> p_size p' \<le> p_size p"
  by (auto simp: parseSortField_def Let_def split: if_splits intro: advance_le advance_le_trans)

lemma parseAggArg_le: "parseAggArg p = Inr (x, p') \<Longrightarrow> p_size p' \<le> p_size p"
  by (auto simp: parseAggArg_def Let_def result_simps split: if_splits dest!: expect_le
      intro: advance_le advance_le_trans order_trans)

lemma parseAlias_le: "parseAlias p = Inr (x, p') \<Longrightarrow> p_size p' \<le> p_size p"
  by (auto simp: parseAlias_def Let_def split: if_splits intro: advance_le advance_le_trans)

lemma parseAggCall_le: "parseAggCall p = Inr (x, p') \<Longrightarrow> p_size p' \<le> p_size p"
  by (auto simp: parseAggCall_def Let_def result_simps split: if_splits
      dest!: parseAggArg_le parseAlias_le intro: advance_le_trans order_trans)

lemmas item_le = parseFieldIdent_le parseSortField_le parseAggCall_le

section \<open>Loops and stages\<close>

text \<open>The loop of \<open>parseBoolExpr\<close> after its first term.\<close>

function parseBoolExpr_loop :: "bool_expr \<Rightarrow> parser \<Rightarrow> bool_expr parse" where
  "parseBoolExpr_loop expr p =
    (if Kind (p_cur p) = Ident \<and> (Value (p_cur p) = ''and'' \<or> Value (p_cur p) = ''or'') then
       (let conj = Value (p_cur p) in
        bindE (parseTerm (advance p)) (\<lambda>(t, p').
          parseBoolExpr_loop (expr\<lparr>Terms := Terms expr @ [t], Conjs := Conjs expr @ [conj]\<rparr>) p'))
     else if canStartTerm p then
       bindE (parseTerm p) (\<lambda>(t, p').
         parseBoolExpr_loop (expr\<lparr>Terms := Terms expr @ [t], Conjs := Conjs expr @ [''and'']\<rparr>) p')
     else Inr (expr, p))"
  by pat_completeness auto
termination
  by (relation "measure (\<lambda>(e, p). p_size p)")
     (auto intro: parseTerm_less less_le_trans [OF parseTerm_less advance_le])

declare parseBoolExpr_loop.simps [simp del]

definition parseBoolExpr :: "parser \<Rightarrow> bool_expr parse" where
  "parseBoolExpr p = bindE (parseTerm p) (\<lambda>(t, p).
     parseBoolExpr_loop \<lparr>Terms = [t], Conjs = []\<rparr> p)"

text \<open>The loops \<open>for p.cur.Kind == lexer.Comma\<close> of the stages.\<close>

function aggCalls_loop :: "agg_call list \<Rightarrow> parser \<Rightarrow> agg_call list parse" where
  "aggCalls_loop xs p = (if Kind (p_cur p) = Comma
     then bindE (parseAggCall (advance p)) (\<lambda>(x, p'). aggCalls_loop (xs @ [x]) p')
     else Inr (xs, p))"
  by pat_completeness auto
termination
  by (relation "measure (\<lambda>(e, p). p_size p)") (auto intro: le_less_trans [OF item_le(3) advance_less])

function sortFields_loop :: "sort_field list \<Rightarrow> parser \<Rightarrow> sort_field list parse" where
  "sortFields_loop xs p = (if Kind (p_cur p) = Comma
     then bindE (parseSortField (advance p)) (\<lambda>(x, p'). sortFields_loop (xs @ [x]) p')
     else Inr (xs, p))"
  by pat_completeness auto
termination
  by (relation "measure (\<lambda>(e, p). p_size p)") (auto intro: le_less_trans [OF item_le(2) advance_less])

function fieldIdents_loop :: "string list \<Rightarrow> parser \<Rightarrow> string list parse" where
  "fieldIdents_loop xs p = (if Kind (p_cur p) = Comma
     then bindE (parseFieldIdent (advance p)) (\<lambda>(x, p'). fieldIdents_loop (xs @ [x]) p')
     else Inr (xs, p))"
  by pat_completeness auto
termination
  by (relation "measure (\<lambda>(e, p). p_size p)") (auto intro: le_less_trans [OF item_le(1) advance_less])

declare aggCalls_loop.simps [simp del] sortFields_loop.simps [simp del] fieldIdents_loop.simps [simp del]

definition parseBy :: "parser \<Rightarrow> string list parse" where
  "parseBy p = (if Kind (p_cur p) = Ident \<and> Value (p_cur p) = ''by'' then
       bindE (parseFieldIdent (advance p)) (\<lambda>(f, p). fieldIdents_loop [f] p)
     else Inr ([], p))"

definition parseStatsStage :: "parser \<Rightarrow> pipe_stage parse" where
  "parseStatsStage p = bindE (parseAggCall (advance p)) (\<lambda>(a, p).
     bindE (aggCalls_loop [a] p) (\<lambda>(aggs, p).
     bindE (parseBy p) (\<lambda>(byf, p). Inr (StatsStage aggs byf, p))))"

definition parseSortStage :: "parser \<Rightarrow> pipe_stage parse" where
  "parseSortStage p = bindE (parseSortField (advance p)) (\<lambda>(f, p).
     bindE (sortFields_loop [f] p) (\<lambda>(fs, p). Inr (SortStage fs, p)))"

definition parseFieldsStage :: "parser \<Rightarrow> pipe_stage parse" where
  "parseFieldsStage p = bindE (parseFieldIdent (advance p)) (\<lambda>(f, p).
     bindE (fieldIdents_loop [f] p) (\<lambda>(fs, p). Inr (FieldsStage fs, p)))"

definition parsePipeStage :: "parser \<Rightarrow> pipe_stage parse" where
  "parsePipeStage p =
    (if Kind (p_cur p) \<noteq> Ident then Inl (errorf p (ExpectedStage (p_cur p)))
     else if Value (p_cur p) = ''where'' then
       bindE (parseBoolExpr (advance p)) (\<lambda>(e, p). Inr (WhereStage e, p))
     else if Value (p_cur p) = ''stats'' then parseStatsStage p
     else if Value (p_cur p) = ''sort'' then parseSortStage p
     else if Value (p_cur p) = ''fields'' then parseFieldsStage p
     else if Value (p_cur p) = ''head'' then parseHeadTailStage False p
     else if Value (p_cur p) = ''tail'' then parseHeadTailStage True p
     else Inl (errorf p (UnknownStage (Value (p_cur p)))))"

lemma parseBoolExpr_loop_le:
  "parseBoolExpr_loop e p = Inr (e', p') \<Longrightarrow> p_size p' \<le> p_size p"
proof (induction e p rule: parseBoolExpr_loop.induct)
  case (1 e p)
  show ?case
    using 1(3) parseTerm_less [of p] parseTerm_less [of "advance p"] advance_le [of p] 1(1,2)
    by (subst (asm) parseBoolExpr_loop.simps)
       (fastforce simp: result_simps Let_def split: if_splits)
qed

lemma aggCalls_loop_le: "aggCalls_loop xs p = Inr (ys, p') \<Longrightarrow> p_size p' \<le> p_size p"
proof (induction xs p rule: aggCalls_loop.induct)
  case (1 xs p)
  show ?case
    using 1(2) item_le(3) [of "advance p"] advance_le [of p] 1(1)
    by (subst (asm) aggCalls_loop.simps) (fastforce simp: result_simps split: if_splits)
qed

lemma sortFields_loop_le: "sortFields_loop xs p = Inr (ys, p') \<Longrightarrow> p_size p' \<le> p_size p"
proof (induction xs p rule: sortFields_loop.induct)
  case (1 xs p)
  show ?case
    using 1(2) item_le(2) [of "advance p"] advance_le [of p] 1(1)
    by (subst (asm) sortFields_loop.simps) (fastforce simp: result_simps split: if_splits)
qed

lemma fieldIdents_loop_le: "fieldIdents_loop xs p = Inr (ys, p') \<Longrightarrow> p_size p' \<le> p_size p"
proof (induction xs p rule: fieldIdents_loop.induct)
  case (1 xs p)
  show ?case
    using 1(2) item_le(1) [of "advance p"] advance_le [of p] 1(1)
    by (subst (asm) fieldIdents_loop.simps) (fastforce simp: result_simps split: if_splits)
qed

lemmas loop_le = parseBoolExpr_loop_le aggCalls_loop_le sortFields_loop_le fieldIdents_loop_le

lemma parseBoolExpr_le: "parseBoolExpr p = Inr (e, p') \<Longrightarrow> p_size p' \<le> p_size p"
  by (auto simp: parseBoolExpr_def result_simps dest!: parseTerm_less loop_le)

lemma parseBy_le: "parseBy p = Inr (x, p') \<Longrightarrow> p_size p' \<le> p_size p"
  by (auto simp: parseBy_def result_simps split: if_splits dest!: item_le loop_le
      intro: order_trans advance_le)

lemma parsePipeStage_le: "parsePipeStage p = Inr (x, p') \<Longrightarrow> p_size p' \<le> p_size p"
  by (rule order_trans [OF _ advance_le])
     (auto simp: parsePipeStage_def parseStatsStage_def parseSortStage_def parseFieldsStage_def
       parseHeadTailStage_def Let_def result_simps split: if_splits option.splits
       dest!: item_le loop_le parseBy_le parseBoolExpr_le intro: order_trans advance_le)

function pipes_loop :: "pipe_stage list \<Rightarrow> parser \<Rightarrow> pipe_stage list parse" where
  "pipes_loop xs p = (if Kind (p_cur p) = Pipe
     then bindE (parsePipeStage (advance p)) (\<lambda>(x, p'). pipes_loop (xs @ [x]) p')
     else Inr (xs, p))"
  by pat_completeness auto
termination
  by (relation "measure (\<lambda>(e, p). p_size p)")
     (auto intro: le_less_trans [OF parsePipeStage_le advance_less])

declare pipes_loop.simps [simp del]

definition parseQuery :: "parser \<Rightarrow> (parse_error, ast_query) result" where
  "parseQuery p =
     bindE (if atPipeStageKeyword p
            then bindE (parsePipeStage p) (\<lambda>(st, p). Inr ((zero_expr, [st]), p))
            else bindE (parseBoolExpr p) (\<lambda>(b, p). Inr ((b, []), p))) (\<lambda>((b, sts), p).
     bindE (pipes_loop sts p) (\<lambda>(sts, p).
       if Kind (p_cur p) \<noteq> EOF then Inl (errorf p (UnexpectedAfterQuery (p_cur p)))
       else Inr \<lparr>Base = b, Pipes = sts\<rparr>))"

definition Parse :: "string \<Rightarrow> (parse_error, ast_query) result" where
  "Parse inp = parseQuery (newParser inp)"

end
