(* ===== verification/Printer.thy ===== *)
theory Printer
  imports Parser
begin

text \<open>
  A canonical printer for the query tree and the round trip through the lexer
  and the parser. \<open>p_toks\<close> is the token list a parser state still has before it;
  every parsing method is described by what it does to that list, so the proofs
  below never mention the lexer's cursor. \<open>wf_query\<close> is the set of trees the
  parser can return.
\<close>

definition p_toks :: "parser \<Rightarrow> (kind \<times> string) list" where
  "p_toks p = (if Kind (p_cur p) = EOF then []
     else (Kind (p_cur p), Value (p_cur p)) #
       (if Kind (p_next p) = EOF then []
        else (Kind (p_next p), Value (p_next p)) # tokens (p_lex p)))"

definition head_kind :: "(kind \<times> string) list \<Rightarrow> kind" where
  "head_kind ts = (case ts of [] \<Rightarrow> EOF | t # _ \<Rightarrow> fst t)"

fun op_kind :: "string \<Rightarrow> kind" where
  "op_kind op = (if op = ''='' then Eq else if op = ''!='' then Neq else if op = ''>'' then Gt
     else if op = ''>='' then Gte else if op = ''<'' then Lt else Lte)"

definition comparators :: "string list" where
  "comparators = [''='', ''!='', ''>'', ''>='', ''<'', ''<='']"

section \<open>Well-formed trees\<close>

definition wf_time :: "time_expr \<Rightarrow> bool" where
  "wf_time e = (if IsRelative e
     then Absolute e = [] \<and> RelativeSign e \<in> {-1, 1} \<and> 0 \<le> RelativeN e \<and> RelativeN e \<le> max_int64
       \<and> isValidTimeUnit (RelativeUnit e)
     else RelativeSign e = 0 \<and> RelativeN e = 0 \<and> RelativeUnit e = [])"

fun wf_term :: "search_term \<Rightarrow> bool" where
  "wf_term (Comparison f op v) =
     (wf_ident f \<and> f \<notin> {''earliest'', ''latest''} \<and> op \<in> set comparators)"
| "wf_term (TimeBound k e) = (k \<in> {''earliest'', ''latest''} \<and> wf_time e)"
| "wf_term (FreeText q) = True"

definition wf_expr :: "bool_expr \<Rightarrow> bool" where
  "wf_expr e = (Terms e \<noteq> [] \<and> list_all wf_term (Terms e)
     \<and> length (Conjs e) = length (Terms e) - 1 \<and> list_all (\<lambda>c. c \<in> {''and'', ''or''}) (Conjs e))"

definition wf_agg :: "agg_call \<Rightarrow> bool" where
  "wf_agg a = (isValidAggFunc (Func a) \<and> (Field a = [] \<or> wf_ident (Field a))
     \<and> (Alias a = [] \<or> wf_ident (Alias a)))"

fun wf_stage :: "pipe_stage \<Rightarrow> bool" where
  "wf_stage (WhereStage e) = wf_expr e"
| "wf_stage (StatsStage aggs byf) = (aggs \<noteq> [] \<and> list_all wf_agg aggs \<and> list_all wf_ident byf)"
| "wf_stage (SortStage fs) = (fs \<noteq> [] \<and> list_all (\<lambda>f. wf_ident (sf_Field f)) fs)"
| "wf_stage (FieldsStage fs) = (fs \<noteq> [] \<and> list_all wf_ident fs)"
| "wf_stage (HeadStage n h) = (if h then 0 \<le> n \<and> n \<le> max_int64 else n = 0)"
| "wf_stage (TailStage n h) = (if h then 0 \<le> n \<and> n \<le> max_int64 else n = 0)"

definition wf_query :: "ast_query \<Rightarrow> bool" where
  "wf_query q = ((wf_expr (Base q) \<or> Base q = zero_expr \<and> Pipes q \<noteq> [])
     \<and> list_all wf_stage (Pipes q))"

section \<open>The printer\<close>

definition toks_time :: "time_expr \<Rightarrow> (kind \<times> string) list" where
  "toks_time e = (if IsRelative e
     then (if RelativeSign e = -1 then [(Minus, ''-'')] else [])
       @ [(Number, itoa (nat (RelativeN e))), (Ident, RelativeUnit e)]
     else [(String, Absolute e)])"

fun toks_term :: "search_term \<Rightarrow> (kind \<times> string) list" where
  "toks_term (Comparison f op v) = [(Ident, f), (op_kind op, op), (String, v)]"
| "toks_term (TimeBound k e) = (Ident, k) # (Eq, ''='') # toks_time e"
| "toks_term (FreeText q) = [(String, q)]"

fun toks_more :: "string list \<Rightarrow> search_term list \<Rightarrow> (kind \<times> string) list" where
  "toks_more (c # cs) (t # ts) = (Ident, c) # toks_term t @ toks_more cs ts"
| "toks_more _ _ = []"

definition toks_expr :: "bool_expr \<Rightarrow> (kind \<times> string) list" where
  "toks_expr e = toks_term (hd (Terms e)) @ toks_more (Conjs e) (tl (Terms e))"

fun commas :: "('a \<Rightarrow> (kind \<times> string) list) \<Rightarrow> 'a list \<Rightarrow> (kind \<times> string) list" where
  "commas f [] = []"
| "commas f (x # xs) = (Comma, '','') # f x @ commas f xs"

definition toks_agg :: "agg_call \<Rightarrow> (kind \<times> string) list" where
  "toks_agg a = (Ident, Func a)
     # (if Field a = [] then [] else [(LParen, ''(''), (Ident, Field a), (RParen, '')'')])
     @ (if Alias a = [] then [] else [(Ident, ''as''), (Ident, Alias a)])"

definition toks_sort :: "sort_field \<Rightarrow> (kind \<times> string) list" where
  "toks_sort f = [if Desc f then (Minus, ''-'') else (Plus, ''+''), (Ident, sf_Field f)]"

definition toks_field :: "string \<Rightarrow> (kind \<times> string) list" where
  "toks_field f = [(Ident, f)]"

definition toks_count :: "int \<Rightarrow> bool \<Rightarrow> (kind \<times> string) list" where
  "toks_count n h = (if h then [(Number, itoa (nat n))] else [])"

fun toks_stage :: "pipe_stage \<Rightarrow> (kind \<times> string) list" where
  "toks_stage (WhereStage e) = (Ident, ''where'') # toks_expr e"
| "toks_stage (StatsStage aggs byf) = (Ident, ''stats'') # toks_agg (hd aggs)
     @ commas toks_agg (tl aggs)
     @ (if byf = [] then [] else (Ident, ''by'') # toks_field (hd byf) @ commas toks_field (tl byf))"
| "toks_stage (SortStage fs) = (Ident, ''sort'') # toks_sort (hd fs) @ commas toks_sort (tl fs)"
| "toks_stage (FieldsStage fs) = (Ident, ''fields'') # toks_field (hd fs) @ commas toks_field (tl fs)"
| "toks_stage (HeadStage n h) = (Ident, ''head'') # toks_count n h"
| "toks_stage (TailStage n h) = (Ident, ''tail'') # toks_count n h"

fun toks_pipes :: "pipe_stage list \<Rightarrow> (kind \<times> string) list" where
  "toks_pipes [] = []"
| "toks_pipes (st # sts) = (Pipe, ''|'') # toks_stage st @ toks_pipes sts"

definition toks_query :: "ast_query \<Rightarrow> (kind \<times> string) list" where
  "toks_query q = (if Terms (Base q) = [] then toks_stage (hd (Pipes q)) @ toks_pipes (tl (Pipes q))
     else toks_expr (Base q) @ toks_pipes (Pipes q))"

definition print_query :: "ast_query \<Rightarrow> string" where
  "print_query q = render (toks_query q)"

section \<open>The token view of a parser state\<close>

lemma tokens_unfold:
  "tokens l = (if Kind (fst (Next l)) = EOF then []
     else (Kind (fst (Next l)), Value (fst (Next l))) # tokens (snd (Next l)))"
  by (subst tokens.simps) (simp add: Let_def)

lemma p_toks_newParser: "p_toks (newParser s) = tokens (New s)"
  by (simp add: newParser_def p_toks_def tokens_unfold [of "New s"] split: prod.splits)
     (simp add: tokens_unfold)

lemma p_toks_Cons:
  assumes "p_toks p = (k, v) # ts"
  shows "Kind (p_cur p) = k" "Value (p_cur p) = v" "p_toks (advance p) = ts"
    "Kind (p_next p) = head_kind ts"
  using assms tokens_unfold [of "p_lex p"] by (auto simp: p_toks_def head_kind_def split: if_splits)

lemma head_kind_simps [simp]: "head_kind [] = EOF" "head_kind (t # ts) = fst t"
  by (simp_all add: head_kind_def)

text \<open>Rewriting every question about the current and the next token into the token view.\<close>

lemma p_toks_view:
  "Kind (p_cur p) = head_kind (p_toks p)"
  "p_toks p \<noteq> [] \<Longrightarrow> Value (p_cur p) = snd (hd (p_toks p))"
  "p_toks p \<noteq> [] \<Longrightarrow> p_toks (advance p) = tl (p_toks p)"
  "p_toks p \<noteq> [] \<Longrightarrow> Kind (p_next p) = head_kind (tl (p_toks p))"
  using tokens_unfold [of "p_lex p"] by (auto simp: p_toks_def head_kind_def)

declare advance_sel [simp del]

section \<open>Parsing printed trees\<close>

text \<open>\<open>reads f us x\<close>: on a state that shows the tokens \<open>us\<close>, whatever follows them, the
  method \<open>f\<close> returns \<open>x\<close> and leaves what follows. \<open>reads_before\<close> restricts what may
  follow.\<close>

definition reads_before ::
  "((kind \<times> string) list \<Rightarrow> bool) \<Rightarrow> (parser \<Rightarrow> 'a parse) \<Rightarrow> (kind \<times> string) list \<Rightarrow> 'a \<Rightarrow> bool" where
  "reads_before F f us x = (\<forall>p ts. p_toks p = us @ ts \<longrightarrow> F ts \<longrightarrow>
     (\<exists>p'. f p = Inr (x, p') \<and> p_toks p' = ts))"

abbreviation reads :: "(parser \<Rightarrow> 'a parse) \<Rightarrow> (kind \<times> string) list \<Rightarrow> 'a \<Rightarrow> bool" where
  "reads \<equiv> reads_before (\<lambda>ts. True)"

lemma readsD:
  "reads_before F f us x \<Longrightarrow> p_toks p = us @ ts \<Longrightarrow> F ts \<Longrightarrow>
     \<exists>p'. f p = Inr (x, p') \<and> p_toks p' = ts"
  by (auto simp: reads_before_def)

lemma parseTimeExpr_reads:
  assumes "wf_time e"
  shows "reads parseTimeExpr (toks_time e) e"
proof (cases "IsRelative e")
  case True
  with assms have e: "e = relative_time (RelativeSign e) (RelativeN e) (RelativeUnit e)"
    and n: "0 \<le> RelativeN e" "RelativeN e \<le> max_int64"
    and s: "RelativeSign e = -1 \<or> RelativeSign e = 1" and u: "isValidTimeUnit (RelativeUnit e)"
    by (auto simp: wf_time_def relative_time_def)
  have a: "atoi (itoa (nat (RelativeN e))) = Some (nat (RelativeN e))"
    using n by (simp add: atoi_itoa)
  show ?thesis
    using True s u n
    by (subst (2) e) (auto simp: reads_before_def parseTimeExpr_def toks_time_def p_toks_view a Let_def)
next
  case False
  with assms have "e = absolute_time (Absolute e)"
    by (simp add: wf_time_def absolute_time_def)
  with False show ?thesis
    by (auto simp: reads_before_def parseTimeExpr_def toks_time_def p_toks_view)
qed

lemma op_kind_comparator:
  "op \<in> set comparators \<Longrightarrow> isComparatorStart (op_kind op) \<and> op_kind op \<noteq> Colon \<and> symbol_text (op_kind op) = Some op"
  by (auto simp: comparators_def isComparatorStart_def symbol_text_def)

lemma parseTerm_reads:
  assumes "wf_term t"
  shows "reads parseTerm (toks_term t) t"
proof (cases t)
  case (Comparison f op v)
  with assms op_kind_comparator [of op] show ?thesis
    by (auto simp: reads_before_def parseTerm_def parseComparison_def parseComparator_def parseValue_def
        p_toks_view result_simps Let_def simp del: op_kind.simps)
next
  case (TimeBound k e)
  with assms have "k = ''earliest'' \<or> k = ''latest''" "wf_time e" by auto
  with parseTimeExpr_reads show ?thesis
    unfolding TimeBound
    by (fastforce simp: reads_before_def parseTerm_def parseTimeBound_def expect_def p_toks_view
        result_simps Let_def)
next
  case (FreeText q)
  then show ?thesis
    by (auto simp: reads_before_def parseTerm_def p_toks_view)
qed

lemma toks_term_Cons: "\<exists>k v us. toks_term t = (k, v) # us"
  by (cases t) auto

definition ends_expr :: "(kind \<times> string) list \<Rightarrow> bool" where
  "ends_expr ts = (head_kind ts \<in> {EOF, Pipe})"

lemma parseBoolExpr_loop_reads:
  assumes "list_all wf_term ts" "length cs = length ts" "list_all (\<lambda>c. c \<in> {''and'', ''or''}) cs"
  shows "reads_before ends_expr (parseBoolExpr_loop e) (toks_more cs ts)
      (e\<lparr>Terms := Terms e @ ts, Conjs := Conjs e @ cs\<rparr>)"
  using assms
proof (induction cs ts arbitrary: e rule: toks_more.induct)
  case (1 c cs t ts)
  note t = parseTerm_reads [of t]
  show ?case
    unfolding reads_before_def
  proof (intro allI impI)
    fix p us
    assume p: "p_toks p = toks_more (c # cs) (t # ts) @ us" and us: "ends_expr us"
    then have "p_toks (advance p) = toks_term t @ toks_more cs ts @ us"
      by (simp add: p_toks_view)
    then obtain p1 where p1: "parseTerm (advance p) = Inr (t, p1)" "p_toks p1 = toks_more cs ts @ us"
      using readsD [OF t] 1(2) by auto
    let ?e = "e\<lparr>Terms := Terms e @ [t], Conjs := Conjs e @ [c]\<rparr>"
    obtain p2 where "parseBoolExpr_loop ?e p1
        = Inr (?e\<lparr>Terms := Terms ?e @ ts, Conjs := Conjs ?e @ cs\<rparr>, p2)" "p_toks p2 = us"
      using readsD [OF 1(1) [of ?e] p1(2) us] 1(2-) by auto
    moreover have "c = ''and'' \<or> c = ''or''" using 1(4) by simp
    ultimately show "\<exists>p'. parseBoolExpr_loop e p
        = Inr (e\<lparr>Terms := Terms e @ t # ts, Conjs := Conjs e @ c # cs\<rparr>, p') \<and> p_toks p' = us"
      using p p1(1) by (subst parseBoolExpr_loop.simps) (auto simp: p_toks_view Let_def)
  qed
qed (auto simp: reads_before_def parseBoolExpr_loop.simps canStartTerm_def p_toks_view ends_expr_def)

lemma parseBoolExpr_reads:
  assumes "wf_expr e"
  shows "reads_before ends_expr parseBoolExpr (toks_expr e) e"
proof -
  from assms obtain t ts where t: "Terms e = t # ts" "wf_term t" "list_all wf_term ts"
    "length (Conjs e) = length ts" "list_all (\<lambda>c. c \<in> {''and'', ''or''}) (Conjs e)"
    by (cases "Terms e") (auto simp: wf_expr_def)
  have e: "\<lparr>Terms = [t], Conjs = []\<rparr>\<lparr>Terms := [t] @ ts, Conjs := Conjs e\<rparr> = e"
    using t(1) by simp
  show ?thesis
    using readsD [OF parseTerm_reads [OF t(2)]]
      readsD [OF parseBoolExpr_loop_reads [OF t(3-5), of "\<lparr>Terms = [t], Conjs = []\<rparr>"]] t(1) e
    unfolding reads_before_def parseBoolExpr_def toks_expr_def
    by (fastforce simp: result_simps)
qed

text \<open>The three comma loops share one contract: the loop unfolds to the item parser
  at every comma, and the item parser reads what the printer wrote. \<open>F\<close> is what may
  follow an item.\<close>

locale comma_loop =
  fixes item :: "parser \<Rightarrow> 'a parse"
    and loop :: "'a list \<Rightarrow> parser \<Rightarrow> 'a list parse"
    and out :: "'a \<Rightarrow> (kind \<times> string) list"
    and good :: "'a \<Rightarrow> bool"
    and F :: "(kind \<times> string) list \<Rightarrow> bool"
  assumes loop_unfold: "loop xs p = (if Kind (p_cur p) = Comma
        then bindE (item (advance p)) (\<lambda>(x, p'). loop (xs @ [x]) p') else Inr (xs, p))"
    and item_reads: "good x \<Longrightarrow> reads_before F item (out x) x"
    and follow_comma: "F ((Comma, '','') # ts)"
    and item_shrinks: "item p = Inr (x, p') \<Longrightarrow> p_size p' \<le> p_size p"
begin

lemma follow_commas: "F ts \<Longrightarrow> F (commas out xs @ ts)"
  by (cases xs) (auto simp: follow_comma)

lemma loop_reads:
  "list_all good ys \<Longrightarrow>
    reads_before (\<lambda>ts. F ts \<and> head_kind ts \<noteq> Comma) (loop xs) (commas out ys) (xs @ ys)"
proof (induction ys arbitrary: xs)
  case Nil
  then show ?case by (auto simp: reads_before_def loop_unfold p_toks_view)
next
  case (Cons y ys)
  show ?case
    unfolding reads_before_def
  proof (intro allI impI)
    fix p ts
    assume p: "p_toks p = commas out (y # ys) @ ts" and ts: "F ts \<and> head_kind ts \<noteq> Comma"
    then have "p_toks (advance p) = out y @ commas out ys @ ts" by (simp add: p_toks_view)
    then obtain p1 where p1: "item (advance p) = Inr (y, p1)" "p_toks p1 = commas out ys @ ts"
      using readsD [OF item_reads [of y]] Cons.prems ts follow_commas [of ts ys] by auto
    obtain p2 where "loop (xs @ [y]) p1 = Inr ((xs @ [y]) @ ys, p2)" "p_toks p2 = ts"
      using readsD [OF Cons.IH [of "xs @ [y]"] p1(2)] Cons.prems ts by auto
    with p p1 show "\<exists>p'. loop xs p = Inr (xs @ y # ys, p') \<and> p_toks p' = ts"
      by (subst loop_unfold) (auto simp: p_toks_view)
  qed
qed

lemma item_loop_reads:
  assumes "xs \<noteq> []" "list_all good xs" "p_toks p = out (hd xs) @ commas out (tl xs) @ ts"
    "F ts" "head_kind ts \<noteq> Comma"
  shows "\<exists>p1 p2. item p = Inr (hd xs, p1) \<and> loop [hd xs] p1 = Inr (xs, p2) \<and> p_toks p2 = ts"
proof -
  obtain x ys where xs: "xs = x # ys" using assms(1) by (cases xs) auto
  then obtain p1 where p1: "item p = Inr (x, p1)" "p_toks p1 = commas out ys @ ts"
    using readsD [OF item_reads [of x]] assms follow_commas [of ts ys] by auto
  with readsD [OF loop_reads [of ys "[x]"] p1(2)] assms xs show ?thesis by auto
qed

end

definition agg_follow :: "(kind \<times> string) list \<Rightarrow> bool" where
  "agg_follow ts = (head_kind ts \<noteq> LParen \<and> (ts = [] \<or> hd ts \<noteq> (Ident, ''as'')))"

definition toks_arg :: "string \<Rightarrow> (kind \<times> string) list" where
  "toks_arg f = (if f = [] then [] else [(LParen, ''(''), (Ident, f), (RParen, '')'')])"

definition toks_alias :: "string \<Rightarrow> (kind \<times> string) list" where
  "toks_alias a = (if a = [] then [] else [(Ident, ''as''), (Ident, a)])"

lemma parseAlias_reads: "reads_before agg_follow parseAlias (toks_alias a) a"
  unfolding reads_before_def
proof (intro allI impI)
  fix p ts assume "p_toks p = toks_alias a @ ts" "agg_follow ts"
  then show "\<exists>p'. parseAlias p = Inr (a, p') \<and> p_toks p' = ts"
    by (cases ts; cases "a = []")
       (auto simp: parseAlias_def toks_alias_def agg_follow_def p_toks_view Let_def)
qed

lemma parseAggArg_reads:
  "reads_before (\<lambda>ts. head_kind ts \<noteq> LParen) parseAggArg (toks_arg f) f"
  by (cases "f = []")
     (auto simp: reads_before_def parseAggArg_def toks_arg_def expect_def p_toks_view Let_def)

lemma parseAggCall_reads:
  assumes "wf_agg a"
  shows "reads_before agg_follow parseAggCall (toks_agg a) a"
  unfolding reads_before_def
proof (intro allI impI)
  fix p ts assume p: "p_toks p = toks_agg a @ ts" and ts: "agg_follow ts"
  have ta: "toks_agg a = (Ident, Func a) # toks_arg (Field a) @ toks_alias (Alias a)"
    by (simp add: toks_agg_def toks_arg_def toks_alias_def)
  have v: "isValidAggFunc (Func a)" using assms by (simp add: wf_agg_def)
  have "p_toks (advance p) = toks_arg (Field a) @ toks_alias (Alias a) @ ts"
    using p by (simp add: ta p_toks_view)
  moreover have "head_kind (toks_alias (Alias a) @ ts) \<noteq> LParen"
    using ts by (simp add: toks_alias_def agg_follow_def)
  ultimately obtain p1 where p1: "parseAggArg (advance p) = Inr (Field a, p1)"
    "p_toks p1 = toks_alias (Alias a) @ ts"
    using readsD [OF parseAggArg_reads] by blast
  from readsD [OF parseAlias_reads p1(2) ts] p1(1) v p show "\<exists>p'. parseAggCall p = Inr (a, p') \<and> p_toks p' = ts"
    by (auto simp: parseAggCall_def ta p_toks_view Let_def)
qed

interpretation agg_list: comma_loop parseAggCall aggCalls_loop toks_agg wf_agg agg_follow
  using parseAggCall_reads item_le by unfold_locales (auto simp: aggCalls_loop.simps agg_follow_def)

interpretation sort_list: comma_loop parseSortField sortFields_loop toks_sort
  "\<lambda>f. wf_ident (sf_Field f)" "\<lambda>ts. True"
  using item_le by unfold_locales
     (auto simp: sortFields_loop.simps reads_before_def parseSortField_def toks_sort_def p_toks_view Let_def)

interpretation field_list: comma_loop parseFieldIdent fieldIdents_loop toks_field wf_ident "\<lambda>ts. True"
  using item_le by unfold_locales
     (auto simp: fieldIdents_loop.simps reads_before_def parseFieldIdent_def toks_field_def p_toks_view)

lemma parseBy_reads:
  assumes "list_all wf_ident byf" "ends_expr ts"
    "p_toks p = (if byf = [] then [] else (Ident, ''by'') # toks_field (hd byf) @ commas toks_field (tl byf)) @ ts"
  shows "\<exists>p'. parseBy p = Inr (byf, p') \<and> p_toks p' = ts"
proof (cases "byf = []")
  case True
  with assms show ?thesis
    by (auto simp: parseBy_def p_toks_view ends_expr_def)
next
  case False
  with assms have "p_toks (advance p) = toks_field (hd byf) @ commas toks_field (tl byf) @ ts"
    by (simp add: p_toks_view)
  from field_list.item_loop_reads [OF False assms(1) this] assms(2)
  show ?thesis
    using assms(3) False by (auto simp: parseBy_def p_toks_view ends_expr_def)
qed

lemma parseHeadTail_reads:
  assumes "if h then 0 \<le> n \<and> n \<le> max_int64 else n = 0"
    "p_toks p = (k, v) # toks_count n h @ ts" "ends_expr ts"
  shows "\<exists>p'. parseHeadTailStage b p = Inr (if b then TailStage n h else HeadStage n h, p') \<and> p_toks p' = ts"
  using assms atoi_itoa [of "nat n"]
  by (auto simp: parseHeadTailStage_def toks_count_def p_toks_view ends_expr_def Let_def split: if_splits)

lemma parseStats_reads:
  assumes "wf_stage (StatsStage aggs byf)" "p_toks p = toks_stage (StatsStage aggs byf) @ ts" "ends_expr ts"
  shows "\<exists>p'. parseStatsStage p = Inr (StatsStage aggs byf, p') \<and> p_toks p' = ts"
proof -
  define us where "us = (if byf = [] then []
      else (Ident, ''by'') # toks_field (hd byf) @ commas toks_field (tl byf)) @ ts"
  have p: "p_toks (advance p) = toks_agg (hd aggs) @ commas toks_agg (tl aggs) @ us"
    using assms(2) by (simp add: p_toks_view us_def)
  have us: "agg_follow us" "head_kind us \<noteq> Comma"
    using assms(3) by (auto simp: us_def agg_follow_def ends_expr_def neq_Nil_conv)
  obtain p1 p2 where "parseAggCall (advance p) = Inr (hd aggs, p1)"
    "aggCalls_loop [hd aggs] p1 = Inr (aggs, p2)" "p_toks p2 = us"
    using agg_list.item_loop_reads [OF _ _ p us] assms(1) by auto
  with parseBy_reads [of byf ts p2] assms show ?thesis
    by (auto simp: parseStatsStage_def us_def)
qed

lemma parsePipeStage_reads:
  assumes "wf_stage st"
  shows "reads_before ends_expr parsePipeStage (toks_stage st) st"
  unfolding reads_before_def
proof (intro allI impI)
  fix p ts
  assume p: "p_toks p = toks_stage st @ ts" and ts: "ends_expr ts"
  have nc: "head_kind ts \<noteq> Comma" using ts by (auto simp: ends_expr_def)
  show "\<exists>p'. parsePipeStage p = Inr (st, p') \<and> p_toks p' = ts"
  proof (cases st)
    case (WhereStage e)
    with p have "p_toks (advance p) = toks_expr e @ ts" by (simp add: p_toks_view)
    from readsD [OF parseBoolExpr_reads this ts] assms WhereStage p show ?thesis
      by (auto simp: parsePipeStage_def p_toks_view)
  next
    case (StatsStage aggs byf)
    with parseStats_reads [of aggs byf p ts] assms p ts show ?thesis
      by (auto simp: parsePipeStage_def p_toks_view)
  next
    case (SortStage fs)
    with p have "p_toks (advance p) = toks_sort (hd fs) @ commas toks_sort (tl fs) @ ts"
      by (simp add: p_toks_view)
    from sort_list.item_loop_reads [OF _ _ this] assms SortStage p nc show ?thesis
      by (auto simp: parsePipeStage_def parseSortStage_def p_toks_view)
  next
    case (FieldsStage fs)
    with p have "p_toks (advance p) = toks_field (hd fs) @ commas toks_field (tl fs) @ ts"
      by (simp add: p_toks_view)
    from field_list.item_loop_reads [OF _ _ this] assms FieldsStage p nc show ?thesis
      by (auto simp: parsePipeStage_def parseFieldsStage_def p_toks_view)
  next
    case (HeadStage n h)
    with parseHeadTail_reads [of h n p "Ident" "''head''" ts False] assms p ts show ?thesis
      by (auto simp: parsePipeStage_def p_toks_view)
  next
    case (TailStage n h)
    with parseHeadTail_reads [of h n p "Ident" "''tail''" ts True] assms p ts show ?thesis
      by (auto simp: parsePipeStage_def p_toks_view)
  qed
qed

lemma pipes_loop_reads:
  "list_all wf_stage sts \<Longrightarrow> p_toks p = toks_pipes sts \<Longrightarrow>
     \<exists>p'. pipes_loop xs p = Inr (xs @ sts, p') \<and> p_toks p' = []"
proof (induction sts arbitrary: xs p)
  case Nil
  then show ?case by (auto simp: pipes_loop.simps p_toks_view)
next
  case (Cons st sts)
  then have p: "p_toks (advance p) = toks_stage st @ toks_pipes sts" by (simp add: p_toks_view)
  have e: "ends_expr (toks_pipes sts)" by (cases sts) (auto simp: ends_expr_def)
  from readsD [OF parsePipeStage_reads p e] Cons.prems obtain p1
    where p1: "parsePipeStage (advance p) = Inr (st, p1)" "p_toks p1 = toks_pipes sts" by auto
  obtain p' where "pipes_loop (xs @ [st]) p1 = Inr ((xs @ [st]) @ sts, p')" "p_toks p' = []"
    using Cons.IH [OF _ p1(2), of "xs @ [st]"] Cons.prems by auto
  then show ?case
    using p1(1) Cons.prems(2) by (subst pipes_loop.simps) (auto simp: p_toks_view)
qed

lemma wf_expr_zero [simp]: "\<not> wf_expr zero_expr" "Terms zero_expr = []"
  by (simp_all add: wf_expr_def zero_expr_def)

lemma toks_stage_keyword:
  assumes "p_toks p = toks_stage st @ ts" "wf_stage st" "ends_expr ts"
  shows "atPipeStageKeyword p"
proof -
  have t: "\<not> isComparatorStart (head_kind (toks_term t @ us))" for t us
    by (cases t) (auto simp: isComparatorStart_def)
  note e = ends_expr_def isComparatorStart_def
  have "\<not> isComparatorStart (head_kind (tl (toks_stage st @ ts)))"
    using assms(3)
    by (cases st)
       (auto simp: toks_expr_def t, auto simp: toks_agg_def toks_sort_def toks_field_def toks_count_def e
         split: if_splits)
  with assms(1) show ?thesis
    by (cases st) (auto simp: atPipeStageKeyword_def p_toks_view)
qed

lemma toks_expr_no_keyword:
  assumes "p_toks p = toks_expr e @ ts" "wf_expr e"
  shows "\<not> atPipeStageKeyword p"
proof -
  from assms(2) obtain t rest where "Terms e = t # rest" "wf_term t"
    by (cases "Terms e") (auto simp: wf_expr_def)
  with assms(1) op_kind_comparator show ?thesis
    by (cases t) (auto simp: atPipeStageKeyword_def p_toks_view toks_expr_def simp del: op_kind.simps)
qed

lemma ends_expr_pipes: "ends_expr (toks_pipes sts)"
  by (cases sts) (auto simp: ends_expr_def)

lemma parseQuery_reads:
  assumes "wf_query q" "p_toks p = toks_query q"
  shows "parseQuery p = Inr q"
proof (cases "wf_expr (Base q)")
  case True
  then have ne: "Terms (Base q) \<noteq> []" by (simp add: wf_expr_def)
  with assms(2) have p: "p_toks p = toks_expr (Base q) @ toks_pipes (Pipes q)"
    by (simp add: toks_query_def)
  from readsD [OF parseBoolExpr_reads [OF True] p ends_expr_pipes] obtain p1
    where "parseBoolExpr p = Inr (Base q, p1)" "p_toks p1 = toks_pipes (Pipes q)" by blast
  moreover from this(2) pipes_loop_reads [of "Pipes q" p1 "[]"] assms(1) obtain p2
    where "pipes_loop [] p1 = Inr (Pipes q, p2)" "p_toks p2 = []" by (auto simp: wf_query_def)
  ultimately show ?thesis
    using toks_expr_no_keyword [OF p True] by (simp add: parseQuery_def p_toks_view)
next
  case False
  with assms(1) obtain st sts where b: "Base q = zero_expr" "Pipes q = st # sts"
    and w: "wf_stage st" "list_all wf_stage sts"
    by (cases "Pipes q") (auto simp: wf_query_def)
  with assms(2) have p: "p_toks p = toks_stage st @ toks_pipes sts" by (simp add: toks_query_def)
  from readsD [OF parsePipeStage_reads [OF w(1)] p ends_expr_pipes] obtain p1
    where "parsePipeStage p = Inr (st, p1)" "p_toks p1 = toks_pipes sts" by blast
  moreover from this(2) pipes_loop_reads [of sts p1 "[st]"] w obtain p2
    where "pipes_loop [st] p1 = Inr (st # sts, p2)" "p_toks p2 = []" by auto
  moreover have "\<lparr>Base = zero_expr, Pipes = st # sts\<rparr> = q" using b by simp
  ultimately show ?thesis
    using toks_stage_keyword [OF p w(1) ends_expr_pipes] by (simp add: parseQuery_def p_toks_view)
qed

section \<open>Printed tokens are lexable\<close>

definition wf_toks :: "(kind \<times> string) list \<Rightarrow> bool" where
  "wf_toks ts = list_all (\<lambda>(k, v). wf_token k v) ts"

lemma wf_toks_simps [simp]:
  "wf_toks []" "wf_toks ((k, v) # ts) \<longleftrightarrow> wf_token k v \<and> wf_toks ts"
  "wf_toks (us @ ts) \<longleftrightarrow> wf_toks us \<and> wf_toks ts"
  by (auto simp: wf_toks_def)

lemma wf_token_simps [simp]:
  "wf_token Ident v \<longleftrightarrow> wf_ident v" "wf_token String v" "wf_token Number (itoa n)"
  "wf_token Pipe ''|''" "wf_token Eq ''=''" "wf_token Comma '',''" "wf_token LParen ''(''"
  "wf_token RParen '')''" "wf_token Minus ''-''" "wf_token Plus ''+''"
proof -
  have "takeWhile isDigit (itoa n) = itoa n" "dropWhile isDigit (itoa n) = []"
    using itoa_digits [of n] takeWhile_all_append [of isDigit "itoa n" "[]"] by simp_all
  then show "wf_token Number (itoa n)"
    unfolding wf_token_def wf_number_def by (simp del: takeWhile_eq_all_conv dropWhile_eq_Nil_conv)
qed (simp_all add: wf_token_def symbol_text_def)

lemma wf_keywords [simp]:
  "wf_ident ''where''" "wf_ident ''stats''" "wf_ident ''sort''" "wf_ident ''fields''"
  "wf_ident ''head''" "wf_ident ''tail''" "wf_ident ''by''" "wf_ident ''as''" "wf_ident ''and''"
  "wf_ident ''or''" "wf_ident ''earliest''" "wf_ident ''latest''"
  by (simp_all add: wf_ident_def isIdentPart_def isIdentStart_def)

lemma valid_agg_ident: "isValidAggFunc f \<Longrightarrow> wf_ident f"
  by (auto simp: isValidAggFunc_def wf_ident_def isIdentPart_def isIdentStart_def)

lemma valid_unit_ident: "isValidTimeUnit f \<Longrightarrow> wf_ident f"
  by (auto simp: isValidTimeUnit_def wf_ident_def isIdentPart_def isIdentStart_def)

lemma wf_toks_term: "wf_term t \<Longrightarrow> wf_toks (toks_term t)"
proof (cases t)
  case (Comparison f op v)
  moreover assume "wf_term t"
  ultimately show ?thesis
    using op_kind_comparator [of op]
    by (auto simp: wf_token_def isComparatorStart_def simp del: op_kind.simps split: kind.splits)
qed (auto simp: toks_time_def wf_time_def valid_unit_ident)

lemma wf_toks_more:
  "list_all wf_term ts \<Longrightarrow> list_all (\<lambda>c. c \<in> {''and'', ''or''}) cs \<Longrightarrow> wf_toks (toks_more cs ts)"
  by (induction cs ts rule: toks_more.induct) (auto simp: wf_toks_term)

lemma wf_toks_expr: "wf_expr e \<Longrightarrow> wf_toks (toks_expr e)"
  by (cases "Terms e") (auto simp: wf_expr_def toks_expr_def wf_toks_term wf_toks_more)

lemma wf_toks_commas: "list_all (\<lambda>x. wf_toks (f x)) xs \<Longrightarrow> wf_toks (commas f xs)"
  by (induction xs) auto

lemma wf_toks_agg: "wf_agg a \<Longrightarrow> wf_toks (toks_agg a)"
  by (auto simp: wf_agg_def toks_agg_def valid_agg_ident)

lemma wf_toks_stage: "wf_stage st \<Longrightarrow> wf_toks (toks_stage st)"
proof (cases st)
  case (StatsStage aggs byf)
  assume "wf_stage st"
  with StatsStage show ?thesis
    by (cases aggs; cases byf)
       (auto simp: toks_field_def list.pred_mono_strong intro!: wf_toks_agg wf_toks_commas
         elim!: list.pred_mono_strong)
next
  case (SortStage fs)
  assume "wf_stage st"
  with SortStage show ?thesis
    by (cases fs) (auto simp: toks_sort_def intro!: wf_toks_commas elim!: list.pred_mono_strong)
next
  case (FieldsStage fs)
  assume "wf_stage st"
  with FieldsStage show ?thesis
    by (cases fs) (auto simp: toks_field_def intro!: wf_toks_commas elim!: list.pred_mono_strong)
qed (auto simp: wf_toks_expr toks_count_def)

lemma wf_toks_pipes: "list_all wf_stage sts \<Longrightarrow> wf_toks (toks_pipes sts)"
  by (induction sts) (auto simp: wf_toks_stage)

lemma wf_toks_query: "wf_query q \<Longrightarrow> wf_toks (toks_query q)"
  by (cases "Pipes q")
     (auto simp: wf_query_def toks_query_def wf_toks_stage wf_toks_pipes wf_toks_expr wf_expr_def [of "Base q"])

lemma Parse_print:
  assumes "wf_query q"
  shows "Parse (print_query q) = Inr q"
proof -
  let ?ts = "toks_query q"
  have w: "list_all (\<lambda>(k, v). wf_token k v) ?ts"
    using wf_toks_query [OF assms] by (simp add: wf_toks_def)
  have "tokens (New (render ?ts)) = ?ts"
    by (rule tokens_render_rest) (simp_all add: w render_no_space)
  then show ?thesis
    unfolding Parse_def print_query_def by (intro parseQuery_reads assms) (simp add: p_toks_newParser)
qed

section \<open>Parsed trees are well-formed\<close>

text \<open>The tokens a parser state holds came out of \<open>Next\<close>.\<close>

definition tok_ok :: "token \<Rightarrow> bool" where
  "tok_ok t = (Kind t = EOF \<or> Kind t = Illegal \<or> wf_token (Kind t) (Value t))"

definition p_ok :: "parser \<Rightarrow> bool" where
  "p_ok p = (tok_ok (p_cur p) \<and> tok_ok (p_next p))"

lemma tok_ok_Next: "tok_ok (fst (Next l))"
  using Next_lexed_ok [of l] by (simp add: tok_ok_def lexed_ok_def)

lemma p_ok_advance [simp]: "p_ok p \<Longrightarrow> p_ok (advance p)"
  by (simp add: p_ok_def advance_sel tok_ok_Next)

lemma p_ok_newParser: "p_ok (newParser s)"
  using tok_ok_Next [of "New s"]
  by (cases "Next (New s)") (simp add: newParser_def p_ok_def advance_sel tok_ok_Next)

lemma p_ok_cur:
  assumes "p_ok p"
  shows "Kind (p_cur p) = Ident \<Longrightarrow> wf_ident (Value (p_cur p))"
    "isComparatorStart (Kind (p_cur p)) \<Longrightarrow> Value (p_cur p) \<in> set comparators"
  using assms
  by (auto simp: p_ok_def tok_ok_def wf_token_def isComparatorStart_def symbol_text_def comparators_def)

text \<open>\<open>yields f W\<close>: from a good state, what \<open>f\<close> returns satisfies \<open>W\<close> and the state stays
  good.\<close>

definition yields :: "(parser \<Rightarrow> 'a parse) \<Rightarrow> ('a \<Rightarrow> bool) \<Rightarrow> bool" where
  "yields f W = (\<forall>p x p'. p_ok p \<longrightarrow> f p = Inr (x, p') \<longrightarrow> W x \<and> p_ok p')"

lemma yieldsD: "yields f W \<Longrightarrow> f p = Inr (x, p') \<Longrightarrow> p_ok p \<Longrightarrow> W x \<and> p_ok p'"
  by (auto simp: yields_def)

lemma parseTimeExpr_yields: "yields parseTimeExpr wf_time"
  by (auto simp: yields_def parseTimeExpr_def wf_time_def absolute_time_def relative_time_def Let_def
      atoi_bound split: if_splits option.splits)

lemma parseTerm_yields: "yields parseTerm wf_term"
  unfolding yields_def
proof (intro allI impI)
  fix p t p'
  assume ok: "p_ok p" and t: "parseTerm p = Inr (t, p')"
  have ex: "expect k p = Inr p2 \<Longrightarrow> p_ok p \<Longrightarrow> p_ok p2" for k p p2
    by (auto simp: expect_def split: if_splits)
  have "parseComparison p = Inr (t, p') \<Longrightarrow> Kind (p_cur p) = Ident \<Longrightarrow>
      Value (p_cur p) \<notin> {''earliest'', ''latest''} \<Longrightarrow> wf_term t \<and> p_ok p'"
    using ok p_ok_cur
    by (auto simp: parseComparison_def parseComparator_def parseValue_def Let_def result_simps split: if_splits)
  moreover have "parseTimeBound p = Inr (t, p') \<Longrightarrow> Value (p_cur p) \<in> {''earliest'', ''latest''} \<Longrightarrow>
      wf_term t \<and> p_ok p'"
    using ok ex yieldsD [OF parseTimeExpr_yields]
    by (fastforce simp: parseTimeBound_def Let_def result_simps)
  moreover have "parseExplicitFreeText p = Inr (t, p') \<Longrightarrow> wf_term t \<and> p_ok p'"
    using ok ex by (auto simp: parseExplicitFreeText_def result_simps split: if_splits)
  ultimately show "wf_term t \<and> p_ok p'"
    using t ok by (auto simp: parseTerm_def split: kind.splits if_splits)
qed

lemma parseBoolExpr_loop_yields:
  "parseBoolExpr_loop e p = Inr (e', p') \<Longrightarrow> p_ok p \<Longrightarrow> wf_expr e \<Longrightarrow> wf_expr e' \<and> p_ok p'"
proof (induction e p rule: parseBoolExpr_loop.induct)
  case (1 e p)
  have step: "wf_expr (e\<lparr>Terms := Terms e @ [t], Conjs := Conjs e @ [c]\<rparr>)"
    if "wf_term t" "c = ''and'' \<or> c = ''or''" for t c
    using that 1(5) by (cases "Terms e") (auto simp: wf_expr_def)
  note y = yieldsD [OF parseTerm_yields]
  show ?case
  proof (cases "Kind (p_cur p) = Ident \<and> (Value (p_cur p) = ''and'' \<or> Value (p_cur p) = ''or'')")
    case True
    with 1(3) obtain t p1 where t: "parseTerm (advance p) = Inr (t, p1)"
      "parseBoolExpr_loop (e\<lparr>Terms := Terms e @ [t], Conjs := Conjs e @ [Value (p_cur p)]\<rparr>) p1 = Inr (e', p')"
      by (subst (asm) parseBoolExpr_loop.simps) (auto simp: result_simps Let_def)
    from y [OF t(1)] 1(4) have "wf_term t" "p_ok p1" by simp_all
    with 1(1) [OF True refl t(1) refl t(2)] step True show ?thesis by blast
  next
    case False
    show ?thesis
    proof (cases "canStartTerm p")
      case True
      with False 1(3) obtain t p1 where t: "parseTerm p = Inr (t, p1)"
        "parseBoolExpr_loop (e\<lparr>Terms := Terms e @ [t], Conjs := Conjs e @ [''and'']\<rparr>) p1 = Inr (e', p')"
        by (subst (asm) parseBoolExpr_loop.simps) (auto simp: result_simps Let_def)
      from y [OF t(1)] 1(4) have "wf_term t" "p_ok p1" by simp_all
      with 1(2) [OF False True t(1) refl t(2)] step show ?thesis by blast
    next
      case no: False
      from no False 1(3) have "e' = e" "p' = p"
        by (subst (asm) parseBoolExpr_loop.simps, auto)+
      with 1 show ?thesis by simp
    qed
  qed
qed

lemma parseBoolExpr_yields: "yields parseBoolExpr wf_expr"
  unfolding yields_def
proof (intro allI impI)
  fix p e p' assume ok: "p_ok p" and e: "parseBoolExpr p = Inr (e, p')"
  then obtain t p1 where t: "parseTerm p = Inr (t, p1)"
    "parseBoolExpr_loop \<lparr>Terms = [t], Conjs = []\<rparr> p1 = Inr (e, p')"
    by (auto simp: parseBoolExpr_def result_simps)
  from yieldsD [OF parseTerm_yields t(1) ok] parseBoolExpr_loop_yields [OF t(2)]
  show "wf_expr e \<and> p_ok p'" by (simp add: wf_expr_def)
qed

lemma parseFieldIdent_yields: "yields parseFieldIdent wf_ident"
  by (auto simp: yields_def parseFieldIdent_def p_ok_cur split: if_splits)

lemma parseSortField_yields: "yields parseSortField (\<lambda>f. wf_ident (sf_Field f))"
  by (auto simp: yields_def parseSortField_def p_ok_cur Let_def split: if_splits)

lemma parseAggCall_yields: "yields parseAggCall wf_agg"
  by (auto simp: yields_def parseAggCall_def parseAggArg_def parseAlias_def expect_def wf_agg_def
      p_ok_cur Let_def result_simps split: if_splits)

context comma_loop
begin

lemma loop_yields:
  assumes "yields item W"
  shows "loop xs p = Inr (ys, p') \<Longrightarrow> p_ok p \<Longrightarrow> list_all W xs \<Longrightarrow> xs \<noteq> [] \<Longrightarrow>
    list_all W ys \<and> ys \<noteq> [] \<and> p_ok p'"
proof (induction "p_size p" arbitrary: p xs rule: less_induct)
  case less
  show ?case
  proof (cases "Kind (p_cur p) = Comma")
    case True
    with less(2) obtain x p1 where x: "item (advance p) = Inr (x, p1)" "loop (xs @ [x]) p1 = Inr (ys, p')"
      by (subst (asm) loop_unfold) (auto simp: result_simps)
    have "p_size p1 < p_size p"
      using item_shrinks [OF x(1)] advance_less [of p] True by simp
    from less(1) [OF this x(2)] yieldsD [OF assms x(1)] less(3-) show ?thesis by simp
  next
    case False
    then show ?thesis using less(2-) loop_unfold [of xs p] by simp
  qed
qed

end

lemma parseBy_yields: "yields parseBy (list_all wf_ident)"
  using yieldsD [OF parseFieldIdent_yields] field_list.loop_yields [OF parseFieldIdent_yields]
  by (fastforce simp: yields_def parseBy_def result_simps split: if_splits)

lemma parsePipeStage_yields: "yields parsePipeStage wf_stage"
  unfolding yields_def
proof (intro allI impI)
  fix p st p' assume ok: "p_ok p" and st: "parsePipeStage p = Inr (st, p')"
  have a: "p_ok (advance p)" using ok by simp
  have "parseStatsStage p = Inr (st, p') \<Longrightarrow> wf_stage st \<and> p_ok p'"
    using yieldsD [OF parseAggCall_yields _ a] agg_list.loop_yields [OF parseAggCall_yields]
      yieldsD [OF parseBy_yields]
    by (fastforce simp: parseStatsStage_def result_simps)
  moreover have "parseSortStage p = Inr (st, p') \<Longrightarrow> wf_stage st \<and> p_ok p'"
    using yieldsD [OF parseSortField_yields _ a] sort_list.loop_yields [OF parseSortField_yields]
    by (fastforce simp: parseSortStage_def result_simps)
  moreover have "parseFieldsStage p = Inr (st, p') \<Longrightarrow> wf_stage st \<and> p_ok p'"
    using yieldsD [OF parseFieldIdent_yields _ a] field_list.loop_yields [OF parseFieldIdent_yields]
    by (fastforce simp: parseFieldsStage_def result_simps)
  moreover have "parseHeadTailStage b p = Inr (st, p') \<Longrightarrow> wf_stage st \<and> p_ok p'" for b
    using ok atoi_bound
    by (auto simp: parseHeadTailStage_def Let_def split: if_splits option.splits)
  ultimately show "wf_stage st \<and> p_ok p'"
    using st yieldsD [OF parseBoolExpr_yields _ a]
    by (auto simp: parsePipeStage_def result_simps split: if_splits)
qed

lemma pipes_loop_yields:
  "pipes_loop xs p = Inr (ys, p') \<Longrightarrow> p_ok p \<Longrightarrow> list_all wf_stage xs \<Longrightarrow>
     list_all wf_stage ys \<and> length xs \<le> length ys"
proof (induction xs p rule: pipes_loop.induct)
  case (1 xs p)
  show ?case
  proof (cases "Kind (p_cur p) = Pipe")
    case True
    with 1(2) obtain x p1 where x: "parsePipeStage (advance p) = Inr (x, p1)"
      "pipes_loop (xs @ [x]) p1 = Inr (ys, p')"
      by (subst (asm) pipes_loop.simps) (auto simp: result_simps)
    from 1(1) [OF True x(1) refl x(2)] yieldsD [OF parsePipeStage_yields x(1)] 1(3,4)
    show ?thesis by simp
  next
    case False
    then show ?thesis using 1(2-) pipes_loop.simps [of xs p] by simp
  qed
qed

lemma Parse_wf: "Parse s = Inr q \<Longrightarrow> wf_query q"
proof -
  assume "Parse s = Inr q"
  then have q: "parseQuery (newParser s) = Inr q" by (simp add: Parse_def)
  let ?p = "newParser s"
  note ok = p_ok_newParser [of s]
  show ?thesis
  proof (cases "atPipeStageKeyword ?p")
    case True
    with q obtain st p1 p2 where "parsePipeStage ?p = Inr (st, p1)"
      "pipes_loop [st] p1 = Inr (Pipes q, p2)" "Base q = zero_expr"
      by (auto simp: parseQuery_def result_simps split: if_splits)
    with yieldsD [OF parsePipeStage_yields _ ok] pipes_loop_yields [of "[st]" p1 "Pipes q" p2]
    show ?thesis by (cases "Pipes q") (auto simp: wf_query_def)
  next
    case False
    with q obtain b p1 p2 where "parseBoolExpr ?p = Inr (b, p1)"
      "pipes_loop [] p1 = Inr (Pipes q, p2)" "Base q = b"
      by (auto simp: parseQuery_def result_simps split: if_splits)
    with yieldsD [OF parseBoolExpr_yields _ ok] pipes_loop_yields [of "[]" p1 "Pipes q" p2]
    show ?thesis by (auto simp: wf_query_def)
  qed
qed

section \<open>Error positions\<close>

text \<open>\<open>p_in n p\<close>: both tokens the parser holds start inside an input of \<open>n\<close> runes, and so
  does every token still to come.\<close>

definition p_in :: "nat \<Rightarrow> parser \<Rightarrow> bool" where
  "p_in n p = (Pos (p_cur p) \<le> n \<and> Pos (p_next p) \<le> n
     \<and> length (l_input (p_lex p)) = n \<and> l_pos (p_lex p) \<le> n)"

definition errs_in :: "(parser \<Rightarrow> 'a parse) \<Rightarrow> bool" where
  "errs_in f = (\<forall>n p. p_in n p \<longrightarrow>
     (case f p of Inl e \<Rightarrow> err_pos e \<le> n | Inr (x, p') \<Rightarrow> p_in n p'))"

lemma Next_in:
  assumes "l_pos l \<le> length (l_input l)"
  shows "Pos (fst (Next l)) \<le> length (l_input l)" "l_input (snd (Next l)) = l_input l"
    "l_pos (snd (Next l)) \<le> length (l_input l)"
proof -
  have "l_pos (skipWhitespace l) \<le> length (l_input l)"
    using scanWhile_le_length [OF assms] by (simp add: skipWhitespace_def)
  with Next_cases [of l] skipWhitespace_pos(2) [of l]
  show "Pos (fst (Next l)) \<le> length (l_input l)" "l_input (snd (Next l)) = l_input l"
    "l_pos (snd (Next l)) \<le> length (l_input l)"
    by (auto simp: advances_def)
qed

lemma p_in_advance [simp]: "p_in n p \<Longrightarrow> p_in n (advance p)"
  using Next_in [of "p_lex p"] by (auto simp: p_in_def advance_sel)

lemma p_in_newParser: "p_in (length s) (newParser s)"
proof -
  have "l_pos (New s) \<le> length (l_input (New s))" by (simp add: New_def)
  note a = Next_in [OF this]
  have "p_in (length s) \<lparr>p_lex = snd (Next (New s)), p_cur = Token EOF [] 0, p_next = fst (Next (New s))\<rparr>"
    using a by (simp add: p_in_def New_def)
  from p_in_advance [OF this] show ?thesis
    by (cases "Next (New s)") (simp add: newParser_def)
qed

lemma err_pos_errorf [simp]: "p_in n p \<Longrightarrow> err_pos (errorf p r) \<le> n"
  by (simp add: errorf_def p_in_def)

lemma errs_inD:
  assumes "errs_in f" "p_in n p"
  shows "f p = Inl e \<Longrightarrow> err_pos e \<le> n" "f p = Inr (x, p') \<Longrightarrow> p_in n p'"
  using assms by (fastforce simp: errs_in_def)+

lemma errs_in_bind:
  assumes "errs_in f" "\<And>x. errs_in (g x)"
  shows "errs_in (\<lambda>p. bindE (f p) (\<lambda>(x, p). g x p))"
  unfolding errs_in_def
proof (intro allI impI)
  fix n p assume p: "p_in n p"
  show "case bindE (f p) (\<lambda>(x, p). g x p) of Inl e \<Rightarrow> err_pos e \<le> n | Inr (x, p') \<Rightarrow> p_in n p'"
  proof (cases "f p")
    case (Inl e)
    then show ?thesis using errs_inD(1) [OF assms(1) p] by simp
  next
    case (Inr r)
    then obtain x p1 where x: "f p = Inr (x, p1)" by (cases r) simp
    with errs_inD(2) [OF assms(1) p x] assms(2) show ?thesis by (simp add: errs_in_def)
  qed
qed

lemma errs_in_expect:
  assumes "errs_in g"
  shows "errs_in (\<lambda>p. bindE (expect k p) g)"
  using assms by (auto simp: errs_in_def expect_def)

lemma errs_in_with:
  assumes "\<And>v. errs_in (f v)"
  shows "errs_in (\<lambda>p. f (h p) p)"
  using assms by (auto simp: errs_in_def)

lemma errs_in_pure: "errs_in (\<lambda>p. Inr (x, p))"
  by (auto simp: errs_in_def)

lemma errs_in_advance: "errs_in f \<Longrightarrow> errs_in (\<lambda>p. f (advance p))"
  by (auto simp: errs_in_def)

lemma parseTimeExpr_in: "errs_in parseTimeExpr"
  by (auto simp: errs_in_def parseTimeExpr_def Let_def split: option.splits)

lemma parseTerm_in: "errs_in parseTerm"
proof -
  have "errs_in parseComparison"
    by (auto simp: errs_in_def parseComparison_def parseComparator_def parseValue_def Let_def)
  moreover have "errs_in parseTimeBound"
    unfolding parseTimeBound_def Let_def
    by (rule errs_in_with, rule errs_in_advance, rule errs_in_expect, rule errs_in_bind)
       (rule parseTimeExpr_in errs_in_pure)+
  moreover have "errs_in parseExplicitFreeText"
    by (auto simp: errs_in_def parseExplicitFreeText_def expect_def)
  ultimately show ?thesis
    by (auto simp: errs_in_def parseTerm_def split: kind.splits)
qed

lemma parseFieldIdent_in: "errs_in parseFieldIdent"
  by (auto simp: errs_in_def parseFieldIdent_def)

lemma parseSortField_in: "errs_in parseSortField"
  by (auto simp: errs_in_def parseSortField_def Let_def)

lemma parseAggCall_in: "errs_in parseAggCall"
proof -
  have "errs_in parseAggArg" "errs_in parseAlias"
    by (auto simp: errs_in_def parseAggArg_def parseAlias_def expect_def Let_def)
  then have "errs_in (\<lambda>p. bindE (parseAggArg (advance p)) (\<lambda>(field, p).
      bindE (parseAlias p) (\<lambda>(alias, p). Inr (\<lparr>Func = fn, Field = field, Alias = alias\<rparr>, p))))" for fn
    by (intro errs_in_bind errs_in_pure errs_in_advance)
  then show ?thesis by (simp add: errs_in_def parseAggCall_def Let_def)
qed

context comma_loop
begin

lemma loop_in:
  assumes "errs_in item"
  shows "errs_in (loop xs)"
proof -
  have "p_in n p \<Longrightarrow> (case loop xs p of Inl e \<Rightarrow> err_pos e \<le> n | Inr (x, p') \<Rightarrow> p_in n p')" for n p
  proof (induction "p_size p" arbitrary: p xs rule: less_induct)
    case less
    show ?case
    proof (cases "Kind (p_cur p) = Comma")
      case True
      show ?thesis
      proof (cases "item (advance p)")
        case (Inl e)
        with errs_inD(1) [OF assms, of n "advance p"] less(2) True show ?thesis
          by (subst loop_unfold) simp
      next
        case (Inr r)
        then obtain x p1 where x: "item (advance p) = Inr (x, p1)" by (cases r) simp
        have "p_size p1 < p_size p" "p_in n p1"
          using item_shrinks [OF x] advance_less [of p] True errs_inD(2) [OF assms _ x] less(2)
          by simp_all
        from less(1) [OF this] x True show ?thesis by (subst loop_unfold) simp
      qed
    next
      case False
      with less(2) show ?thesis by (subst loop_unfold) simp
    qed
  qed
  then show ?thesis by (simp add: errs_in_def)
qed

end

lemma parseBoolExpr_loop_in:
  "p_in n p \<Longrightarrow> (case parseBoolExpr_loop e p of Inl e \<Rightarrow> err_pos e \<le> n | Inr (x, p') \<Rightarrow> p_in n p')"
proof (induction e p rule: parseBoolExpr_loop.induct)
  case (1 e p)
  note t = errs_inD [OF parseTerm_in, of n]
  consider (conj) "Kind (p_cur p) = Ident \<and> (Value (p_cur p) = ''and'' \<or> Value (p_cur p) = ''or'')"
    | (adj) "\<not> (Kind (p_cur p) = Ident \<and> (Value (p_cur p) = ''and'' \<or> Value (p_cur p) = ''or''))" "canStartTerm p"
    | (stop) "\<not> (Kind (p_cur p) = Ident \<and> (Value (p_cur p) = ''and'' \<or> Value (p_cur p) = ''or''))" "\<not> canStartTerm p"
    by blast
  then show ?case
  proof cases
    case conj
    show ?thesis
    proof (cases "parseTerm (advance p)")
      case (Inr r)
      then obtain x p1 where x: "parseTerm (advance p) = Inr (x, p1)" by (cases r) simp
      with 1(1) [OF conj refl x refl] t(2) [OF _ x] 1(3) conj show ?thesis
        by (subst parseBoolExpr_loop.simps) (simp add: Let_def)
    qed (use t(1) [of "advance p"] 1(3) conj in \<open>subst parseBoolExpr_loop.simps, simp add: Let_def\<close>)
  next
    case adj
    show ?thesis
    proof (cases "parseTerm p")
      case (Inr r)
      then obtain x p1 where x: "parseTerm p = Inr (x, p1)" by (cases r) simp
      with 1(2) [OF adj x refl] t(2) [OF _ x] 1(3) adj show ?thesis
        by (subst parseBoolExpr_loop.simps) (auto simp: Let_def)
    qed (use t(1) [of p] 1(3) adj in \<open>subst parseBoolExpr_loop.simps, auto simp: Let_def\<close>)
  next
    case stop
    with 1(3) show ?thesis by (subst parseBoolExpr_loop.simps) auto
  qed
qed

lemma parseBoolExpr_in: "errs_in parseBoolExpr"
  unfolding parseBoolExpr_def
  by (intro errs_in_bind parseTerm_in) (simp add: errs_in_def parseBoolExpr_loop_in)

lemma parseBy_in: "errs_in parseBy"
proof -
  have "errs_in (\<lambda>p. bindE (parseFieldIdent (advance p)) (\<lambda>(f, p). fieldIdents_loop [f] p))"
    by (intro errs_in_bind errs_in_advance field_list.loop_in parseFieldIdent_in)
  then show ?thesis by (simp add: errs_in_def parseBy_def)
qed

lemma parsePipeStage_in: "errs_in parsePipeStage"
proof -
  have "errs_in parseStatsStage"
    unfolding parseStatsStage_def
    by (intro errs_in_bind errs_in_advance errs_in_pure agg_list.loop_in parseAggCall_in parseBy_in)
  moreover have "errs_in parseSortStage"
    unfolding parseSortStage_def
    by (intro errs_in_bind errs_in_advance errs_in_pure sort_list.loop_in parseSortField_in)
  moreover have "errs_in parseFieldsStage"
    unfolding parseFieldsStage_def
    by (intro errs_in_bind errs_in_advance errs_in_pure field_list.loop_in parseFieldIdent_in)
  moreover have "errs_in (parseHeadTailStage b)" for b
    by (auto simp: errs_in_def parseHeadTailStage_def Let_def split: option.splits)
  moreover have "errs_in (\<lambda>p. bindE (parseBoolExpr (advance p)) (\<lambda>(e, p). Inr (WhereStage e, p)))"
    by (intro errs_in_bind errs_in_advance errs_in_pure parseBoolExpr_in)
  ultimately show ?thesis
    by (simp add: errs_in_def parsePipeStage_def)
qed

lemma pipes_loop_in:
  "p_in n p \<Longrightarrow> (case pipes_loop xs p of Inl e \<Rightarrow> err_pos e \<le> n | Inr (x, p') \<Rightarrow> p_in n p')"
proof (induction xs p rule: pipes_loop.induct)
  case (1 xs p)
  note t = errs_inD [OF parsePipeStage_in, of n "advance p"]
  show ?case
  proof (cases "Kind (p_cur p) = Pipe")
    case True
    show ?thesis
    proof (cases "parsePipeStage (advance p)")
      case (Inr r)
      then obtain x p1 where x: "parsePipeStage (advance p) = Inr (x, p1)" by (cases r) simp
      with 1(1) [OF True x refl] t(2) [OF _ x] 1(2) True show ?thesis
        by (subst pipes_loop.simps) simp
    qed (use t(1) 1(2) True in \<open>subst pipes_loop.simps, simp\<close>)
  next
    case False
    with 1(2) show ?thesis by (subst pipes_loop.simps) simp
  qed
qed

section \<open>Properties\<close>

text \<open>C2: The parser is total on every input, and every tree it returns is well-formed (one
  conjunction keyword per gap between terms, operators among the six comparators, names that
  are identifiers, numbers within \<open>int\<close>) and is read back unchanged from its canonical print.\<close>

theorem Parse_print_Parse:
  assumes "Parse s = Inr q"
  shows "wf_query q \<and> Parse (print_query q) = Inr q"
  using Parse_wf [OF assms] Parse_print by blast

theorem Parse_print_Parse_witness:
  "let q = projr (Parse ''error host=web-01 earliest=-1h | stats count, sum(bytes) as b by host'')
   in wf_query q \<and> Parse (print_query q) = Inr q"
proof -
  have "\<exists>q. Parse ''error host=web-01 earliest=-1h | stats count, sum(bytes) as b by host'' = Inr q"
  proof -
    have "is_ok (Parse ''error host=web-01 earliest=-1h | stats count, sum(bytes) as b by host'')"
      by code_simp
    then show ?thesis by (auto simp: is_ok_def split: sum.splits)
  qed
  then obtain q where "Parse ''error host=web-01 earliest=-1h | stats count, sum(bytes) as b by host'' = Inr q"
    by blast
  with Parse_print_Parse [OF this] show ?thesis by simp
qed



end
