(* ===== verification/Planner.thy ===== *)
theory Planner
  imports Parser
begin

text \<open>
  The intermediate representation (\<open>api/internal/querylang/ir/ir.go\<close>) and the planner
  that compiles both query syntaxes to it
  (\<open>api/internal/querylang/planner/planner.go\<close>). A Go \<open>time.Time\<close> is the number of
  nanoseconds since Go's zero time, so the zero value is 0; a \<open>time.Duration\<close> is a
  64-bit number of nanoseconds and its arithmetic wraps. \<open>time.Parse(time.RFC3339, _)\<close> is
  the argument \<open>parse_time\<close>. A panic on a slice index is the error \<open>IndexOutOfRange\<close>.
\<close>

record filter_predicate =
  fp_Field :: string
  fp_Op :: string
  fp_Value :: string

record agg_func =
  af_Func :: string
  af_Field :: string
  af_Alias :: string

record aggregation =
  Funcs :: "agg_func list"
  GroupBy :: "string list"

record ir_limit =
  lim_N :: int
  lim_Tail :: bool

record time_range =
  From :: gotime
  To :: gotime

record plan =
  RawSQL :: string
  TextSearch :: "string list"
  Filters :: "filter_predicate list"
  TimeRange :: "time_range option"
  Aggregation :: "aggregation option"
  Sort :: "sort_field list"
  Fields :: "string list"
  Limit :: "ir_limit option"

datatype plan_error =
    OrOnFilter string
  | OrOnTimeBound string
  | InvalidTimestamp string
  | UnknownTimeUnit string
  | AggRequiresField string
  | IndexOutOfRange
  | QuerySyntax parse_error
  | EmptyQuery
  | MultipleStatements
  | NotSelect
  | DisallowedKeyword
  | DisallowedTableFunction

definition zero_plan :: plan where
  "zero_plan = \<lparr>RawSQL = [], TextSearch = [], Filters = [], TimeRange = None, Aggregation = None,
     Sort = [], Fields = [], Limit = None\<rparr>"

definition defaultLimit :: int where "defaultLimit = 100"

section \<open>Time bounds\<close>

definition dur_mul :: "int \<Rightarrow> int \<Rightarrow> int" where
  "dur_mul a b = wrap64 (a * b)"

definition resolveTimeExpr :: "(string \<Rightarrow> gotime option) \<Rightarrow> time_expr \<Rightarrow> gotime \<Rightarrow> (plan_error, gotime) result" where
  "resolveTimeExpr parse_time e now =
    (if \<not> IsRelative e then
       (case parse_time (Absolute e) of None \<Rightarrow> Inl (InvalidTimestamp (Absolute e)) | Some t \<Rightarrow> Inr t)
     else bindE
       (let n = RelativeN e; u = RelativeUnit e in
        if u = ''s'' then Inr (dur_mul n Second)
        else if u = ''m'' then Inr (dur_mul n Minute)
        else if u = ''h'' then Inr (dur_mul n Hour)
        else if u = ''d'' then Inr (dur_mul (dur_mul n 24) Hour)
        else if u = ''w'' then Inr (dur_mul (dur_mul (dur_mul n 7) 24) Hour)
        else Inl (UnknownTimeUnit u))
       (\<lambda>d. Inr (now + (if RelativeSign e < 0 then wrap64 (- d) else d))))"

definition applyTimeBound :: "(string \<Rightarrow> gotime option) \<Rightarrow> plan \<Rightarrow> string \<Rightarrow> time_expr \<Rightarrow> gotime \<Rightarrow> (plan_error, plan) result" where
  "applyTimeBound parse_time pl kind e now =
     bindE (resolveTimeExpr parse_time e now) (\<lambda>when.
       let r = (case TimeRange pl of None \<Rightarrow> \<lparr>From = 0, To = 0\<rparr> | Some r \<Rightarrow> r);
         r = (if kind = ''earliest'' then r\<lparr>From := when\<rparr>
              else if kind = ''latest'' then r\<lparr>To := when\<rparr> else r)
       in Inr (pl\<lparr>TimeRange := Some r\<rparr>))"

section \<open>Boolean expressions\<close>

definition escape_quotes :: "string \<Rightarrow> string" where
  "escape_quotes q = concat (map (\<lambda>c. if c = CHR 0x22 then [CHR 0x5C, CHR 0x22] else [c]) q)"

definition text_query :: "string \<Rightarrow> string" where
  "text_query q = (if list_ex (\<lambda>c. c = CHR '' '' \<or> c = CHR 0x09) q
     then [CHR 0x22] @ escape_quotes q @ [CHR 0x22] else q)"

text \<open>\<open>conj\<close> of the \<open>i\<close>-th term: empty for the first, otherwise \<open>expr.Conjs[i-1]\<close>.\<close>

definition conj_at :: "string list \<Rightarrow> nat \<Rightarrow> string option" where
  "conj_at cs i = (if i = 0 then Some [] else if i - 1 < length cs then Some (cs ! (i - 1)) else None)"

definition compileTerm :: "(string \<Rightarrow> gotime option) \<Rightarrow> gotime \<Rightarrow> string \<Rightarrow> search_term \<Rightarrow> plan \<Rightarrow> string list
    \<Rightarrow> (plan_error, plan \<times> string list) result" where
  "compileTerm parse_time now cj t pl parts = (case t of
     Comparison f op v \<Rightarrow>
       if cj = ''or'' then Inl (OrOnFilter f)
       else Inr (pl\<lparr>Filters := Filters pl @ [\<lparr>fp_Field = f, fp_Op = op, fp_Value = v\<rparr>]\<rparr>, parts)
   | TimeBound k e \<Rightarrow>
       if cj = ''or'' then Inl (OrOnTimeBound k)
       else bindE (applyTimeBound parse_time pl k e now) (\<lambda>pl. Inr (pl, parts))
   | FreeText q \<Rightarrow>
       Inr (pl, if cj = ''or'' then parts @ [''OR'', text_query q]
                else if length parts > 0 then parts @ [''AND'', text_query q]
                else parts @ [text_query q]))"

fun compileTerms :: "(string \<Rightarrow> gotime option) \<Rightarrow> gotime \<Rightarrow> string list \<Rightarrow> nat \<Rightarrow> search_term list \<Rightarrow> plan
    \<Rightarrow> string list \<Rightarrow> (plan_error, plan \<times> string list) result" where
  "compileTerms parse_time now cs i [] pl parts = Inr (pl, parts)"
| "compileTerms parse_time now cs i (t # ts) pl parts =
     (case conj_at cs i of None \<Rightarrow> Inl IndexOutOfRange
      | Some cj \<Rightarrow> bindE (compileTerm parse_time now cj t pl parts) (\<lambda>(pl, parts).
          compileTerms parse_time now cs (Suc i) ts pl parts))"

definition compileBoolExpr :: "(string \<Rightarrow> gotime option) \<Rightarrow> bool_expr \<Rightarrow> plan \<Rightarrow> gotime
    \<Rightarrow> (plan_error, plan \<times> string list) result" where
  "compileBoolExpr parse_time expr pl now = compileTerms parse_time now (Conjs expr) 0 (Terms expr) pl []"

section \<open>Aggregations\<close>

definition defaultAggAlias :: "agg_call \<Rightarrow> string" where
  "defaultAggAlias a = (if Func a = ''count'' then ''count'' else Func a)"

definition agg_alias :: "string set \<Rightarrow> agg_call \<Rightarrow> string" where
  "agg_alias seen a = (let alias = (if Alias a = [] then defaultAggAlias a else Alias a) in
     if alias \<in> seen \<and> Alias a = [] then alias @ ''_'' @ Field a else alias)"

fun compileAggs :: "string set \<Rightarrow> agg_call list \<Rightarrow> agg_func list \<Rightarrow> (plan_error, agg_func list) result" where
  "compileAggs seen [] fs = Inr fs"
| "compileAggs seen (a # as) fs =
     (if Func a \<noteq> ''count'' \<and> Field a = [] then Inl (AggRequiresField (Func a))
      else let alias = agg_alias seen a in
        compileAggs (insert alias seen) as
          (fs @ [\<lparr>af_Func = Func a, af_Field = Field a, af_Alias = alias\<rparr>]))"

definition compileStats :: "agg_call list \<Rightarrow> string list \<Rightarrow> (plan_error, aggregation) result" where
  "compileStats aggs byf = bindE (compileAggs {} aggs []) (\<lambda>fs. Inr \<lparr>Funcs = fs, GroupBy = byf\<rparr>)"

section \<open>Stages and queries\<close>

definition compileStage :: "(string \<Rightarrow> gotime option) \<Rightarrow> gotime \<Rightarrow> pipe_stage \<Rightarrow> plan \<Rightarrow> string list
    \<Rightarrow> (plan_error, plan \<times> string list) result" where
  "compileStage parse_time now st pl parts = (case st of
     WhereStage e \<Rightarrow> bindE (compileBoolExpr parse_time e pl now) (\<lambda>(pl, ps). Inr (pl, parts @ ps))
   | StatsStage aggs byf \<Rightarrow> bindE (compileStats aggs byf) (\<lambda>agg. Inr (pl\<lparr>Aggregation := Some agg\<rparr>, parts))
   | SortStage fs \<Rightarrow> Inr (pl\<lparr>Sort := Sort pl @ fs\<rparr>, parts)
   | FieldsStage fs \<Rightarrow> Inr (pl\<lparr>Fields := Fields pl @ fs\<rparr>, parts)
   | HeadStage n h \<Rightarrow>
       Inr (pl\<lparr>Limit := Some \<lparr>lim_N = (if h then n else defaultLimit), lim_Tail = False\<rparr>\<rparr>, parts)
   | TailStage n h \<Rightarrow>
       Inr (pl\<lparr>Limit := Some \<lparr>lim_N = (if h then n else defaultLimit), lim_Tail = True\<rparr>\<rparr>, parts))"

fun compileStages :: "(string \<Rightarrow> gotime option) \<Rightarrow> gotime \<Rightarrow> pipe_stage list \<Rightarrow> plan \<Rightarrow> string list
    \<Rightarrow> (plan_error, plan \<times> string list) result" where
  "compileStages parse_time now [] pl parts = Inr (pl, parts)"
| "compileStages parse_time now (st # sts) pl parts =
     bindE (compileStage parse_time now st pl parts) (\<lambda>(pl, parts).
       compileStages parse_time now sts pl parts)"

fun join :: "string \<Rightarrow> string list \<Rightarrow> string" where
  "join sep [] = []"
| "join sep [x] = x"
| "join sep (x # y # xs) = x @ sep @ join sep (y # xs)"

definition compileQuery :: "(string \<Rightarrow> gotime option) \<Rightarrow> ast_query \<Rightarrow> gotime \<Rightarrow> (plan_error, plan) result" where
  "compileQuery parse_time q now =
     bindE (compileBoolExpr parse_time (Base q) zero_plan now) (\<lambda>(pl, parts).
     bindE (compileStages parse_time now (Pipes q) pl parts) (\<lambda>(pl, parts).
       Inr (if length parts > 0 then pl\<lparr>TextSearch := [join '' '' parts]\<rparr> else pl)))"

section \<open>The SQL escape hatch\<close>

text \<open>\<open>\s\<close>, \<open>\b\<close> and \<open>(?i)\<close> as in the regexp package.\<close>

definition isReSpace :: "char \<Rightarrow> bool" where
  "isReSpace c = (c = CHR 0x09 \<or> c = CHR 0x0A \<or> c = CHR 0x0C \<or> c = CHR 0x0D \<or> c = CHR '' '')"

definition isWordChar :: "char \<Rightarrow> bool" where
  "isWordChar c = (isDigit c \<or> (CHR ''a'' \<le> c \<and> c \<le> CHR ''z'') \<or> (CHR ''A'' \<le> c \<and> c \<le> CHR ''Z'') \<or> c = CHR ''_'')"

definition to_lower :: "char \<Rightarrow> char" where
  "to_lower c = (if CHR ''A'' \<le> c \<and> c \<le> CHR ''Z'' then char_of (of_char c + 32 :: nat) else c)"

definition to_upper :: "char \<Rightarrow> char" where
  "to_upper c = (if CHR ''a'' \<le> c \<and> c \<le> CHR ''z'' then char_of (of_char c - 32 :: nat) else c)"

definition TrimSuffix :: "string \<Rightarrow> string \<Rightarrow> string" where
  "TrimSuffix s suf = (if length suf \<le> length s \<and> drop (length s - length suf) s = suf
     then take (length s - length suf) s else s)"

text \<open>The first element of \<open>strings.Fields\<close>, if there is one.\<close>

definition first_field :: "string \<Rightarrow> string option" where
  "first_field s = (case dropWhile isUniSpace s of [] \<Rightarrow> None
     | c # cs \<Rightarrow> Some (takeWhile (\<lambda>c. \<not> isUniSpace c) (c # cs)))"

definition looksLikeSQL :: "string \<Rightarrow> bool" where
  "looksLikeSQL query = (let trimmed = TrimSpace query in
     if trimmed = [] then False
     else case first_field trimmed of None \<Rightarrow> False | Some f \<Rightarrow> map to_upper f = ''SELECT'')"

definition wordBoundary :: "string \<Rightarrow> nat \<Rightarrow> bool" where
  "wordBoundary s i = ((0 < i \<and> i - 1 < length s \<and> isWordChar (s ! (i - 1)))
     \<noteq> (i < length s \<and> isWordChar (s ! i)))"

definition keyword_at :: "string \<Rightarrow> string \<Rightarrow> nat \<Rightarrow> bool" where
  "keyword_at s kw i = (map to_lower (take (length kw) (drop i s)) = kw)"

definition disallowed_keywords :: "string list" where
  "disallowed_keywords = [''insert'', ''update'', ''delete'', ''alter'', ''drop'', ''truncate'', ''create'',
     ''grant'', ''revoke'', ''attach'', ''detach'', ''rename'', ''kill'', ''optimize'', ''system'', ''set'',
     ''exchange'', ''watch'']"

definition disallowed_functions :: "string list" where
  "disallowed_functions = [''url'', ''remote'', ''remotesecure'', ''mysql'', ''postgresql'', ''s3'',
     ''s3cluster'', ''hdfs'', ''hdfscluster'', ''file'', ''odbc'', ''jdbc'', ''executable'', ''cluster'',
     ''clusterallreplicas'', ''azureblobstorage'', ''deltalake'', ''iceberg'', ''hudi'', ''redis'', ''mongodb'']"

definition disallowedKeyword :: "string \<Rightarrow> bool" where
  "disallowedKeyword s = list_ex (\<lambda>i. list_ex (\<lambda>kw.
     wordBoundary s i \<and> keyword_at s kw i \<and> wordBoundary s (i + length kw)) disallowed_keywords)
     [0..<Suc (length s)]"

definition disallowedTableFunction :: "string \<Rightarrow> bool" where
  "disallowedTableFunction s = list_ex (\<lambda>i. list_ex (\<lambda>kw.
     wordBoundary s i \<and> keyword_at s kw i
       \<and> (case dropWhile isReSpace (drop (i + length kw) s) of [] \<Rightarrow> False | c # _ \<Rightarrow> c = CHR ''(''))
     disallowed_functions) [0..<Suc (length s)]"

definition validateSelectOnly :: "string \<Rightarrow> (plan_error, unit) result" where
  "validateSelectOnly sql = (let trimmed = TrimSpace sql in
     if trimmed = [] then Inl EmptyQuery
     else let trimmed = TrimSpace (TrimSuffix trimmed '';'') in
     if trimmed = [] then Inl EmptyQuery
     else if list_ex (\<lambda>c. c = CHR '';'') trimmed then Inl MultipleStatements
     else case first_field trimmed of None \<Rightarrow> Inl IndexOutOfRange
     | Some w \<Rightarrow>
       if map to_upper w \<noteq> ''SELECT'' then Inl NotSelect
       else if disallowedKeyword trimmed then Inl DisallowedKeyword
       else if disallowedTableFunction trimmed then Inl DisallowedTableFunction
       else Inr ())"

datatype language = Auto | SQL | SPL

definition Compile :: "(string \<Rightarrow> gotime option) \<Rightarrow> string \<Rightarrow> language \<Rightarrow> gotime \<Rightarrow> (plan_error, plan) result" where
  "Compile parse_time query lang now =
    (let isSQL = (if lang = Auto then looksLikeSQL query else lang = SQL) in
     if isSQL then bindE (validateSelectOnly query) (\<lambda>_.
       Inr (zero_plan\<lparr>RawSQL := TrimSpace (TrimSuffix (TrimSpace query) '';'')\<rparr>))
     else case Parse query of Inl e \<Rightarrow> Inl (QuerySyntax e)
     | Inr q \<Rightarrow> compileQuery parse_time q now)"

section \<open>What a plan means\<close>

text \<open>The declarative reading of a query tree. \<open>pairs\<close> attaches to every term the
  conjunction written before it. A plan has the comparisons of the base search and of every
  \<open>where\<close> stage in source order, the last time bound of each kind, the last
  aggregation and limit, and the concatenated sort fields, projections and text pieces.\<close>

definition pairs :: "bool_expr \<Rightarrow> (string \<times> search_term) list" where
  "pairs e = zip ([] # Conjs e) (Terms e)"

definition stage_pairs :: "pipe_stage \<Rightarrow> (string \<times> search_term) list" where
  "stage_pairs st = (case st of WhereStage e \<Rightarrow> pairs e | _ \<Rightarrow> [])"

definition filters_of :: "(string \<times> search_term) list \<Rightarrow> filter_predicate list" where
  "filters_of ps = concat (map (\<lambda>(c, t). case t of
     Comparison f op v \<Rightarrow> [\<lparr>fp_Field = f, fp_Op = op, fp_Value = v\<rparr>] | _ \<Rightarrow> []) ps)"

definition bounds_of :: "(string \<Rightarrow> gotime option) \<Rightarrow> gotime \<Rightarrow> string \<Rightarrow> (string \<times> search_term) list \<Rightarrow> gotime list" where
  "bounds_of pt now k ps = concat (map (\<lambda>(c, t). case t of
     TimeBound k' e \<Rightarrow> if k' = k then (case resolveTimeExpr pt e now of Inr w \<Rightarrow> [w] | Inl _ \<Rightarrow> []) else []
   | _ \<Rightarrow> []) ps)"

definition has_bound :: "(string \<times> search_term) list \<Rightarrow> bool" where
  "has_bound ps = list_ex (\<lambda>(c, t). case t of TimeBound _ _ \<Rightarrow> True | _ \<Rightarrow> False) ps"

definition range_or_zero :: "time_range option \<Rightarrow> time_range" where
  "range_or_zero r = (case r of None \<Rightarrow> \<lparr>From = 0, To = 0\<rparr> | Some r \<Rightarrow> r)"

definition range_of :: "(string \<Rightarrow> gotime option) \<Rightarrow> gotime \<Rightarrow> time_range option \<Rightarrow> (string \<times> search_term) list \<Rightarrow> time_range option" where
  "range_of pt now r ps = (if has_bound ps
     then Some \<lparr>From = last (From (range_or_zero r) # bounds_of pt now ''earliest'' ps),
                To = last (To (range_or_zero r) # bounds_of pt now ''latest'' ps)\<rparr>
     else r)"

fun text_pieces :: "bool \<Rightarrow> (string \<times> search_term) list \<Rightarrow> string list" where
  "text_pieces started [] = []"
| "text_pieces started ((c, FreeText q) # ps) =
     (if c = ''or'' then [''OR''] else if started then [''AND''] else []) @ text_query q # text_pieces True ps"
| "text_pieces started (_ # ps) = text_pieces started ps"

definition term_ok :: "(string \<Rightarrow> gotime option) \<Rightarrow> gotime \<Rightarrow> string \<times> search_term \<Rightarrow> bool" where
  "term_ok pt now = (\<lambda>(c, t). case t of Comparison _ _ _ \<Rightarrow> c \<noteq> ''or''
     | TimeBound k e \<Rightarrow> c \<noteq> ''or'' \<and> is_ok (resolveTimeExpr pt e now) | FreeText _ \<Rightarrow> True)"

definition agg_ok :: "agg_call \<Rightarrow> bool" where
  "agg_ok a = (Func a = ''count'' \<or> Field a \<noteq> [])"

definition stage_ok :: "(string \<Rightarrow> gotime option) \<Rightarrow> gotime \<Rightarrow> pipe_stage \<Rightarrow> bool" where
  "stage_ok pt now st = (case st of WhereStage e \<Rightarrow> list_all (term_ok pt now) (pairs e)
     | StatsStage aggs byf \<Rightarrow> list_all agg_ok aggs | _ \<Rightarrow> True)"

definition compilable :: "(string \<Rightarrow> gotime option) \<Rightarrow> gotime \<Rightarrow> ast_query \<Rightarrow> bool" where
  "compilable pt now q = (list_all (term_ok pt now) (pairs (Base q)) \<and> list_all (stage_ok pt now) (Pipes q))"

definition last_or :: "'a option \<Rightarrow> 'a list \<Rightarrow> 'a option" where
  "last_or d xs = (if xs = [] then d else Some (last xs))"

definition stage_limit :: "pipe_stage \<Rightarrow> ir_limit list" where
  "stage_limit st = (case st of
     HeadStage n h \<Rightarrow> [\<lparr>lim_N = (if h then n else defaultLimit), lim_Tail = False\<rparr>]
   | TailStage n h \<Rightarrow> [\<lparr>lim_N = (if h then n else defaultLimit), lim_Tail = True\<rparr>] | _ \<Rightarrow> [])"

definition stage_agg :: "pipe_stage \<Rightarrow> aggregation list" where
  "stage_agg st = (case st of StatsStage aggs byf \<Rightarrow>
     (case compileStats aggs byf of Inr a \<Rightarrow> [a] | Inl _ \<Rightarrow> []) | _ \<Rightarrow> [])"

definition stage_sort :: "pipe_stage \<Rightarrow> sort_field list" where
  "stage_sort st = (case st of SortStage fs \<Rightarrow> fs | _ \<Rightarrow> [])"

definition stage_fields :: "pipe_stage \<Rightarrow> string list" where
  "stage_fields st = (case st of FieldsStage fs \<Rightarrow> fs | _ \<Rightarrow> [])"

text \<open>What a list of stages adds to a plan.\<close>

definition add_stages :: "(string \<Rightarrow> gotime option) \<Rightarrow> gotime \<Rightarrow> plan \<Rightarrow> pipe_stage list \<Rightarrow> plan" where
  "add_stages pt now pl sts = (let ps = concat (map stage_pairs sts) in
     pl\<lparr>Filters := Filters pl @ filters_of ps, TimeRange := range_of pt now (TimeRange pl) ps,
       Aggregation := last_or (Aggregation pl) (concat (map stage_agg sts)),
       Sort := Sort pl @ concat (map stage_sort sts), Fields := Fields pl @ concat (map stage_fields sts),
       Limit := last_or (Limit pl) (concat (map stage_limit sts))\<rparr>)"

definition query_text :: "ast_query \<Rightarrow> string list" where
  "query_text q = text_pieces False (pairs (Base q))
     @ concat (map (\<lambda>st. text_pieces False (stage_pairs st)) (Pipes q))"

definition plan_of :: "(string \<Rightarrow> gotime option) \<Rightarrow> gotime \<Rightarrow> ast_query \<Rightarrow> plan" where
  "plan_of pt now q = (add_stages pt now zero_plan (WhereStage (Base q) # Pipes q))
     \<lparr>TextSearch := (if query_text q = [] then [] else [join '' '' (query_text q)])\<rparr>"

section \<open>The planner computes that meaning\<close>

definition add_pairs :: "(string \<Rightarrow> gotime option) \<Rightarrow> gotime \<Rightarrow> plan \<Rightarrow> (string \<times> search_term) list \<Rightarrow> plan" where
  "add_pairs pt now pl ps = pl\<lparr>Filters := Filters pl @ filters_of ps,
     TimeRange := range_of pt now (TimeRange pl) ps\<rparr>"

lemma add_pairs_Nil [simp]: "add_pairs pt now pl [] = pl"
  by (simp add: add_pairs_def filters_of_def range_of_def has_bound_def)

lemma has_bound_simps [simp]:
  "\<not> has_bound []" "has_bound ((c, TimeBound k e) # ps)"
  "has_bound ((c, Comparison f op v) # ps) = has_bound ps"
  "has_bound ((c, FreeText q) # ps) = has_bound ps"
  "has_bound (ps @ qs) \<longleftrightarrow> has_bound ps \<or> has_bound qs"
  by (auto simp: has_bound_def)

lemma bounds_of_simps [simp]:
  "bounds_of pt now k [] = []"
  "bounds_of pt now k ((c, TimeBound k' e) # ps) =
     (if k' = k then (case resolveTimeExpr pt e now of Inr w \<Rightarrow> [w] | Inl _ \<Rightarrow> []) else []) @ bounds_of pt now k ps"
  "bounds_of pt now k ((c, Comparison f op v) # ps) = bounds_of pt now k ps"
  "bounds_of pt now k ((c, FreeText q) # ps) = bounds_of pt now k ps"
  "bounds_of pt now k (ps @ qs) = bounds_of pt now k ps @ bounds_of pt now k qs"
  by (auto simp: bounds_of_def)

lemma filters_of_simps [simp]:
  "filters_of [] = []"
  "filters_of ((c, Comparison f op v) # ps) = \<lparr>fp_Field = f, fp_Op = op, fp_Value = v\<rparr> # filters_of ps"
  "filters_of ((c, TimeBound k e) # ps) = filters_of ps"
  "filters_of ((c, FreeText q) # ps) = filters_of ps"
  "filters_of (ps @ qs) = filters_of ps @ filters_of qs"
  by (auto simp: filters_of_def)

lemma bounds_of_none: "\<not> has_bound ps \<Longrightarrow> bounds_of pt now k ps = []"
  by (auto simp: has_bound_def bounds_of_def list_ex_iff split: search_term.splits)

lemma range_of_append:
  "range_of pt now r (ps @ qs) = range_of pt now (range_of pt now r ps) qs"
  by (auto simp: range_of_def range_or_zero_def bounds_of_none last_append)

lemma range_of_nonbound [simp]:
  "range_of pt now r [] = r"
  "range_of pt now r ((c, Comparison f op v) # ps) = range_of pt now r ps"
  "range_of pt now r ((c, FreeText q) # ps) = range_of pt now r ps"
  by (simp_all add: range_of_def)

lemma range_of_single:
  assumes "resolveTimeExpr pt e now = Inr w" "k = ''earliest'' \<or> k = ''latest''"
  shows "range_of pt now r [(c, TimeBound k e)] =
    Some (if k = ''earliest'' then (range_or_zero r)\<lparr>From := w\<rparr> else (range_or_zero r)\<lparr>To := w\<rparr>)"
  using assms by (auto simp: range_of_def)

lemma applyTimeBound_range:
  assumes "resolveTimeExpr pt e now = Inr w" "k = ''earliest'' \<or> k = ''latest''"
  shows "applyTimeBound pt pl k e now = Inr (pl\<lparr>TimeRange := range_of pt now (TimeRange pl) [(c, TimeBound k e)]\<rparr>)"
  using range_of_single [OF assms, of "TimeRange pl" c] assms
  by (auto simp: applyTimeBound_def range_or_zero_def)

text \<open>Both keywords of a time bound, as the parser guarantees them.\<close>

definition bound_kind_ok :: "string \<times> search_term \<Rightarrow> bool" where
  "bound_kind_ok = (\<lambda>(c, t). case t of TimeBound k e \<Rightarrow> k = ''earliest'' \<or> k = ''latest'' | _ \<Rightarrow> True)"

lemma compileTerm_ok:
  assumes "term_ok pt now (c, t)" "bound_kind_ok (c, t)"
  shows "compileTerm pt now c t pl parts =
    Inr (add_pairs pt now pl [(c, t)], parts @ text_pieces (parts \<noteq> []) [(c, t)])"
proof (cases t)
  case (TimeBound k e)
  with assms obtain w where "resolveTimeExpr pt e now = Inr w" "k = ''earliest'' \<or> k = ''latest''" "c \<noteq> ''or''"
    by (auto simp: term_ok_def bound_kind_ok_def is_ok_def split: sum.splits)
  with TimeBound applyTimeBound_range [of pt e now w k pl c] show ?thesis
    by (auto simp: compileTerm_def add_pairs_def)
qed (use assms in \<open>auto simp: compileTerm_def term_ok_def add_pairs_def\<close>)

lemma compileTerm_err:
  assumes "\<not> term_ok pt now (c, t)"
  shows "\<exists>e. compileTerm pt now c t pl parts = Inl e \<and> e \<noteq> IndexOutOfRange"
  using assms
  by (cases t) (auto simp: compileTerm_def term_ok_def applyTimeBound_def resolveTimeExpr_def Let_def is_ok_def
      split: sum.splits option.splits if_splits)

lemma text_pieces_append:
  "text_pieces b (ps @ qs) = text_pieces b ps @ text_pieces (b \<or> text_pieces b ps \<noteq> []) qs"
  by (induction b ps rule: text_pieces.induct) auto

lemma add_pairs_append: "add_pairs pt now (add_pairs pt now pl ps) qs = add_pairs pt now pl (ps @ qs)"
  by (simp add: add_pairs_def range_of_append)

lemma compileTerms_spec:
  assumes "i + length ts \<le> Suc (length cs)"
    and "list_all bound_kind_ok (zip (drop i ([] # cs)) ts)"
  shows "(list_all (term_ok pt now) (zip (drop i ([] # cs)) ts) \<longrightarrow>
      compileTerms pt now cs i ts pl parts = Inr (add_pairs pt now pl (zip (drop i ([] # cs)) ts),
        parts @ text_pieces (parts \<noteq> []) (zip (drop i ([] # cs)) ts)))
    \<and> (\<not> list_all (term_ok pt now) (zip (drop i ([] # cs)) ts) \<longrightarrow>
      (\<exists>e. compileTerms pt now cs i ts pl parts = Inl e \<and> e \<noteq> IndexOutOfRange))"
  using assms
proof (induction ts arbitrary: i pl parts)
  case (Cons t ts)
  define c where "c = ([] # cs) ! i"
  have i: "i < length ([] # cs)" using Cons.prems by simp
  have cj: "conj_at cs i = Some c"
    using i by (auto simp: conj_at_def c_def nth_Cons')
  have z: "zip (drop i ([] # cs)) (t # ts) = (c, t) # zip (drop (Suc i) ([] # cs)) ts"
    by (simp only: Cons_nth_drop_Suc [OF i, symmetric] zip_Cons_Cons c_def)
  show ?case
  proof (cases "term_ok pt now (c, t)")
    case True
    let ?pl = "add_pairs pt now pl [(c, t)]" and ?pa = "parts @ text_pieces (parts \<noteq> []) [(c, t)]"
    have "compileTerms pt now cs i (t # ts) pl parts = compileTerms pt now cs (Suc i) ts ?pl ?pa"
      using compileTerm_ok [OF True] Cons.prems(2) z cj by simp
    with Cons.IH [of "Suc i" ?pl ?pa] Cons.prems True z
      text_pieces_append [of "parts \<noteq> []" "[(c, t)]" "zip (drop (Suc i) ([] # cs)) ts"]
      add_pairs_append [of pt now pl "[(c, t)]" "zip (drop (Suc i) ([] # cs)) ts"]
    show ?thesis by simp
  next
    case False
    with compileTerm_err [OF False, of pl parts] cj z show ?thesis by auto
  qed
qed simp

lemma compileBoolExpr_spec:
  assumes "length (Terms e) \<le> Suc (length (Conjs e))" "list_all bound_kind_ok (pairs e)"
  shows "list_all (term_ok pt now) (pairs e) \<Longrightarrow>
      compileBoolExpr pt e pl now = Inr (add_pairs pt now pl (pairs e), text_pieces False (pairs e))"
    "\<not> list_all (term_ok pt now) (pairs e) \<Longrightarrow>
      \<exists>err. compileBoolExpr pt e pl now = Inl err \<and> err \<noteq> IndexOutOfRange"
  using compileTerms_spec [of 0 "Terms e" "Conjs e" pt now pl "[]"] assms
  by (simp_all add: pairs_def compileBoolExpr_def)

lemma compileAggs_spec:
  "list_all agg_ok as \<Longrightarrow> is_ok (compileAggs seen as fs)"
  "\<not> list_all agg_ok as \<Longrightarrow> \<exists>e. compileAggs seen as fs = Inl e \<and> e \<noteq> IndexOutOfRange"
  by (induction seen as fs rule: compileAggs.induct) (auto simp: agg_ok_def Let_def)

lemma compileStats_spec:
  "list_all agg_ok aggs \<Longrightarrow> \<exists>a. compileStats aggs byf = Inr a"
  "\<not> list_all agg_ok aggs \<Longrightarrow> \<exists>e. compileStats aggs byf = Inl e \<and> e \<noteq> IndexOutOfRange"
  using compileAggs_spec [of aggs "{}" "[]"]
  by (auto simp: compileStats_def is_ok_def split: sum.splits)

definition expr_shape :: "bool_expr \<Rightarrow> bool" where
  "expr_shape e = (length (Terms e) \<le> Suc (length (Conjs e)) \<and> list_all bound_kind_ok (pairs e))"

definition stage_shape :: "pipe_stage \<Rightarrow> bool" where
  "stage_shape st = (case st of WhereStage e \<Rightarrow> expr_shape e | _ \<Rightarrow> True)"

lemma last_or_simps [simp]: "last_or d [] = d" "last_or d (xs @ [x]) = Some x" "last_or d [x] = Some x"
  by (simp_all add: last_or_def)

lemma last_or_append: "last_or d (xs @ ys) = last_or (last_or d xs) ys"
  by (simp add: last_or_def)

lemma add_stages_Nil [simp]: "add_stages pt now pl [] = pl"
  by (simp add: add_stages_def)

lemma add_stages_Cons:
  "add_stages pt now (add_stages pt now pl [st]) sts = add_stages pt now pl (st # sts)"
  by (simp add: add_stages_def Let_def range_of_append last_or_append)

lemma add_stages_where: "add_stages pt now pl [WhereStage e] = add_pairs pt now pl (pairs e)"
  by (simp add: add_stages_def Let_def add_pairs_def stage_pairs_def stage_agg_def stage_sort_def
      stage_fields_def stage_limit_def)

lemma compileStage_ok:
  assumes "stage_shape st" "stage_ok pt now st"
  shows "compileStage pt now st pl parts =
    Inr (add_stages pt now pl [st], parts @ text_pieces False (stage_pairs st))"
proof (cases st)
  case (WhereStage e)
  with assms compileBoolExpr_spec(1) [of e pt now pl] show ?thesis
    by (simp add: compileStage_def add_stages_where stage_pairs_def stage_shape_def expr_shape_def stage_ok_def)
next
  case (StatsStage aggs byf)
  with assms compileStats_spec(1) [of aggs byf] show ?thesis
    by (auto simp: compileStage_def add_stages_def stage_pairs_def stage_ok_def stage_agg_def stage_sort_def
        stage_fields_def stage_limit_def)
qed (simp_all add: compileStage_def add_stages_def stage_pairs_def stage_agg_def stage_sort_def
    stage_fields_def stage_limit_def)

lemma compileStage_err:
  assumes "stage_shape st" "\<not> stage_ok pt now st"
  shows "\<exists>e. compileStage pt now st pl parts = Inl e \<and> e \<noteq> IndexOutOfRange"
proof (cases st)
  case (WhereStage e)
  with assms compileBoolExpr_spec(2) [of e pt now pl] show ?thesis
    by (auto simp: compileStage_def stage_shape_def expr_shape_def stage_ok_def)
next
  case (StatsStage aggs byf)
  with assms compileStats_spec(2) [of aggs byf] show ?thesis
    by (auto simp: compileStage_def stage_ok_def)
qed (use assms in \<open>simp_all add: stage_ok_def\<close>)

lemma compileStages_spec:
  assumes "list_all stage_shape sts"
  shows "(list_all (stage_ok pt now) sts \<longrightarrow> compileStages pt now sts pl parts =
      Inr (add_stages pt now pl sts, parts @ concat (map (\<lambda>st. text_pieces False (stage_pairs st)) sts)))
    \<and> (\<not> list_all (stage_ok pt now) sts \<longrightarrow>
      (\<exists>e. compileStages pt now sts pl parts = Inl e \<and> e \<noteq> IndexOutOfRange))"
  using assms
proof (induction sts arbitrary: pl parts)
  case (Cons st sts)
  show ?case
  proof (cases "stage_ok pt now st")
    case True
    with Cons compileStage_ok [of st pt now pl parts] add_stages_Cons [of pt now pl st sts]
    show ?thesis by simp
  next
    case False
    with Cons.prems compileStage_err [of st pt now pl parts] show ?thesis by auto
  qed
qed simp

definition query_shape :: "ast_query \<Rightarrow> bool" where
  "query_shape q = (expr_shape (Base q) \<and> list_all stage_shape (Pipes q))"

lemma compileQuery_ok:
  assumes "query_shape q" "compilable pt now q"
  shows "compileQuery pt q now = Inr (plan_of pt now q)"
proof -
  let ?pl = "add_pairs pt now zero_plan (pairs (Base q))" and ?pa = "text_pieces False (pairs (Base q))"
  have b: "compileBoolExpr pt (Base q) zero_plan now = Inr (?pl, ?pa)"
    using assms compileBoolExpr_spec(1) [of "Base q" pt now zero_plan]
    by (simp add: query_shape_def expr_shape_def compilable_def)
  have s: "compileStages pt now (Pipes q) ?pl ?pa =
      Inr (add_stages pt now zero_plan (WhereStage (Base q) # Pipes q), query_text q)"
    using assms compileStages_spec [of "Pipes q" pt now ?pl ?pa]
      add_stages_Cons [of pt now zero_plan "WhereStage (Base q)" "Pipes q"]
    by (simp add: query_shape_def compilable_def add_stages_where query_text_def)
  have t: "TextSearch (add_stages pt now zero_plan sts) = []" for sts
    by (simp add: add_stages_def zero_plan_def Let_def)
  show ?thesis
    by (simp add: compileQuery_def b s plan_of_def t)
qed

lemma compileQuery_err:
  assumes "query_shape q" "\<not> compilable pt now q"
  shows "\<exists>e. compileQuery pt q now = Inl e \<and> e \<noteq> IndexOutOfRange"
proof (cases "list_all (term_ok pt now) (pairs (Base q))")
  case True
  let ?pl = "add_pairs pt now zero_plan (pairs (Base q))" and ?pa = "text_pieces False (pairs (Base q))"
  have "compileBoolExpr pt (Base q) zero_plan now = Inr (?pl, ?pa)"
    using assms True compileBoolExpr_spec(1) [of "Base q" pt now zero_plan]
    by (simp add: query_shape_def expr_shape_def)
  with True assms compileStages_spec [of "Pipes q" pt now ?pl ?pa] show ?thesis
    by (auto simp: compileQuery_def query_shape_def compilable_def)
next
  case False
  with assms compileBoolExpr_spec(2) [of "Base q" pt now zero_plan] show ?thesis
    by (auto simp: compileQuery_def query_shape_def expr_shape_def)
qed

section \<open>Relative times\<close>

definition unit_nanos :: "string \<Rightarrow> int" where
  "unit_nanos u = (if u = ''s'' then Second else if u = ''m'' then Minute else if u = ''h'' then Hour
     else if u = ''d'' then 24 * Hour else 7 * 24 * Hour)"

lemma wrap64_mult: "wrap64 (wrap64 a * b) = wrap64 (a * b)"
proof -
  have "(wrap64 a * b + 2 ^ 63) mod 2 ^ 64 = ((a + 2 ^ 63) mod 2 ^ 64 * b + (2 ^ 63 - 2 ^ 63 * b)) mod 2 ^ 64"
    by (simp add: wrap64_def algebra_simps)
  also have "\<dots> = ((a + 2 ^ 63) * b + (2 ^ 63 - 2 ^ 63 * b)) mod 2 ^ 64"
    by (metis mod_add_left_eq mod_mult_left_eq)
  also have "\<dots> = (a * b + 2 ^ 63) mod 2 ^ 64"
    by (simp add: algebra_simps)
  finally show ?thesis by (simp add: wrap64_def)
qed

lemma resolve_relative:
  assumes "isValidTimeUnit u"
  shows "resolveTimeExpr pt (relative_time sg n u) now =
    Inr (now + (let d = wrap64 (n * unit_nanos u) in if sg < 0 then wrap64 (- d) else d))"
  using assms
  by (auto simp: isValidTimeUnit_def resolveTimeExpr_def relative_time_def unit_nanos_def dur_mul_def
      wrap64_mult Let_def mult.assoc)

section \<open>The keyword guard and the words of a statement\<close>

text \<open>The words of a string: its maximal runs of word characters.\<close>

fun words_from :: "bool \<Rightarrow> string \<Rightarrow> string list" where
  "words_from prev [] = []"
| "words_from prev (c # cs) =
     (if isWordChar c \<and> \<not> prev then [takeWhile isWordChar (c # cs)] else []) @ words_from (isWordChar c) cs"

definition sql_words :: "string \<Rightarrow> string list" where
  "sql_words s = words_from False s"

definition word_start :: "string \<Rightarrow> nat \<Rightarrow> bool" where
  "word_start s i = (i < length s \<and> isWordChar (s ! i) \<and> (i = 0 \<or> \<not> isWordChar (s ! (i - 1))))"

lemma set_words_from:
  "set (words_from prev s) = {takeWhile isWordChar (drop i s) |i.
     i < length s \<and> isWordChar (s ! i) \<and> (if i = 0 then \<not> prev else \<not> isWordChar (s ! (i - 1)))}"
proof (induction prev s rule: words_from.induct)
  case (2 prev c cs)
  let ?P = "\<lambda>i. i < length (c # cs) \<and> isWordChar ((c # cs) ! i)
      \<and> (if i = 0 then \<not> prev else \<not> isWordChar ((c # cs) ! (i - 1)))"
  have "{takeWhile isWordChar (drop i (c # cs)) |i. ?P i}
      = {takeWhile isWordChar (c # cs) |_::unit. ?P 0} \<union> {takeWhile isWordChar (drop i cs) |i. ?P (Suc i)}"
    (is "?L = ?A \<union> ?B")
  proof
    show "?L \<subseteq> ?A \<union> ?B"
    proof
      fix w assume "w \<in> ?L"
      then obtain i where "w = takeWhile isWordChar (drop i (c # cs))" "?P i" by blast
      then show "w \<in> ?A \<union> ?B" by (cases i) auto
    qed
    show "?A \<union> ?B \<subseteq> ?L" by (force intro: exI [of _ 0] exI [of _ "Suc _"])
  qed
  moreover have "?P (Suc i) \<longleftrightarrow> i < length cs \<and> isWordChar (cs ! i)
      \<and> (if i = 0 then \<not> isWordChar c else \<not> isWordChar (cs ! (i - 1)))" for i
    by (cases i) auto
  ultimately show ?case using 2 by auto
qed simp

lemma set_sql_words: "set (sql_words s) = {takeWhile isWordChar (drop i s) |i. word_start s i}"
proof -
  have "(i < length s \<and> isWordChar (s ! i) \<and> (if i = 0 then \<not> False else \<not> isWordChar (s ! (i - 1))))
      \<longleftrightarrow> word_start s i" for i
    by (simp add: word_start_def)
  then show ?thesis unfolding sql_words_def set_words_from by simp
qed

lemma isWordChar_to_lower [simp]: "isWordChar (to_lower c) = isWordChar c"
proof (cases "CHR ''A'' \<le> c \<and> c \<le> CHR ''Z''")
  case True
  then have b: "65 \<le> (of_char c :: nat)" "(of_char c :: nat) \<le> 90"
    by (simp_all add: less_eq_char_def)
  then have "isWordChar (char_of (of_char c + 32 :: nat))"
    by (simp add: isWordChar_def less_eq_char_def)
  with True show ?thesis by (simp add: to_lower_def isWordChar_def)
qed (auto simp: to_lower_def)

lemma takeWhile_eq_take_iff:
  assumes "n \<le> length xs" "0 < n"
  shows "takeWhile P xs = take n xs \<longleftrightarrow> (list_all P (take n xs) \<and> (n = length xs \<or> \<not> P (xs ! n)))"
proof
  assume t: "takeWhile P xs = take n xs"
  then have "list_all P (take n xs)" by (metis list_all_iff set_takeWhileD)
  moreover have "\<not> P (xs ! n)" if "n < length xs"
  proof -
    have "length (takeWhile P xs) = n" using t that by simp
    with that show ?thesis using nth_length_takeWhile [of P xs] by simp
  qed
  ultimately show "list_all P (take n xs) \<and> (n = length xs \<or> \<not> P (xs ! n))" using assms by linarith
next
  assume a: "list_all P (take n xs) \<and> (n = length xs \<or> \<not> P (xs ! n))"
  have "(case drop n xs of [] \<Rightarrow> True | y # _ \<Rightarrow> \<not> P y)"
    using a by (auto split: list.splits dest: drop_eq_ConsD)
  with a takeWhile_all_append [of P "take n xs" "drop n xs"] show "takeWhile P xs = take n xs" by simp
qed

lemma keyword_match:
  assumes "kw \<noteq> []" "list_all isWordChar kw"
  shows "wordBoundary s i \<and> keyword_at s kw i \<and> wordBoundary s (i + length kw) \<longleftrightarrow>
     word_start s i \<and> map to_lower (takeWhile isWordChar (drop i s)) = kw"
proof (cases "keyword_at s kw i")
  case True
  define n where "n = length kw"
  define u where "u = take n (drop i s)"
  have u: "map to_lower u = kw" using True by (simp add: keyword_at_def u_def n_def)
  then have lu: "length u = n" by (simp add: n_def [symmetric] flip: length_map [of to_lower u])
  have n: "0 < n" using assms(1) by (simp add: n_def)
  have le: "n \<le> length (drop i s)" using lu by (simp add: u_def)
  have wu: "list_all isWordChar u"
    using assms(2) by (simp add: u [symmetric] list_all_iff)
  have "isWordChar (u ! j)" if "j < n" for j using wu lu that by (simp add: list_all_length)
  then have at: "isWordChar (s ! (i + j))" if "j < n" for j using that le by (simp add: u_def)
  have i: "i < length s" "isWordChar (s ! i)" using le n at [of 0] by simp_all
  have b1: "wordBoundary s i \<longleftrightarrow> word_start s i"
    using i by (auto simp: wordBoundary_def word_start_def)
  have "isWordChar (s ! (i + n - 1))" using at [of "n - 1"] n by simp
  then have b2: "wordBoundary s (i + n) \<longleftrightarrow> (n = length (drop i s) \<or> \<not> isWordChar (drop i s ! n))"
    using le n by (auto simp: wordBoundary_def)
  then have b3: "wordBoundary s (i + n) \<longleftrightarrow> takeWhile isWordChar (drop i s) = u"
    using takeWhile_eq_take_iff [OF le n, of isWordChar] wu by (simp add: u_def)
  have "map to_lower (takeWhile isWordChar (drop i s)) = kw \<longleftrightarrow> takeWhile isWordChar (drop i s) = u"
  proof
    assume "map to_lower (takeWhile isWordChar (drop i s)) = kw"
    then have "length (takeWhile isWordChar (drop i s)) = n" by (metis length_map n_def)
    then show "takeWhile isWordChar (drop i s) = u" by (metis takeWhile_eq_take u_def)
  qed (simp add: u)
  with b1 b3 True show ?thesis by (simp add: n_def)
next
  case False
  have "map to_lower (takeWhile isWordChar (drop i s)) \<noteq> kw"
  proof
    assume t: "map to_lower (takeWhile isWordChar (drop i s)) = kw"
    then have "takeWhile isWordChar (drop i s) = take (length kw) (drop i s)"
      by (metis length_map takeWhile_eq_take)
    with t False show False by (simp add: keyword_at_def)
  qed
  with False show ?thesis by simp
qed

lemma disallowed_keywords_words:
  "kw \<in> set disallowed_keywords \<Longrightarrow> kw \<noteq> [] \<and> list_all isWordChar kw"
proof -
  have "list_all (\<lambda>kw. kw \<noteq> [] \<and> list_all isWordChar kw) disallowed_keywords" by code_simp
  then show "kw \<in> set disallowed_keywords \<Longrightarrow> kw \<noteq> [] \<and> list_all isWordChar kw"
    by (simp add: list_all_iff)
qed

lemma disallowedKeyword_iff:
  "disallowedKeyword s \<longleftrightarrow> (\<exists>w \<in> set (sql_words s). map to_lower w \<in> set disallowed_keywords)"
proof -
  have "disallowedKeyword s \<longleftrightarrow> (\<exists>i < Suc (length s). \<exists>kw \<in> set disallowed_keywords.
      wordBoundary s i \<and> keyword_at s kw i \<and> wordBoundary s (i + length kw))"
    by (simp only: disallowedKeyword_def list_ex_iff set_upt atLeastLessThan_iff Bex_def) auto
  also have "\<dots> \<longleftrightarrow> (\<exists>i < Suc (length s). \<exists>kw \<in> set disallowed_keywords.
      word_start s i \<and> map to_lower (takeWhile isWordChar (drop i s)) = kw)"
    using keyword_match disallowed_keywords_words by blast
  also have "\<dots> \<longleftrightarrow> (\<exists>i. word_start s i \<and> map to_lower (takeWhile isWordChar (drop i s)) \<in> set disallowed_keywords)"
  proof -
    have "word_start s i \<Longrightarrow> i < Suc (length s)" for i by (simp add: word_start_def)
    then show ?thesis by blast
  qed
  also have "\<dots> \<longleftrightarrow> (\<exists>w \<in> set (sql_words s). map to_lower w \<in> set disallowed_keywords)"
    by (auto simp: set_sql_words)
  finally show ?thesis .
qed

lemma validateSelectOnly_ok:
  assumes "validateSelectOnly sql = Inr ()"
  shows "\<exists>t. t = TrimSpace (TrimSuffix (TrimSpace sql) '';'') \<and> CHR '';'' \<notin> set t
    \<and> map_option (map to_upper) (first_field t) = Some ''SELECT''
    \<and> \<not> disallowedKeyword t \<and> \<not> disallowedTableFunction t"
  using assms
  by (auto simp: validateSelectOnly_def Let_def list_ex_iff split: if_splits option.splits)

lemma TrimSpace_first_field:
  assumes "TrimSpace s \<noteq> []"
  shows "\<exists>f. first_field (TrimSpace s) = Some f"
proof -
  let ?t = "dropWhile isUniSpace s"
  have ne: "?t \<noteq> []"
    using assms unfolding TrimSpace_def by (metis dropWhile.simps(1) rev.simps(1))
  then obtain c cs where t: "?t = c # cs" by (cases ?t) auto
  then have c: "\<not> isUniSpace c" using hd_dropWhile [OF ne] by simp
  have "rev (dropWhile isUniSpace (rev (c # cs))) \<noteq> [] \<and> hd (rev (dropWhile isUniSpace (rev (c # cs)))) = c"
    using c by (simp add: dropWhile_append1 dropWhile_append)
  then have "TrimSpace s \<noteq> [] \<and> hd (TrimSpace s) = c" using t by (simp add: TrimSpace_def)
  with c show ?thesis by (cases "TrimSpace s") (auto simp: first_field_def)
qed

lemma validateSelectOnly_no_panic: "validateSelectOnly sql \<noteq> Inl IndexOutOfRange"
  using TrimSpace_first_field [of "TrimSuffix (TrimSpace sql) '';''"]
  by (auto simp: validateSelectOnly_def Let_def split: option.splits)

section \<open>Properties\<close>

text \<open>A relative time bound that fits a 64-bit duration resolves to exactly the number of
  units before or after the compile time.\<close>

theorem resolveTimeExpr_exact:
  assumes "isValidTimeUnit u" "0 \<le> n" "n * unit_nanos u \<le> max_int64"
  shows "resolveTimeExpr pt (relative_time sg n u) now =
    Inr (if sg < 0 then now - n * unit_nanos u else now + n * unit_nanos u)"
proof -
  have "0 \<le> n * unit_nanos u"
    using assms(2) by (simp add: unit_nanos_def Second_def Minute_def Hour_def)
  with assms(3) have "wrap64 (n * unit_nanos u) = n * unit_nanos u"
    "wrap64 (- (n * unit_nanos u)) = - (n * unit_nanos u)"
    by (auto intro!: wrap64_id simp: min_int64_def max_int64_def)
  with resolve_relative [OF assms(1)] show ?thesis by (simp add: Let_def)
qed

theorem resolveTimeExpr_exact_witness:
  "resolveTimeExpr (\<lambda>_. None) (relative_time (-1) 7 ''d'') 1000000000000000 =
    Inr (1000000000000000 - 604800000000000)"
proof -
  have "unit_nanos ''d'' = 86400000000000"
    by (simp add: unit_nanos_def Hour_def Minute_def Second_def)
  then show ?thesis
    using resolveTimeExpr_exact [of "''d''" 7 "\<lambda>_. None" "-1" 1000000000000000]
    by (simp add: isValidTimeUnit_def max_int64_def)
qed

text \<open>Above that range the duration wraps: the parser accepts
  \<open>earliest=-10000000000s\<close>, and the planner resolves that bound, meant to lie about 317 years
  in the past, to an instant after the compile time.\<close>

theorem resolveTimeExpr_wraps:
  "resolveTimeExpr pt (relative_time (-1) 10000000000 ''s'') now = Inr (now + 8446744073709551616)"
proof -
  have "unit_nanos ''s'' = 1000000000" by (simp add: unit_nanos_def Second_def)
  moreover have "wrap64 (10000000000 * 1000000000) = - 8446744073709551616"
    "wrap64 8446744073709551616 = 8446744073709551616" by (simp_all add: wrap64_def)
  ultimately show ?thesis
    by (subst resolve_relative) (simp_all add: isValidTimeUnit_def Let_def)
qed

end
