(* ===== verification/Query_Meaning.thy ===== *)
theory Query_Meaning
  imports Printer Planner
begin

text \<open>
  From the text of a pipe query to its plan: what the parser returns has the shape the planner relies
  on, so a query that compiles has the declarative plan of its tree.
\<close>

lemma wf_expr_shape: "wf_expr e \<Longrightarrow> expr_shape e"
proof -
  assume w: "wf_expr e"
  have "list_all bound_kind_ok (zip cs ts)" if "list_all wf_term ts" for cs ts
    using that
  proof (induction cs ts rule: list_induct2')
    case (4 c cs t ts)
    then show ?case by (cases t) (auto simp: bound_kind_ok_def)
  qed auto
  with w show ?thesis by (auto simp: expr_shape_def wf_expr_def pairs_def)
qed

lemma wf_query_shape: "wf_query q \<Longrightarrow> query_shape q"
proof -
  assume w: "wf_query q"
  have "expr_shape zero_expr" by (simp add: expr_shape_def zero_expr_def pairs_def)
  moreover have "list_all stage_shape (Pipes q)"
    using w by (auto simp: wf_query_def list_all_iff stage_shape_def wf_expr_shape split: pipe_stage.splits)
  ultimately show ?thesis
    using w by (auto simp: wf_query_def query_shape_def wf_expr_shape)
qed

lemma Compile_SPL_plan:
  assumes "Compile pt s SPL now = Inr pl"
  shows "\<exists>q. Parse s = Inr q \<and> wf_query q \<and> pl = plan_of pt now q"
proof -
  from assms obtain q where q: "Parse s = Inr q" "compileQuery pt q now = Inr pl"
    by (auto simp: Compile_def Let_def split: sum.splits)
  note w = Parse_wf [OF q(1)]
  note sh = wf_query_shape [OF w]
  have "compilable pt now q" using compileQuery_err [OF sh, of pt now] q(2) by auto
  with compileQuery_ok [OF sh] q w show ?thesis by simp
qed

end
