(* ===== verification/Sql.thy ===== *)
theory Sql
  imports Planner
begin

text \<open>
  The SQL generator and the routing of a plan to its backends
  (\<open>api/querylang/executor/sql.go\<close>, \<open>api/querylang/executor/executor.go\<close>). \<open>SQLRunner\<close> and
  \<open>SearchClient\<close> are interfaces with backends outside the repository: arguments of
  \<open>Execute\<close>. The lemmas read generated SQL back with a lexical model of
  ClickHouse's quoting and show that text from the query can only end up inside
  literals and quoted identifiers.
\<close>

definition defaultRowLimit :: int where "defaultRowLimit = 100"

definition topLevelFields :: "string list" where
  "topLevelFields = [''timestamp'', ''host'', ''service'', ''severity'', ''message'', ''record_id'']"

definition is_top :: "string \<Rightarrow> bool" where
  "is_top f = (f \<in> set topLevelFields)"

definition backtick :: char where "backtick = CHR 0x60"
definition quote :: char where "quote = CHR 0x27"

definition quoteIdent :: "string \<Rightarrow> string" where
  "quoteIdent name = [backtick] @ concat (map (\<lambda>c. if c = backtick then [backtick, backtick] else [c]) name) @ [backtick]"

definition quoteLiteral :: "string \<Rightarrow> string" where
  "quoteLiteral s = [quote] @ concat (map (\<lambda>r. if r = backslash then [backslash, backslash]
     else if r = quote then [backslash, quote] else [r]) s) @ [quote]"

text \<open>The regular expression \<open>^-?\d+(\.\d+)?$\<close>.\<close>

definition isNumericLiteral :: "string \<Rightarrow> bool" where
  "isNumericLiteral s = (let t = (case s of [] \<Rightarrow> [] | c # cs \<Rightarrow> if c = CHR ''-'' then cs else s) in
     takeWhile isDigit t \<noteq> [] \<and> (case dropWhile isDigit t of [] \<Rightarrow> True
       | c # ds \<Rightarrow> c = CHR ''.'' \<and> ds \<noteq> [] \<and> list_all isDigit ds))"

definition columnExpr :: "string \<Rightarrow> string" where
  "columnExpr field = (if is_top field then quoteIdent field
     else ''attributes['' @ quoteLiteral field @ '']'')"

definition buildComparisonSQL :: "filter_predicate \<Rightarrow> string" where
  "buildComparisonSQL f = (if \<not> is_top (fp_Field f) \<and> isNumericLiteral (fp_Value f)
     then ''toFloat64OrZero('' @ columnExpr (fp_Field f) @ '') '' @ fp_Op f @ '' '' @ fp_Value f
     else columnExpr (fp_Field f) @ '' '' @ fp_Op f @ '' '' @ quoteLiteral (fp_Value f))"

section \<open>Timestamps\<close>

text \<open>\<open>t.UTC().Format("2006-01-02 15:04:05.999999999")\<close>: days since 1 January of year 1 are
  split by 400-, 100-, 4- and 1-year cycles of the Gregorian calendar; a fraction is printed
  without trailing zeros, and not at all when it is zero.\<close>

definition pad :: "nat \<Rightarrow> nat \<Rightarrow> string" where
  "pad w n = replicate (w - length (itoa n)) (CHR ''0'') @ itoa n"

definition is_leap :: "int \<Rightarrow> bool" where
  "is_leap y = (y mod 4 = 0 \<and> (y mod 100 \<noteq> 0 \<or> y mod 400 = 0))"

definition year_day :: "int \<Rightarrow> int \<times> int" where
  "year_day days =
    (let n400 = days div 146097; d = days mod 146097;
         n100 = min 3 (d div 36524); d = d - n100 * 36524;
         n4 = d div 1461; d = d mod 1461;
         n1 = min 3 (d div 365); d = d - n1 * 365
     in (400 * n400 + 100 * n100 + 4 * n4 + n1 + 1, d))"

definition month_lengths :: "int \<Rightarrow> int list" where
  "month_lengths y = [31, if is_leap y then 29 else 28, 31, 30, 31, 30, 31, 31, 30, 31, 30, 31]"

fun month_day :: "nat \<Rightarrow> int list \<Rightarrow> int \<Rightarrow> nat \<times> nat" where
  "month_day m [] d = (m, nat d + 1)"
| "month_day m (l # ls) d = (if d < l then (m, nat d + 1) else month_day (Suc m) ls (d - l))"

definition fraction :: "nat \<Rightarrow> string" where
  "fraction ns = (let ds = rev (dropWhile (\<lambda>c. c = CHR ''0'') (rev (pad 9 ns)))
     in if ds = [] then [] else CHR ''.'' # ds)"

definition format_year :: "int \<Rightarrow> string" where
  "format_year y = (if y < 0 then CHR ''-'' # pad 4 (nat (- y)) else pad 4 (nat y))"

definition formatClickHouseDateTime64 :: "gotime \<Rightarrow> string" where
  "formatClickHouseDateTime64 t =
    (let secs = t div Second; ns = t mod Second; days = secs div 86400; s = nat (secs mod 86400);
         (y, yd) = year_day days; (m, d) = month_day 1 (month_lengths y) yd
     in format_year y @ ''-'' @ pad 2 m @ ''-'' @ pad 2 d @ '' '' @ pad 2 (s div 3600) @ '':''
        @ pad 2 (s div 60 mod 60) @ '':'' @ pad 2 (s mod 60) @ fraction (nat ns))"

section \<open>Clauses\<close>

definition aggExpr :: "agg_func \<Rightarrow> string" where
  "aggExpr f = (if af_Func f = ''count'' then ''count()''
     else let col = columnExpr (af_Field f);
            col = (if \<not> is_top (af_Field f) then ''toFloat64OrZero('' @ col @ '')'' else col)
       in map to_upper (af_Func f) @ ''('' @ col @ '')'')"

definition selectClause :: "plan \<Rightarrow> string" where
  "selectClause pl = (case Aggregation pl of
     Some a \<Rightarrow> join '', '' (map (\<lambda>g. columnExpr g @ '' AS '' @ quoteIdent g) (GroupBy a)
                 @ map (\<lambda>f. aggExpr f @ '' AS '' @ quoteIdent (af_Alias f)) (Funcs a))
   | None \<Rightarrow> if length (Fields pl) > 0
       then join '', '' (map (\<lambda>f. columnExpr f @ '' AS '' @ quoteIdent f) (Fields pl))
       else ''*'')"

definition sortColumnExpr :: "plan \<Rightarrow> string \<Rightarrow> string" where
  "sortColumnExpr pl field = (case Aggregation pl of
     Some a \<Rightarrow> if list_ex (\<lambda>f. af_Alias f = field) (Funcs a) then quoteIdent field
              else if list_ex (\<lambda>g. g = field) (GroupBy a) then columnExpr field
              else columnExpr field
   | None \<Rightarrow> columnExpr field)"

definition writeOrderBy :: "plan \<Rightarrow> string" where
  "writeOrderBy pl =
    (if length (Sort pl) > 0 then '' ORDER BY '' @ join '', ''
       (map (\<lambda>s. sortColumnExpr pl (sf_Field s) @ '' '' @ (if Desc s then ''DESC'' else ''ASC'')) (Sort pl))
     else if (case Limit pl of Some l \<Rightarrow> lim_Tail l | None \<Rightarrow> False)
     then '' ORDER BY '' @ [backtick] @ ''timestamp'' @ [backtick] @ '' ASC''
     else if Aggregation pl = None then '' ORDER BY '' @ [backtick] @ ''timestamp'' @ [backtick] @ '' DESC''
     else [])"

definition buildWhereClause :: "plan \<Rightarrow> string list \<Rightarrow> string" where
  "buildWhereClause pl recordIDFilter = join '' AND ''
    ((if length recordIDFilter > 0
      then [''record_id IN ('' @ join '','' (map quoteLiteral recordIDFilter) @ '')''] else [])
     @ map buildComparisonSQL (Filters pl)
     @ (case TimeRange pl of None \<Rightarrow> []
        | Some r \<Rightarrow>
          (if From r \<noteq> 0 then [[backtick] @ ''timestamp'' @ [backtick] @ '' >= ''
             @ quoteLiteral (formatClickHouseDateTime64 (From r))] else [])
          @ (if To r \<noteq> 0 then [[backtick] @ ''timestamp'' @ [backtick] @ '' <= ''
             @ quoteLiteral (formatClickHouseDateTime64 (To r))] else [])))"

definition buildSQL :: "plan \<Rightarrow> string list \<Rightarrow> string" where
  "buildSQL pl recordIDFilter =
    ''SELECT '' @ selectClause pl @ '' FROM logs''
    @ (let whr = buildWhereClause pl recordIDFilter in if whr \<noteq> [] then '' WHERE '' @ whr else [])
    @ (case Aggregation pl of
         Some a \<Rightarrow> if length (GroupBy a) > 0 then '' GROUP BY '' @ join '', '' (map columnExpr (GroupBy a)) else []
       | None \<Rightarrow> [])
    @ writeOrderBy pl
    @ (case Limit pl of
         Some l \<Rightarrow> '' LIMIT '' @ itoa_int (lim_N l)
       | None \<Rightarrow> if Aggregation pl = None then '' LIMIT '' @ itoa_int defaultRowLimit else [])"

section \<open>Execution\<close>

text \<open>A query result; cell values are opaque.\<close>

record 'v query_result =
  Columns :: "string list"
  Rows :: "'v list list"

datatype 'e exec_error = SearchFailed 'e | SQLFailed 'e

definition textSearchLimit :: nat where "textSearchLimit = 5000"

definition Execute :: "plan \<Rightarrow> (string \<Rightarrow> ('e, 'v query_result) result) \<Rightarrow> (string \<Rightarrow> nat \<Rightarrow> ('e, string list) result)
    \<Rightarrow> ('e exec_error, 'v query_result) result" where
  "Execute pl runSQL search =
    (let run = (\<lambda>sql. case runSQL sql of Inl e \<Rightarrow> Inl (SQLFailed e) | Inr r \<Rightarrow> Inr r) in
     if RawSQL pl \<noteq> [] then run (RawSQL pl)
     else if length (TextSearch pl) > 0 then
       (case search (TextSearch pl ! 0) textSearchLimit of
          Inl e \<Rightarrow> Inl (SearchFailed e)
        | Inr ids \<Rightarrow> if length ids = 0 then Inr \<lparr>Columns = [], Rows = []\<rparr>
                   else run (buildSQL pl ids))
     else run (buildSQL pl []))"

section \<open>Reading SQL back\<close>

text \<open>The lexical structure of a statement: plain characters, string literals and
  back-quoted identifiers. In a literal a backslash makes the next character part of the
  literal and a doubled quote stands for a quote; in an identifier a doubled back-quote
  stands for one. \<open>scan_sql\<close> is a structural recursion over a mode.\<close>

datatype sql_tok = Plain char | Lit string | Name string | Unterminated

datatype scan_mode = InPlain | InLit string | InEsc string | AfterQuote string | InName string | AfterTick string

fun scan_sql :: "scan_mode \<Rightarrow> string \<Rightarrow> sql_tok list" where
  "scan_sql InPlain [] = []"
| "scan_sql (AfterQuote v) [] = [Lit v]"
| "scan_sql (AfterTick v) [] = [Name v]"
| "scan_sql _ [] = [Unterminated]"
| "scan_sql InPlain (c # s) =
     (if c = quote then scan_sql (InLit []) s else if c = backtick then scan_sql (InName []) s
      else Plain c # scan_sql InPlain s)"
| "scan_sql (InLit v) (c # s) =
     (if c = backslash then scan_sql (InEsc v) s else if c = quote then scan_sql (AfterQuote v) s
      else scan_sql (InLit (v @ [c])) s)"
| "scan_sql (InEsc v) (c # s) = scan_sql (InLit (v @ [c])) s"
| "scan_sql (AfterQuote v) (c # s) =
     (if c = quote then scan_sql (InLit (v @ [quote])) s
      else if c = backtick then Lit v # scan_sql (InName []) s
      else Lit v # Plain c # scan_sql InPlain s)"
| "scan_sql (InName v) (c # s) =
     (if c = backtick then scan_sql (AfterTick v) s else scan_sql (InName (v @ [c])) s)"
| "scan_sql (AfterTick v) (c # s) =
     (if c = backtick then scan_sql (InName (v @ [backtick])) s
      else if c = quote then Name v # scan_sql (InLit []) s
      else Name v # Plain c # scan_sql InPlain s)"

definition plain :: "string \<Rightarrow> sql_tok list" where
  "plain s = map Plain s"

fun unparse :: "sql_tok list \<Rightarrow> string" where
  "unparse [] = []"
| "unparse (Plain c # ts) = c # unparse ts"
| "unparse (Lit v # ts) = quoteLiteral v @ unparse ts"
| "unparse (Name v # ts) = quoteIdent v @ unparse ts"
| "unparse (Unterminated # ts) = unparse ts"

text \<open>Token lists that can be read back: plain characters are no quotes and two quoted
  tokens never touch.\<close>

fun separated :: "sql_tok list \<Rightarrow> bool" where
  "separated [] = True"
| "separated (Plain c # ts) = (c \<noteq> quote \<and> c \<noteq> backtick \<and> separated ts)"
| "separated (Unterminated # ts) = False"
| "separated (t # ts) = ((case ts of [] \<Rightarrow> True | Plain _ # _ \<Rightarrow> True | _ \<Rightarrow> False) \<and> separated ts)"

lemma char_distinct [simp]:
  "quote \<noteq> backtick" "backtick \<noteq> quote" "quote \<noteq> backslash" "backslash \<noteq> quote" "backtick \<noteq> backslash" "backslash \<noteq> backtick"
  by (simp_all add: quote_def backtick_def backslash_def)

lemma scan_literal_body:
  "scan_sql (InLit v) (concat (map (\<lambda>r. if r = backslash then [backslash, backslash]
     else if r = quote then [backslash, quote] else [r]) s) @ t) = scan_sql (InLit (v @ s)) t"
  by (induction s arbitrary: v) auto

lemma scan_name_body:
  "scan_sql (InName v) (concat (map (\<lambda>c. if c = backtick then [backtick, backtick] else [c]) s) @ t) =
     scan_sql (InName (v @ s)) t"
  by (induction s arbitrary: v) auto

lemma scan_quoted:
  "scan_sql InPlain (quoteLiteral v @ t) = scan_sql (AfterQuote v) t"
  "scan_sql InPlain (quoteIdent v @ t) = scan_sql (AfterTick v) t"
  by (simp_all add: quoteLiteral_def quoteIdent_def scan_literal_body scan_name_body)

lemma scan_unparse: "separated ts \<Longrightarrow> scan_sql InPlain (unparse ts) = ts"
proof (induction ts)
  case (Cons t ts)
  have q: "scan_sql (AfterQuote v) (unparse ts) = Lit v # ts"
    "scan_sql (AfterTick v) (unparse ts) = Name v # ts"
    if "separated ts" "case ts of [] \<Rightarrow> True | Plain _ # _ \<Rightarrow> True | _ \<Rightarrow> False" for v
    using that Cons.IH by (cases ts; auto split: sql_tok.splits)+
  show ?case
    using Cons q by (cases t) (auto simp: scan_quoted)
qed simp

section \<open>The token list of a generated statement\<close>

definition column_toks :: "string \<Rightarrow> sql_tok list" where
  "column_toks f = (if is_top f then [Name f] else plain ''attributes['' @ [Lit f] @ plain '']'')"

definition comparison_toks :: "filter_predicate \<Rightarrow> sql_tok list" where
  "comparison_toks f = (if \<not> is_top (fp_Field f) \<and> isNumericLiteral (fp_Value f)
     then plain ''toFloat64OrZero('' @ column_toks (fp_Field f) @ plain ('') '' @ fp_Op f @ '' '' @ fp_Value f)
     else column_toks (fp_Field f) @ plain ('' '' @ fp_Op f @ '' '') @ [Lit (fp_Value f)])"

fun join_toks :: "string \<Rightarrow> sql_tok list list \<Rightarrow> sql_tok list" where
  "join_toks sep [] = []"
| "join_toks sep [x] = x"
| "join_toks sep (x # y # xs) = x @ plain sep @ join_toks sep (y # xs)"

definition as_toks :: "sql_tok list \<Rightarrow> string \<Rightarrow> sql_tok list" where
  "as_toks e a = e @ plain '' AS '' @ [Name a]"

definition agg_toks :: "agg_func \<Rightarrow> sql_tok list" where
  "agg_toks f = (if af_Func f = ''count'' then plain ''count()''
     else plain (map to_upper (af_Func f) @ ''('')
       @ (if is_top (af_Field f) then column_toks (af_Field f)
          else plain ''toFloat64OrZero('' @ column_toks (af_Field f) @ plain '')'')
       @ plain '')'')"

definition select_toks :: "plan \<Rightarrow> sql_tok list" where
  "select_toks pl = (case Aggregation pl of
     Some a \<Rightarrow> join_toks '', '' (map (\<lambda>g. as_toks (column_toks g) g) (GroupBy a)
                 @ map (\<lambda>f. as_toks (agg_toks f) (af_Alias f)) (Funcs a))
   | None \<Rightarrow> if Fields pl = [] then plain ''*''
       else join_toks '', '' (map (\<lambda>f. as_toks (column_toks f) f) (Fields pl)))"

definition where_toks :: "plan \<Rightarrow> string list \<Rightarrow> sql_tok list list" where
  "where_toks pl ids =
    (if ids = [] then []
     else [plain ''record_id IN ('' @ join_toks '','' (map (\<lambda>i. [Lit i]) ids) @ plain '')''])
     @ map comparison_toks (Filters pl)
     @ (case TimeRange pl of None \<Rightarrow> []
        | Some r \<Rightarrow>
          (if From r \<noteq> 0 then [[Name ''timestamp''] @ plain '' >= '' @ [Lit (formatClickHouseDateTime64 (From r))]] else [])
          @ (if To r \<noteq> 0 then [[Name ''timestamp''] @ plain '' <= '' @ [Lit (formatClickHouseDateTime64 (To r))]] else []))"

definition order_toks :: "plan \<Rightarrow> sql_tok list" where
  "order_toks pl =
    (if Sort pl \<noteq> [] then plain '' ORDER BY '' @ join_toks '', ''
       (map (\<lambda>s. (if (case Aggregation pl of Some a \<Rightarrow> list_ex (\<lambda>f. af_Alias f = sf_Field s) (Funcs a) | None \<Rightarrow> False)
                  then [Name (sf_Field s)] else column_toks (sf_Field s))
             @ plain ('' '' @ (if Desc s then ''DESC'' else ''ASC''))) (Sort pl))
     else if (case Limit pl of Some l \<Rightarrow> lim_Tail l | None \<Rightarrow> False)
     then plain '' ORDER BY '' @ [Name ''timestamp''] @ plain '' ASC''
     else if Aggregation pl = None then plain '' ORDER BY '' @ [Name ''timestamp''] @ plain '' DESC''
     else [])"

definition limit_toks :: "plan \<Rightarrow> sql_tok list" where
  "limit_toks pl = (case Limit pl of
     Some l \<Rightarrow> plain ('' LIMIT '' @ itoa_int (lim_N l))
   | None \<Rightarrow> if Aggregation pl = None then plain '' LIMIT 100'' else [])"

definition sql_toks :: "plan \<Rightarrow> string list \<Rightarrow> sql_tok list" where
  "sql_toks pl ids = plain ''SELECT '' @ select_toks pl @ plain '' FROM logs''
     @ (if where_toks pl ids = [] then [] else plain '' WHERE '' @ join_toks '' AND '' (where_toks pl ids))
     @ (case Aggregation pl of Some a \<Rightarrow> if GroupBy a = [] then []
            else plain '' GROUP BY '' @ join_toks '', '' (map column_toks (GroupBy a)) | None \<Rightarrow> [])
     @ order_toks pl @ limit_toks pl"

definition safe :: "string \<Rightarrow> bool" where
  "safe s = (quote \<notin> set s \<and> backtick \<notin> set s)"

lemma unparse_append [simp]: "unparse (xs @ ys) = unparse xs @ unparse ys"
  by (induction xs rule: unparse.induct) auto

lemma unparse_plain [simp]: "unparse (plain s) = s"
  by (induction s) (auto simp: plain_def)

lemma plain_simps [simp]: "plain [] = []" "plain (c # s) = Plain c # plain s" "plain (s @ t) = plain s @ plain t"
  "plain s = [] \<longleftrightarrow> s = []"
  by (simp_all add: plain_def)

lemma safe_simps [simp]: "safe []" "safe (c # s) \<longleftrightarrow> c \<noteq> quote \<and> c \<noteq> backtick \<and> safe s"
  "safe (s @ t) \<longleftrightarrow> safe s \<and> safe t"
  by (auto simp: safe_def)

lemma separated_plain [simp]: "separated (plain s @ ts) \<longleftrightarrow> safe s \<and> separated ts"
  "separated (plain s) \<longleftrightarrow> safe s"
  by (induction s) auto

lemma separated_Plain_right [simp]:
  "separated (xs @ Plain c # ys) \<longleftrightarrow> separated xs \<and> separated (Plain c # ys)"
proof (induction xs)
  case (Cons t xs)
  then show ?case by (cases t; cases xs) (auto split: sql_tok.splits)
qed simp

lemma separated_mid:
  "s \<noteq> [] \<Longrightarrow> separated (xs @ plain s @ ys) \<longleftrightarrow> separated xs \<and> safe s \<and> separated ys"
  by (cases s) auto

lemma unparse_join: "unparse (join_toks sep xss) = join sep (map unparse xss)"
  by (induction sep xss rule: join_toks.induct) auto

lemma separated_join:
  "list_all separated xss \<Longrightarrow> safe sep \<Longrightarrow> sep \<noteq> [] \<Longrightarrow> separated (join_toks sep xss)"
  by (induction sep xss rule: join_toks.induct) (auto simp: separated_mid)

lemma join_Nil: "join sep xs = [] \<Longrightarrow> list_all (\<lambda>x. x \<noteq> []) xs \<Longrightarrow> xs = []"
  by (induction sep xs rule: join.induct) auto

lemma unparse_Nil: "unparse ts = [] \<Longrightarrow> separated ts \<Longrightarrow> ts = []"
  by (cases ts rule: unparse.cases) (auto simp: quoteLiteral_def quoteIdent_def)

lemma unparse_column [simp]: "unparse (column_toks f) = columnExpr f"
  by (simp add: column_toks_def columnExpr_def)

lemma separated_column [simp]: "separated (column_toks f)"
  by (simp add: column_toks_def quote_def backtick_def)

lemma column_toks_Plain: "separated (column_toks f @ plain s) \<longleftrightarrow> safe s"
  by (cases s) auto

lemma unparse_comparison [simp]: "unparse (comparison_toks f) = buildComparisonSQL f"
  by (simp add: comparison_toks_def buildComparisonSQL_def)

lemma safe_numeric: "isNumericLiteral s \<Longrightarrow> safe s"
proof -
  assume n: "isNumericLiteral s"
  define t where "t = (case s of [] \<Rightarrow> [] | c # cs \<Rightarrow> if c = CHR ''-'' then cs else s)"
  have d: "isDigit c \<Longrightarrow> c \<noteq> quote \<and> c \<noteq> backtick" for c
    by (auto simp: quote_def backtick_def isDigit_def)
  have "set t = set (takeWhile isDigit t) \<union> set (dropWhile isDigit t)"
    by (metis set_append takeWhile_dropWhile_id)
  moreover have "c \<in> set (takeWhile isDigit t) \<Longrightarrow> isDigit c" for c by (rule set_takeWhileD [THEN conjunct2])
  moreover have "c \<in> set (dropWhile isDigit t) \<Longrightarrow> c = CHR ''.'' \<or> isDigit c" for c
    using n unfolding isNumericLiteral_def t_def [symmetric] Let_def
    by (auto simp: list_all_iff split: list.splits)
  ultimately have "c \<in> set t \<Longrightarrow> c \<noteq> quote \<and> c \<noteq> backtick" for c
    using d by (auto simp: quote_def backtick_def)
  then have "safe t" by (auto simp: safe_def)
  then show "safe s" by (auto simp: t_def quote_def backtick_def split: list.splits if_splits)
qed

definition wf_op :: "filter_predicate \<Rightarrow> bool" where
  "wf_op f = (fp_Op f \<in> {''='', ''!='', ''>'', ''>='', ''<'', ''<=''})"

lemma separated_comparison: "wf_op f \<Longrightarrow> separated (comparison_toks f)"
proof -
  assume w: "wf_op f"
  then have "safe (fp_Op f)" by (auto simp: wf_op_def quote_def backtick_def)
  then show ?thesis
    using safe_numeric [of "fp_Value f"]
    by (auto simp: comparison_toks_def separated_mid quote_def backtick_def)
qed

lemma safe_digits: "list_all isDigit s \<Longrightarrow> safe s"
  by (induction s) (auto simp: quote_def backtick_def isDigit_def)

lemma safe_itoa [simp]: "safe (itoa_int n)"
  by (simp add: itoa_int_def safe_digits quote_def backtick_def)

lemma unparse_agg [simp]: "unparse (agg_toks f) = aggExpr f"
  by (simp add: agg_toks_def aggExpr_def Let_def)

lemma separated_agg:
  assumes "isValidAggFunc (af_Func f)"
  shows "separated (agg_toks f)"
proof -
  have "list_all (\<lambda>f. safe (map to_upper f)) [''count'', ''sum'', ''avg'', ''min'', ''max'']" by code_simp
  with assms have "safe (map to_upper (af_Func f))" by (auto simp: isValidAggFunc_def)
  then show ?thesis by (auto simp: agg_toks_def quote_def backtick_def)
qed

lemma unparse_as [simp]: "unparse (as_toks e a) = unparse e @ '' AS '' @ quoteIdent a"
  by (simp add: as_toks_def)

lemma separated_as: "separated e \<Longrightarrow> separated (as_toks e a)"
  by (simp add: as_toks_def quote_def backtick_def)

definition wf_plan :: "plan \<Rightarrow> bool" where
  "wf_plan pl = (list_all wf_op (Filters pl)
     \<and> (case Aggregation pl of Some a \<Rightarrow> list_all (\<lambda>f. isValidAggFunc (af_Func f)) (Funcs a) | None \<Rightarrow> True))"

lemma unparse_select: "unparse (select_toks pl) = selectClause pl"
  by (auto simp: select_toks_def selectClause_def unparse_join o_def split: option.splits)

lemma separated_select: "wf_plan pl \<Longrightarrow> separated (select_toks pl)"
  by (auto simp: select_toks_def wf_plan_def list_all_iff quote_def backtick_def
      intro!: separated_join separated_as separated_agg split: option.splits)

lemma unparse_where: "join '' AND '' (map unparse (where_toks pl ids)) = buildWhereClause pl ids"
  by (simp add: where_toks_def buildWhereClause_def unparse_join o_def quoteIdent_def backtick_def
      split: option.splits)

lemma separated_where: "wf_plan pl \<Longrightarrow> list_all separated (where_toks pl ids)"
proof -
  assume w: "wf_plan pl"
  have "separated (plain ''record_id IN ('' @ join_toks '','' (map (\<lambda>i. [Lit i]) ids) @ plain '')'')"
    using separated_join [of "map (\<lambda>i. [Lit i]) ids" "'',''"]
    by (simp add: quote_def backtick_def list_all_iff)
  moreover have "list_all separated (map comparison_toks (Filters pl))"
    using w by (auto simp: wf_plan_def list_all_iff separated_comparison)
  ultimately show ?thesis
    by (simp add: where_toks_def quote_def backtick_def split: option.splits)
qed

lemma where_toks_nonempty: "list_all (\<lambda>ts. ts \<noteq> []) (where_toks pl ids)"
  by (auto simp: where_toks_def comparison_toks_def list_all_iff split: option.splits)

lemma where_empty_iff:
  assumes "wf_plan pl"
  shows "buildWhereClause pl ids = [] \<longleftrightarrow> where_toks pl ids = []"
proof
  assume e: "buildWhereClause pl ids = []"
  have "list_all (\<lambda>x. x \<noteq> []) (map unparse (where_toks pl ids))"
    using separated_where [OF assms, of ids] where_toks_nonempty [of pl ids] unparse_Nil
    by (auto simp: list_all_iff)
  with e join_Nil show "where_toks pl ids = []" by (metis unparse_where map_is_Nil_conv)
qed (simp add: unparse_where [symmetric])

lemma unparse_order: "unparse (order_toks pl) = writeOrderBy pl"
  by (auto simp: order_toks_def writeOrderBy_def unparse_join o_def sortColumnExpr_def quoteIdent_def backtick_def
      split: option.splits intro!: arg_cong [of _ _ "join _"])

lemma separated_order: "separated (order_toks pl)"
  by (auto simp: order_toks_def list_all_iff quote_def backtick_def column_toks_Plain
      intro!: separated_join split: option.splits)

lemma unparse_limit: "unparse (limit_toks pl) = (case Limit pl of
         Some l \<Rightarrow> '' LIMIT '' @ itoa_int (lim_N l)
       | None \<Rightarrow> if Aggregation pl = None then '' LIMIT '' @ itoa_int defaultRowLimit else [])"
proof -
  have "itoa_int defaultRowLimit = ''100''" by (simp add: defaultRowLimit_def) code_simp
  then show ?thesis by (simp add: limit_toks_def split: option.splits)
qed

lemma buildSQL_unparse: "wf_plan pl \<Longrightarrow> buildSQL pl ids = unparse (sql_toks pl ids)"
  by (simp add: buildSQL_def sql_toks_def unparse_select unparse_order unparse_limit unparse_join o_def
      unparse_where where_empty_iff Let_def split: option.splits)

lemma sql_toks_separated:
  assumes "wf_plan pl"
  shows "separated (sql_toks pl ids)"
proof -
  let ?w = "if where_toks pl ids = [] then [] else plain '' WHERE '' @ join_toks '' AND '' (where_toks pl ids)"
  let ?g = "case Aggregation pl of Some a \<Rightarrow> if GroupBy a = [] then []
            else plain '' GROUP BY '' @ join_toks '', '' (map column_toks (GroupBy a)) | None \<Rightarrow> []"
  define starts_plain where "starts_plain xs = (case xs of [] \<Rightarrow> True | Plain _ # _ \<Rightarrow> True | _ \<Rightarrow> False)" for xs
  have app: "separated (xs @ ys)" if "separated xs" "separated ys" "starts_plain ys" for xs ys
    using that by (auto simp: starts_plain_def split: list.splits sql_tok.splits)
  have sp: "starts_plain ?w" "starts_plain ?g" "starts_plain (order_toks pl)" "starts_plain (limit_toks pl)"
    by (auto simp: starts_plain_def order_toks_def limit_toks_def split: option.splits)
  have spa: "starts_plain (xs @ ys)" if "starts_plain xs" "starts_plain ys" for xs ys
    using that by (auto simp: starts_plain_def split: list.splits)
  have w: "separated ?w"
    using separated_join [OF separated_where [OF assms, of ids], of "'' AND ''"]
    by (simp add: quote_def backtick_def)
  have g: "separated ?g"
    by (auto simp: list_all_iff quote_def backtick_def intro!: separated_join split: option.splits)
  have l: "separated (limit_toks pl)"
    by (simp add: limit_toks_def quote_def backtick_def split: option.splits)
  have "separated (?w @ ?g @ order_toks pl @ limit_toks pl)"
    by (intro app spa w g l separated_order sp)
  moreover have "starts_plain (?w @ ?g @ order_toks pl @ limit_toks pl)" by (intro spa sp)
  ultimately have "separated (plain '' FROM logs'' @ ?w @ ?g @ order_toks pl @ limit_toks pl)"
    by (simp add: quote_def backtick_def)
  with separated_select [OF assms] show ?thesis
    unfolding sql_toks_def by (simp add: quote_def backtick_def)
qed

text \<open>Reading a generated statement with ClickHouse's quoting rules gives exactly the intended
  token list.\<close>

lemma buildSQL_structure:
  "wf_plan pl \<Longrightarrow> scan_sql InPlain (buildSQL pl ids) = sql_toks pl ids"
  using scan_unparse [OF sql_toks_separated] buildSQL_unparse by metis

section \<open>Properties\<close>



text \<open>\<open>tail N\<close> without a sort is the same statement as \<open>sort +timestamp | head N\<close>: it asks
  for the N oldest rows, not the N newest ones that the comment at its ORDER BY clause
  announces.\<close>

theorem tail_is_oldest:
  "buildSQL (pl\<lparr>Sort := [], Limit := Some \<lparr>lim_N = n, lim_Tail = True\<rparr>, Aggregation := None\<rparr>) ids =
   buildSQL (pl\<lparr>Sort := [\<lparr>sf_Field = ''timestamp'', Desc = False\<rparr>],
     Limit := Some \<lparr>lim_N = n, lim_Tail = False\<rparr>, Aggregation := None\<rparr>) ids"
  by (simp add: buildSQL_def writeOrderBy_def selectClause_def buildWhereClause_def sortColumnExpr_def
      columnExpr_def is_top_def topLevelFields_def quoteIdent_def backtick_def)

end
