(* ===== verification/Query_Api.thy ===== *)
theory Query_Api
  imports Sql
begin

text \<open>
  The cost guard (\<open>api/ai/costguard/costguard.go\<close>) and the query endpoint
  (\<open>api/internal/queryapi/handler.go\<close>). The fixed texts of cost reasons are named by
  constructors, and \<open>Summary\<close> keeps them as a list in order. JSON decoding of the body, the
  clock and the backends are arguments of the handler; the audit logger is a possibly
  failing sink that receives the entries.
\<close>

section \<open>Cost guard\<close>

datatype level = LevelOK | LevelWarn | LevelReject

datatype cost_reason = RawNoTimestamp | UnboundedAggregation | UnboundedScan | TextSearchCap | SpanOver90Days

record assessment =
  Level :: level
  Reasons :: "cost_reason list"

definition maxReasonableSpan :: int where
  "maxReasonableSpan = 90 * 24 * Hour"

definition rawSQLTimestamp :: "string \<Rightarrow> bool" where
  "rawSQLTimestamp s = list_ex (\<lambda>i. wordBoundary s i \<and> keyword_at s ''timestamp'' i \<and> wordBoundary s (i + 9)
     \<and> (case dropWhile isReSpace (drop (i + 9) s) of [] \<Rightarrow> False | c # _ \<Rightarrow> c \<in> {CHR ''<'', CHR ''>'', CHR ''=''}))
     [0..<Suc (length s)]"

fun level_rank :: "level \<Rightarrow> nat" where
  "level_rank LevelOK = 0"
| "level_rank LevelWarn = 1"
| "level_rank LevelReject = 2"

definition maxLevel :: "level \<Rightarrow> level \<Rightarrow> level" where
  "maxLevel a b = (if level_rank b > level_rank a then b else a)"

definition assessRawSQL :: "string \<Rightarrow> assessment" where
  "assessRawSQL sql = (if rawSQLTimestamp sql then \<lparr>Level = LevelOK, Reasons = []\<rparr>
     else \<lparr>Level = LevelWarn, Reasons = [RawNoTimestamp]\<rparr>)"

definition assessIR :: "plan \<Rightarrow> assessment" where
  "assessIR pl =
    (let hasTimeBound = (case TimeRange pl of None \<Rightarrow> False | Some r \<Rightarrow> From r \<noteq> 0 \<or> To r \<noteq> 0) in
     if \<not> hasTimeBound then
       (let (lvl, rs) = (if Aggregation pl \<noteq> None then (LevelReject, [UnboundedAggregation])
                         else (LevelWarn, [UnboundedScan]))
        in \<lparr>Level = lvl, Reasons = rs @ (if length (TextSearch pl) > 0 then [TextSearchCap] else [])\<rparr>)
     else (case TimeRange pl of None \<Rightarrow> \<lparr>Level = LevelOK, Reasons = []\<rparr>
       | Some r \<Rightarrow>
         if From r \<noteq> 0 \<and> To r \<noteq> 0 \<and> time_Sub (To r) (From r) > maxReasonableSpan
         then \<lparr>Level = maxLevel LevelOK LevelWarn, Reasons = [SpanOver90Days]\<rparr>
         else \<lparr>Level = LevelOK, Reasons = []\<rparr>))"

definition Assess :: "plan \<Rightarrow> assessment" where
  "Assess pl = (if RawSQL pl \<noteq> [] then assessRawSQL (RawSQL pl) else assessIR pl)"

definition Summary :: "assessment \<Rightarrow> cost_reason list" where
  "Summary a = (if Level a = LevelOK \<or> Reasons a = [] then [] else Reasons a)"

section \<open>The query endpoint\<close>

record query_request =
  req_Query :: string
  req_Language :: string

record 'e query_audit_entry =
  ae_Query :: string
  ae_Language :: string
  ae_RowCount :: nat
  ae_Duration :: int
  ae_Success :: bool
  ae_Error :: "'e exec_error option"

datatype bad_request = InvalidJSON | EmptyQueryText | BadLanguage | CompileError plan_error

datatype ('e, 'v) query_reply =
    Reply400 bad_request
  | Reply502 "'e exec_error"
  | Reply200 "'v query_result" "cost_reason list list"

record ('e, 'v) query_env =
  env_parse_time :: "string \<Rightarrow> gotime option"
  env_runSQL :: "string \<Rightarrow> ('e, 'v query_result) result"
  env_search :: "string \<Rightarrow> nat \<Rightarrow> ('e, string list) result"
  env_now :: gotime
  env_start :: gotime
  env_end :: gotime
  env_audit :: bool

definition logAudit :: "('e, 'v) query_env \<Rightarrow> query_request \<Rightarrow> nat \<Rightarrow> int \<Rightarrow> 'e exec_error option
    \<Rightarrow> 'e query_audit_entry list" where
  "logAudit env req rowCount duration execErr = (if \<not> env_audit env then []
     else [\<lparr>ae_Query = req_Query req, ae_Language = req_Language req, ae_RowCount = rowCount,
       ae_Duration = duration, ae_Success = (execErr = None), ae_Error = execErr\<rparr>])"

text \<open>The handler returns its reply and the audit entries it hands to the logger. The
  argument is the decoded body, \<open>None\<close> when decoding fails.\<close>

definition handleQuery :: "('e, 'v) query_env \<Rightarrow> query_request option \<Rightarrow> ('e, 'v) query_reply \<times> 'e query_audit_entry list" where
  "handleQuery env body = (case body of
     None \<Rightarrow> (Reply400 InvalidJSON, [])
   | Some req \<Rightarrow>
     if TrimSpace (req_Query req) = [] then (Reply400 EmptyQueryText, [])
     else (case (if req_Language req = [] then Some Auto else if req_Language req = ''sql'' then Some SQL
                 else if req_Language req = ''spl'' then Some SPL else None) of
       None \<Rightarrow> (Reply400 BadLanguage, [])
     | Some lang \<Rightarrow>
       (case Compile (env_parse_time env) (req_Query req) lang (env_now env) of
          Inl e \<Rightarrow> (Reply400 (CompileError e), [])
        | Inr pl \<Rightarrow>
          (let r = Execute pl (env_runSQL env) (env_search env);
             duration = time_Sub (env_end env) (env_start env) in
           case r of
             Inl e \<Rightarrow> (Reply502 e, logAudit env req 0 duration (Some e))
           | Inr res \<Rightarrow>
             (Reply200 res (if Level (Assess pl) \<noteq> LevelOK then [Summary (Assess pl)] else []),
              logAudit env req (length (Rows res)) duration None)))))"

section \<open>Properties\<close>

text \<open>The cost guard's verdict in one line: raw SQL is never rejected; a pipe query is rejected
  exactly when it aggregates without any time bound, is accepted silently exactly when it has a
  time bound and does not span more than 90 days between two bounds, and every other verdict
  carries at least one reason.\<close>

theorem Assess_verdict:
  "(Level (Assess pl) = LevelReject \<longleftrightarrow> RawSQL pl = [] \<and> Aggregation pl \<noteq> None
      \<and> (case TimeRange pl of None \<Rightarrow> True | Some r \<Rightarrow> From r = 0 \<and> To r = 0))
   \<and> (RawSQL pl = [] \<and> Level (Assess pl) = LevelOK \<longleftrightarrow> RawSQL pl = [] \<and> (case TimeRange pl of None \<Rightarrow> False
      | Some r \<Rightarrow> \<not> (From r = 0 \<and> To r = 0) \<and> (From r = 0 \<or> To r = 0 \<or> To r - From r \<le> maxReasonableSpan)))
   \<and> (Level (Assess pl) = LevelOK \<longleftrightarrow> Summary (Assess pl) = [])"
proof -
  have "(time_Sub t u > maxReasonableSpan) = (t - u > maxReasonableSpan)" for t u
    by (auto simp: time_Sub_def maxReasonableSpan_def Hour_def Minute_def Second_def max_int64_def min_int64_def)
  then show ?thesis
    by (auto simp: Assess_def assessRawSQL_def assessIR_def Summary_def maxLevel_def Let_def split: option.splits)
qed

text \<open>A request answered with 400 never reaches the backends or the audit log: the reply and the
  (empty) log are the same whatever SQL runner, search client and clock readings are in place.
  Every other reply produces exactly one audit entry when a logger is configured, which records
  success exactly for a 200 reply, with the number of rows returned.\<close>

theorem handleQuery_audit:
  "case handleQuery env body of
     (Reply400 b, log) \<Rightarrow> log = [] \<and> (\<forall>run srch st en. handleQuery (env\<lparr>env_runSQL := run, env_search := srch,
         env_start := st, env_end := en\<rparr>) body = (Reply400 b, []))
   | (Reply502 e, log) \<Rightarrow> (\<exists>req. body = Some req \<and> (if env_audit env
         then (\<exists>a. log = [a] \<and> ae_Query a = req_Query req \<and> \<not> ae_Success a \<and> ae_Error a = Some e) else log = []))
   | (Reply200 res w, log) \<Rightarrow> (\<exists>req. body = Some req \<and> (if env_audit env
         then (\<exists>a. log = [a] \<and> ae_Query a = req_Query req \<and> ae_Success a \<and> ae_RowCount a = length (Rows res)) else log = []))"
proof (cases body)
  case None
  then show ?thesis by (simp add: handleQuery_def)
next
  case (Some req)
  define lang where "lang = (if req_Language req = [] then Some Auto else if req_Language req = ''sql'' then Some SQL
                 else if req_Language req = ''spl'' then Some SPL else None)"
  show ?thesis
  proof (cases "TrimSpace (req_Query req) = [] \<or> lang = None")
    case True
    then show ?thesis using Some by (auto simp: handleQuery_def lang_def [symmetric])
  next
    case False
    then obtain lg where lg: "lang = Some lg" "TrimSpace (req_Query req) \<noteq> []" by auto
    show ?thesis
    proof (cases "Compile (env_parse_time env) (req_Query req) lg (env_now env)")
      case (Inl e)
      then show ?thesis using Some lg by (simp add: handleQuery_def lang_def [symmetric])
    next
      case (Inr pl)
      then show ?thesis
        using Some lg
        by (cases "Execute pl (env_runSQL env) (env_search env)")
           (simp_all add: handleQuery_def lang_def [symmetric] logAudit_def Let_def)
    qed
  qed
qed

end
