(* ===== verification/Alerting.thy ===== *)
theory Alerting
  imports Prelude
begin

text \<open>
  The alert state machine and the condition of a rule
  (\<open>alerting/internal/evaluator/transitions.go\<close>, \<open>condition.go\<close>), and the enumerations of
  \<open>alerting/internal/rulestore/store.go\<close>. A \<open>float64\<close> that came from JSON is never NaN, so the
  values are any linear order. The lemmas follow a rule through a history of
  evaluations.
\<close>

datatype alert_status = StateOK | StatePending | StateFiring

datatype comparator = CmpGt | CmpGte | CmpLt | CmpLte | CmpEq | CmpNe | CmpOther string

datatype condition_type = ConditionThreshold | ConditionAbsence | ConditionOther string

datatype event_type = EvFiring | EvResolved

record transition_input =
  CurrentState :: alert_status
  ConditionTrueSince :: "gotime option"
  FiredAt :: "gotime option"
  LastNotifiedAt :: "gotime option"
  ForMinutes :: int
  RenotifyInterval :: "int option"
  Now :: gotime
  ConditionTrue :: bool

record transition_result =
  NextState :: alert_status
  NextConditionTrueSince :: "gotime option"
  NextFiredAt :: "gotime option"
  NextLastNotifiedAt :: "gotime option"
  Notify :: "event_type option"

definition fire :: "gotime \<Rightarrow> gotime \<Rightarrow> transition_result" where
  "fire since now = \<lparr>NextState = StateFiring, NextConditionTrueSince = Some since,
     NextFiredAt = Some now, NextLastNotifiedAt = Some now, Notify = Some EvFiring\<rparr>"

definition computeConditionTrue :: "transition_input \<Rightarrow> transition_result" where
  "computeConditionTrue inp = (case CurrentState inp of
     StatePending \<Rightarrow>
       (let since = (case ConditionTrueSince inp of None \<Rightarrow> Now inp | Some s \<Rightarrow> s) in
        if time_Sub (Now inp) since \<ge> ForMinutes inp then fire since (Now inp)
        else \<lparr>NextState = StatePending, NextConditionTrueSince = Some since, NextFiredAt = None,
               NextLastNotifiedAt = None, Notify = None\<rparr>)
   | StateFiring \<Rightarrow>
       (let r = \<lparr>NextState = StateFiring, NextConditionTrueSince = ConditionTrueSince inp,
                  NextFiredAt = FiredAt inp, NextLastNotifiedAt = LastNotifiedAt inp, Notify = None\<rparr> in
        case (RenotifyInterval inp, LastNotifiedAt inp) of
          (Some i, Some n) \<Rightarrow> if time_Sub (Now inp) n \<ge> i
             then r\<lparr>NextLastNotifiedAt := Some (Now inp), Notify := Some EvFiring\<rparr> else r
        | _ \<Rightarrow> r)
   | StateOK \<Rightarrow>
       (if ForMinutes inp \<le> 0 then fire (Now inp) (Now inp)
        else \<lparr>NextState = StatePending, NextConditionTrueSince = Some (Now inp), NextFiredAt = None,
               NextLastNotifiedAt = None, Notify = None\<rparr>))"

definition computeConditionFalse :: "transition_input \<Rightarrow> transition_result" where
  "computeConditionFalse inp = (case CurrentState inp of
     StateFiring \<Rightarrow> \<lparr>NextState = StateOK, NextConditionTrueSince = None, NextFiredAt = None,
       NextLastNotifiedAt = None, Notify = Some EvResolved\<rparr>
   | _ \<Rightarrow> \<lparr>NextState = StateOK, NextConditionTrueSince = None, NextFiredAt = None,
       NextLastNotifiedAt = None, Notify = None\<rparr>)"

definition ComputeTransition :: "transition_input \<Rightarrow> transition_result" where
  "ComputeTransition inp = (if ConditionTrue inp then computeConditionTrue inp else computeConditionFalse inp)"

section \<open>The condition\<close>

datatype 'f cell = Num 'f | NonNum

datatype cond_error = WrongRowCount nat | NoColumns | NotNumeric | MissingComparator | UnknownCondition string

definition toFloat64 :: "'f cell \<Rightarrow> 'f option" where
  "toFloat64 v = (case v of Num f \<Rightarrow> Some f | NonNum \<Rightarrow> None)"

definition ValidConditionType :: "condition_type \<Rightarrow> bool" where
  "ValidConditionType c = (c = ConditionThreshold \<or> c = ConditionAbsence)"

definition ValidComparator :: "comparator \<Rightarrow> bool" where
  "ValidComparator c = (case c of CmpOther _ \<Rightarrow> False | _ \<Rightarrow> True)"

definition compare :: "'f::linorder \<Rightarrow> comparator \<Rightarrow> 'f \<Rightarrow> bool" where
  "compare value cmp threshold = (case cmp of
     CmpGt \<Rightarrow> value > threshold | CmpGte \<Rightarrow> value \<ge> threshold | CmpLt \<Rightarrow> value < threshold
   | CmpLte \<Rightarrow> value \<le> threshold | CmpEq \<Rightarrow> value = threshold | CmpNe \<Rightarrow> value \<noteq> threshold
   | CmpOther _ \<Rightarrow> False)"

definition evaluateCondition :: "condition_type \<Rightarrow> comparator option \<Rightarrow> 'f::linorder option \<Rightarrow> 'f cell list list
    \<Rightarrow> (cond_error, bool \<times> 'f option) result" where
  "evaluateCondition ct cmp threshold rows = (case ct of
     ConditionAbsence \<Rightarrow> Inr (length rows = 0, None)
   | ConditionThreshold \<Rightarrow>
     (if length rows \<noteq> 1 then Inl (WrongRowCount (length rows))
      else let row = rows ! 0 in
      if length row = 0 then Inl NoColumns
      else case toFloat64 (row ! 0) of
        None \<Rightarrow> Inl NotNumeric
      | Some v \<Rightarrow> (case (cmp, threshold) of
          (Some c, Some t) \<Rightarrow> Inr (compare v c t, Some v)
        | _ \<Rightarrow> Inl MissingComparator))
   | ConditionOther s \<Rightarrow> Inl (UnknownCondition s))"

section \<open>Histories of one rule\<close>

text \<open>The persisted part of a rule's state, and one successful evaluation of it.\<close>

record machine =
  m_state :: alert_status
  m_since :: "gotime option"
  m_fired :: "gotime option"
  m_notified :: "gotime option"

definition initial :: machine where
  "initial = \<lparr>m_state = StateOK, m_since = None, m_fired = None, m_notified = None\<rparr>"

definition step_result :: "int \<Rightarrow> int option \<Rightarrow> machine \<Rightarrow> gotime \<times> bool \<Rightarrow> transition_result" where
  "step_result fm ri m e = ComputeTransition \<lparr>CurrentState = m_state m, ConditionTrueSince = m_since m,
     FiredAt = m_fired m, LastNotifiedAt = m_notified m, ForMinutes = fm, RenotifyInterval = ri,
     Now = fst e, ConditionTrue = snd e\<rparr>"

definition step :: "int \<Rightarrow> int option \<Rightarrow> machine \<Rightarrow> gotime \<times> bool \<Rightarrow> machine" where
  "step fm ri m e = (let r = step_result fm ri m e in
     \<lparr>m_state = NextState r, m_since = NextConditionTrueSince r, m_fired = NextFiredAt r,
      m_notified = NextLastNotifiedAt r\<rparr>)"

definition run :: "int \<Rightarrow> int option \<Rightarrow> (gotime \<times> bool) list \<Rightarrow> machine" where
  "run fm ri es = foldl (step fm ri) initial es"

fun notifications_from :: "int \<Rightarrow> int option \<Rightarrow> machine \<Rightarrow> (gotime \<times> bool) list \<Rightarrow> (gotime \<times> event_type) list" where
  "notifications_from fm ri m [] = []"
| "notifications_from fm ri m (e # es) =
     (case Notify (step_result fm ri m e) of None \<Rightarrow> [] | Some ev \<Rightarrow> [(fst e, ev)])
     @ notifications_from fm ri (step fm ri m e) es"

definition notifications :: "int \<Rightarrow> int option \<Rightarrow> (gotime \<times> bool) list \<Rightarrow> (gotime \<times> event_type) list" where
  "notifications fm ri es = notifications_from fm ri initial es"

text \<open>Evaluations happen in time order.\<close>

definition timed :: "(gotime \<times> bool) list \<Rightarrow> bool" where
  "timed es = sorted (map fst es)"

lemmas transition_defs = step_result_def ComputeTransition_def computeConditionTrue_def
  computeConditionFalse_def fire_def Let_def

definition machine_inv :: "machine \<Rightarrow> bool" where
  "machine_inv m = (case m_state m of
     StateOK \<Rightarrow> m_since m = None \<and> m_fired m = None \<and> m_notified m = None
   | StatePending \<Rightarrow> m_since m \<noteq> None \<and> m_fired m = None \<and> m_notified m = None
   | StateFiring \<Rightarrow> m_since m \<noteq> None \<and> m_fired m \<noteq> None \<and> m_notified m \<noteq> None)"

lemma machine_inv_initial: "machine_inv initial"
  by (simp add: machine_inv_def initial_def)

lemma machine_inv_step: "machine_inv m \<Longrightarrow> machine_inv (step fm ri m e)"
  by (auto simp: machine_inv_def step_def transition_defs split: alert_status.splits option.splits)

lemma run_snoc: "run fm ri (es @ [e]) = step fm ri (run fm ri es) e"
  by (simp add: run_def)

lemma machine_inv_run: "machine_inv (run fm ri es)"
  by (induction es rule: rev_induct) (simp_all add: run_def machine_inv_initial machine_inv_step)

text \<open>The current streak: the longest run of true evaluations at the end of the history.\<close>

definition streak :: "(gotime \<times> bool) list \<Rightarrow> (gotime \<times> bool) list" where
  "streak es = rev (takeWhile snd (rev es))"

lemma streak_snoc: "streak (es @ [e]) = (if snd e then streak es @ [e] else [])"
  by (simp add: streak_def)

lemma streak_Nil [simp]: "streak [] = []"
  by (simp add: streak_def)

lemma timed_snoc: "timed (es @ [e]) \<longleftrightarrow> timed es \<and> (\<forall>x \<in> set es. fst x \<le> fst e)"
  by (auto simp: timed_def sorted_append)

lemma set_streak: "set (streak es) \<subseteq> set es"
  by (auto simp: streak_def dest: set_takeWhileD)

text \<open>What the streak says about the persisted state.\<close>

definition state_of_streak :: "int \<Rightarrow> (gotime \<times> bool) list \<Rightarrow> alert_status" where
  "state_of_streak fm xs = (if xs = [] then StateOK
     else if fst (last xs) - fst (hd xs) \<ge> fm then StateFiring else StatePending)"

lemma run_streak:
  assumes "0 \<le> fm" "fm \<le> max_int64" "timed es"
  shows "m_state (run fm ri es) = state_of_streak fm (streak es)
    \<and> m_since (run fm ri es) = (if streak es = [] then None else Some (fst (hd (streak es))))"
  using assms(3)
proof (induction es rule: rev_induct)
  case Nil
  then show ?case by (simp add: run_def initial_def state_of_streak_def)
next
  case (snoc e es)
  let ?m = "run fm ri es"
  obtain t c where e: "e = (t, c)" by fastforce
  have IH: "m_state ?m = state_of_streak fm (streak es)"
    "m_since ?m = (if streak es = [] then None else Some (fst (hd (streak es))))"
    using snoc by (auto simp: timed_snoc)
  have sub: "fm \<le> time_Sub t u \<longleftrightarrow> fm \<le> t - u" for u
    using assms by (intro time_Sub_ge) (auto simp: min_int64_def)
  have le: "fst (last (streak es)) \<le> t" if ne: "streak es \<noteq> []"
  proof -
    have "last (streak es) \<in> set es" using last_in_set [OF ne] set_streak by blast
    with snoc.prems e show ?thesis by (simp add: timed_snoc)
  qed
  show ?case
  proof (cases c)
    case False
    then show ?thesis
      using e by (auto simp: run_snoc streak_snoc step_def transition_defs state_of_streak_def
          split: alert_status.splits)
  next
    case c: True
    show ?thesis
    proof (cases "streak es = []")
      case True
      with IH c e assms show ?thesis
        by (auto simp: run_snoc streak_snoc step_def transition_defs state_of_streak_def)
    next
      case ne: False
      show ?thesis
      proof (cases "fst (last (streak es)) - fst (hd (streak es)) \<ge> fm")
        case True
        with ne IH le c e have "m_state ?m = StateFiring" "t - fst (hd (streak es)) \<ge> fm"
          by (auto simp: state_of_streak_def)
        with ne IH c e show ?thesis
          by (auto simp: run_snoc streak_snoc step_def transition_defs state_of_streak_def split: option.splits)
      next
        case False
        with ne IH have "m_state ?m = StatePending" by (simp add: state_of_streak_def)
        with ne IH c e show ?thesis
          by (auto simp: run_snoc streak_snoc step_def transition_defs state_of_streak_def sub)
      qed
    qed
  qed
qed

text \<open>The protocol of notifications: outside an episode only a firing notice may come; inside
  one, opened or last renewed at \<open>n\<close>, either a resolved notice closes it or a renewed firing
  notice comes at least the renotify interval later.\<close>

fun paced :: "int option \<Rightarrow> gotime option \<Rightarrow> (gotime \<times> event_type) list \<Rightarrow> bool" where
  "paced ri open_at [] = True"
| "paced ri None ((t, ev) # xs) = (ev = EvFiring \<and> paced ri (Some t) xs)"
| "paced ri (Some n) ((t, ev) # xs) = (case ev of EvResolved \<Rightarrow> paced ri None xs
     | EvFiring \<Rightarrow> (case ri of None \<Rightarrow> False | Some i \<Rightarrow> t - n \<ge> i) \<and> paced ri (Some t) xs)"

lemma notifications_paced:
  assumes "\<And>i. ri = Some i \<Longrightarrow> 0 \<le> i \<and> i \<le> max_int64" "machine_inv m"
  shows "paced ri (m_notified m) (notifications_from fm ri m es)"
  using assms(2)
proof (induction es arbitrary: m)
  case (Cons e es)
  note IH = Cons.IH [OF machine_inv_step [OF Cons.prems], of fm ri e]
  have sub: "i \<le> time_Sub t u \<longleftrightarrow> i \<le> t - u" if "ri = Some i" for i t u
    using assms(1) [OF that] by (intro time_Sub_ge) (auto simp: min_int64_def)
  show ?case
    using IH Cons.prems sub
    by (cases "m_state m"; cases "snd e")
       (auto simp: step_def transition_defs machine_inv_def split: option.splits if_splits)
qed simp

section \<open>Properties\<close>

text \<open>C6: The debounce is exact. Along any history of evaluations in time order, the persisted state
  depends only on the current streak of true evaluations: ok when the last evaluation was false,
  firing when the streak has lasted at least \<open>for_minutes\<close>, pending otherwise; and
  \<open>condition_true_since\<close> is the time the streak began.\<close>

theorem debounce_exact:
  assumes "0 \<le> fm" "fm \<le> max_int64" "timed es"
  shows "m_state (run fm ri es) = (if streak es = [] then StateOK
      else if fst (last (streak es)) - fst (hd (streak es)) \<ge> fm then StateFiring else StatePending)
    \<and> m_since (run fm ri es) = (if streak es = [] then None else Some (fst (hd (streak es))))"
  using run_streak [OF assms] by (simp add: state_of_streak_def)

theorem debounce_exact_witness:
  "m_state (run (2 * Minute) None [(0, False), (1, True), (Minute, True), (3 * Minute, True)]) = StateFiring"
proof -
  have "streak [(0, False), (1, True), (Minute, True), (3 * Minute, True)]
      = [(1, True), (Minute, True), (3 * Minute, True)]" by (simp add: streak_def)
  then show ?thesis
    using debounce_exact [of "2 * Minute" "[(0, False), (1, True), (Minute, True), (3 * Minute, True)]" None]
    by (simp add: timed_def Minute_def Second_def max_int64_def)
qed

text \<open>C33: The notification protocol. Whatever the history, the notices of a rule are a sequence of
  episodes, each opened by one firing notice and closed by at most one resolved notice; a firing
  notice is repeated inside an episode only when a renotify interval is set, and never sooner than
  that interval after the previous one.\<close>

theorem notification_protocol:
  assumes "\<And>i. ri = Some i \<Longrightarrow> 0 \<le> i \<and> i \<le> max_int64"
  shows "paced ri None (notifications fm ri es)"
  using notifications_paced [OF assms machine_inv_initial] by (simp add: notifications_def initial_def)

theorem notification_protocol_witness:
  "paced (Some Hour) None (notifications 0 (Some Hour) [(1, True), (Hour, True), (2 * Hour, True), (3 * Hour, False)])"
  by (rule notification_protocol) (simp add: Hour_def Minute_def Second_def max_int64_def)

end
