(* ===== verification/Notify.thy ===== *)
theory Notify
  imports Alerting
begin

text \<open>
  Notification targets, the webhook address guard and the payload formatters
  (\<open>alerting/internal/notifystore/store.go\<close>, \<open>ssrf.go\<close>,
  \<open>alerting/internal/delivery/webhook.go\<close>, \<open>slack.go\<close>, \<open>pagerduty.go\<close>). An IP address is
  the byte slice of \<open>net.IP\<close>. URL parsing and name resolution, number and time formatting
  and the template engine are arguments; a JSON document is kept as the structure that
  \<open>json.Marshal\<close> receives.
\<close>

section \<open>Targets\<close>

datatype target_kind = KindWebhook | KindSlack | KindPagerDuty | KindOther string

definition ValidKind :: "target_kind \<Rightarrow> bool" where
  "ValidKind k = (case k of KindOther _ \<Rightarrow> False | _ \<Rightarrow> True)"

record target =
  t_ID :: string
  t_TenantID :: string
  t_Name :: string
  t_Kind :: target_kind
  t_WebhookURL :: string
  t_PayloadTemplate :: "string option"
  t_Headers :: string
  t_Secret :: "string option"
  t_CreatedBy :: string

section \<open>Disallowed addresses\<close>

type_synonym ip = "nat list"

definition To4 :: "ip \<Rightarrow> ip option" where
  "To4 i = (if length i = 4 then Some i
     else if length i = 16 \<and> take 10 i = replicate 10 0 \<and> i ! 10 = 255 \<and> i ! 11 = 255
     then Some (drop 12 i) else None)"

definition IsLoopback :: "ip \<Rightarrow> bool" where
  "IsLoopback i = (case To4 i of Some q \<Rightarrow> q ! 0 = 127 | None \<Rightarrow> i = replicate 15 0 @ [1])"

definition IsPrivate :: "ip \<Rightarrow> bool" where
  "IsPrivate i = (case To4 i of
     Some q \<Rightarrow> q ! 0 = 10 \<or> (q ! 0 = 172 \<and> q ! 1 div 16 = 1) \<or> (q ! 0 = 192 \<and> q ! 1 = 168)
   | None \<Rightarrow> length i = 16 \<and> i ! 0 div 2 = 126)"

definition IsLinkLocalUnicast :: "ip \<Rightarrow> bool" where
  "IsLinkLocalUnicast i = (case To4 i of Some q \<Rightarrow> q ! 0 = 169 \<and> q ! 1 = 254
   | None \<Rightarrow> length i = 16 \<and> i ! 0 = 254 \<and> i ! 1 div 64 = 2)"

definition IsLinkLocalMulticast :: "ip \<Rightarrow> bool" where
  "IsLinkLocalMulticast i = (case To4 i of Some q \<Rightarrow> q ! 0 = 224 \<and> q ! 1 = 0 \<and> q ! 2 = 0
   | None \<Rightarrow> length i = 16 \<and> i ! 0 = 255 \<and> i ! 1 mod 16 = 2)"

definition IsMulticast :: "ip \<Rightarrow> bool" where
  "IsMulticast i = (case To4 i of Some q \<Rightarrow> q ! 0 div 16 = 14 | None \<Rightarrow> length i = 16 \<and> i ! 0 = 255)"

definition IsUnspecified :: "ip \<Rightarrow> bool" where
  "IsUnspecified i = (To4 i = Some [0, 0, 0, 0] \<or> i = replicate 16 0)"

definition isDisallowedWebhookTarget :: "ip \<Rightarrow> bool" where
  "isDisallowedWebhookTarget i = (IsLoopback i \<or> IsLinkLocalUnicast i \<or> IsLinkLocalMulticast i
     \<or> IsPrivate i \<or> IsUnspecified i \<or> IsMulticast i)"

record net_env =
  parse_url :: "string \<Rightarrow> (string \<times> string) option"
  lookup_ip :: "string \<Rightarrow> ip list option"

datatype url_error = InvalidURL | BadScheme string | NoHost | LookupFailed string | NoAddress string
  | DisallowedAddress string ip

fun first_disallowed :: "ip list \<Rightarrow> ip option" where
  "first_disallowed [] = None"
| "first_disallowed (i # is) = (if isDisallowedWebhookTarget i then Some i else first_disallowed is)"

definition ValidateWebhookURL :: "net_env \<Rightarrow> string \<Rightarrow> (url_error, unit) result" where
  "ValidateWebhookURL net raw = (case parse_url net raw of
     None \<Rightarrow> Inl InvalidURL
   | Some (scheme, host) \<Rightarrow>
     if scheme \<noteq> ''http'' \<and> scheme \<noteq> ''https'' then Inl (BadScheme scheme)
     else if host = [] then Inl NoHost
     else (case lookup_ip net host of
       None \<Rightarrow> Inl (LookupFailed host)
     | Some ips \<Rightarrow>
       if length ips = 0 then Inl (NoAddress host)
       else (case first_disallowed ips of Some i \<Rightarrow> Inl (DisallowedAddress host i) | None \<Rightarrow> Inr ())))"

section \<open>Payloads\<close>

record 'f event =
  e_RuleID :: string
  e_RuleName :: string
  e_EventType :: event_type
  e_ConditionType :: condition_type
  e_Comparator :: string
  e_ThresholdValue :: "'f option"
  e_Value :: "'f option"
  e_Timestamp :: gotime

datatype 'f payload =
    SlackPayload string
  | PagerDutyPayload string string string string string string
  | GenericPayload string string event_type "'f option" string
  | TemplatePayload string

record 'f render_env =
  fmt_4g :: "'f \<Rightarrow> string"
  fmt_rfc3339 :: "gotime \<Rightarrow> string"
  run_template :: "string \<Rightarrow> 'f event \<Rightarrow> string option"

definition event_text :: "event_type \<Rightarrow> string" where
  "event_text e = (case e of EvFiring \<Rightarrow> ''firing'' | EvResolved \<Rightarrow> ''resolved'')"

definition comparatorSymbol :: "string \<Rightarrow> string" where
  "comparatorSymbol c = (if c = ''gt'' then ''>'' else if c = ''gte'' then ''>='' else if c = ''lt'' then ''<''
     else if c = ''lte'' then ''<='' else if c = ''eq'' then ''=='' else if c = ''ne'' then ''!='' else c)"

definition value_clause :: "'f render_env \<Rightarrow> 'f event \<Rightarrow> string" where
  "value_clause env ev = (case (e_Value ev, e_ThresholdValue ev) of
     (Some v, Some t) \<Rightarrow> '' (value '' @ fmt_4g env v @ '' '' @ comparatorSymbol (e_Comparator ev) @ '' ''
        @ fmt_4g env t @ '')''
   | _ \<Rightarrow> [])"

definition buildSlackPayload :: "'f render_env \<Rightarrow> 'f event \<Rightarrow> 'f payload" where
  "buildSlackPayload env ev = SlackPayload (case e_EventType ev of
     EvFiring \<Rightarrow> '':rotating_light: *'' @ e_RuleName ev @ ''* is firing'' @ value_clause env ev
   | EvResolved \<Rightarrow> '':white_check_mark: *'' @ e_RuleName ev @ ''* resolved'')"

text \<open>The fields of a PagerDuty payload are routing key, action, dedup key, summary, source and
  severity.\<close>

definition buildPagerDutyPayload :: "'f render_env \<Rightarrow> target \<Rightarrow> 'f event \<Rightarrow> 'f payload" where
  "buildPagerDutyPayload env tgt ev =
    (let (action, severity) = (if e_EventType ev = EvResolved then (''resolve'', ''info'')
                               else (''trigger'', ''critical''));
       routingKey = (case t_Secret tgt of Some s \<Rightarrow> s | None \<Rightarrow> []);
       summary = e_RuleName ev @ '': '' @ event_text (e_EventType ev) @ value_clause env ev
     in PagerDutyPayload routingKey action (e_RuleID ev) summary ''cairnobs'' severity)"

definition buildGenericPayload :: "'f render_env \<Rightarrow> target \<Rightarrow> 'f event \<Rightarrow> 'f payload option" where
  "buildGenericPayload env tgt ev =
    (if t_PayloadTemplate tgt = None \<or> t_PayloadTemplate tgt = Some []
     then Some (GenericPayload (e_RuleID ev) (e_RuleName ev) (e_EventType ev) (e_Value ev)
                 (fmt_rfc3339 env (e_Timestamp ev)))
     else case run_template env (the (t_PayloadTemplate tgt)) ev of
       None \<Rightarrow> None | Some out \<Rightarrow> Some (TemplatePayload out))"

definition BuildPayload :: "'f render_env \<Rightarrow> target \<Rightarrow> 'f event \<Rightarrow> 'f payload option" where
  "BuildPayload env tgt ev = (case t_Kind tgt of
     KindSlack \<Rightarrow> Some (buildSlackPayload env ev)
   | KindPagerDuty \<Rightarrow> Some (buildPagerDutyPayload env tgt ev)
   | _ \<Rightarrow> buildGenericPayload env tgt ev)"

section \<open>Lemmas\<close>

lemma first_disallowed_None: "first_disallowed is = None \<longleftrightarrow> list_all (\<lambda>i. \<not> isDisallowedWebhookTarget i) is"
  by (induction "is") auto

lemma ValidateWebhookURL_ok:
  "ValidateWebhookURL net raw = Inr () \<longleftrightarrow> (\<exists>scheme host ips. parse_url net raw = Some (scheme, host)
     \<and> scheme \<in> {''http'', ''https''} \<and> host \<noteq> [] \<and> lookup_ip net host = Some ips \<and> ips \<noteq> []
     \<and> list_all (\<lambda>i. \<not> isDisallowedWebhookTarget i) ips)"
proof (cases "parse_url net raw")
  case (Some sh)
  then obtain scheme host where p: "parse_url net raw = Some (scheme, host)" by (cases sh) auto
  show ?thesis
    by (cases "lookup_ip net host") (auto simp: ValidateWebhookURL_def p first_disallowed_None [symmetric] split: option.splits)
qed (simp add: ValidateWebhookURL_def)

text \<open>The address ranges the guard is meant to cover, as intervals of dotted quads.\<close>

definition internal_v4 :: "nat \<Rightarrow> nat \<Rightarrow> nat \<Rightarrow> nat \<Rightarrow> bool" where
  "internal_v4 a b c d = (a = 127 \<or> a = 10 \<or> (a = 172 \<and> 16 \<le> b \<and> b \<le> 31) \<or> (a = 192 \<and> b = 168)
     \<or> (a = 169 \<and> b = 254) \<or> (224 \<le> a \<and> a \<le> 239) \<or> (a = 0 \<and> b = 0 \<and> c = 0 \<and> d = 0))"

lemma div16: "(b::nat) div 16 = Suc 0 \<longleftrightarrow> 16 \<le> b \<and> b \<le> 31" "b div 16 = 14 \<longleftrightarrow> 224 \<le> b \<and> b \<le> 239"
proof -
  have b: "b = 16 * (b div 16) + b mod 16" "b mod 16 < 16" by simp_all
  show "b div 16 = Suc 0 \<longleftrightarrow> 16 \<le> b \<and> b \<le> 31" "b div 16 = 14 \<longleftrightarrow> 224 \<le> b \<and> b \<le> 239"
    using b by linarith+
qed

lemma disallowed_v4: "isDisallowedWebhookTarget [a, b, c, d] \<longleftrightarrow> internal_v4 a b c d"
proof -
  have t: "To4 [a, b, c, d] = Some [a, b, c, d]" by (simp add: To4_def)
  have u: "IsUnspecified [a, b, c, d] \<longleftrightarrow> a = 0 \<and> b = 0 \<and> c = 0 \<and> d = 0"
  proof -
    have "length [a, b, c, d] \<noteq> length (replicate 16 (0::nat))" by simp
    then have "[a, b, c, d] \<noteq> replicate 16 0" by metis
    then show ?thesis by (simp add: IsUnspecified_def t)
  qed
  have l: "IsLinkLocalMulticast [a, b, c, d] \<Longrightarrow> IsMulticast [a, b, c, d]"
    by (auto simp: IsLinkLocalMulticast_def IsMulticast_def To4_def)
  have m: "IsMulticast [a, b, c, d] \<longleftrightarrow> 224 \<le> a \<and> a \<le> 239"
    by (simp add: IsMulticast_def t div16)
  have r: "IsLoopback [a, b, c, d] \<longleftrightarrow> a = 127" "IsLinkLocalUnicast [a, b, c, d] \<longleftrightarrow> a = 169 \<and> b = 254"
    "IsPrivate [a, b, c, d] \<longleftrightarrow> a = 10 \<or> (a = 172 \<and> 16 \<le> b \<and> b \<le> 31) \<or> (a = 192 \<and> b = 168)"
    by (simp_all add: IsLoopback_def IsLinkLocalUnicast_def IsPrivate_def t div16)
  show ?thesis
    using l unfolding isDisallowedWebhookTarget_def internal_v4_def m u r by blast
qed

definition v4_in_6 :: "ip \<Rightarrow> ip" where
  "v4_in_6 q = replicate 10 0 @ [255, 255] @ q"

lemma To4_v4_in_6: "length q = 4 \<Longrightarrow> To4 (v4_in_6 q) = Some q"
  by (simp add: To4_def v4_in_6_def nth_append)

lemma disallowed_mapped:
  assumes "length q = 4"
  shows "isDisallowedWebhookTarget (v4_in_6 q) = isDisallowedWebhookTarget q"
proof -
  have t: "To4 (v4_in_6 q) = Some q" "To4 q = Some q"
    using assms by (simp_all add: To4_v4_in_6) (simp add: To4_def)
  have "v4_in_6 q ! 10 = 255" by (simp add: v4_in_6_def nth_append)
  moreover have "replicate 16 (0::nat) ! 10 = 0" by simp
  ultimately have n: "v4_in_6 q \<noteq> replicate 16 0" by force
  have "length q \<noteq> length (replicate 16 (0::nat))" using assms by simp
  then have n': "q \<noteq> replicate 16 0" by metis
  show ?thesis
    unfolding isDisallowedWebhookTarget_def IsLoopback_def IsPrivate_def IsLinkLocalUnicast_def
      IsLinkLocalMulticast_def IsMulticast_def IsUnspecified_def t option.case
    using n n' by blast
qed

section \<open>Properties\<close>

text \<open>The webhook guard. A URL is accepted exactly when it is an http or https URL with a host,
  the host resolves to at least one address, and no address it resolves to is internal; in
  particular every address of a private, loopback, link-local, multicast or unspecified IPv4 range,
  written as four bytes or mapped into IPv6, makes the URL unacceptable.\<close>

theorem webhook_guard:
  "(ValidateWebhookURL net raw = Inr () \<longleftrightarrow> (\<exists>scheme host ips. parse_url net raw = Some (scheme, host)
      \<and> scheme \<in> {''http'', ''https''} \<and> host \<noteq> [] \<and> lookup_ip net host = Some ips \<and> ips \<noteq> []
      \<and> list_all (\<lambda>i. \<not> isDisallowedWebhookTarget i) ips))
   \<and> (isDisallowedWebhookTarget [a, b, c, d] \<longleftrightarrow> internal_v4 a b c d)
   \<and> (isDisallowedWebhookTarget (v4_in_6 [a, b, c, d]) \<longleftrightarrow> internal_v4 a b c d)"
  using ValidateWebhookURL_ok disallowed_v4 disallowed_mapped [of "[a, b, c, d]"] by simp

end
