(* ===== verification/Rule_Store.thy ===== *)
theory Rule_Store
  imports Notify
begin

text \<open>
  The alerting tables and their operations (\<open>alerting/internal/rulestore/store.go\<close>,
  \<open>alerting/internal/notifystore/store.go\<close>) and the evaluator
  (\<open>alerting/internal/evaluator/evaluator.go\<close>). A table is the list of its rows; every
  statement or transaction of the source is one function from tables to tables, with the
  constraints of the migrations (\<open>metadata/migrations\<close>) as the conditions under which it
  fails and leaves the tables as they were. Fresh UUIDs, the two clocks and the query
  service are arguments.
\<close>

record 'f rule =
  r_ID :: string
  r_TenantID :: string
  r_Name :: string
  r_Description :: string
  r_Query :: string
  r_QueryLanguage :: string
  r_ConditionType :: condition_type
  r_Comparator :: "comparator option"
  r_ThresholdValue :: "'f option"
  r_EvalIntervalSeconds :: int
  r_ForMinutes :: int
  r_RenotifyIntervalMinutes :: "int option"
  r_NotificationTargetID :: string
  r_Enabled :: bool
  r_CreatedBy :: string

datatype eval_error = QueryFailed string | ConditionFailed cond_error

datatype eval_status = EvalOK | EvalError

record 'f alert_state =
  a_RuleID :: string
  a_State :: alert_status
  a_ConditionTrueSince :: "gotime option"
  a_FiredAt :: "gotime option"
  a_LastNotifiedAt :: "gotime option"
  a_LastEvaluatedAt :: "gotime option"
  a_LastEvalStatus :: eval_status
  a_LastError :: "eval_error option"
  a_LastValue :: "'f option"
  a_ConsecutiveErrors :: nat
  a_NextEvalAt :: gotime
  a_ClaimedAt :: "gotime option"

datatype delivery_status = DPending | DSent | DFailed | DRetrying

record 'f delivery =
  d_ID :: nat
  d_RuleID :: string
  d_TenantID :: string
  d_TargetID :: string
  d_EventType :: event_type
  d_Status :: delivery_status
  d_AttemptCount :: int
  d_MaxAttempts :: int
  d_NextAttemptAt :: "gotime option"
  d_LastAttemptAt :: "gotime option"
  d_LastError :: "string option"
  d_ResponseStatus :: "int option"
  d_Payload :: "'f payload"
  d_CreatedAt :: gotime

record 'f alert_db =
  db_rules :: "'f rule list"
  db_states :: "'f alert_state list"
  db_log :: "'f delivery list"
  db_targets :: "target list"
  db_next_id :: nat

record 'f notify_event =
  n_TargetID :: string
  n_EventType :: event_type
  n_Payload :: "'f payload"

datatype store_error = ErrNotFound | ErrDatabase

definition default_to :: "string \<Rightarrow> string \<Rightarrow> string" where
  "default_to d s = (if s = [] then d else s)"

section \<open>Rules\<close>

text \<open>The constraints of table \<open>alert_rules\<close>: primary key, foreign key, checks and the range of
  its \<open>INT\<close> columns.\<close>

definition rule_constraints :: "'f alert_db \<Rightarrow> 'f rule \<Rightarrow> bool" where
  "rule_constraints db r = (r_ID r \<notin> r_ID ` set (db_rules db)
     \<and> r_NotificationTargetID r \<in> t_ID ` set (db_targets db)
     \<and> r_EvalIntervalSeconds r \<ge> 30 \<and> ValidConditionType (r_ConditionType r)
     \<and> (case r_Comparator r of None \<Rightarrow> True | Some c \<Rightarrow> ValidComparator c)
     \<and> int4 (r_EvalIntervalSeconds r) \<and> int4 (r_ForMinutes r)
     \<and> (case r_RenotifyIntervalMinutes r of None \<Rightarrow> True | Some m \<Rightarrow> int4 m))"

definition initial_state :: "gotime \<Rightarrow> string \<Rightarrow> 'f alert_state" where
  "initial_state dbnow rid = \<lparr>a_RuleID = rid, a_State = StateOK, a_ConditionTrueSince = None, a_FiredAt = None,
     a_LastNotifiedAt = None, a_LastEvaluatedAt = None, a_LastEvalStatus = EvalOK, a_LastError = None,
     a_LastValue = None, a_ConsecutiveErrors = 0, a_NextEvalAt = dbnow, a_ClaimedAt = None\<rparr>"

definition Create :: "string \<Rightarrow> gotime \<Rightarrow> 'f rule \<Rightarrow> 'f alert_db \<Rightarrow> (store_error, 'f rule \<times> 'f alert_db) result" where
  "Create uuid dbnow r db =
    (let r = r\<lparr>r_ID := uuid, r_TenantID := default_to ''default'' (r_TenantID r),
               r_CreatedBy := default_to ''anonymous'' (r_CreatedBy r)\<rparr> in
     if rule_constraints db r
     then Inr (r, db\<lparr>db_rules := db_rules db @ [r], db_states := db_states db @ [initial_state dbnow uuid]\<rparr>)
     else Inl ErrDatabase)"

text \<open>The join of \<open>ruleWithStateSelect\<close>.\<close>

definition with_state :: "'f alert_db \<Rightarrow> 'f rule list \<Rightarrow> ('f rule \<times> 'f alert_state) list" where
  "with_state db rs = concat (map (\<lambda>r. map (\<lambda>s. (r, s)) (filter (\<lambda>s. a_RuleID s = r_ID r) (db_states db))) rs)"

definition List_rules :: "'f alert_db \<Rightarrow> ('f rule \<times> 'f alert_state) list" where
  "List_rules db = with_state db (rev (db_rules db))"

definition Get :: "string \<Rightarrow> 'f alert_db \<Rightarrow> (store_error, 'f rule \<times> 'f alert_state) result" where
  "Get rid db = (case with_state db (filter (\<lambda>r. r_ID r = rid) (db_rules db)) of
     [] \<Rightarrow> Inl ErrNotFound | rs # _ \<Rightarrow> Inr rs)"

text \<open>Deleting a rule cascades to its state and its delivery log.\<close>

definition Delete :: "string \<Rightarrow> 'f alert_db \<Rightarrow> (store_error, 'f alert_db) result" where
  "Delete rid db = (if rid \<notin> r_ID ` set (db_rules db) then Inl ErrNotFound
     else Inr (db\<lparr>db_rules := filter (\<lambda>r. r_ID r \<noteq> rid) (db_rules db),
                  db_states := filter (\<lambda>s. a_RuleID s \<noteq> rid) (db_states db),
                  db_log := filter (\<lambda>d. d_RuleID d \<noteq> rid) (db_log db)\<rparr>))"

section \<open>Claiming\<close>

definition rule_due :: "gotime \<Rightarrow> 'f alert_db \<Rightarrow> 'f alert_state \<Rightarrow> bool" where
  "rule_due dbnow db s = (a_NextEvalAt s \<le> dbnow \<and> (\<exists>r \<in> set (db_rules db). r_ID r = a_RuleID s \<and> r_Enabled r))"

definition due_ids :: "gotime \<Rightarrow> nat \<Rightarrow> 'f alert_db \<Rightarrow> string list" where
  "due_ids dbnow batchSize db = map a_RuleID (take batchSize
     (sort_key a_NextEvalAt (filter (rule_due dbnow db) (db_states db))))"

definition interval_of :: "'f alert_db \<Rightarrow> string \<Rightarrow> int" where
  "interval_of db rid = (case find (\<lambda>r. r_ID r = rid) (db_rules db) of
     Some r \<Rightarrow> r_EvalIntervalSeconds r | None \<Rightarrow> 0)"

definition ClaimDueRules :: "gotime \<Rightarrow> nat \<Rightarrow> 'f alert_db \<Rightarrow> ('f rule \<times> 'f alert_state) list \<times> 'f alert_db" where
  "ClaimDueRules dbnow batchSize db =
    (let ids = due_ids dbnow batchSize db;
       db' = db\<lparr>db_states := map (\<lambda>s. if a_RuleID s \<in> set ids
          then s\<lparr>a_NextEvalAt := dbnow + interval_of db (a_RuleID s) * Second, a_ClaimedAt := Some dbnow\<rparr>
          else s) (db_states db)\<rparr>
     in (with_state db' (filter (\<lambda>r. r_ID r \<in> set ids) (db_rules db)), db'))"

section \<open>Recording an evaluation\<close>

definition set_state :: "string \<Rightarrow> ('f alert_state \<Rightarrow> 'f alert_state) \<Rightarrow> 'f alert_db \<Rightarrow> 'f alert_db" where
  "set_state rid f db = db\<lparr>db_states := map (\<lambda>s. if a_RuleID s = rid then f s else s) (db_states db)\<rparr>"

text \<open>\<open>json_ok\<close> is the input check of the \<open>JSONB\<close> payload column on template output; what
  \<open>json.Marshal\<close> produces passes it.\<close>

definition payload_ok :: "(string \<Rightarrow> bool) \<Rightarrow> 'f payload \<Rightarrow> bool" where
  "payload_ok json_ok p = (case p of TemplatePayload s \<Rightarrow> json_ok s | _ \<Rightarrow> True)"

definition outbox_row :: "gotime \<Rightarrow> nat \<Rightarrow> 'f rule \<Rightarrow> 'f notify_event \<Rightarrow> 'f delivery" where
  "outbox_row dbnow i r n = \<lparr>d_ID = i, d_RuleID = r_ID r, d_TenantID = r_TenantID r, d_TargetID = n_TargetID n,
     d_EventType = n_EventType n, d_Status = DPending, d_AttemptCount = 0, d_MaxAttempts = 5,
     d_NextAttemptAt = Some dbnow, d_LastAttemptAt = None, d_LastError = None, d_ResponseStatus = None,
     d_Payload = n_Payload n, d_CreatedAt = dbnow\<rparr>"

definition ApplyTransition :: "(string \<Rightarrow> bool) \<Rightarrow> gotime \<Rightarrow> string \<Rightarrow> 'f alert_state
    \<Rightarrow> 'f notify_event option \<Rightarrow> 'f alert_db \<Rightarrow> (store_error, 'f alert_db) result" where
  "ApplyTransition json_ok dbnow rid nxt notify db =
    (let db1 = set_state rid (\<lambda>s. s\<lparr>a_State := a_State nxt, a_ConditionTrueSince := a_ConditionTrueSince nxt,
                 a_FiredAt := a_FiredAt nxt, a_LastNotifiedAt := a_LastNotifiedAt nxt,
                 a_LastEvaluatedAt := Some dbnow, a_LastEvalStatus := EvalOK, a_LastError := None,
                 a_LastValue := a_LastValue nxt, a_ConsecutiveErrors := 0\<rparr>) db in
     case notify of
       None \<Rightarrow> Inr db1
     | Some n \<Rightarrow>
       (case find (\<lambda>r. r_ID r = rid) (db_rules db) of
          None \<Rightarrow> Inl ErrDatabase
        | Some r \<Rightarrow>
          if n_TargetID n \<in> t_ID ` set (db_targets db) \<and> payload_ok json_ok (n_Payload n)
          then Inr (db1\<lparr>db_log := db_log db @ [outbox_row dbnow (db_next_id db) r n],
                        db_next_id := db_next_id db + 1\<rparr>)
          else Inl ErrDatabase))"

definition RecordError :: "gotime \<Rightarrow> string \<Rightarrow> eval_error \<Rightarrow> 'f alert_db \<Rightarrow> 'f alert_db" where
  "RecordError dbnow rid err db = set_state rid (\<lambda>s. s\<lparr>a_LastEvaluatedAt := Some dbnow,
     a_LastEvalStatus := EvalError, a_LastError := Some err, a_ConsecutiveErrors := a_ConsecutiveErrors s + 1\<rparr>) db"

definition ListForRule :: "string \<Rightarrow> nat \<Rightarrow> 'f alert_db \<Rightarrow> 'f delivery list" where
  "ListForRule rid limit db = take limit (rev (sort_key d_CreatedAt (filter (\<lambda>d. d_RuleID d = rid) (db_log db))))"

section \<open>Targets\<close>

definition target_Create :: "string \<Rightarrow> target \<Rightarrow> 'f alert_db \<Rightarrow> (store_error, target \<times> 'f alert_db) result" where
  "target_Create uuid t db =
    (let t = t\<lparr>t_ID := uuid, t_TenantID := default_to ''default'' (t_TenantID t),
               t_CreatedBy := default_to ''anonymous'' (t_CreatedBy t), t_Headers := default_to ''{}'' (t_Headers t)\<rparr> in
     if uuid \<notin> t_ID ` set (db_targets db) \<and> ValidKind (t_Kind t)
     then Inr (t, db\<lparr>db_targets := db_targets db @ [t]\<rparr>) else Inl ErrDatabase)"

definition target_Get :: "string \<Rightarrow> 'f alert_db \<Rightarrow> (store_error, target) result" where
  "target_Get tid db = (case find (\<lambda>t. t_ID t = tid) (db_targets db) of None \<Rightarrow> Inl ErrNotFound | Some t \<Rightarrow> Inr t)"

definition target_List :: "'f alert_db \<Rightarrow> target list" where
  "target_List db = rev (db_targets db)"

text \<open>A target that a rule or a delivery still references cannot be deleted.\<close>

definition target_Delete :: "string \<Rightarrow> 'f alert_db \<Rightarrow> (store_error, 'f alert_db) result" where
  "target_Delete tid db = (if tid \<notin> t_ID ` set (db_targets db) then Inl ErrNotFound
     else if tid \<in> r_NotificationTargetID ` set (db_rules db) \<or> tid \<in> d_TargetID ` set (db_log db) then Inl ErrDatabase
     else Inr (db\<lparr>db_targets := filter (\<lambda>t. t_ID t \<noteq> tid) (db_targets db)\<rparr>))"

section \<open>The evaluator\<close>

record 'f eval_env =
  ev_query :: "string \<Rightarrow> string \<Rightarrow> (string, 'f cell list list) result"
  ev_render :: "'f render_env"
  ev_json_ok :: "string \<Rightarrow> bool"

definition comparator_text :: "comparator \<Rightarrow> string" where
  "comparator_text c = (case c of CmpGt \<Rightarrow> ''gt'' | CmpGte \<Rightarrow> ''gte'' | CmpLt \<Rightarrow> ''lt'' | CmpLte \<Rightarrow> ''lte''
     | CmpEq \<Rightarrow> ''eq'' | CmpNe \<Rightarrow> ''ne'' | CmpOther s \<Rightarrow> s)"

definition buildNotifyEvent :: "'f eval_env \<Rightarrow> 'f rule \<Rightarrow> event_type option \<Rightarrow> 'f option \<Rightarrow> gotime \<Rightarrow> 'f alert_db
    \<Rightarrow> 'f notify_event option" where
  "buildNotifyEvent env r notify value now db = (case notify of
     None \<Rightarrow> None
   | Some ev \<Rightarrow>
     (case target_Get (r_NotificationTargetID r) db of
        Inl _ \<Rightarrow> None
      | Inr tgt \<Rightarrow>
        (case BuildPayload (ev_render env) tgt \<lparr>e_RuleID = r_ID r, e_RuleName = r_Name r, e_EventType = ev,
            e_ConditionType = r_ConditionType r,
            e_Comparator = (case r_Comparator r of None \<Rightarrow> [] | Some c \<Rightarrow> comparator_text c),
            e_ThresholdValue = r_ThresholdValue r, e_Value = value, e_Timestamp = now\<rparr> of
           None \<Rightarrow> None
         | Some p \<Rightarrow> Some \<lparr>n_TargetID = r_NotificationTargetID r, n_EventType = ev, n_Payload = p\<rparr>)))"

definition minutes :: "int \<Rightarrow> int" where
  "minutes n = wrap64 (n * Minute)"

text \<open>\<open>dbnow\<close> is the database clock at the write, \<open>now\<close> the evaluator's own clock.\<close>

definition evaluateOne :: "('f::linorder) eval_env \<Rightarrow> gotime \<Rightarrow> gotime \<Rightarrow> 'f rule \<times> 'f alert_state \<Rightarrow> 'f alert_db \<Rightarrow> 'f alert_db" where
  "evaluateOne env now dbnow rs db = (case rs of (r, s) \<Rightarrow>
     (case ev_query env (r_Query r) (r_QueryLanguage r) of
       Inl msg \<Rightarrow> RecordError dbnow (r_ID r) (QueryFailed msg) db
     | Inr rows \<Rightarrow>
       (case evaluateCondition (r_ConditionType r) (r_Comparator r) (r_ThresholdValue r) rows of
          Inl e \<Rightarrow> RecordError dbnow (r_ID r) (ConditionFailed e) db
        | Inr (cond, value) \<Rightarrow>
          (let tr = ComputeTransition \<lparr>CurrentState = a_State s, ConditionTrueSince = a_ConditionTrueSince s,
               FiredAt = a_FiredAt s, LastNotifiedAt = a_LastNotifiedAt s, ForMinutes = minutes (r_ForMinutes r),
               RenotifyInterval = map_option minutes (r_RenotifyIntervalMinutes r), Now = now, ConditionTrue = cond\<rparr>;
             nxt = (initial_state 0 [])\<lparr>a_State := NextState tr, a_ConditionTrueSince := NextConditionTrueSince tr,
                  a_FiredAt := NextFiredAt tr, a_LastNotifiedAt := NextLastNotifiedAt tr, a_LastValue := value\<rparr>;
             notify = buildNotifyEvent env r (Notify tr) value now db
           in case ApplyTransition (ev_json_ok env) dbnow (r_ID r) nxt notify db of
             Inl _ \<Rightarrow> db
           | Inr db' \<Rightarrow> db'))))"

text \<open>One tick: the claimed rules are evaluated by a pool of workers; \<open>order\<close> is the order in
  which they reach the database, with each worker's clock readings.\<close>

definition tick :: "('f::linorder) eval_env \<Rightarrow> gotime \<Rightarrow> nat \<Rightarrow> (('f rule \<times> 'f alert_state) list \<Rightarrow> (('f rule \<times> 'f alert_state) \<times> gotime \<times> gotime) list)
    \<Rightarrow> 'f alert_db \<Rightarrow> 'f alert_db" where
  "tick env dbnow batchSize order db =
    (let (claimed, db') = ClaimDueRules dbnow batchSize db in
     if length claimed = 0 then db'
     else fold (\<lambda>(rs, now, t) db. evaluateOne env now t rs db) (order claimed) db')"

section \<open>Invariants of the tables\<close>

definition machine_of :: "'f alert_state \<Rightarrow> machine" where
  "machine_of s = \<lparr>m_state = a_State s, m_since = a_ConditionTrueSince s, m_fired = a_FiredAt s,
     m_notified = a_LastNotifiedAt s\<rparr>"

definition db_inv :: "'f alert_db \<Rightarrow> bool" where
  "db_inv db = (distinct (map r_ID (db_rules db)) \<and> map a_RuleID (db_states db) = map r_ID (db_rules db)
     \<and> list_all (\<lambda>r. r_EvalIntervalSeconds r \<ge> 30 \<and> r_NotificationTargetID r \<in> t_ID ` set (db_targets db)) (db_rules db)
     \<and> list_all (\<lambda>s. machine_inv (machine_of s)) (db_states db)
     \<and> list_all (\<lambda>d. d_RuleID d \<in> r_ID ` set (db_rules db) \<and> d_ID d < db_next_id db
          \<and> d_TargetID d \<in> t_ID ` set (db_targets db)) (db_log db)
     \<and> distinct (map d_ID (db_log db)))"

lemma db_invI:
  assumes "distinct (map r_ID (db_rules db))" "map a_RuleID (db_states db) = map r_ID (db_rules db)"
    "list_all (\<lambda>r. r_EvalIntervalSeconds r \<ge> 30 \<and> r_NotificationTargetID r \<in> t_ID ` set (db_targets db)) (db_rules db)"
    "list_all (\<lambda>s. machine_inv (machine_of s)) (db_states db)"
    "list_all (\<lambda>d. d_RuleID d \<in> r_ID ` set (db_rules db) \<and> d_ID d < db_next_id db
          \<and> d_TargetID d \<in> t_ID ` set (db_targets db)) (db_log db)"
    "distinct (map d_ID (db_log db))"
  shows "db_inv db"
  using assms by (simp add: db_inv_def)

lemma machine_of_simps [simp]:
  "machine_of (s\<lparr>a_NextEvalAt := x\<rparr>) = machine_of s" "machine_of (s\<lparr>a_ClaimedAt := y\<rparr>) = machine_of s"
  "machine_of (s\<lparr>a_LastEvaluatedAt := z\<rparr>) = machine_of s" "machine_of (s\<lparr>a_LastEvalStatus := u\<rparr>) = machine_of s"
  "machine_of (s\<lparr>a_LastError := v\<rparr>) = machine_of s" "machine_of (s\<lparr>a_ConsecutiveErrors := w\<rparr>) = machine_of s"
  "machine_of (s\<lparr>a_LastValue := q\<rparr>) = machine_of s"
  by (simp_all add: machine_of_def)

lemma map_update_id:
  "(\<And>x. f (g x) = f x) \<Longrightarrow> map (f \<circ> (\<lambda>x. if P x then g x else x)) xs = map f xs"
  by (rule map_cong) auto

lemma image_filter_ids: "f ` set (filter (\<lambda>x. f x \<noteq> k) xs) = f ` set xs - {k}"
  by auto

lemma machine_inv_initial_state: "machine_inv (machine_of (initial_state t rid))"
  by (simp add: machine_inv_def machine_of_def initial_state_def)

lemma filter_ids:
  "map f xs = map g ys \<Longrightarrow> map f (filter (\<lambda>x. f x \<noteq> k) xs) = map g (filter (\<lambda>y. g y \<noteq> k) ys)"
  by (induction xs arbitrary: ys) (auto simp: Cons_eq_map_conv)

lemma distinct_map_filter_ids: "distinct (map f xs) \<Longrightarrow> distinct (map f (filter P xs))"
  by (induction xs) auto

lemma Create_inv:
  assumes "db_inv db" "Create uuid dbnow r db = Inr (r', db')"
  shows "db_inv db'"
proof -
  from assms(2) have c: "rule_constraints db r'" "r_ID r' = uuid"
    and db': "db' = db\<lparr>db_rules := db_rules db @ [r'], db_states := db_states db @ [initial_state dbnow uuid]\<rparr>"
    by (auto simp: Create_def Let_def split: if_splits)
  have "a_RuleID (initial_state dbnow uuid :: 'a alert_state) = uuid" by (simp add: initial_state_def)
  with assms(1) c show ?thesis
    unfolding db' db_inv_def
    by (auto simp: rule_constraints_def machine_inv_initial_state list_all_iff)
qed

lemma Delete_inv:
  assumes "db_inv db" "Delete rid db = Inr db'"
  shows "db_inv db'"
proof -
  from assms(2) have db': "db' = db\<lparr>db_rules := filter (\<lambda>r. r_ID r \<noteq> rid) (db_rules db),
                  db_states := filter (\<lambda>s. a_RuleID s \<noteq> rid) (db_states db),
                  db_log := filter (\<lambda>d. d_RuleID d \<noteq> rid) (db_log db)\<rparr>"
    by (auto simp: Delete_def split: if_splits)
  show ?thesis
    using assms(1) filter_ids [of a_RuleID "db_states db" r_ID "db_rules db" rid]
    unfolding db' db_inv_def
    by (auto simp: list_all_iff distinct_map_filter_ids)
qed

lemma target_Create_inv: "db_inv db \<Longrightarrow> target_Create uuid t db = Inr (t', db') \<Longrightarrow> db_inv db'"
  by (auto simp: target_Create_def db_inv_def Let_def list_all_iff split: if_splits)

lemma target_Delete_inv: "db_inv db \<Longrightarrow> target_Delete tid db = Inr db' \<Longrightarrow> db_inv db'"
  by (auto simp: target_Delete_def db_inv_def list_all_iff image_filter_ids simp del: set_filter split: if_splits)
     (metis imageI)+

lemma set_state_inv:
  assumes "db_inv db" "\<And>s. a_RuleID (f s) = a_RuleID s"
    "\<And>s. s \<in> set (db_states db) \<Longrightarrow> a_RuleID s = rid \<Longrightarrow> machine_inv (machine_of (f s))"
  shows "db_inv (set_state rid f db)"
  using assms by (auto simp: set_state_def db_inv_def list_all_iff map_update_id)

lemma RecordError_inv: "db_inv db \<Longrightarrow> db_inv (RecordError dbnow rid err db)"
  unfolding RecordError_def by (rule set_state_inv) (auto simp: db_inv_def list_all_iff)

lemma Claim_inv:
  assumes "db_inv db" "ClaimDueRules dbnow n db = (cl, db')"
  shows "db_inv db'"
  using assms by (auto simp: ClaimDueRules_def Let_def db_inv_def list_all_iff map_update_id)

lemma Claim_machines:
  assumes "db_inv db" "ClaimDueRules dbnow n db = (cl, db')" "(r, s) \<in> set cl"
  shows "machine_inv (machine_of s)" "r \<in> set (db_rules db)" "s \<in> set (db_states db')" "a_RuleID s = r_ID r"
  using Claim_inv [OF assms(1,2)] assms(2,3)
  by (auto simp: ClaimDueRules_def Let_def with_state_def db_inv_def list_all_iff)

lemma ApplyTransition_inv:
  assumes "db_inv db" "machine_inv (machine_of nxt)" "ApplyTransition jok dbnow rid nxt notify db = Inr db'"
  shows "db_inv db'"
proof -
  let ?db1 = "set_state rid (\<lambda>s. s\<lparr>a_State := a_State nxt, a_ConditionTrueSince := a_ConditionTrueSince nxt,
                 a_FiredAt := a_FiredAt nxt, a_LastNotifiedAt := a_LastNotifiedAt nxt,
                 a_LastEvaluatedAt := Some dbnow, a_LastEvalStatus := EvalOK, a_LastError := None,
                 a_LastValue := a_LastValue nxt, a_ConsecutiveErrors := 0\<rparr>) db"
  have i1: "db_inv ?db1"
    using assms(2) by (intro set_state_inv [OF assms(1)]) (simp_all add: machine_of_def)
  show ?thesis
  proof (cases notify)
    case None
    with assms(3) i1 show ?thesis by (simp add: ApplyTransition_def Let_def)
  next
    case (Some n)
    with assms(3) obtain r where r: "find (\<lambda>r. r_ID r = rid) (db_rules db) = Some r"
      "n_TargetID n \<in> t_ID ` set (db_targets db)"
      "db' = ?db1\<lparr>db_log := db_log db @ [outbox_row dbnow (db_next_id db) r n], db_next_id := db_next_id db + 1\<rparr>"
      by (auto simp: ApplyTransition_def Let_def split: option.splits if_splits)
    have "db_rules ?db1 = db_rules db" "db_targets ?db1 = db_targets db" "db_log ?db1 = db_log db"
      "db_next_id ?db1 = db_next_id db" by (simp_all add: set_state_def)
    with i1 r find_SomeD [OF r(1)] show ?thesis
      by (auto simp: db_inv_def list_all_iff outbox_row_def)
  qed
qed

text \<open>What one evaluation does with its claimed snapshot: record an error, or apply the step
  of the state machine.\<close>

definition next_row :: "machine \<Rightarrow> 'f option \<Rightarrow> 'f alert_state" where
  "next_row m v = (initial_state 0 [])\<lparr>a_State := m_state m, a_ConditionTrueSince := m_since m,
     a_FiredAt := m_fired m, a_LastNotifiedAt := m_notified m, a_LastValue := v\<rparr>"

lemma machine_of_next_row [simp]: "machine_of (next_row m v) = m"
  by (simp add: next_row_def machine_of_def)

definition rule_for :: "'f rule \<Rightarrow> int" where
  "rule_for r = minutes (r_ForMinutes r)"

definition rule_renotify :: "'f rule \<Rightarrow> int option" where
  "rule_renotify r = map_option minutes (r_RenotifyIntervalMinutes r)"

lemma evaluateOne_cases:
  obtains (error) err where "evaluateOne env now dbnow (r, s) db = RecordError dbnow (r_ID r) err db"
  | (applied) cond v res where
      "res = ApplyTransition (ev_json_ok env) dbnow (r_ID r)
         (next_row (step (rule_for r) (rule_renotify r) (machine_of s) (now, cond)) v)
         (buildNotifyEvent env r (Notify (step_result (rule_for r) (rule_renotify r) (machine_of s) (now, cond))) v now db) db"
      "evaluateOne env now dbnow (r, s) db = (case res of Inl _ \<Rightarrow> db | Inr db' \<Rightarrow> db')"
proof (cases "ev_query env (r_Query r) (r_QueryLanguage r)")
  case (Inl msg)
  then show thesis by (intro error [of "QueryFailed msg"]) (simp add: evaluateOne_def)
next
  case rows: (Inr rows)
  show thesis
  proof (cases "evaluateCondition (r_ConditionType r) (r_Comparator r) (r_ThresholdValue r) rows")
    case (Inl e)
    with rows show thesis by (intro error [of "ConditionFailed e"]) (simp add: evaluateOne_def)
  next
    case (Inr cv)
    then obtain c v where "evaluateCondition (r_ConditionType r) (r_Comparator r) (r_ThresholdValue r) rows = Inr (c, v)"
      by (cases cv) simp
    with rows show thesis
      by (intro applied [OF refl, of c v])
         (simp add: evaluateOne_def Let_def next_row_def step_def step_result_def machine_of_def rule_for_def
           rule_renotify_def)
  qed
qed

lemma evaluateOne_inv:
  assumes "db_inv db" "machine_inv (machine_of s)"
  shows "db_inv (evaluateOne env now dbnow (r, s) db)"
proof (rule evaluateOne_cases [of env now dbnow r s db])
  fix err assume "evaluateOne env now dbnow (r, s) db = RecordError dbnow (r_ID r) err db"
  with RecordError_inv [OF assms(1)] show ?thesis by metis
next
  fix cond v res
  assume res: "res = ApplyTransition (ev_json_ok env) dbnow (r_ID r)
         (next_row (step (rule_for r) (rule_renotify r) (machine_of s) (now, cond)) v)
         (buildNotifyEvent env r (Notify (step_result (rule_for r) (rule_renotify r) (machine_of s) (now, cond))) v now db) db"
    and ev: "evaluateOne env now dbnow (r, s) db = (case res of Inl _ \<Rightarrow> db | Inr db' \<Rightarrow> db')"
  have "machine_inv (machine_of (next_row (step (rule_for r) (rule_renotify r) (machine_of s) (now, cond)) v))"
    using machine_inv_step [OF assms(2)] by simp
  note inv = ApplyTransition_inv [OF assms(1) this]
  show ?thesis
  proof (cases res)
    case (Inl e)
    then show ?thesis using ev assms(1) by simp
  next
    case (Inr db')
    then show ?thesis using ev inv [OF res [symmetric, unfolded Inr]] by simp
  qed
qed

section \<open>Interleavings of evaluator, API and restarts\<close>

text \<open>A state is the tables and the snapshots that workers hold. A claim hands out
  snapshots; an evaluation writes one back at any later moment; rules and targets come and
  go in between (a fresh UUID is not the id of a rule some worker still holds); a restart
  loses the snapshots. With \<open>timely\<close> a rule is claimed again only
  when its previous evaluation has been written.\<close>

type_synonym 'f alert_sys = "'f alert_db \<times> ('f rule \<times> 'f alert_state) list"

inductive alert_step :: "bool \<Rightarrow> ('f::linorder) eval_env \<Rightarrow> 'f alert_sys \<Rightarrow> 'f alert_sys \<Rightarrow> bool"
  for timely :: bool and env :: "('f::linorder) eval_env" where
  create: "Create uuid t r db = Inr (r', db') \<Longrightarrow> uuid \<notin> r_ID ` fst ` set fl \<Longrightarrow> alert_step timely env (db, fl) (db', fl)"
| delete: "Delete rid db = Inr db' \<Longrightarrow> alert_step timely env (db, fl) (db', fl)"
| create_target: "target_Create uuid tg db = Inr (tg', db') \<Longrightarrow> alert_step timely env (db, fl) (db', fl)"
| delete_target: "target_Delete tid db = Inr db' \<Longrightarrow> alert_step timely env (db, fl) (db', fl)"
| claim: "ClaimDueRules t n db = (cl, db') \<Longrightarrow>
    timely \<longrightarrow> r_ID ` fst ` set cl \<inter> r_ID ` fst ` set fl = {} \<Longrightarrow>
    alert_step timely env (db, fl) (db', fl @ cl)"
| evaluate: "rs \<in> set fl \<Longrightarrow> alert_step timely env (db, fl) (evaluateOne env now t rs db, remove1 rs fl)"
| restart: "alert_step timely env (db, fl) (db, [])"

definition empty_db :: "'f alert_db" where
  "empty_db = \<lparr>db_rules = [], db_states = [], db_log = [], db_targets = [], db_next_id = 1\<rparr>"

definition alert_reachable :: "bool \<Rightarrow> ('f::linorder) eval_env \<Rightarrow> 'f alert_sys \<Rightarrow> bool" where
  "alert_reachable timely env = (alert_step timely env)\<^sup>*\<^sup>* (empty_db, [])"

definition sys_inv :: "'f alert_sys \<Rightarrow> bool" where
  "sys_inv sys = (db_inv (fst sys) \<and> list_all (\<lambda>(r, s). machine_inv (machine_of s)) (snd sys))"

lemma sys_inv_step: "alert_step timely env sys sys' \<Longrightarrow> sys_inv sys \<Longrightarrow> sys_inv sys'"
proof (induction rule: alert_step.induct)
  case (claim t n db cl db' fl)
  then show ?case
    using Claim_inv [of db t n cl db'] Claim_machines(1) [of db t n cl db']
    by (auto simp: sys_inv_def list_all_iff)
next
  case (evaluate rs fl db now t)
  obtain r s where rs: "rs = (r, s)" by (cases rs) simp
  with evaluate have "db_inv db" "machine_inv (machine_of s)"
    by (auto simp: sys_inv_def list_all_iff)
  from evaluateOne_inv [OF this, of env now t r] evaluate(2) rs set_remove1_subset [of rs fl]
  show ?case by (auto simp: sys_inv_def list_all_iff)
qed (auto simp: sys_inv_def intro: Create_inv Delete_inv target_Create_inv target_Delete_inv)

lemma sys_inv_reachable: "alert_reachable timely env sys \<Longrightarrow> sys_inv sys"
  unfolding alert_reachable_def
proof (induction rule: rtranclp_induct)
  case base
  then show ?case by (simp add: sys_inv_def db_inv_def empty_db_def)
qed (rule sys_inv_step)

end
