(* ===== verification/Outbox.thy ===== *)
theory Outbox
  imports Rule_Store
begin

text \<open>
  Two guarantees of the alerting tables that need the whole system: a rule handed to one
  claim is not handed to another while its interval runs, and the delivery log is a
  faithful outbox of the state machine: every notice the machine decides on is in the log
  exactly once, in step with the state.
\<close>

section \<open>Claims exclude each other\<close>

lemma due_ids_rules: "rid \<in> set (due_ids t n db) \<Longrightarrow> \<exists>r \<in> set (db_rules db). r_ID r = rid"
  by (auto simp: due_ids_def rule_due_def dest!: in_set_takeD)

lemma interval_of_ge:
  assumes "db_inv db" "r \<in> set (db_rules db)"
  shows "interval_of db (r_ID r) \<ge> 30"
proof -
  obtain r' where "find (\<lambda>x. r_ID x = r_ID r) (db_rules db) = Some r'"
    using assms(2) by (cases "find (\<lambda>x. r_ID x = r_ID r) (db_rules db)") (auto simp: find_None_iff)
  with find_SomeD [OF this] assms(1) show ?thesis
    by (auto simp: interval_of_def db_inv_def list_all_iff)
qed

lemma claimed_not_due:
  assumes inv: "db_inv db" and cl: "ClaimDueRules t n db = (cl, db')" and t': "t' < t + 30 * Second"
    and rid: "rid \<in> set (due_ids t n db)"
  shows "rid \<notin> set (due_ids t' n' db')"
proof
  assume "rid \<in> set (due_ids t' n' db')"
  then obtain s where s: "s \<in> set (db_states db')" "a_RuleID s = rid" "a_NextEvalAt s \<le> t'"
    by (auto simp: due_ids_def rule_due_def dest!: in_set_takeD)
  have "db_states db' = map (\<lambda>s. if a_RuleID s \<in> set (due_ids t n db)
          then s\<lparr>a_NextEvalAt := t + interval_of db (a_RuleID s) * Second, a_ClaimedAt := Some t\<rparr>
          else s) (db_states db)"
    using cl by (auto simp: ClaimDueRules_def Let_def)
  with s rid have "a_NextEvalAt s = t + interval_of db rid * Second" by (auto split: if_splits)
  moreover from due_ids_rules [OF rid] interval_of_ge [OF inv] have "interval_of db rid \<ge> 30" by blast
  ultimately show False using s(3) t' by (simp add: Second_def)
qed

lemma claimed_ids:
  assumes "ClaimDueRules t n db = (cl, db')"
  shows "r_ID ` fst ` set cl \<subseteq> set (due_ids t n db)"
  using assms by (auto simp: ClaimDueRules_def Let_def with_state_def)

section \<open>The outbox\<close>

text \<open>The notices of a rule in the order they were written, and whether they form episodes:
  the value is \<open>None\<close> for an ill-formed sequence and otherwise says whether an episode is
  open.\<close>

definition events :: "string \<Rightarrow> 'f alert_db \<Rightarrow> event_type list" where
  "events rid db = map d_EventType (filter (\<lambda>d. d_RuleID d = rid) (db_log db))"

fun episodes :: "bool \<Rightarrow> event_type list \<Rightarrow> bool option" where
  "episodes b [] = Some b"
| "episodes b (EvFiring # es) = episodes True es"
| "episodes b (EvResolved # es) = (if b then episodes False es else None)"

lemma episodes_append: "episodes b (xs @ ys) = Option.bind (episodes b xs) (\<lambda>b. episodes b ys)"
  by (induction b xs rule: episodes.induct) auto

definition renderable :: "'f eval_env \<Rightarrow> bool" where
  "renderable env = (\<forall>tgt ev. \<exists>p. BuildPayload (ev_render env) tgt ev = Some p \<and> payload_ok (ev_json_ok env) p)"

definition row_ok :: "'f alert_db \<Rightarrow> 'f alert_state \<Rightarrow> bool" where
  "row_ok db s = (episodes False (events (a_RuleID s) db) = Some (a_State s = StateFiring))"

definition snapshot_ok :: "'f alert_db \<Rightarrow> 'f rule \<times> 'f alert_state \<Rightarrow> bool" where
  "snapshot_ok db = (\<lambda>(r, s). r_ID r \<in> r_ID ` set (db_rules db) \<longrightarrow> r \<in> set (db_rules db)
     \<and> (\<exists>s' \<in> set (db_states db). a_RuleID s' = r_ID r \<and> machine_of s' = machine_of s))"

definition outbox_inv :: "'f alert_sys \<Rightarrow> bool" where
  "outbox_inv sys = (sys_inv sys \<and> list_all (row_ok (fst sys)) (db_states (fst sys))
     \<and> list_all (snapshot_ok (fst sys)) (snd sys) \<and> distinct (map (\<lambda>rs. r_ID (fst rs)) (snd sys)))"

lemma events_no_rule: "db_inv db \<Longrightarrow> rid \<notin> r_ID ` set (db_rules db) \<Longrightarrow> events rid db = []"
  by (auto simp: events_def db_inv_def list_all_iff filter_empty_conv)

lemma step_notify:
  "Notify (step_result fm ri m e) = None \<Longrightarrow> m_state (step fm ri m e) = StateFiring \<longleftrightarrow> m_state m = StateFiring"
  "Notify (step_result fm ri m e) = Some EvFiring \<Longrightarrow> m_state (step fm ri m e) = StateFiring"
  "Notify (step_result fm ri m e) = Some EvResolved \<Longrightarrow> m_state m = StateFiring \<and> m_state (step fm ri m e) = StateOK"
  by (cases "m_state m"; cases "snd e"; auto simp: step_def transition_defs split: option.splits if_splits)+

lemma step_episodes:
  assumes "episodes False es = Some (m_state m = StateFiring)"
  shows "episodes False (es @ (case Notify (step_result fm ri m e) of None \<Rightarrow> [] | Some ev \<Rightarrow> [ev]))
    = Some (m_state (step fm ri m e) = StateFiring)"
proof (cases "Notify (step_result fm ri m e)")
  case None
  with step_notify(1) [OF None] assms show ?thesis by simp
next
  case (Some ev)
  with step_notify(2,3) [of fm ri m e] assms show ?thesis
    by (cases ev) (auto simp: episodes_append)
qed

lemma target_Get_rule:
  assumes "db_inv db" "r \<in> set (db_rules db)"
  shows "\<exists>tg. target_Get (r_NotificationTargetID r) db = Inr tg"
proof (cases "find (\<lambda>t. t_ID t = r_NotificationTargetID r) (db_targets db)")
  case None
  have "r_NotificationTargetID r \<in> t_ID ` set (db_targets db)"
    using assms by (auto simp: db_inv_def list_all_iff)
  with None show ?thesis by (auto simp: find_None_iff)
qed (simp add: target_Get_def)

lemma buildNotifyEvent_renderable:
  assumes "db_inv db" "r \<in> set (db_rules db)" "renderable env"
  shows "case nt of None \<Rightarrow> buildNotifyEvent env r nt v now db = None
    | Some ev \<Rightarrow> (\<exists>n. buildNotifyEvent env r nt v now db = Some n \<and> n_TargetID n = r_NotificationTargetID r
        \<and> n_EventType n = ev \<and> payload_ok (ev_json_ok env) (n_Payload n))"
proof (cases nt)
  case (Some ev)
  obtain tg where "target_Get (r_NotificationTargetID r) db = Inr tg"
    using target_Get_rule [OF assms(1,2)] by blast
  with Some assms(3) show ?thesis
    unfolding renderable_def buildNotifyEvent_def
    by (metis (mono_tags, lifting) notify_event.select_convs option.simps(5) sum.case(2))
qed (simp add: buildNotifyEvent_def)

lemma outbox_create:
  assumes "outbox_inv (db, fl)" "Create uuid t r db = Inr (r', db')" "uuid \<notin> r_ID ` fst ` set fl"
  shows "outbox_inv (db', fl)"
proof -
  have inv: "db_inv db" using assms(1) by (simp add: outbox_inv_def sys_inv_def)
  from assms(2) have c: "r_ID r' = uuid" "uuid \<notin> r_ID ` set (db_rules db)"
    and db': "db' = db\<lparr>db_rules := db_rules db @ [r'], db_states := db_states db @ [initial_state t uuid]\<rparr>"
    by (auto simp: Create_def rule_constraints_def Let_def split: if_splits)
  have ev: "events rid db' = events rid db" for rid by (simp add: events_def db')
  have "row_ok db' (initial_state t uuid)"
    using events_no_rule [OF inv c(2)] by (simp add: row_ok_def ev initial_state_def)
  moreover have "row_ok db' = row_ok db" by (simp add: fun_eq_iff row_ok_def ev)
  moreover have "list_all (snapshot_ok db') fl"
  proof -
    have "r_ID a \<noteq> uuid" if "(a, b) \<in> set fl" for a b using that assms(3) by force
    with assms(1) c show ?thesis
      by (fastforce simp: outbox_inv_def snapshot_ok_def list_all_iff db')
  qed
  ultimately show ?thesis
    using assms(1) Create_inv [OF inv assms(2)] by (simp add: outbox_inv_def sys_inv_def db')
qed

lemma outbox_delete:
  assumes "outbox_inv (db, fl)" "Delete rid db = Inr db'"
  shows "outbox_inv (db', fl)"
proof -
  have inv: "db_inv db" using assms(1) by (simp add: outbox_inv_def sys_inv_def)
  from assms(2) have db': "db' = db\<lparr>db_rules := filter (\<lambda>r. r_ID r \<noteq> rid) (db_rules db),
                  db_states := filter (\<lambda>s. a_RuleID s \<noteq> rid) (db_states db),
                  db_log := filter (\<lambda>d. d_RuleID d \<noteq> rid) (db_log db)\<rparr>"
    by (auto simp: Delete_def split: if_splits)
  have ev: "events k db' = events k db" if "k \<noteq> rid" for k
    using that by (auto simp: events_def db' intro!: arg_cong [of _ _ "map d_EventType"] filter_cong)
  have "list_all (row_ok db') (db_states db')"
  proof -
    have "x \<in> set (db_states db) \<and> a_RuleID x \<noteq> rid" if "x \<in> set (db_states db')" for x
      using that by (simp add: db')
    with assms(1) show ?thesis by (simp add: outbox_inv_def list_all_iff row_ok_def ev)
  qed
  moreover have "list_all (snapshot_ok db') fl"
    using assms(1) by (fastforce simp: outbox_inv_def snapshot_ok_def list_all_iff db')
  ultimately show ?thesis
    using assms(1) Delete_inv [OF inv assms(2)] by (simp add: outbox_inv_def sys_inv_def)
qed

lemma outbox_targets:
  assumes "outbox_inv (db, fl)" "db_inv db'" "db_rules db' = db_rules db" "db_states db' = db_states db"
    "db_log db' = db_log db"
  shows "outbox_inv (db', fl)"
  using assms by (simp add: outbox_inv_def sys_inv_def snapshot_ok_def row_ok_def events_def list_all_iff)

lemma filter_unique:
  "distinct (map f xs) \<Longrightarrow> x \<in> set xs \<Longrightarrow> f x = k \<Longrightarrow> filter (\<lambda>x. f x = k) xs = [x]"
  by (induction xs) (auto simp: filter_empty_conv image_iff)

lemma find_unique:
  "distinct (map f xs) \<Longrightarrow> x \<in> set xs \<Longrightarrow> find (\<lambda>y. f y = f x) xs = Some x"
  by (induction xs) (auto simp: image_iff)

lemma rule_has_row:
  assumes "db_inv db" "r \<in> set (db_rules db)"
  shows "\<exists>s. filter (\<lambda>s. a_RuleID s = r_ID r) (db_states db) = [s] \<and> s \<in> set (db_states db) \<and> a_RuleID s = r_ID r"
proof -
  have "r_ID r \<in> set (map a_RuleID (db_states db))" using assms by (simp add: db_inv_def)
  then obtain s where s: "s \<in> set (db_states db)" "a_RuleID s = r_ID r" by auto
  have "distinct (map a_RuleID (db_states db))" using assms by (simp add: db_inv_def)
  from filter_unique [OF this s] s show ?thesis by blast
qed

lemma row_unique:
  assumes "db_inv db" "s \<in> set (db_states db)" "s' \<in> set (db_states db)" "a_RuleID s = a_RuleID s'"
  shows "s = s'"
proof -
  have "distinct (map a_RuleID (db_states db))" using assms by (simp add: db_inv_def)
  then show ?thesis using assms(2-4) by (simp add: distinct_map inj_on_def)
qed

lemma with_state_ids:
  assumes "db_inv db" "set rs \<subseteq> set (db_rules db)"
  shows "map (\<lambda>rs. r_ID (fst rs)) (with_state db rs) = map r_ID rs"
  using assms(2)
proof (induction rs)
  case (Cons r rs)
  from rule_has_row [OF assms(1), of r] Cons.prems obtain s
    where "filter (\<lambda>s. a_RuleID s = r_ID r) (db_states db) = [s]" by auto
  with Cons show ?case by (simp add: with_state_def)
qed (simp add: with_state_def)

lemma claimed_distinct:
  assumes "db_inv db" "ClaimDueRules t n db = (cl, db')"
  shows "distinct (map (\<lambda>rs. r_ID (fst rs)) cl)"
proof -
  from assms(2) have cl: "cl = with_state db' (filter (\<lambda>r. r_ID r \<in> set (due_ids t n db)) (db_rules db))"
    and "db_rules db' = db_rules db"
    by (auto simp: ClaimDueRules_def Let_def)
  then have "map (\<lambda>rs. r_ID (fst rs)) cl = map r_ID (filter (\<lambda>r. r_ID r \<in> set (due_ids t n db)) (db_rules db))"
    using with_state_ids [OF Claim_inv [OF assms]] by auto
  moreover have "distinct (map r_ID (db_rules db))" using assms(1) by (simp add: db_inv_def)
  ultimately show ?thesis by (simp add: distinct_map_filter_ids)
qed

lemma outbox_claim:
  assumes "outbox_inv (db, fl)" "ClaimDueRules t n db = (cl, db')"
    "r_ID ` fst ` set cl \<inter> r_ID ` fst ` set fl = {}"
  shows "outbox_inv (db', fl @ cl)"
proof -
  have inv: "db_inv db" using assms(1) by (simp add: outbox_inv_def sys_inv_def)
  define f where "f s = (if a_RuleID s \<in> set (due_ids t n db)
     then s\<lparr>a_NextEvalAt := t + interval_of db (a_RuleID s) * Second, a_ClaimedAt := Some t\<rparr> else s)" for s :: "'a alert_state"
  have db': "db' = db\<lparr>db_states := map f (db_states db)\<rparr>"
    using assms(2) by (auto simp: ClaimDueRules_def Let_def f_def [abs_def])
  have f: "a_RuleID (f s) = a_RuleID s" "machine_of (f s) = machine_of s" "a_State (f s) = a_State s" for s
    by (simp_all add: f_def)
  have "row_ok db' (f s) = row_ok db s" for s
    by (simp add: row_ok_def f events_def db')
  then have rows: "list_all (row_ok db') (db_states db')"
    using assms(1) by (simp add: outbox_inv_def list_all_iff db')
  have old: "list_all (snapshot_ok db') fl"
    using assms(1) by (auto simp: outbox_inv_def snapshot_ok_def list_all_iff db' f)
  have new: "list_all (snapshot_ok db') cl"
  proof -
    have "db_rules db' = db_rules db" by (simp add: db')
    with Claim_machines(2-4) [OF inv assms(2)] show ?thesis by (fastforce simp: snapshot_ok_def list_all_iff)
  qed
  have "sys_inv (db', fl @ cl)"
    using Claim_inv [OF inv assms(2)] Claim_machines(1) [OF inv assms(2)] assms(1)
    by (auto simp: outbox_inv_def sys_inv_def list_all_iff)
  moreover have "distinct (map (\<lambda>rs. r_ID (fst rs)) (fl @ cl))"
    using claimed_distinct [OF inv assms(2)] assms(1,3) by (auto simp: outbox_inv_def)
  ultimately show ?thesis
    using rows old new by (simp add: outbox_inv_def)
qed

text \<open>The effect of one evaluation on the tables, when the rule still exists.\<close>

lemma evaluate_effect:
  assumes inv: "db_inv db" and r: "r \<in> set (db_rules db)" and rend: "renderable env"
  obtains (error) err where "evaluateOne env now t (r, s) db = RecordError t (r_ID r) err db"
  | (applied) cond f where "db_states (evaluateOne env now t (r, s) db)
        = map (\<lambda>x. if a_RuleID x = r_ID r then f x else x) (db_states db)"
      "\<And>x. a_RuleID (f x) = a_RuleID x"
      "\<And>x. machine_of (f x) = step (rule_for r) (rule_renotify r) (machine_of s) (now, cond)"
      "db_rules (evaluateOne env now t (r, s) db) = db_rules db"
      "\<And>k. events k (evaluateOne env now t (r, s) db) = events k db @
        (if k = r_ID r then (case Notify (step_result (rule_for r) (rule_renotify r) (machine_of s) (now, cond)) of
           None \<Rightarrow> [] | Some ev \<Rightarrow> [ev]) else [])"
proof (rule evaluateOne_cases [of env now t r s db])
  fix err assume "evaluateOne env now t (r, s) db = RecordError t (r_ID r) err db"
  then show thesis by (rule error)
next
  fix cond v res
  let ?m = "step (rule_for r) (rule_renotify r) (machine_of s) (now, cond)"
  let ?nt = "Notify (step_result (rule_for r) (rule_renotify r) (machine_of s) (now, cond))"
  let ?ne = "buildNotifyEvent env r ?nt v now db"
  let ?f = "\<lambda>x. x\<lparr>a_State := m_state ?m, a_ConditionTrueSince := m_since ?m, a_FiredAt := m_fired ?m,
      a_LastNotifiedAt := m_notified ?m, a_LastEvaluatedAt := Some t, a_LastEvalStatus := EvalOK, a_LastError := None,
      a_LastValue := v, a_ConsecutiveErrors := 0\<rparr>"
  assume res: "res = ApplyTransition (ev_json_ok env) t (r_ID r) (next_row ?m v) ?ne db"
    and ev: "evaluateOne env now t (r, s) db = (case res of Inl _ \<Rightarrow> db | Inr db' \<Rightarrow> db')"
  have fnd: "find (\<lambda>x. r_ID x = r_ID r) (db_rules db) = Some r"
    using find_unique [of r_ID "db_rules db" r] inv r by (simp add: db_inv_def)
  have tgt: "r_NotificationTargetID r \<in> t_ID ` set (db_targets db)"
    using inv r by (auto simp: db_inv_def list_all_iff)
  define lg where "lg = (case ?ne of None \<Rightarrow> [] | Some n \<Rightarrow> [outbox_row t (db_next_id db) r n])"
  define ni where "ni = (case ?ne of None \<Rightarrow> db_next_id db | Some n \<Rightarrow> db_next_id db + 1)"
  note ne = buildNotifyEvent_renderable [OF inv r rend, of ?nt v now]
  have ok: "res = Inr ((set_state (r_ID r) ?f db)\<lparr>db_log := db_log db @ lg, db_next_id := ni\<rparr>)"
  proof (cases ?nt)
    case None
    with ne have "?ne = None" by simp
    then show ?thesis
      by (simp add: res ApplyTransition_def Let_def next_row_def lg_def ni_def set_state_def)
  next
    case (Some e)
    with ne obtain n where "?ne = Some n" "n_TargetID n = r_NotificationTargetID r"
      "payload_ok (ev_json_ok env) (n_Payload n)" by auto
    with fnd tgt show ?thesis
      by (simp add: res ApplyTransition_def Let_def next_row_def lg_def ni_def set_state_def)
  qed
  have "map d_EventType (filter (\<lambda>d. d_RuleID d = k) lg) = (if k = r_ID r then (case ?nt of None \<Rightarrow> [] | Some e \<Rightarrow> [e]) else [])" for k
    using ne by (cases ?nt) (auto simp: lg_def outbox_row_def)
  then show thesis
    by (intro applied [of ?f cond]) (simp_all add: ev ok set_state_def events_def machine_of_def)
qed

lemma set_state_other:
  "rid \<notin> a_RuleID ` set (db_states db) \<Longrightarrow> set_state rid f db = db"
proof -
  assume "rid \<notin> a_RuleID ` set (db_states db)"
  then have "map (\<lambda>s. if a_RuleID s = rid then f s else s) (db_states db) = db_states db"
    by (intro map_idI) auto
  then show ?thesis by (simp add: set_state_def)
qed

lemma evaluate_gone:
  assumes inv: "db_inv db" and gone: "r_ID r \<notin> r_ID ` set (db_rules db)"
  shows "evaluateOne env now t (r, s) db = db"
proof -
  have ids: "r_ID r \<notin> a_RuleID ` set (db_states db)"
    using inv gone by (metis db_inv_def list.set_map)
  have fnd: "find (\<lambda>x. r_ID x = r_ID r) (db_rules db) = None"
    using gone by (metis (mono_tags, lifting) find_None_iff imageI)
  show ?thesis
  proof (rule evaluateOne_cases [of env now t r s db])
    fix err assume "evaluateOne env now t (r, s) db = RecordError t (r_ID r) err db"
    then show ?thesis by (simp add: RecordError_def set_state_other [OF ids])
  next
    fix cond v res
    assume res: "res = ApplyTransition (ev_json_ok env) t (r_ID r)
         (next_row (step (rule_for r) (rule_renotify r) (machine_of s) (now, cond)) v)
         (buildNotifyEvent env r (Notify (step_result (rule_for r) (rule_renotify r) (machine_of s) (now, cond))) v now db) db"
      and ev: "evaluateOne env now t (r, s) db = (case res of Inl _ \<Rightarrow> db | Inr db' \<Rightarrow> db')"
    have "res = Inr db \<or> (\<exists>e. res = Inl e)"
      unfolding res ApplyTransition_def Let_def set_state_other [OF ids] fnd by (auto split: option.splits)
    with ev show ?thesis by auto
  qed
qed

lemma snapshots_rest:
  assumes "distinct (map (\<lambda>rs. r_ID (fst rs)) fl)" "(r, s) \<in> set fl" "(r', s') \<in> set (remove1 (r, s) fl)"
  shows "(r', s') \<in> set fl" "r_ID r' \<noteq> r_ID r"
proof -
  have "distinct fl" using assms(1) by (simp add: distinct_map)
  then have m: "(r', s') \<in> set fl" "(r', s') \<noteq> (r, s)" using assms(3) by (simp_all add: set_remove1_eq)
  then show "(r', s') \<in> set fl" by simp
  have "inj_on (\<lambda>rs. r_ID (fst rs)) (set fl)" using assms(1) by (simp add: distinct_map)
  from inj_onD [OF this, of "(r', s')" "(r, s)"] m assms(2) show "r_ID r' \<noteq> r_ID r" by auto
qed

lemma outbox_evaluate:
  assumes out: "outbox_inv (db, fl)" and rs: "(r, s) \<in> set fl" and rend: "renderable env"
  shows "outbox_inv (evaluateOne env now t (r, s) db, remove1 (r, s) fl)"
proof -
  let ?db = "evaluateOne env now t (r, s) db" and ?fl = "remove1 (r, s) fl"
  have inv: "db_inv db" and dis: "distinct (map (\<lambda>rs. r_ID (fst rs)) fl)"
    using out by (simp_all add: outbox_inv_def sys_inv_def)
  have si: "sys_inv (?db, ?fl)"
  proof -
    have "machine_inv (machine_of s)" using out rs by (auto simp: outbox_inv_def sys_inv_def list_all_iff)
    from evaluateOne_inv [OF inv this] out snapshots_rest(1) [OF dis rs] show ?thesis
      by (fastforce simp: outbox_inv_def sys_inv_def list_all_iff)
  qed
  have di: "distinct (map (\<lambda>rs. r_ID (fst rs)) ?fl)"
    using dis distinct_map set_remove1_subset [of "(r, s)" fl] by (metis distinct_remove1 inj_on_subset)
  show ?thesis
  proof (cases "r_ID r \<in> r_ID ` set (db_rules db)")
    case False
    from evaluate_gone [OF inv False] have "?db = db" .
    with out si di snapshots_rest(1) [OF dis rs] show ?thesis
      by (fastforce simp: outbox_inv_def list_all_iff)
  next
    case True
    with out rs obtain s0 where r: "r \<in> set (db_rules db)"
      and s0: "s0 \<in> set (db_states db)" "a_RuleID s0 = r_ID r" "machine_of s0 = machine_of s"
      by (auto simp: outbox_inv_def snapshot_ok_def list_all_iff)
    show ?thesis
    proof (rule evaluate_effect [OF inv r rend, of now t s])
      fix err assume e: "?db = RecordError t (r_ID r) err db"
      define g where "g x = (if a_RuleID x = r_ID r then x\<lparr>a_LastEvaluatedAt := Some t, a_LastEvalStatus := EvalError,
          a_LastError := Some err, a_ConsecutiveErrors := a_ConsecutiveErrors x + 1\<rparr> else x)" for x :: "'a alert_state"
      have g: "a_RuleID (g x) = a_RuleID x" "machine_of (g x) = machine_of x" "a_State (g x) = a_State x" for x
        by (simp_all add: g_def)
      have db: "db_states ?db = map g (db_states db)" "db_rules ?db = db_rules db" "db_log ?db = db_log db"
        by (simp_all add: e RecordError_def set_state_def g_def)
      have "row_ok ?db (g x) = row_ok db x" for x by (simp add: row_ok_def events_def db g)
      moreover have "snapshot_ok ?db (a, b)" if "snapshot_ok db (a, b)" for a b
        using that by (auto simp: snapshot_ok_def db g)
      ultimately show ?thesis
        using out si di snapshots_rest(1) [OF dis rs] by (auto simp: outbox_inv_def list_all_iff db)
    next
      fix cond f
      assume st: "db_states ?db = map (\<lambda>x. if a_RuleID x = r_ID r then f x else x) (db_states db)"
        and fid: "\<And>x. a_RuleID (f x) = a_RuleID x"
        and fm: "\<And>x. machine_of (f x) = step (rule_for r) (rule_renotify r) (machine_of s) (now, cond)"
        and ru: "db_rules ?db = db_rules db"
        and ev: "\<And>k. events k ?db = events k db @
        (if k = r_ID r then (case Notify (step_result (rule_for r) (rule_renotify r) (machine_of s) (now, cond)) of
           None \<Rightarrow> [] | Some ev \<Rightarrow> [ev]) else [])"
      have "m_state (machine_of s) = a_State s0" 
        using s0(3) by (metis machine.select_convs(1) machine_of_def)
      moreover have "row_ok db s0" using out s0 by (simp add: outbox_inv_def list_all_iff)
      ultimately have ep: "episodes False (events (r_ID r) db) = Some (m_state (machine_of s) = StateFiring)"
        using s0(2) by (simp add: row_ok_def)
      have "row_ok ?db (f x)" if "a_RuleID x = r_ID r" for x
      proof -
        have "m_state (machine_of (f x)) = a_State (f x)" by (simp add: machine_of_def)
        with step_episodes [OF ep, of "rule_for r" "rule_renotify r" "(now, cond)"] that fm [of x]
        show ?thesis by (simp add: row_ok_def fid ev)
      qed
      moreover have "row_ok ?db x" if "row_ok db x" "a_RuleID x \<noteq> r_ID r" for x
        using that by (simp add: row_ok_def ev)
      ultimately have rows: "list_all (row_ok ?db) (db_states ?db)"
        using out by (auto simp: outbox_inv_def list_all_iff st)
      have keep: "snapshot_ok ?db (r', s')" if k: "snapshot_ok db (r', s')" "r_ID r' \<noteq> r_ID r" for r' s'
        unfolding snapshot_ok_def split
      proof
        assume "r_ID r' \<in> r_ID ` set (db_rules ?db)"
        with k(1) obtain x where x: "r' \<in> set (db_rules db)" "x \<in> set (db_states db)" "a_RuleID x = r_ID r'"
          "machine_of x = machine_of s'" unfolding snapshot_ok_def split ru by blast
        with k(2) have "x \<in> set (db_states ?db)" by (auto simp: st image_iff intro!: bexI [of _ x])
        with x ru show "r' \<in> set (db_rules ?db) \<and> (\<exists>s'a \<in> set (db_states ?db). a_RuleID s'a = r_ID r'
            \<and> machine_of s'a = machine_of s')" by auto
      qed
      have "list_all (snapshot_ok ?db) ?fl"
        unfolding list_all_iff
      proof
        fix x assume x: "x \<in> set ?fl"
        obtain r' s' where rs': "x = (r', s')" by (cases x) simp
        from snapshots_rest [OF dis rs x [unfolded rs']] out show "snapshot_ok ?db x"
          unfolding rs' by (intro keep) (auto simp: outbox_inv_def list_all_iff)
      qed
      with rows si di show ?thesis by (simp add: outbox_inv_def)
    qed
  qed
qed

lemma outbox_step:
  "alert_step True env sys sys' \<Longrightarrow> renderable env \<Longrightarrow> outbox_inv sys \<Longrightarrow> outbox_inv sys'"
proof (induction rule: alert_step.induct)
  case (evaluate rs fl db now t)
  then show ?case using outbox_evaluate [of db fl "fst rs" "snd rs" env now t] by simp
next
  case (create_target uuid tg db tg' db' fl)
  then have "db_inv db'" by (auto simp: outbox_inv_def sys_inv_def intro: target_Create_inv)
  with create_target show ?case
    by (intro outbox_targets [of db fl db']) (auto simp: target_Create_def Let_def split: if_splits)
next
  case (delete_target tid db db' fl)
  then have "db_inv db'" by (auto simp: outbox_inv_def sys_inv_def intro: target_Delete_inv)
  with delete_target show ?case
    by (intro outbox_targets [of db fl db']) (auto simp: target_Delete_def split: if_splits)
next
  case (restart db fl)
  then show ?case by (simp add: outbox_inv_def sys_inv_def)
qed (auto intro: outbox_create outbox_delete outbox_claim)

lemma outbox_reachable:
  assumes "alert_reachable True env sys" "renderable env"
  shows "outbox_inv sys"
  using assms(1) unfolding alert_reachable_def
proof (induction rule: rtranclp_induct)
  case base
  then show ?case by (simp add: outbox_inv_def sys_inv_def db_inv_def empty_db_def)
next
  case (step y z)
  show ?case by (rule outbox_step [OF step.hyps(2) assms(2) step.IH])
qed

section \<open>Properties\<close>

definition example_rule :: "int rule" where
  "example_rule = \<lparr>r_ID = [], r_TenantID = [], r_Name = ''quiet'', r_Description = [], r_Query = ''service=api'',
     r_QueryLanguage = [], r_ConditionType = ConditionAbsence, r_Comparator = None, r_ThresholdValue = None,
     r_EvalIntervalSeconds = 60, r_ForMinutes = 0, r_RenotifyIntervalMinutes = None,
     r_NotificationTargetID = ''t1'', r_Enabled = True, r_CreatedBy = []\<rparr>"

definition example_target :: target where
  "example_target = \<lparr>t_ID = [], t_TenantID = [], t_Name = ''ops'', t_Kind = KindSlack, t_WebhookURL = ''u'',
     t_PayloadTemplate = None, t_Headers = [], t_Secret = None, t_CreatedBy = []\<rparr>"

definition example_env :: "int eval_env" where
  "example_env = \<lparr>ev_query = (\<lambda>q l. Inr []), ev_render = \<lparr>fmt_4g = (\<lambda>_. ''0''), fmt_rfc3339 = (\<lambda>_. []),
     run_template = (\<lambda>_ _. Some ''{}'')\<rparr>, ev_json_ok = (\<lambda>_. True)\<rparr>"

definition example_db :: "int alert_db" where
  "example_db = snd (projr (Create ''r1'' 0 example_rule
     (snd (projr (target_Create ''t1'' example_target empty_db)))))"

lemma example_db_inv: "db_inv example_db"
  by code_simp

lemma example_renderable: "renderable example_env"
  by (auto simp: renderable_def example_env_def BuildPayload_def buildGenericPayload_def buildSlackPayload_def
      buildPagerDutyPayload_def payload_ok_def Let_def split: target_kind.splits)

text \<open>Claims exclude each other. Whatever the batch sizes, a rule handed out by one claim is not
  handed out by a second claim made less than thirty seconds (the smallest legal interval) after
  it, so two scheduler ticks or two evaluator replicas never work on the same evaluation.\<close>

theorem claim_exclusive:
  assumes "db_inv db" "ClaimDueRules t n db = (cl, db')" "t' < t + 30 * Second"
    "ClaimDueRules t' n' db' = (cl', db'')"
  shows "r_ID ` fst ` set cl \<inter> r_ID ` fst ` set cl' = {}"
  using claimed_not_due [OF assms(1-3)] claimed_ids [OF assms(2)] claimed_ids [OF assms(4)] by blast

theorem claim_exclusive_witness:
  "let (cl, db') = ClaimDueRules 5 10 example_db; (cl', db'') = ClaimDueRules 6 10 db'
   in cl \<noteq> [] \<and> r_ID ` fst ` set cl \<inter> r_ID ` fst ` set cl' = {}"
proof -
  obtain cl db' where c: "ClaimDueRules 5 10 example_db = (cl, db')" by fastforce
  obtain cl' db'' where c': "ClaimDueRules 6 10 db' = (cl', db'')" by fastforce
  have "fst (ClaimDueRules 5 10 example_db) \<noteq> []" by code_simp
  with claim_exclusive [OF example_db_inv c _ c'] c c' show ?thesis by (simp add: Second_def)
qed



text \<open>An evaluation error is never treated as a false condition: when the query or the condition
  fails, the evaluation changes no rule's alert state, no time stamp of an episode and no delivery,
  and only counts the error.\<close>

theorem error_keeps_state:
  assumes "ev_query env (r_Query r) (r_QueryLanguage r) = Inl msg \<or>
    (\<exists>rows e. ev_query env (r_Query r) (r_QueryLanguage r) = Inr rows
      \<and> evaluateCondition (r_ConditionType r) (r_Comparator r) (r_ThresholdValue r) rows = Inl e)"
  shows "map machine_of (db_states (evaluateOne env now t (r, s) db)) = map machine_of (db_states db)
    \<and> db_log (evaluateOne env now t (r, s) db) = db_log db
    \<and> map a_ConsecutiveErrors (db_states (evaluateOne env now t (r, s) db))
        = map (\<lambda>x. a_ConsecutiveErrors x + (if a_RuleID x = r_ID r then 1 else 0)) (db_states db)"
proof -
  from assms obtain err where "evaluateOne env now t (r, s) db = RecordError t (r_ID r) err db"
    by (auto simp: evaluateOne_def)
  then show ?thesis by (simp add: RecordError_def set_state_def)
qed

theorem error_keeps_state_witness:
  "map machine_of (db_states (evaluateOne (example_env\<lparr>ev_query := (\<lambda>_ _. Inl ''timeout'')\<rparr>) 7 8
     (example_rule\<lparr>r_ID := ''r1''\<rparr>, initial_state 0 ''r1'') example_db)) = map machine_of (db_states example_db)"
  using error_keeps_state [of "example_env\<lparr>ev_query := (\<lambda>_ _. Inl ''timeout'')\<rparr>" "example_rule\<lparr>r_ID := ''r1''\<rparr>"
      "''timeout''" 7 8 "initial_state 0 ''r1''" example_db] by simp

text \<open>A payload template whose output is not JSON blocks the alert itself. The delivery log
  stores payloads as JSONB, so the outbox insert fails and the whole transaction rolls back: an
  evaluation that should fire leaves the tables exactly as they were, while the evaluator's comment
  promises that the state still transitions and only the notification is dropped.\<close>

theorem template_blocks_transition:
  assumes "ev_query env (r_Query r) (r_QueryLanguage r) = Inr []" "r_ConditionType r = ConditionAbsence"
    "minutes (r_ForMinutes r) \<le> 0" "a_State s = StateOK"
    "target_Get (r_NotificationTargetID r) db = Inr tgt" "t_Kind tgt = KindWebhook"
    "t_PayloadTemplate tgt = Some tmpl" "tmpl \<noteq> []"
    "\<And>ev. run_template (ev_render env) tmpl ev = Some out" "\<not> ev_json_ok env out"
  shows "evaluateOne env now t (r, s) db = db"
  using assms
  by (auto simp: evaluateOne_def evaluateCondition_def ComputeTransition_def computeConditionTrue_def fire_def
      buildNotifyEvent_def BuildPayload_def buildGenericPayload_def ApplyTransition_def payload_ok_def Let_def
      split: option.splits)

theorem template_blocks_transition_witness:
  "let env = example_env\<lparr>ev_json_ok := (\<lambda>_. False)\<rparr>;
       tgt = example_target\<lparr>t_ID := ''t1'', t_Kind := KindWebhook, t_PayloadTemplate := Some ''alert!''\<rparr>;
       db = example_db\<lparr>db_targets := [tgt]\<rparr>
   in evaluateOne env 7 8 (example_rule, initial_state 0 ''r1'') db = db"
proof -
  let ?env = "example_env\<lparr>ev_json_ok := (\<lambda>_. False)\<rparr>"
  let ?tgt = "example_target\<lparr>t_ID := ''t1'', t_Kind := KindWebhook, t_PayloadTemplate := Some ''alert!''\<rparr>"
  have "evaluateOne ?env 7 8 (example_rule, initial_state 0 ''r1'') (example_db\<lparr>db_targets := [?tgt]\<rparr>)
      = example_db\<lparr>db_targets := [?tgt]\<rparr>"
    by (rule template_blocks_transition [where tgt = ?tgt and tmpl = "''alert!''" and out = "''{}''"])
       (simp_all add: example_env_def example_rule_def initial_state_def target_Get_def example_target_def
         minutes_def wrap64_def)
  then show ?thesis by (simp add: Let_def)
qed

end
