(* ===== verification/Delivery.thy ===== *)
theory Delivery
  imports Rule_Store
begin

text \<open>
  The delivery worker (\<open>alerting/internal/delivery/webhook.go\<close>) and the REST surface of
  alerting (\<open>alerting/internal/httpapi/handler.go\<close>). The HTTP client is an argument: what
  a POST of a delivery to a target returns. Replies are a status code with a body.
\<close>

section \<open>The worker\<close>

record 'f send_env =
  s_net :: net_env
  s_can_build :: "string \<Rightarrow> bool"
  s_post :: "string \<Rightarrow> 'f delivery \<Rightarrow> (string, int) result"

definition delivery_due :: "gotime \<Rightarrow> 'f delivery \<Rightarrow> bool" where
  "delivery_due dbnow d = ((d_Status d = DPending \<or> d_Status d = DRetrying)
     \<and> (case d_NextAttemptAt d of None \<Rightarrow> True | Some t \<Rightarrow> t \<le> dbnow))"

definition claim_deliveries :: "gotime \<Rightarrow> 'f alert_db \<Rightarrow> 'f delivery list \<times> 'f alert_db" where
  "claim_deliveries dbnow db =
    (let ids = map d_ID (take 50 (sort_key d_CreatedAt (filter (delivery_due dbnow) (db_log db))));
       db' = db\<lparr>db_log := map (\<lambda>d. if d_ID d \<in> set ids then d\<lparr>d_LastAttemptAt := Some dbnow\<rparr> else d) (db_log db)\<rparr>
     in (filter (\<lambda>d. d_ID d \<in> set ids) (db_log db'), db'))"

definition set_delivery :: "nat \<Rightarrow> ('f delivery \<Rightarrow> 'f delivery) \<Rightarrow> 'f alert_db \<Rightarrow> 'f alert_db" where
  "set_delivery i f db = db\<lparr>db_log := map (\<lambda>d. if d_ID d = i then f d else d) (db_log db)\<rparr>"

definition nullIfZero :: "int \<Rightarrow> int option" where
  "nullIfZero n = (if n = 0 then None else Some n)"

definition markSent :: "nat \<Rightarrow> int \<Rightarrow> 'f alert_db \<Rightarrow> 'f alert_db" where
  "markSent i code = set_delivery i (\<lambda>d. d\<lparr>d_Status := DSent, d_AttemptCount := d_AttemptCount d + 1,
     d_ResponseStatus := Some code\<rparr>)"

text \<open>\<open>time.Duration(1<<uint(n)) * time.Second\<close>: the shift and the product are 64-bit.\<close>

definition shl1 :: "int \<Rightarrow> int" where
  "shl1 n = (if 0 \<le> n \<and> n < 64 then wrap64 (2 ^ nat n) else 0)"

definition backoff :: "int \<Rightarrow> int" where
  "backoff n = (let b = wrap64 (shl1 n * Second) in if b > Hour then Hour else b)"

definition fail :: "gotime \<Rightarrow> 'f delivery \<Rightarrow> int \<Rightarrow> string \<Rightarrow> 'f alert_db \<Rightarrow> 'f alert_db" where
  "fail dbnow c code msg =
    (let nextAttempt = d_AttemptCount c + 1 in
     if nextAttempt \<ge> d_MaxAttempts c
     then set_delivery (d_ID c) (\<lambda>d. d\<lparr>d_Status := DFailed, d_AttemptCount := d_AttemptCount d + 1,
            d_ResponseStatus := nullIfZero code, d_LastError := Some msg\<rparr>)
     else set_delivery (d_ID c) (\<lambda>d. d\<lparr>d_Status := DRetrying, d_AttemptCount := d_AttemptCount d + 1,
            d_ResponseStatus := nullIfZero code, d_LastError := Some msg,
            d_NextAttemptAt := Some (dbnow + backoff nextAttempt)\<rparr>))"

text \<open>The second component is the URL a request was sent to, if one was sent.\<close>

definition attempt :: "'f send_env \<Rightarrow> gotime \<Rightarrow> 'f delivery \<Rightarrow> 'f alert_db \<Rightarrow> 'f alert_db \<times> string option" where
  "attempt env dbnow c db = (case target_Get (d_TargetID c) db of
     Inl _ \<Rightarrow> (fail dbnow c 0 ''looking up notification target'' db, None)
   | Inr tgt \<Rightarrow>
     (case ValidateWebhookURL (s_net env) (t_WebhookURL tgt) of
        Inl _ \<Rightarrow> (fail dbnow c 0 ''webhook_url no longer valid'' db, None)
      | Inr _ \<Rightarrow>
        if \<not> s_can_build env (t_WebhookURL tgt) then (fail dbnow c 0 ''building request'' db, None)
        else (case s_post env (t_WebhookURL tgt) c of
          Inl e \<Rightarrow> (fail dbnow c 0 e db, Some (t_WebhookURL tgt))
        | Inr code \<Rightarrow>
          if code \<ge> 200 \<and> code < 300 then (markSent (d_ID c) code db, Some (t_WebhookURL tgt))
          else (fail dbnow c code ''non-2xx response'' db, Some (t_WebhookURL tgt)))))"

fun attempt_all :: "'f send_env \<Rightarrow> gotime \<Rightarrow> 'f delivery list \<Rightarrow> 'f alert_db \<Rightarrow> 'f alert_db \<times> string list" where
  "attempt_all env dbnow [] db = (db, [])"
| "attempt_all env dbnow (c # cs) db = (case attempt env dbnow c db of (db, u) \<Rightarrow>
     case attempt_all env dbnow cs db of (db, us) \<Rightarrow> (db, (case u of None \<Rightarrow> us | Some u \<Rightarrow> u # us)))"

definition processDue :: "'f send_env \<Rightarrow> gotime \<Rightarrow> 'f alert_db \<Rightarrow> 'f alert_db \<times> string list" where
  "processDue env dbnow db = (case claim_deliveries dbnow db of (claimed, db) \<Rightarrow> attempt_all env dbnow claimed db)"

section \<open>The REST surface\<close>

datatype rule_invalid = NameEmpty | QueryEmpty | TargetEmpty | IntervalTooShort | BadComparator
  | NoThreshold | BadConditionType

definition validateRule :: "'f rule \<Rightarrow> (rule_invalid, unit) result" where
  "validateRule r =
    (if r_Name r = [] then Inl NameEmpty
     else if r_Query r = [] then Inl QueryEmpty
     else if r_NotificationTargetID r = [] then Inl TargetEmpty
     else if r_EvalIntervalSeconds r < 30 then Inl IntervalTooShort
     else case r_ConditionType r of
       ConditionThreshold \<Rightarrow>
         if (case r_Comparator r of None \<Rightarrow> True | Some c \<Rightarrow> \<not> ValidComparator c) then Inl BadComparator
         else if r_ThresholdValue r = None then Inl NoThreshold else Inr ()
     | ConditionAbsence \<Rightarrow> Inr ()
     | ConditionOther _ \<Rightarrow> Inl BadConditionType)"

datatype 'f alert_body = NoBody | ErrorBody string | RuleInvalid rule_invalid | RuleBody "'f rule"
  | RuleStateBody "'f rule \<times> 'f alert_state" | RulesBody "('f rule \<times> 'f alert_state) list"
  | DeliveriesBody "'f delivery list" | TargetBody target | TargetsBody "target list" | UrlInvalid url_error

type_synonym 'f alert_reply = "nat \<times> 'f alert_body"

definition writeStoreErr :: "store_error \<Rightarrow> 'f alert_reply" where
  "writeStoreErr e = (case e of ErrNotFound \<Rightarrow> (404, ErrorBody ''not found'') | ErrDatabase \<Rightarrow> (500, ErrorBody ''failed''))"

text \<open>The decoded request: the rule and the optional \<open>enabled\<close> field; \<open>None\<close> when decoding
  fails.\<close>

definition handleCreateRule :: "string \<Rightarrow> gotime \<Rightarrow> ('f rule \<times> bool option) option \<Rightarrow> 'f alert_db \<Rightarrow> 'f alert_reply \<times> 'f alert_db" where
  "handleCreateRule uuid dbnow body db = (case body of
     None \<Rightarrow> ((400, ErrorBody ''invalid JSON body''), db)
   | Some (rule, enabled) \<Rightarrow>
     (let rule = rule\<lparr>r_Enabled := (enabled = None \<or> enabled = Some True)\<rparr> in
      case validateRule rule of
        Inl e \<Rightarrow> ((400, RuleInvalid e), db)
      | Inr _ \<Rightarrow> (case Create uuid dbnow rule db of
          Inl _ \<Rightarrow> ((500, ErrorBody ''creating rule failed''), db)
        | Inr (rule, db') \<Rightarrow> ((201, RuleBody rule), db'))))"

definition handleListRules :: "'f alert_db \<Rightarrow> 'f alert_reply" where
  "handleListRules db = (200, RulesBody (List_rules db))"

definition handleGetRule :: "string \<Rightarrow> 'f alert_db \<Rightarrow> 'f alert_reply" where
  "handleGetRule rid db = (case Get rid db of Inl e \<Rightarrow> writeStoreErr e | Inr rs \<Rightarrow> (200, RuleStateBody rs))"

definition handleDeleteRule :: "string \<Rightarrow> 'f alert_db \<Rightarrow> 'f alert_reply \<times> 'f alert_db" where
  "handleDeleteRule rid db = (case Delete rid db of Inl e \<Rightarrow> (writeStoreErr e, db) | Inr db' \<Rightarrow> ((204, NoBody), db'))"

definition handleListDeliveries :: "string \<Rightarrow> 'f alert_db \<Rightarrow> 'f alert_reply" where
  "handleListDeliveries rid db = (200, DeliveriesBody (ListForRule rid 100 db))"

definition handleCreateTarget :: "net_env \<Rightarrow> string \<Rightarrow> target option \<Rightarrow> 'f alert_db \<Rightarrow> 'f alert_reply \<times> 'f alert_db" where
  "handleCreateTarget net uuid body db = (case body of
     None \<Rightarrow> ((400, ErrorBody ''invalid JSON body''), db)
   | Some t \<Rightarrow>
     if t_Name t = [] then ((400, ErrorBody ''name must not be empty''), db)
     else if \<not> ValidKind (t_Kind t) then ((400, ErrorBody ''kind must be one of webhook, slack, pagerduty''), db)
     else if t_WebhookURL t = [] then ((400, ErrorBody ''webhook_url must not be empty''), db)
     else (case ValidateWebhookURL net (t_WebhookURL t) of
       Inl e \<Rightarrow> ((400, UrlInvalid e), db)
     | Inr _ \<Rightarrow> (case target_Create uuid t db of
         Inl _ \<Rightarrow> ((500, ErrorBody ''creating notification target failed''), db)
       | Inr (t', db') \<Rightarrow> ((201, TargetBody t'), db'))))"

definition handleListTargets :: "'f alert_db \<Rightarrow> 'f alert_reply" where
  "handleListTargets db = (200, TargetsBody (target_List db))"

definition handleGetTarget :: "string \<Rightarrow> 'f alert_db \<Rightarrow> 'f alert_reply" where
  "handleGetTarget tid db = (case target_Get tid db of Inl e \<Rightarrow> writeStoreErr e | Inr t \<Rightarrow> (200, TargetBody t))"

definition handleDeleteTarget :: "string \<Rightarrow> 'f alert_db \<Rightarrow> 'f alert_reply \<times> 'f alert_db" where
  "handleDeleteTarget tid db = (case target_Delete tid db of Inl e \<Rightarrow> (writeStoreErr e, db) | Inr db' \<Rightarrow> ((204, NoBody), db'))"

text \<open>The routes of \<open>RegisterRoutes\<close>, with the decoded bodies.\<close>

datatype 'f alerting_route = AlHealthz | AlCreateRule "('f rule \<times> bool option) option" | AlListRules | AlGetRule string | AlDeleteRule string
  | AlListDeliveries string | AlCreateTarget "target option" | AlListTargets | AlGetTarget string | AlDeleteTarget string

definition alerting_handler :: "net_env \<Rightarrow> string \<Rightarrow> gotime \<Rightarrow> 'f alerting_route \<Rightarrow> 'f alert_db \<Rightarrow> 'f alert_reply \<times> 'f alert_db" where
  "alerting_handler net uuid dbnow route db = (case route of
     AlHealthz \<Rightarrow> ((200, NoBody), db)
   | AlCreateRule b \<Rightarrow> handleCreateRule uuid dbnow b db
   | AlListRules \<Rightarrow> (handleListRules db, db)
   | AlGetRule i \<Rightarrow> (handleGetRule i db, db)
   | AlDeleteRule i \<Rightarrow> handleDeleteRule i db
   | AlListDeliveries i \<Rightarrow> (handleListDeliveries i db, db)
   | AlCreateTarget b \<Rightarrow> handleCreateTarget net uuid b db
   | AlListTargets \<Rightarrow> (handleListTargets db, db)
   | AlGetTarget i \<Rightarrow> (handleGetTarget i db, db)
   | AlDeleteTarget i \<Rightarrow> handleDeleteTarget i db)"

section \<open>One row at a time\<close>

text \<open>What an attempt on a row comes to: the status code of a 2xx reply, or the recorded code and
  message. \<open>settle\<close> is the row afterwards.\<close>

definition outcome :: "'f send_env \<Rightarrow> target list \<Rightarrow> 'f delivery \<Rightarrow> (int \<times> string) + int" where
  "outcome env targets c = (case find (\<lambda>t. t_ID t = d_TargetID c) targets of
     None \<Rightarrow> Inl (0, ''looking up notification target'')
   | Some tgt \<Rightarrow>
     if ValidateWebhookURL (s_net env) (t_WebhookURL tgt) \<noteq> Inr () then Inl (0, ''webhook_url no longer valid'')
     else if \<not> s_can_build env (t_WebhookURL tgt) then Inl (0, ''building request'')
     else (case s_post env (t_WebhookURL tgt) c of
       Inl e \<Rightarrow> Inl (0, e)
     | Inr code \<Rightarrow> if 200 \<le> code \<and> code < 300 then Inr code else Inl (code, ''non-2xx response'')))"

definition settle :: "gotime \<Rightarrow> (int \<times> string) + int \<Rightarrow> 'f delivery \<Rightarrow> 'f delivery" where
  "settle dbnow res d = (case res of
     Inr code \<Rightarrow> d\<lparr>d_Status := DSent, d_AttemptCount := d_AttemptCount d + 1, d_ResponseStatus := Some code\<rparr>
   | Inl (code, msg) \<Rightarrow>
       if d_AttemptCount d + 1 \<ge> d_MaxAttempts d
       then d\<lparr>d_Status := DFailed, d_AttemptCount := d_AttemptCount d + 1,
              d_ResponseStatus := nullIfZero code, d_LastError := Some msg\<rparr>
       else d\<lparr>d_Status := DRetrying, d_AttemptCount := d_AttemptCount d + 1,
              d_ResponseStatus := nullIfZero code, d_LastError := Some msg,
              d_NextAttemptAt := Some (dbnow + backoff (d_AttemptCount d + 1))\<rparr>)"

definition deliver :: "'f send_env \<Rightarrow> target list \<Rightarrow> gotime \<Rightarrow> 'f delivery \<Rightarrow> 'f delivery" where
  "deliver env targets dbnow d = (let c = d\<lparr>d_LastAttemptAt := Some dbnow\<rparr> in settle dbnow (outcome env targets c) c)"

definition claimed_ids :: "gotime \<Rightarrow> 'f alert_db \<Rightarrow> nat set" where
  "claimed_ids dbnow db = set (map d_ID (take 50 (sort_key d_CreatedAt (filter (delivery_due dbnow) (db_log db)))))"

lemma settle_id [simp]: "d_ID (settle dbnow res d) = d_ID d"
  by (simp add: settle_def split: sum.splits)

lemma deliver_id [simp]: "d_ID (deliver env targets dbnow d) = d_ID d"
  by (simp add: deliver_def Let_def)

lemma set_delivery_targets [simp]: "db_targets (set_delivery i f db) = db_targets db"
  by (simp add: set_delivery_def)

lemma set_delivery_log [simp]: "db_log (set_delivery i f db) = map (\<lambda>d. if d_ID d = i then f d else d) (db_log db)"
  by (simp add: set_delivery_def)

lemma attempt_targets [simp]: "db_targets (fst (attempt env dbnow c db)) = db_targets db"
  by (simp add: attempt_def fail_def markSent_def Let_def split: sum.split)

lemma attempt_log:
  assumes "distinct (map d_ID (db_log db))" and "c \<in> set (db_log db)"
  shows "db_log (fst (attempt env dbnow c db))
    = map (\<lambda>d. if d_ID d = d_ID c then settle dbnow (outcome env (db_targets db) c) d else d) (db_log db)"
proof -
  have same: "d_AttemptCount d = d_AttemptCount c \<and> d_MaxAttempts d = d_MaxAttempts c"
    if "d \<in> set (db_log db)" and "d_ID d = d_ID c" for d
    using that assms by (metis distinct_map inj_on_def)
  show ?thesis
    using same by (auto simp: attempt_def target_Get_def outcome_def settle_def fail_def markSent_def Let_def
        split: option.split sum.split)
qed

lemma attempt_all_Cons:
  "fst (attempt_all env dbnow (c # cs) db) = fst (attempt_all env dbnow cs (fst (attempt env dbnow c db)))"
  "set (snd (attempt_all env dbnow (c # cs) db))
    = set_option (snd (attempt env dbnow c db)) \<union> set (snd (attempt_all env dbnow cs (fst (attempt env dbnow c db))))"
  by (auto split: prod.split option.split)

declare attempt_all.simps(2) [simp del]

lemma attempt_all_targets [simp]: "db_targets (fst (attempt_all env dbnow cs db)) = db_targets db"
  by (induction cs arbitrary: db) (simp_all add: attempt_all_Cons)

lemma attempt_all_log:
  assumes "distinct (map d_ID (db_log db))" and "set cs \<subseteq> set (db_log db)" and "distinct (map d_ID cs)"
  shows "db_log (fst (attempt_all env dbnow cs db))
    = map (\<lambda>d. if d_ID d \<in> d_ID ` set cs then settle dbnow (outcome env (db_targets db) d) d else d) (db_log db)"
  using assms
proof (induction cs arbitrary: db)
  case (Cons c cs)
  obtain db1 u where one: "attempt env dbnow c db = (db1, u)" by fastforce
  let ?f = "\<lambda>d. if d_ID d = d_ID c then settle dbnow (outcome env (db_targets db) c) d else d"
  have log1: "db_log db1 = map ?f (db_log db)"
    using attempt_log [of db c env dbnow] Cons.prems one by simp
  have targets1: "db_targets db1 = db_targets db" using attempt_targets [of env dbnow c db] one by simp
  have ids: "map d_ID (db_log db1) = map d_ID (db_log db)" by (simp add: log1)
  have sub: "set cs \<subseteq> set (db_log db1)"
    using Cons.prems by (force simp: log1 image_iff)
  have whole: "d = c" if "d \<in> set (db_log db)" and "d_ID d = d_ID c" for d
    using that Cons.prems by (metis distinct_map inj_on_def list.set_intros(1) subset_iff)
  have step: "db_log (fst (attempt_all env dbnow cs db1)) = map (\<lambda>d. if d_ID d \<in> d_ID ` set cs
      then settle dbnow (outcome env (db_targets db) d) d else d) (db_log db1)"
    using Cons.IH [of db1] Cons.prems ids sub targets1 by simp
  have fresh: "d_ID c \<notin> d_ID ` set cs" using Cons.prems by simp
  show ?case
    using whole fresh by (auto simp: attempt_all_Cons one step log1)
qed simp

lemma claim_log: "db_log (snd (claim_deliveries dbnow db))
    = map (\<lambda>d. if d_ID d \<in> claimed_ids dbnow db then d\<lparr>d_LastAttemptAt := Some dbnow\<rparr> else d) (db_log db)"
  by (simp add: claim_deliveries_def claimed_ids_def Let_def)

lemma claim_rows: "fst (claim_deliveries dbnow db)
    = filter (\<lambda>d. d_ID d \<in> claimed_ids dbnow db) (db_log (snd (claim_deliveries dbnow db)))"
  by (simp add: claim_deliveries_def claimed_ids_def Let_def)

lemma claim_targets [simp]: "db_targets (snd (claim_deliveries dbnow db)) = db_targets db"
  by (simp add: claim_deliveries_def Let_def)

lemma processDue_targets [simp]: "db_targets (fst (processDue env dbnow db)) = db_targets db"
  by (simp add: processDue_def split_beta)

lemma processDue_log:
  assumes "distinct (map d_ID (db_log db))"
  shows "db_log (fst (processDue env dbnow db))
    = map (\<lambda>d. if d_ID d \<in> claimed_ids dbnow db then deliver env (db_targets db) dbnow d else d) (db_log db)"
proof -
  let ?I = "claimed_ids dbnow db" and ?log = "db_log (snd (claim_deliveries dbnow db))"
  have mp: "map d_ID ?log = map d_ID (db_log db)" by (simp add: claim_log)
  then have dist: "distinct (map d_ID ?log)" using assms by simp
  have logids: "d_ID ` set ?log = d_ID ` set (db_log db)"
    using arg_cong [OF mp, of set] by simp
  have ids: "d_ID ` set (fst (claim_deliveries dbnow db)) = ?I \<inter> d_ID ` set (db_log db)"
    unfolding claim_rows set_filter logids [symmetric] by blast
  have "db_log (fst (processDue env dbnow db)) = map (\<lambda>d. if d_ID d \<in> ?I \<inter> d_ID ` set (db_log db)
      then settle dbnow (outcome env (db_targets db) d) d else d) ?log"
    unfolding processDue_def split_beta
    using attempt_all_log [OF dist, of "fst (claim_deliveries dbnow db)" env dbnow] dist ids
    by (simp add: claim_rows distinct_map_filter)
  then show ?thesis by (auto simp: claim_log deliver_def Let_def)
qed

text \<open>With at most fifty rows in the log the batch limit does not bite.\<close>

lemma claimed_ids_small:
  assumes "distinct (map d_ID (db_log db))" and "length (db_log db) \<le> 50" and "d \<in> set (db_log db)"
  shows "d_ID d \<in> claimed_ids dbnow db \<longleftrightarrow> delivery_due dbnow d"
proof -
  have "length (filter (delivery_due dbnow) (db_log db)) \<le> 50"
    using assms(2) length_filter_le [of "delivery_due dbnow" "db_log db"] by linarith
  then have "claimed_ids dbnow db = d_ID ` set (filter (delivery_due dbnow) (db_log db))"
    by (simp add: claimed_ids_def)
  then show ?thesis using assms(1,3) by (auto simp: distinct_map inj_on_def)
qed

section \<open>Bounded delivery\<close>

definition terminal :: "'f delivery \<Rightarrow> bool" where
  "terminal d = (d_Status d = DSent \<or> d_Status d = DFailed)"

definition row_wf :: "'f delivery \<Rightarrow> bool" where
  "row_wf d = (0 \<le> d_AttemptCount d \<and> d_AttemptCount d \<le> d_MaxAttempts d
     \<and> (\<not> terminal d \<longrightarrow> d_AttemptCount d < d_MaxAttempts d))"

definition row_tick :: "target list \<Rightarrow> 'f send_env \<times> gotime \<Rightarrow> 'f delivery \<Rightarrow> 'f delivery" where
  "row_tick targets et d = (if delivery_due (snd et) d then deliver (fst et) targets (snd et) d else d)"

text \<open>A sequence of worker ticks, each with the network as it is then and its clock reading.\<close>

fun ticks :: "('f send_env \<times> gotime) list \<Rightarrow> 'f alert_db \<Rightarrow> 'f alert_db" where
  "ticks [] db = db"
| "ticks ((env, t) # ets) db = ticks ets (fst (processDue env t db))"

text \<open>Clock readings at least an hour apart, the first not before \<open>t\<close>.\<close>

fun hourly :: "gotime \<Rightarrow> ('f send_env \<times> gotime) list \<Rightarrow> bool" where
  "hourly t [] = True"
| "hourly t ((env, t') # ets) = (t \<le> t' \<and> hourly (t' + Hour) ets)"

lemma backoff_le_Hour: "backoff n \<le> Hour"
  by (simp add: backoff_def Let_def)

lemma terminal_not_due: "terminal d \<Longrightarrow> \<not> delivery_due t d"
  by (auto simp: terminal_def delivery_due_def)

lemma fold_idle:
  assumes "terminal d"
  shows "fold (row_tick targets) ets d = d"
  using assms by (induction ets) (simp_all add: row_tick_def terminal_not_due)

lemma settle_wf:
  assumes "row_wf d" and "\<not> terminal d"
  shows "row_wf (settle t res d)"
  using assms by (auto simp: settle_def row_wf_def terminal_def split: sum.splits if_splits)

lemma row_tick_wf: "row_wf d \<Longrightarrow> row_wf (row_tick targets et d)"
proof (cases "delivery_due (snd et) d")
  case True
  assume wf: "row_wf d"
  have "row_wf (d\<lparr>d_LastAttemptAt := Some (snd et)\<rparr>)" "\<not> terminal (d\<lparr>d_LastAttemptAt := Some (snd et)\<rparr>)"
    using wf terminal_not_due [of d] True by (auto simp: row_wf_def terminal_def)
  then show ?thesis using True by (simp add: row_tick_def deliver_def Let_def settle_wf)
qed (simp add: row_tick_def)

lemma row_tick_progress:
  assumes "delivery_due t d"
  shows "d_MaxAttempts (row_tick targets (env, t) d) = d_MaxAttempts d"
    and "d_AttemptCount (row_tick targets (env, t) d) = d_AttemptCount d + 1"
    and "terminal (row_tick targets (env, t) d)
      \<or> (\<exists>u. d_NextAttemptAt (row_tick targets (env, t) d) = Some u \<and> u \<le> t + Hour)"
  using assms backoff_le_Hour
  by (auto simp: row_tick_def deliver_def settle_def Let_def terminal_def split: sum.split)

lemma row_ticks_terminal:
  assumes "row_wf d" and "terminal d \<or> (\<forall>u. d_NextAttemptAt d = Some u \<longrightarrow> u \<le> t)"
    and "hourly t ets" and "d_MaxAttempts d - d_AttemptCount d \<le> int (length ets)"
  shows "row_wf (fold (row_tick targets) ets d) \<and> terminal (fold (row_tick targets) ets d)"
  using assms
proof (induction ets arbitrary: d t)
  case Nil
  then show ?case by (auto simp: row_wf_def)
next
  case (Cons et ets)
  obtain env t' where et: "et = (env, t')" by fastforce
  let ?d = "row_tick targets et d"
  show ?case
  proof (cases "terminal d")
    case True
    then show ?thesis using fold_idle [OF True, of targets "et # ets"] Cons.prems(1) by simp
  next
    case False
    have due: "delivery_due t' d"
      using False Cons.prems(2,3) et
      by (cases "d_Status d") (auto simp: terminal_def delivery_due_def split: option.split)
    note pr = row_tick_progress [OF due, of targets env]
    have "terminal ?d \<or> (\<forall>u. d_NextAttemptAt ?d = Some u \<longrightarrow> u \<le> t' + Hour)"
      using pr(3) et by auto
    then have "row_wf (fold (row_tick targets) ets ?d) \<and> terminal (fold (row_tick targets) ets ?d)"
      using Cons.IH [of ?d "t' + Hour"] Cons.prems row_tick_wf [OF Cons.prems(1)] pr(1,2) et by simp
    then show ?thesis by simp
  qed
qed

lemma map_claim_tick:
  assumes "distinct (map d_ID (db_log db))" and "length (db_log db) \<le> 50"
  shows "db_log (fst (processDue env t db)) = map (row_tick (db_targets db) (env, t)) (db_log db)"
  unfolding processDue_log [OF assms(1)]
  by (rule map_cong [OF refl]) (simp add: claimed_ids_small [OF assms] row_tick_def)

lemma row_tick_id [simp]: "d_ID (row_tick targets et d) = d_ID d"
  by (simp add: row_tick_def)

lemma ticks_log:
  assumes "distinct (map d_ID (db_log db))" and "length (db_log db) \<le> 50"
  shows "db_log (ticks ets db) = map (fold (row_tick (db_targets db)) ets) (db_log db)"
  using assms
proof (induction ets db rule: ticks.induct)
  case (2 env t ets db)
  have log: "db_log (fst (processDue env t db)) = map (row_tick (db_targets db) (env, t)) (db_log db)"
    by (rule map_claim_tick [OF "2.prems"])
  then show ?case using "2.IH" "2.prems" by (simp add: log comp_def)
qed simp

lemma insort_key_map_comp: "insort_key k (f x) (map f xs) = map f (insort_key (k \<circ> f) x xs)"
  by (induction xs) simp_all

lemma sort_key_map_comp: "sort_key k (map f xs) = map f (sort_key (k \<circ> f) xs)"
  by (induction xs) (simp_all add: insort_key_map_comp comp_def)

section \<open>Properties\<close>


text \<open>One tick is row-wise: with distinct ids in the log, \<open>processDue\<close> changes exactly the rows
  of the claimed batch, and each of those becomes what a single attempt on it alone makes of it,
  however the attempts on the other rows of the batch end.\<close>

theorem processDue_rowwise:
  assumes "distinct (map d_ID (db_log db))"
  shows "db_log (fst (processDue env dbnow db))
    = map (\<lambda>d. if d_ID d \<in> claimed_ids dbnow db
        then settle dbnow (outcome env (db_targets db) (d\<lparr>d_LastAttemptAt := Some dbnow\<rparr>)) (d\<lparr>d_LastAttemptAt := Some dbnow\<rparr>)
        else d) (db_log db)"
  using processDue_log [OF assms, of env dbnow] by (simp add: deliver_def Let_def cong: if_cong)

lemma attempt_url:
  "snd (attempt env dbnow c db) = Some u \<Longrightarrow>
    u \<in> t_WebhookURL ` set (db_targets db) \<and> ValidateWebhookURL (s_net env) u = Inr ()"
  by (auto simp: attempt_def target_Get_def find_Some_iff dest: nth_mem split: option.splits sum.splits if_splits)

lemma attempt_all_urls:
  "u \<in> set (snd (attempt_all env dbnow cs db)) \<Longrightarrow>
    u \<in> t_WebhookURL ` set (db_targets db) \<and> ValidateWebhookURL (s_net env) u = Inr ()"
proof (induction cs arbitrary: db)
  case (Cons c cs)
  then show ?case using attempt_url [of env dbnow c db u] Cons.IH [of "fst (attempt env dbnow c db)"]
    by (auto simp: attempt_all_Cons elem_set)
qed simp


text \<open>The claim of the delivery worker is not exclusive: the statement only stamps
  \<open>last_attempt_at\<close>, so a second worker that runs it right after the first one has committed is
  handed exactly the same batch.\<close>

theorem delivery_claim_repeats:
  "fst (claim_deliveries dbnow (snd (claim_deliveries dbnow db))) = fst (claim_deliveries dbnow db)"
proof -
  let ?f = "\<lambda>d. if d_ID d \<in> claimed_ids dbnow db then d\<lparr>d_LastAttemptAt := Some dbnow\<rparr> else d"
  have due: "delivery_due dbnow \<circ> ?f = delivery_due dbnow"
    by (rule ext) (simp add: delivery_due_def)
  have key: "d_CreatedAt \<circ> ?f = d_CreatedAt" and id: "d_ID \<circ> ?f = d_ID" and idem: "?f \<circ> ?f = ?f"
    by (rule ext; simp)+
  have ids: "claimed_ids dbnow (snd (claim_deliveries dbnow db)) = claimed_ids dbnow db"
    by (simp only: claimed_ids_def [of dbnow "snd (claim_deliveries dbnow db)"] claim_log filter_map due
        sort_key_map_comp key take_map map_map id) (simp only: claimed_ids_def)
  show ?thesis unfolding claim_rows ids claim_log map_map filter_map idem ..
qed

text \<open>The retry schedule is the documented one, two to the attempt number in seconds capped at
  one hour, for every attempt number up to 33 (\<open>max_attempts\<close> is 5 by default); at 34 the
  64-bit product wraps and the delay becomes negative.\<close>

theorem backoff_schedule:
  "list_all (\<lambda>n. backoff (int n) = min Hour (2 ^ n * Second)) [0..<34] \<and> backoff 34 < 0"
  by code_simp

text \<open>Creating a rule: with a fresh id, an existing target and integers in the range of their
  columns, the reply is 400 exactly for a rule that \<open>validateRule\<close> refuses, and otherwise 201 unless
  the rule carries an unknown comparator, which validation lets through for absence rules and the
  table's check constraint then turns into a 500. The tables change only with a 201, by the rule
  and its initial state.\<close>

theorem handleCreateRule_status:
  assumes "uuid \<notin> r_ID ` set (db_rules db)" and "r_NotificationTargetID r \<in> t_ID ` set (db_targets db)"
    and "int4 (r_EvalIntervalSeconds r)" and "int4 (r_ForMinutes r)"
    and "list_all int4 (case r_RenotifyIntervalMinutes r of None \<Rightarrow> [] | Some m \<Rightarrow> [m])"
  shows "case handleCreateRule uuid dbnow (Some (r, en)) db of ((code, body), db') \<Rightarrow>
    code = (if \<not> is_ok (validateRule r) then 400
            else if \<forall>c \<in> set_option (r_Comparator r). ValidComparator c then 201 else 500)
    \<and> (code = 500 \<longrightarrow> r_ConditionType r = ConditionAbsence)
    \<and> (if code = 201
       then \<exists>r'. body = RuleBody r' \<and> r_ID r' = uuid \<and> db_rules db' = db_rules db @ [r']
          \<and> db_states db' = db_states db @ [initial_state dbnow uuid]
       else db' = db)"
  using assms
  by (cases "r_ConditionType r"; cases "r_Comparator r"; cases "r_RenotifyIntervalMinutes r")
    (auto simp: handleCreateRule_def validateRule_def Create_def rule_constraints_def ValidConditionType_def Let_def)

section \<open>Witnesses\<close>

definition sample_row :: "int delivery" where
  "sample_row = \<lparr>d_ID = 7, d_RuleID = ''r1'', d_TenantID = ''default'', d_TargetID = ''t1'', d_EventType = EvFiring,
     d_Status = DPending, d_AttemptCount = 0, d_MaxAttempts = 5, d_NextAttemptAt = Some 0, d_LastAttemptAt = None,
     d_LastError = None, d_ResponseStatus = None, d_Payload = TemplatePayload ''{}'', d_CreatedAt = 0\<rparr>"

definition sample_target :: target where
  "sample_target = \<lparr>t_ID = ''t1'', t_TenantID = ''default'', t_Name = ''ops'', t_Kind = KindSlack,
     t_WebhookURL = ''https://hooks'', t_PayloadTemplate = None, t_Headers = ''{}'', t_Secret = None, t_CreatedBy = ''anonymous''\<rparr>"

definition sample_log_db :: "int alert_db" where
  "sample_log_db = \<lparr>db_rules = [], db_states = [], db_log = [sample_row], db_targets = [sample_target], db_next_id = 8\<rparr>"

text \<open>A receiver that is down: every POST is answered with 503.\<close>

definition sample_env :: "int send_env" where
  "sample_env = \<lparr>s_net = \<lparr>parse_url = (\<lambda>_. Some (''https'', ''hooks'')), lookup_ip = (\<lambda>_. Some [[8, 8, 8, 8]])\<rparr>,
     s_can_build = (\<lambda>_. True), s_post = (\<lambda>_ _. Inr 503)\<rparr>"


theorem processDue_rowwise_witness:
  "map d_Status (db_log (fst (processDue sample_env 5 sample_log_db))) = [DRetrying]"
proof -
  have "distinct (map d_ID (db_log sample_log_db))" by code_simp
  from processDue_rowwise [OF this, of sample_env 5] show ?thesis by (simp only:) code_simp
qed

definition sample_rule :: "int rule" where
  "sample_rule = \<lparr>r_ID = [], r_TenantID = [], r_Name = ''quiet'', r_Description = [], r_Query = ''service=api'',
     r_QueryLanguage = [], r_ConditionType = ConditionAbsence, r_Comparator = Some (CmpOther ''bogus''),
     r_ThresholdValue = None, r_EvalIntervalSeconds = 60, r_ForMinutes = 0, r_RenotifyIntervalMinutes = None,
     r_NotificationTargetID = ''t1'', r_Enabled = False, r_CreatedBy = []\<rparr>"

theorem handleCreateRule_status_witness:
  "is_ok (validateRule sample_rule) \<and> fst (fst (handleCreateRule ''r1'' 0 (Some (sample_rule, None)) sample_log_db)) = 500"
proof -
  have ok: "is_ok (validateRule sample_rule)" by code_simp
  then show ?thesis
    using handleCreateRule_status [of "''r1''" sample_log_db sample_rule 0 None]
    by (simp add: sample_log_db_def sample_target_def sample_rule_def int4_def ValidComparator_def split: prod.splits)
qed

end
