(* ===== verification/Authz.thy ===== *)
theory Authz
  imports Prelude
begin

text \<open>
  Roles and the authorization middleware (\<open>api/authz\<close>). A role is a string, as in the
  source; an HTTP request is a record of the parts the authorizers read. A handler is a
  function of the identity in the request context (\<open>IdentityFromContext\<close>) and of the
  state it works on.
\<close>

section \<open>Roles\<close>

type_synonym role = string

definition RoleViewer :: role where "RoleViewer = ''viewer''"
definition RoleEditor :: role where "RoleEditor = ''editor''"
definition RoleAdmin :: role where "RoleAdmin = ''admin''"
definition RoleOwner :: role where "RoleOwner = ''owner''"
definition RoleService :: role where "RoleService = ''service''"

lemmas role_defs = RoleViewer_def RoleEditor_def RoleAdmin_def RoleOwner_def RoleService_def

text \<open>A missing key of a Go map reads as zero.\<close>

definition roleRank :: "role \<Rightarrow> nat" where
  "roleRank r = (if r = RoleViewer then 1 else if r = RoleEditor then 2
     else if r = RoleAdmin then 3 else if r = RoleOwner then 4 else 0)"

definition Satisfies :: "role \<Rightarrow> role \<Rightarrow> bool" where
  "Satisfies r required = (if required = RoleService \<or> r = RoleService then r = required
     else roleRank r \<ge> roleRank required)"

definition human :: "role \<Rightarrow> bool" where
  "human r = (r = RoleViewer \<or> r = RoleEditor \<or> r = RoleAdmin \<or> r = RoleOwner)"

lemma role_distinct [simp]:
  "RoleViewer \<noteq> RoleEditor" "RoleViewer \<noteq> RoleAdmin" "RoleViewer \<noteq> RoleOwner" "RoleViewer \<noteq> RoleService"
  "RoleEditor \<noteq> RoleViewer" "RoleEditor \<noteq> RoleAdmin" "RoleEditor \<noteq> RoleOwner" "RoleEditor \<noteq> RoleService"
  "RoleAdmin \<noteq> RoleViewer" "RoleAdmin \<noteq> RoleEditor" "RoleAdmin \<noteq> RoleOwner" "RoleAdmin \<noteq> RoleService"
  "RoleOwner \<noteq> RoleViewer" "RoleOwner \<noteq> RoleEditor" "RoleOwner \<noteq> RoleAdmin" "RoleOwner \<noteq> RoleService"
  "RoleService \<noteq> RoleViewer" "RoleService \<noteq> RoleEditor" "RoleService \<noteq> RoleAdmin" "RoleService \<noteq> RoleOwner"
  "RoleViewer \<noteq> []" "RoleEditor \<noteq> []" "RoleAdmin \<noteq> []" "RoleOwner \<noteq> []" "RoleService \<noteq> []"
  by (simp_all add: role_defs)

lemma human_rank: "human r \<longleftrightarrow> 0 < roleRank r"
  by (simp add: human_def roleRank_def)

lemma service_not_human [simp]: "\<not> human RoleService"
  by (simp add: human_def)

lemma Satisfies_human:
  "human q \<Longrightarrow> Satisfies r q \<longleftrightarrow> human r \<and> roleRank q \<le> roleRank r"
  by (auto simp: Satisfies_def human_rank) (auto simp: human_def roleRank_def)

lemma Satisfies_refl: "Satisfies r r"
  by (simp add: Satisfies_def)

lemma Satisfies_trans: "Satisfies a b \<Longrightarrow> Satisfies b c \<Longrightarrow> Satisfies a c"
  by (auto simp: Satisfies_def split: if_splits)

lemma Satisfies_owner [simp]: "Satisfies r RoleOwner \<longleftrightarrow> r = RoleOwner"
  by (simp add: Satisfies_def roleRank_def)

lemma Satisfies_admin: "Satisfies r RoleAdmin \<longleftrightarrow> r = RoleAdmin \<or> r = RoleOwner"
  by (simp add: Satisfies_def roleRank_def)

section \<open>Identities and requests\<close>

record identity =
  id_TenantID :: string
  id_UserID :: string
  id_Role :: role

definition zero_identity :: identity where
  "zero_identity = \<lparr>id_TenantID = [], id_UserID = [], id_Role = []\<rparr>"

text \<open>An absent header reads as the empty string. \<open>rq_Session\<close> is the value of the session
  cookie that \<open>Request.Cookie\<close> finds in the cookie header.\<close>

record http_request =
  rq_Method :: string
  rq_Path :: string
  rq_Authorization :: string
  rq_CookieHeader :: string
  rq_Session :: "string option"
  rq_XForwardedFor :: string
  rq_RemoteAddr :: string

definition blank_request :: http_request where
  "blank_request = \<lparr>rq_Method = ''GET'', rq_Path = ''/'', rq_Authorization = [], rq_CookieHeader = [],
     rq_Session = None, rq_XForwardedFor = [], rq_RemoteAddr = ''203.0.113.9:4711''\<rparr>"

section \<open>Middleware\<close>

datatype 'r guarded = Unauthorized | Forbidden | Served 'r

type_synonym ('s, 'r) ctx_handler = "identity option \<Rightarrow> 's \<Rightarrow> 'r \<times> 's"

definition RequireRole :: "(http_request \<Rightarrow> 's \<Rightarrow> ('e, identity) result) option \<Rightarrow> role \<Rightarrow> ('s, 'r) ctx_handler
    \<Rightarrow> http_request \<Rightarrow> 's \<Rightarrow> 'r guarded \<times> 's" where
  "RequireRole authorizer minRole next r s = (case authorizer of
     None \<Rightarrow> map_prod Served id (next None s)
   | Some Authorize \<Rightarrow>
     (case Authorize r s of
        Inl _ \<Rightarrow> (Unauthorized, s)
      | Inr identity \<Rightarrow>
        if \<not> Satisfies (id_Role identity) minRole then (Forbidden, s)
        else map_prod Served id (next (Some identity) s)))"

definition RequireRoleOrService :: "(http_request \<Rightarrow> 's \<Rightarrow> ('e, identity) result) option \<Rightarrow> role
    \<Rightarrow> ('s, 'r) ctx_handler \<Rightarrow> http_request \<Rightarrow> 's \<Rightarrow> 'r guarded \<times> 's" where
  "RequireRoleOrService authorizer minRole next r s = (case authorizer of
     None \<Rightarrow> map_prod Served id (next None s)
   | Some Authorize \<Rightarrow>
     (case Authorize r s of
        Inl _ \<Rightarrow> (Unauthorized, s)
      | Inr identity \<Rightarrow>
        if id_Role identity \<noteq> RoleService \<and> \<not> Satisfies (id_Role identity) minRole then (Forbidden, s)
        else map_prod Served id (next (Some identity) s)))"

section \<open>The remote authorizer\<close>

text \<open>\<open>call\<close> is the POST to enterprise-auth: from the two forwarded headers to a transport error
  or a status with the decoded body, \<open>None\<close> when it does not decode.\<close>

datatype authz_error = CallFailed | BadStatus int | BadBody

definition HTTPAuthorizer_Authorize :: "(string \<Rightarrow> string \<Rightarrow> (int \<times> identity option) option) \<Rightarrow> http_request
    \<Rightarrow> (authz_error, identity) result" where
  "HTTPAuthorizer_Authorize call r = (case call (rq_CookieHeader r) (rq_Authorization r) of
     None \<Rightarrow> Inl CallFailed
   | Some (status, body) \<Rightarrow>
     if status \<noteq> 200 then Inl (BadStatus status)
     else (case body of None \<Rightarrow> Inl BadBody | Some i \<Rightarrow> Inr i))"

section \<open>Properties\<close>

text \<open>The middleware is the only way in: with an authorizer configured, a handler behind
  \<open>RequireRole\<close> with a human role as its floor runs exactly when the authorizer resolves an
  identity whose role is one of the four human roles and ranks at least as high, and then with
  that identity in its context; otherwise the state is untouched. The service role and any
  unknown role string are refused. \<open>RequireRoleOrService\<close> admits the service role in addition
  and nothing else.\<close>

theorem middleware_exact:
  assumes "human minRole"
  shows "RequireRole (Some au) minRole next r s =
      (case au r s of Inl _ \<Rightarrow> (Unauthorized, s)
       | Inr i \<Rightarrow> if human (id_Role i) \<and> roleRank minRole \<le> roleRank (id_Role i)
                then map_prod Served id (next (Some i) s) else (Forbidden, s))
    \<and> RequireRoleOrService (Some au) minRole next r s =
      (case au r s of Inl _ \<Rightarrow> (Unauthorized, s)
       | Inr i \<Rightarrow> if id_Role i = RoleService \<or> human (id_Role i) \<and> roleRank minRole \<le> roleRank (id_Role i)
                then map_prod Served id (next (Some i) s) else (Forbidden, s))"
  using assms by (auto simp: RequireRole_def RequireRoleOrService_def Satisfies_human split: sum.split)

theorem middleware_exact_witness:
  "RequireRole (Some (\<lambda>r s. Inr (zero_identity\<lparr>id_Role := RoleService\<rparr>) :: (unit, identity) result)) RoleViewer
     (\<lambda>i s. ((), s + 1)) blank_request (0 :: nat) = (Forbidden, 0)"
  using middleware_exact [of RoleViewer "\<lambda>r s. Inr (zero_identity\<lparr>id_Role := RoleService\<rparr>) :: (unit, identity) result"
      "\<lambda>i s. ((), s + 1)" blank_request "0 :: nat"]
  by (simp add: human_def)

end
