(* ===== verification/Local_Auth.thy ===== *)
theory Local_Auth
  imports Authz
begin

text \<open>
  Local login (\<open>api/localauth\<close>): the tables \<open>users\<close>, \<open>tenant_memberships\<close> and
  \<open>local_sessions\<close> with the statements of \<open>store.go\<close>, the authorizer, the login rate limiter and
  the handlers of \<open>handler.go\<close>. Every transaction is one function on the tables. bcrypt,
  SHA-256, the random source, the clock, UUIDs, the tz database and the collation are the
  arguments collected in \<open>auth_env\<close>. Request decoding is an argument of each handler.
\<close>

section \<open>Tables\<close>

record user_row =
  u_ID :: string
  u_Username :: "string option"
  u_PasswordHash :: "string option"
  u_DisplayTimezone :: string
  u_CreatedAt :: gotime

record membership_row =
  m_TenantID :: string
  m_UserID :: string
  m_Role :: role

record session_row =
  se_UserID :: string
  se_TenantID :: string
  se_Role :: role
  se_TokenHash :: string
  se_ExpiresAt :: gotime

record auth_db =
  tb_users :: "user_row list"
  tb_members :: "membership_row list"
  tb_sessions :: "session_row list"

record auth_env =
  le_now :: gotime
  le_uuid :: string
  le_random :: "string option"
  le_sha :: "string \<Rightarrow> string"
  le_bcrypt :: "string \<Rightarrow> string option"
  le_bcrypt_ok :: "string \<Rightarrow> string \<Rightarrow> bool"
  le_zone :: "string \<Rightarrow> bool"
  le_collation :: "string \<Rightarrow> int"
  le_ttl :: int

datatype auth_error = AuthNotFound | ErrUsernameTaken | AuthDatabase

definition defaultTenantID :: string where "defaultTenantID = ''default''"

text \<open>The \<open>User\<close> struct.\<close>

record user =
  User_ID :: string
  User_Username :: string
  User_Role :: role
  User_DisplayTimezone :: string
  User_CreatedAt :: gotime

section \<open>Store\<close>

text \<open>The constraints on a new user: primary key and unique username; the check constraint on the
  role is violated by the second insert of the transaction.\<close>

definition CreateUser :: "auth_env \<Rightarrow> string \<Rightarrow> string \<Rightarrow> role \<Rightarrow> auth_db \<Rightarrow> (auth_error, user \<times> auth_db) result" where
  "CreateUser env username passwordHash role db =
    (let i = le_uuid env in
     if i \<in> u_ID ` set (tb_users db) \<or> Some username \<in> u_Username ` set (tb_users db) then Inl ErrUsernameTaken
     else if \<not> human role then Inl AuthDatabase
     else Inr (\<lparr>User_ID = i, User_Username = username, User_Role = role, User_DisplayTimezone = [],
                User_CreatedAt = le_now env\<rparr>,
       db\<lparr>tb_users := tb_users db @ [\<lparr>u_ID = i, u_Username = Some username, u_PasswordHash = Some passwordHash,
             u_DisplayTimezone = ''UTC'', u_CreatedAt = le_now env\<rparr>],
          tb_members := tb_members db @ [\<lparr>m_TenantID = defaultTenantID, m_UserID = i, m_Role = role\<rparr>]\<rparr>))"

text \<open>The join of \<open>users\<close> with the memberships of the default tenant, local users only.\<close>

definition local_join :: "auth_db \<Rightarrow> (user_row \<times> membership_row) list" where
  "local_join db = concat (map (\<lambda>u. map (\<lambda>m. (u, m))
     (filter (\<lambda>m. m_UserID m = u_ID u \<and> m_TenantID m = defaultTenantID) (tb_members db)))
     (filter (\<lambda>u. u_Username u \<noteq> None) (tb_users db)))"

definition user_of :: "user_row \<times> membership_row \<Rightarrow> user" where
  "user_of um = \<lparr>User_ID = u_ID (fst um), User_Username = the (u_Username (fst um)), User_Role = m_Role (snd um),
     User_DisplayTimezone = u_DisplayTimezone (fst um), User_CreatedAt = u_CreatedAt (fst um)\<rparr>"

text \<open>\<open>ListUsers\<close> and \<open>GetUserForLogin\<close> do not select the time zone, which then reads as the
  empty string.\<close>

definition ListUsers :: "auth_env \<Rightarrow> auth_db \<Rightarrow> user list" where
  "ListUsers env db = sort_key (\<lambda>u. le_collation env (User_Username u))
     (map (\<lambda>um. (user_of um)\<lparr>User_DisplayTimezone := []\<rparr>) (local_join db))"

definition GetUserForLogin :: "string \<Rightarrow> auth_db \<Rightarrow> (auth_error, user \<times> string) result" where
  "GetUserForLogin username db = (case filter (\<lambda>(u, m). u_Username u = Some username) (local_join db) of
     [] \<Rightarrow> Inl AuthNotFound
   | (u, m) # _ \<Rightarrow> (case u_PasswordHash u of None \<Rightarrow> Inl AuthDatabase
       | Some hash \<Rightarrow> Inr ((user_of (u, m))\<lparr>User_DisplayTimezone := []\<rparr>, hash)))"

definition GetUserByID :: "string \<Rightarrow> auth_db \<Rightarrow> (auth_error, user) result" where
  "GetUserByID i db = (case filter (\<lambda>(u, m). u_ID u = i) (local_join db) of
     [] \<Rightarrow> Inl AuthNotFound | um # _ \<Rightarrow> Inr (user_of um))"

definition local_user :: "string \<Rightarrow> auth_db \<Rightarrow> bool" where
  "local_user i db = list_ex (\<lambda>u. u_ID u = i \<and> u_Username u \<noteq> None) (tb_users db)"

definition SetDisplayTimezone :: "string \<Rightarrow> string \<Rightarrow> auth_db \<Rightarrow> (auth_error, auth_db) result" where
  "SetDisplayTimezone i tz db = (if \<not> local_user i db then Inl AuthNotFound
     else Inr (db\<lparr>tb_users := map (\<lambda>u. if u_ID u = i \<and> u_Username u \<noteq> None then u\<lparr>u_DisplayTimezone := tz\<rparr> else u)
       (tb_users db)\<rparr>))"

text \<open>\<open>ON DELETE CASCADE\<close> on the memberships and the sessions.\<close>

definition DeleteUser :: "string \<Rightarrow> auth_db \<Rightarrow> (auth_error, auth_db) result" where
  "DeleteUser i db = (if \<not> local_user i db then Inl AuthNotFound
     else Inr \<lparr>tb_users = filter (\<lambda>u. u_ID u \<noteq> i) (tb_users db),
               tb_members = filter (\<lambda>m. m_UserID m \<noteq> i) (tb_members db),
               tb_sessions = filter (\<lambda>s. se_UserID s \<noteq> i) (tb_sessions db)\<rparr>)"

definition drop_sessions :: "string \<Rightarrow> auth_db \<Rightarrow> auth_db" where
  "drop_sessions i db = db\<lparr>tb_sessions := filter (\<lambda>s. se_UserID s \<noteq> i) (tb_sessions db)\<rparr>"

definition SetPasswordHash :: "string \<Rightarrow> string \<Rightarrow> auth_db \<Rightarrow> (auth_error, auth_db) result" where
  "SetPasswordHash i hash db = (if \<not> local_user i db then Inl AuthNotFound
     else Inr (drop_sessions i (db\<lparr>tb_users := map (\<lambda>u. if u_ID u = i \<and> u_Username u \<noteq> None
       then u\<lparr>u_PasswordHash := Some hash\<rparr> else u) (tb_users db)\<rparr>)))"

definition SetRole :: "string \<Rightarrow> role \<Rightarrow> auth_db \<Rightarrow> (auth_error, auth_db) result" where
  "SetRole i role db =
    (let hit = (\<lambda>m. m_UserID m = i \<and> m_TenantID m = defaultTenantID \<and> local_user i db) in
     if \<not> list_ex hit (tb_members db) then Inl AuthNotFound
     else if \<not> human role then Inl AuthDatabase
     else Inr (drop_sessions i (db\<lparr>tb_members := map (\<lambda>m. if hit m then m\<lparr>m_Role := role\<rparr> else m) (tb_members db)\<rparr>)))"

definition CountUsersWithRole :: "role \<Rightarrow> auth_db \<Rightarrow> nat" where
  "CountUsersWithRole role db = length (filter (\<lambda>m. m_TenantID m = defaultTenantID \<and> m_Role m = role) (tb_members db))"

definition GetPasswordHashByID :: "string \<Rightarrow> auth_db \<Rightarrow> (auth_error, string) result" where
  "GetPasswordHashByID i db = (case filter (\<lambda>u. u_ID u = i \<and> u_Username u \<noteq> None) (tb_users db) of
     [] \<Rightarrow> Inl AuthNotFound
   | u # _ \<Rightarrow> (case u_PasswordHash u of None \<Rightarrow> Inl AuthDatabase | Some h \<Rightarrow> Inr h))"

definition UsernameExists :: "string \<Rightarrow> auth_db \<Rightarrow> bool" where
  "UsernameExists username db = (Some username \<in> u_Username ` set (tb_users db))"

definition newOpaqueToken :: "auth_env \<Rightarrow> (auth_error, string \<times> string) result" where
  "newOpaqueToken env = (case le_random env of None \<Rightarrow> Inl AuthDatabase | Some raw \<Rightarrow> Inr (raw, le_sha env raw))"

definition CreateSession :: "auth_env \<Rightarrow> string \<Rightarrow> string \<Rightarrow> role \<Rightarrow> int \<Rightarrow> auth_db
    \<Rightarrow> (auth_error, string \<times> auth_db) result" where
  "CreateSession env userID tenantID role ttl db = bindE (newOpaqueToken env) (\<lambda>(raw, hash).
     if userID \<notin> u_ID ` set (tb_users db) \<or> hash \<in> se_TokenHash ` set (tb_sessions db) \<or> \<not> human role
     then Inl AuthDatabase
     else Inr (raw, db\<lparr>tb_sessions := tb_sessions db @ [\<lparr>se_UserID = userID, se_TenantID = tenantID, se_Role = role,
       se_TokenHash = hash, se_ExpiresAt = le_now env + ttl\<rparr>]\<rparr>))"

definition GetSession :: "gotime \<Rightarrow> string \<Rightarrow> auth_db \<Rightarrow> (auth_error, session_row) result" where
  "GetSession now tokenHash db = (case find (\<lambda>s. se_TokenHash s = tokenHash) (tb_sessions db) of
     None \<Rightarrow> Inl AuthNotFound
   | Some sess \<Rightarrow> if se_ExpiresAt sess < now then Inl AuthNotFound else Inr sess)"

definition DeleteSessionByHash :: "string \<Rightarrow> auth_db \<Rightarrow> auth_db" where
  "DeleteSessionByHash tokenHash db = db\<lparr>tb_sessions := filter (\<lambda>s. se_TokenHash s \<noteq> tokenHash) (tb_sessions db)\<rparr>"

section \<open>Authorizer\<close>

definition bearer_prefix :: string where "bearer_prefix = ''Bearer ''"

definition credentialFromRequest :: "http_request \<Rightarrow> string option" where
  "credentialFromRequest r =
    (if length (rq_Authorization r) > length bearer_prefix
        \<and> take (length bearer_prefix) (rq_Authorization r) = bearer_prefix
     then Some (drop (length bearer_prefix) (rq_Authorization r))
     else (case rq_Session r of None \<Rightarrow> None | Some v \<Rightarrow> if v \<noteq> [] then Some v else None))"

datatype authorize_error = ErrNoCredential | StoreErr auth_error

definition Authorize :: "auth_env \<Rightarrow> http_request \<Rightarrow> auth_db \<Rightarrow> (authorize_error, identity) result" where
  "Authorize env r db = (case credentialFromRequest r of
     None \<Rightarrow> Inl ErrNoCredential
   | Some raw \<Rightarrow> (case GetSession (le_now env) (le_sha env raw) db of
       Inl e \<Rightarrow> Inl (StoreErr e)
     | Inr sess \<Rightarrow> Inr \<lparr>id_TenantID = se_TenantID sess, id_UserID = se_UserID sess, id_Role = se_Role sess\<rparr>))"

end
