(* ===== verification/Auth_Api.thy ===== *)
theory Auth_Api
  imports Local_Auth
begin

text \<open>
  The login rate limiter (\<open>api/localauth/ratelimit.go\<close>) and the handlers of local login
  (\<open>api/localauth/handler.go\<close>). A reply is a status code, a body and the session cookie it
  sets, if any; log lines are left out. \<open>None\<close> as the body of a request means that it does not
  decode.
\<close>

section \<open>Rate limiter\<close>

record loginLimiter =
  ll_attempts :: "string \<Rightarrow> gotime list"
  ll_max :: int
  ll_window :: int

definition newLoginLimiter :: "int \<Rightarrow> int \<Rightarrow> loginLimiter" where
  "newLoginLimiter mx window = \<lparr>ll_attempts = (\<lambda>_. []), ll_max = mx, ll_window = window\<rparr>"

definition allow :: "gotime \<Rightarrow> string \<Rightarrow> loginLimiter \<Rightarrow> bool \<times> loginLimiter" where
  "allow now key l =
    (let cutoff = now - ll_window l;
       kept = filter (\<lambda>t. t > cutoff) (ll_attempts l key)
     in if int (length kept) \<ge> ll_max l then (False, l\<lparr>ll_attempts := (ll_attempts l)(key := kept)\<rparr>)
        else (True, l\<lparr>ll_attempts := (ll_attempts l)(key := kept @ [now])\<rparr>))"

text \<open>\<open>net.SplitHostPort\<close>, the host part.\<close>

definition last_colon :: "string \<Rightarrow> nat option" where
  "last_colon s = (if CHR '':'' \<in> set s then Some (length s - 1 - length (takeWhile (\<lambda>c. c \<noteq> CHR '':'') (rev s))) else None)"

definition SplitHostPort :: "string \<Rightarrow> string option" where
  "SplitHostPort hp = (case last_colon hp of
     None \<Rightarrow> None
   | Some i \<Rightarrow>
     if hp ! 0 = CHR ''['' then
       (let e = length (takeWhile (\<lambda>c. c \<noteq> CHR '']'') hp) in
        if e = length hp \<or> e + 1 \<noteq> i \<or> CHR ''['' \<in> set (drop 1 hp) \<or> CHR '']'' \<in> set (drop (e + 1) hp) then None
        else Some (take (e - 1) (drop 1 hp)))
     else
       (let host = take i hp in
        if CHR '':'' \<in> set host \<or> CHR ''['' \<in> set hp \<or> CHR '']'' \<in> set hp then None else Some host))"

definition clientIP :: "http_request \<Rightarrow> string" where
  "clientIP r = (if rq_XForwardedFor r \<noteq> []
     then TrimSpace (takeWhile (\<lambda>c. c \<noteq> CHR '','') (rq_XForwardedFor r))
     else (case SplitHostPort (rq_RemoteAddr r) of Some host \<Rightarrow> host | None \<Rightarrow> rq_RemoteAddr r))"

definition loginRateLimitMax :: int where "loginRateLimitMax = 10"

definition loginRateLimitWindow :: int where "loginRateLimitWindow = 5 * Minute"

section \<open>Replies\<close>

record session_response =
  sr_Token :: string
  sr_UserID :: string
  sr_TenantID :: string
  sr_Username :: string
  sr_Role :: role
  sr_Timezone :: string

record user_response =
  ur_ID :: string
  ur_Username :: string
  ur_Role :: role
  ur_CreatedAt :: gotime

datatype auth_body = AuthEmpty | AuthError string | SessionBody session_response | UserBody user_response
  | UsersBody "user_response list" | ResetBody string

text \<open>A cookie is its value and its \<open>MaxAge\<close> in seconds; name, path and flags are constants.\<close>

record auth_reply =
  ar_code :: nat
  ar_body :: auth_body
  ar_cookie :: "(string \<times> int) option"

definition writeError :: "nat \<Rightarrow> string \<Rightarrow> auth_reply" where
  "writeError code msg = \<lparr>ar_code = code, ar_body = AuthError msg, ar_cookie = None\<rparr>"

definition writeJSON :: "nat \<Rightarrow> auth_body \<Rightarrow> auth_reply" where
  "writeJSON code b = \<lparr>ar_code = code, ar_body = b, ar_cookie = None\<rparr>"

definition noContent :: auth_reply where
  "noContent = \<lparr>ar_code = 204, ar_body = AuthEmpty, ar_cookie = None\<rparr>"

definition auth_writeStoreErr :: "auth_error \<Rightarrow> string \<Rightarrow> auth_reply" where
  "auth_writeStoreErr e action = (if e = AuthNotFound then writeError 404 ''not found''
     else writeError 500 (action @ '' failed''))"

definition badJSON :: auth_reply where
  "badJSON = writeError 400 ''invalid JSON body''"

definition userResponse :: "user \<Rightarrow> user_response" where
  "userResponse u = \<lparr>ur_ID = User_ID u, ur_Username = User_Username u, ur_Role = User_Role u, ur_CreatedAt = User_CreatedAt u\<rparr>"

text \<open>\<open>identity, _ := IdentityFromContext\<close>: the zero identity when there is none.\<close>

definition ctx_identity :: "identity option \<Rightarrow> identity" where
  "ctx_identity ctx = (case ctx of None \<Rightarrow> zero_identity | Some i \<Rightarrow> i)"

section \<open>Sessions\<close>

record auth_state =
  as_db :: auth_db
  as_limits :: loginLimiter

definition ttl_seconds :: "int \<Rightarrow> int" where
  "ttl_seconds ttl = (if ttl \<ge> 0 then ttl div Second else - (- ttl div Second))"

definition handleLogin :: "auth_env \<Rightarrow> http_request \<Rightarrow> (string \<times> string) option \<Rightarrow> auth_state \<Rightarrow> auth_reply \<times> auth_state" where
  "handleLogin env r body st =
    (case allow (le_now env) (clientIP r) (as_limits st) of (ok, limits) \<Rightarrow>
     (let st = st\<lparr>as_limits := limits\<rparr> in
      if \<not> ok then (writeError 429 ''too many login attempts, try again later'', st)
      else (case body of
        None \<Rightarrow> (badJSON, st)
      | Some (username, password) \<Rightarrow>
        if username = [] \<or> password = [] then (writeError 400 ''username and password are required'', st)
        else (case GetUserForLogin username (as_db st) of
          Inl e \<Rightarrow> if e = AuthNotFound then (writeError 401 ''invalid username or password'', st)
                   else (writeError 500 ''login failed'', st)
        | Inr (user, hash) \<Rightarrow>
          if \<not> le_bcrypt_ok env hash password then (writeError 401 ''invalid username or password'', st)
          else (case CreateSession env (User_ID user) defaultTenantID (User_Role user) (le_ttl env) (as_db st) of
            Inl _ \<Rightarrow> (writeError 500 ''login failed'', st)
          | Inr (raw, db) \<Rightarrow>
            (\<lparr>ar_code = 200,
              ar_body = SessionBody \<lparr>sr_Token = raw, sr_UserID = User_ID user, sr_TenantID = defaultTenantID,
                sr_Username = User_Username user, sr_Role = User_Role user, sr_Timezone = []\<rparr>,
              ar_cookie = Some (raw, ttl_seconds (le_ttl env))\<rparr>, st\<lparr>as_db := db\<rparr>))))))"

definition handleLogout :: "auth_env \<Rightarrow> http_request \<Rightarrow> auth_db \<Rightarrow> auth_reply \<times> auth_db" where
  "handleLogout env r db =
    (\<lparr>ar_code = 204, ar_body = AuthEmpty, ar_cookie = Some ([], - 1)\<rparr>,
     case credentialFromRequest r of None \<Rightarrow> db | Some raw \<Rightarrow> DeleteSessionByHash (le_sha env raw) db)"

definition handleGetSession :: "(auth_db, auth_reply) ctx_handler" where
  "handleGetSession ctx db = (case GetUserByID (id_UserID (ctx_identity ctx)) db of
     Inl e \<Rightarrow> (auth_writeStoreErr e ''fetching session user'', db)
   | Inr user \<Rightarrow> (writeJSON 200 (SessionBody \<lparr>sr_Token = [], sr_UserID = User_ID user,
       sr_TenantID = id_TenantID (ctx_identity ctx), sr_Username = User_Username user, sr_Role = User_Role user,
       sr_Timezone = User_DisplayTimezone user\<rparr>), db))"

section \<open>User management\<close>

definition handleListUsers :: "auth_env \<Rightarrow> (auth_db, auth_reply) ctx_handler" where
  "handleListUsers env ctx db = (writeJSON 200 (UsersBody (map userResponse (ListUsers env db))), db)"

definition validRole :: "role \<Rightarrow> bool" where
  "validRole r = (r = RoleViewer \<or> r = RoleEditor \<or> r = RoleAdmin \<or> r = RoleOwner)"

text \<open>The guard \<open>identity, ok := ...; ok && !identity.Role.Satisfies(RoleOwner)\<close> on an admin or
  owner target.\<close>

definition admin_blocked :: "identity option \<Rightarrow> role \<Rightarrow> bool" where
  "admin_blocked ctx target = (case ctx of None \<Rightarrow> False
     | Some i \<Rightarrow> \<not> Satisfies (id_Role i) RoleOwner \<and> (target = RoleAdmin \<or> target = RoleOwner))"

definition handleCreateUser :: "auth_env \<Rightarrow> (string \<times> string \<times> string) option \<Rightarrow> (auth_db, auth_reply) ctx_handler" where
  "handleCreateUser env body ctx db = (case body of
     None \<Rightarrow> (badJSON, db)
   | Some (username, password, reqRole) \<Rightarrow>
     if username = [] then (writeError 400 ''username must not be empty'', db)
     else if length password < 8 then (writeError 400 ''password must be at least 8 characters'', db)
     else (let role = (if reqRole = [] then RoleEditor else reqRole) in
       if \<not> validRole role then (writeError 400 ''role must be viewer, editor, admin, or owner'', db)
       else if admin_blocked ctx role then (writeError 403 ''admin can only create viewer or editor accounts'', db)
       else (case le_bcrypt env password of
         None \<Rightarrow> (writeError 500 ''creating user failed'', db)
       | Some hash \<Rightarrow> (case CreateUser env username hash role db of
           Inl e \<Rightarrow> if e = ErrUsernameTaken then (writeError 409 ''username already taken'', db)
                    else (writeError 500 ''creating user failed'', db)
         | Inr (user, db') \<Rightarrow> (writeJSON 201 (UserBody (userResponse user)), db')))))"

definition wouldRemoveLastOwner :: "auth_db \<Rightarrow> bool" where
  "wouldRemoveLastOwner db = (CountUsersWithRole RoleOwner db \<le> 1)"

definition handleDeleteUser :: "string \<Rightarrow> (auth_db, auth_reply) ctx_handler" where
  "handleDeleteUser i ctx db =
    (if map_option id_UserID ctx = Some i then (writeError 409 ''cannot delete the account you are signed in as'', db)
     else (case GetUserByID i db of
       Inl e \<Rightarrow> (auth_writeStoreErr e ''deleting user'', db)
     | Inr target \<Rightarrow>
       if admin_blocked ctx (User_Role target) then (writeError 403 ''admin can only delete viewer or editor accounts'', db)
       else if User_Role target = RoleOwner \<and> wouldRemoveLastOwner db
       then (writeError 409 ''cannot delete the last owner'', db)
       else (case DeleteUser i db of
         Inl e \<Rightarrow> (auth_writeStoreErr e ''deleting user'', db)
       | Inr db' \<Rightarrow> (noContent, db'))))"

definition handleSetRole :: "string \<Rightarrow> string option \<Rightarrow> (auth_db, auth_reply) ctx_handler" where
  "handleSetRole i body ctx db = (case body of
     None \<Rightarrow> (badJSON, db)
   | Some role \<Rightarrow>
     if \<not> validRole role then (writeError 400 ''role must be viewer, editor, admin, or owner'', db)
     else (case GetUserByID i db of
       Inl e \<Rightarrow> (auth_writeStoreErr e ''updating role'', db)
     | Inr current \<Rightarrow>
       if User_Role current = RoleOwner \<and> role \<noteq> RoleOwner \<and> wouldRemoveLastOwner db
       then (writeError 409 ''cannot demote the last owner'', db)
       else (case SetRole i role db of
         Inl e \<Rightarrow> (auth_writeStoreErr e ''updating role'', db)
       | Inr db' \<Rightarrow> (case GetUserByID i db' of
           Inl e \<Rightarrow> (auth_writeStoreErr e ''fetching updated user'', db')
         | Inr user \<Rightarrow> (writeJSON 200 (UserBody (userResponse user)), db')))))"

text \<open>\<open>body\<close> is \<open>Some []\<close> for an empty body or an empty password field.\<close>

definition handleResetPassword :: "auth_env \<Rightarrow> string \<Rightarrow> string option \<Rightarrow> (auth_db, auth_reply) ctx_handler" where
  "handleResetPassword env i body ctx db =
    (if i = id_UserID (ctx_identity ctx) then (writeError 400 ''use POST /auth/password to change your own password'', db)
     else (case GetUserByID i db of
       Inl e \<Rightarrow> (auth_writeStoreErr e ''resetting password'', db)
     | Inr target \<Rightarrow>
       if User_Role target = RoleOwner \<and> \<not> Satisfies (id_Role (ctx_identity ctx)) RoleOwner
       then (writeError 403 ''admin cannot reset an owner's password'', db)
       else (case body of
         None \<Rightarrow> (badJSON, db)
       | Some password \<Rightarrow>
         (case (if password = [] then map_sum id fst (newOpaqueToken env) else Inr password) of
            Inl _ \<Rightarrow> (writeError 500 ''resetting password failed'', db)
          | Inr plaintext \<Rightarrow>
            if password \<noteq> [] \<and> length plaintext < 8
            then (writeError 400 ''password must be at least 8 characters'', db)
            else (case le_bcrypt env plaintext of
              None \<Rightarrow> (writeError 500 ''resetting password failed'', db)
            | Some hash \<Rightarrow> (case SetPasswordHash i hash db of
                Inl e \<Rightarrow> (auth_writeStoreErr e ''resetting password'', db)
              | Inr db' \<Rightarrow> (writeJSON 200 (ResetBody (if password = [] then plaintext else [])), db')))))))"

definition handleChangeOwnPassword :: "auth_env \<Rightarrow> (string \<times> string) option \<Rightarrow> (auth_db, auth_reply) ctx_handler" where
  "handleChangeOwnPassword env body ctx db = (case body of
     None \<Rightarrow> (badJSON, db)
   | Some (currentPassword, newPassword) \<Rightarrow>
     if length newPassword < 8 then (writeError 400 ''password must be at least 8 characters'', db)
     else (let i = id_UserID (ctx_identity ctx) in
       case GetPasswordHashByID i db of
         Inl e \<Rightarrow> (auth_writeStoreErr e ''changing password'', db)
       | Inr hash \<Rightarrow>
         if \<not> le_bcrypt_ok env hash currentPassword then (writeError 400 ''current password is incorrect'', db)
         else (case le_bcrypt env newPassword of
           None \<Rightarrow> (writeError 500 ''changing password failed'', db)
         | Some newHash \<Rightarrow> (case SetPasswordHash i newHash db of
             Inl e \<Rightarrow> (auth_writeStoreErr e ''changing password'', db)
           | Inr db' \<Rightarrow> (noContent, db')))))"

definition maxTimezoneLen :: nat where "maxTimezoneLen = 64"

definition handleSetTimezone :: "auth_env \<Rightarrow> string option \<Rightarrow> (auth_db, auth_reply) ctx_handler" where
  "handleSetTimezone env body ctx db = (case body of
     None \<Rightarrow> (badJSON, db)
   | Some tz \<Rightarrow>
     if tz = [] then (writeError 400 ''timezone must not be empty'', db)
     else if length tz > maxTimezoneLen then (writeError 400 ''timezone is not a valid IANA zone name'', db)
     else if tz = ''Local'' then (writeError 400 ''timezone must be a specific IANA zone name'', db)
     else if \<not> le_zone env tz then (writeError 400 ''timezone is not a valid IANA zone name'', db)
     else (case SetDisplayTimezone (id_UserID (ctx_identity ctx)) tz db of
       Inl e \<Rightarrow> (auth_writeStoreErr e ''setting timezone'', db)
     | Inr db' \<Rightarrow> (noContent, db')))"

section \<open>Seeding\<close>

text \<open>The \<open>-seed-admin\<close> command of \<open>api/cmd/api/main.go\<close>: exit code and tables.\<close>

definition seedAdminUsername :: string where "seedAdminUsername = ''admin''"

definition runSeedAdmin :: "auth_env \<Rightarrow> auth_db \<Rightarrow> nat \<times> auth_db" where
  "runSeedAdmin env db =
    (if UsernameExists seedAdminUsername db then (0, db)
     else (case le_random env of
       None \<Rightarrow> (1, db)
     | Some password \<Rightarrow> (case le_bcrypt env password of
         None \<Rightarrow> (1, db)
       | Some hash \<Rightarrow> (case CreateUser env seedAdminUsername hash RoleOwner db of
           Inl _ \<Rightarrow> (1, db)
         | Inr (_, db') \<Rightarrow> (0, db')))))"

section \<open>Routes\<close>

datatype auth_route = RLogin "(string \<times> string) option" | RLogout | RSession | RPassword "(string \<times> string) option"
  | RTimezone "string option" | RListUsers | RCreateUser "(string \<times> string \<times> string) option"
  | RDeleteUser string | RResetPassword string "string option" | RSetRole string "string option"

definition on_db :: "(auth_db \<Rightarrow> 'r \<times> auth_db) \<Rightarrow> auth_state \<Rightarrow> 'r \<times> auth_state" where
  "on_db h st = map_prod id (\<lambda>db. st\<lparr>as_db := db\<rparr>) (h (as_db st))"

definition guard_db :: "auth_env \<Rightarrow> role \<Rightarrow> (auth_db, auth_reply) ctx_handler \<Rightarrow> http_request \<Rightarrow> auth_state
    \<Rightarrow> auth_reply guarded \<times> auth_state" where
  "guard_db env minRole h r = on_db (RequireRole (Some (Authorize env)) minRole h r)"

definition serve :: "auth_env \<Rightarrow> http_request \<Rightarrow> auth_route \<Rightarrow> auth_state \<Rightarrow> auth_reply guarded \<times> auth_state" where
  "serve env r route st = (case route of
     RLogin body \<Rightarrow> map_prod Served id (handleLogin env r body st)
   | RLogout \<Rightarrow> map_prod Served id (on_db (handleLogout env r) st)
   | RSession \<Rightarrow> guard_db env RoleViewer handleGetSession r st
   | RPassword body \<Rightarrow> guard_db env RoleViewer (handleChangeOwnPassword env body) r st
   | RTimezone body \<Rightarrow> guard_db env RoleViewer (handleSetTimezone env body) r st
   | RListUsers \<Rightarrow> guard_db env RoleAdmin (handleListUsers env) r st
   | RCreateUser body \<Rightarrow> guard_db env RoleAdmin (handleCreateUser env body) r st
   | RDeleteUser i \<Rightarrow> guard_db env RoleAdmin (handleDeleteUser i) r st
   | RResetPassword i body \<Rightarrow> guard_db env RoleAdmin (handleResetPassword env i body) r st
   | RSetRole i body \<Rightarrow> guard_db env RoleOwner (handleSetRole i body) r st)"

section \<open>The sliding window\<close>

text \<open>A sequence of calls of \<open>allow\<close>, each at a clock reading for a key, with the answers.\<close>

fun limiter_run :: "(gotime \<times> string) list \<Rightarrow> loginLimiter \<Rightarrow> bool list" where
  "limiter_run [] l = []"
| "limiter_run ((t, k) # cs) l = (case allow t k l of (ok, l') \<Rightarrow> ok # limiter_run cs l')"

text \<open>The reference keeps every granted attempt for ever and counts those inside the window.\<close>

definition in_window :: "int \<Rightarrow> gotime \<Rightarrow> string \<Rightarrow> (gotime \<times> string) list \<Rightarrow> (gotime \<times> string) list" where
  "in_window w t k hist = filter (\<lambda>(t', k'). k' = k \<and> t - w < t' \<and> t' \<le> t) hist"

fun window_run :: "int \<Rightarrow> int \<Rightarrow> (gotime \<times> string) list \<Rightarrow> (gotime \<times> string) list \<Rightarrow> bool list" where
  "window_run mx w hist [] = []"
| "window_run mx w hist ((t, k) # cs) =
    (let ok = int (length (in_window w t k hist)) < mx
     in ok # window_run mx w (if ok then hist @ [(t, k)] else hist) cs)"

definition granted :: "bool list \<Rightarrow> (gotime \<times> string) list \<Rightarrow> (gotime \<times> string) list" where
  "granted oks cs = map snd (filter fst (zip oks cs))"

text \<open>What the limiter remembers is enough: for any later clock reading, the window over its memory
  is the window over the whole history.\<close>

definition remembers :: "gotime \<Rightarrow> (gotime \<times> string) list \<Rightarrow> loginLimiter \<Rightarrow> bool" where
  "remembers now hist l = ((\<forall>(t, k) \<in> set hist. t \<le> now)
     \<and> (\<forall>t \<ge> now. \<forall>k. filter (\<lambda>t'. t' > t - ll_window l) (ll_attempts l k) = map fst (in_window (ll_window l) t k hist)))"

lemma allow_params [simp]: "ll_window (snd (allow t k l)) = ll_window l" "ll_max (snd (allow t k l)) = ll_max l"
  by (simp_all add: allow_def Let_def)

lemma allow_ok:
  assumes "remembers now hist l" and "now \<le> t"
  shows "fst (allow t k l) = (int (length (in_window (ll_window l) t k hist)) < ll_max l)"
proof -
  have "length (filter (\<lambda>t'. t' > t - ll_window l) (ll_attempts l k)) = length (in_window (ll_window l) t k hist)"
    using assms by (simp add: remembers_def)
  then show ?thesis by (simp add: allow_def Let_def not_le)
qed

lemma allow_remembers:
  assumes rem: "remembers now hist l" and "now \<le> t" and "0 < ll_window l"
  shows "remembers t (if fst (allow t k l) then hist @ [(t, k)] else hist) (snd (allow t k l))"
proof -
  let ?w = "ll_window l" and ?ok = "fst (allow t k l)"
  have le: "\<forall>(t', k') \<in> set hist. t' \<le> t" using rem assms(2) by (fastforce simp: remembers_def)
  have old: "filter (\<lambda>t'. t' > u - ?w) (ll_attempts l k') = map fst (in_window ?w u k' hist)" if "t \<le> u" for u k'
    using rem that assms(2) by (simp add: remembers_def)
  have drop: "filter (\<lambda>t'. t' > u - ?w) (filter (\<lambda>t'. t' > t - ?w) xs) = filter (\<lambda>t'. t' > u - ?w) xs" if "t \<le> u" for u xs
    using that by (simp add: conj_commute) (rule filter_cong; auto)
  have mem: "ll_attempts (snd (allow t k l)) k' =
      (if k' = k then filter (\<lambda>t'. t' > t - ?w) (ll_attempts l k) @ (if ?ok then [t] else []) else ll_attempts l k')" for k'
    by (simp add: allow_def Let_def)
  show ?thesis
    unfolding remembers_def
  proof (intro conjI allI impI)
    show "\<forall>(t', k') \<in> set (if ?ok then hist @ [(t, k)] else hist). t' \<le> t" using le by auto
    fix u k' assume u: "t \<le> u"
    show "filter (\<lambda>t'. t' > u - ll_window (snd (allow t k l))) (ll_attempts (snd (allow t k l)) k')
      = map fst (in_window (ll_window (snd (allow t k l))) u k' (if ?ok then hist @ [(t, k)] else hist))"
      using u old [OF u, of k'] drop [OF u]
      by (simp add: mem) (auto simp: in_window_def)
  qed
qed

lemma limiter_run_window:
  assumes "remembers now hist l" and "sorted (map fst cs)" and "\<forall>c \<in> set cs. now \<le> fst c" and "0 < ll_window l"
  shows "limiter_run cs l = window_run (ll_max l) (ll_window l) hist cs"
  using assms
proof (induction cs l arbitrary: now hist rule: limiter_run.induct)
  case (2 t k cs l)
  let ?l = "snd (allow t k l)" and ?hist = "if fst (allow t k l) then hist @ [(t, k)] else hist"
  have le: "now \<le> t" using "2.prems" by simp
  have rest: "remembers t ?hist ?l" by (rule allow_remembers [OF "2.prems"(1) le "2.prems"(4)])
  have "limiter_run cs ?l = window_run (ll_max l) (ll_window l) ?hist cs"
    using "2.IH" [OF prod.collapse rest] "2.prems" by auto
  then show ?case
    using allow_ok [OF "2.prems"(1) le, of k] by (cases "allow t k l") (simp add: Let_def)
qed simp

lemma in_window_append: "in_window w t k (xs @ ys) = in_window w t k xs @ in_window w t k ys"
  by (simp add: in_window_def)

lemma window_grant:
  assumes "\<forall>u k. int (length (in_window w u k hist)) \<le> mx" and "\<forall>c \<in> set hist. fst c \<le> t"
    and "int (length (in_window w t k hist)) < mx"
  shows "int (length (in_window w u j (hist @ [(t, k)]))) \<le> mx"
proof (cases "j = k \<and> t \<le> u")
  case True
  have "length (in_window w u k hist) \<le> length (in_window w t k hist)"
    using True assms(2) unfolding in_window_def
    by (induction hist) (auto simp: le_Suc_eq)
  moreover have "length (in_window w u j (hist @ [(t, k)])) \<le> length (in_window w u k hist) + 1"
    using True by (simp add: in_window_def)
  ultimately show ?thesis using assms(3) by linarith
next
  case False
  then have "in_window w u j [(t, k)] = []" by (auto simp: in_window_def)
  then show ?thesis using assms(1) by (simp add: in_window_append)
qed

lemma granted_Cons: "granted (ok # oks) (c # cs) = (if ok then [c] else []) @ granted oks cs"
  by (simp add: granted_def)

lemma window_run_bound:
  assumes "\<forall>u k. int (length (in_window w u k hist)) \<le> mx" and "\<forall>c \<in> set hist. fst c \<le> now"
    and "sorted (map fst cs)" and "\<forall>c \<in> set cs. now \<le> fst c"
  shows "int (length (in_window w u j (hist @ granted (window_run mx w hist cs) cs))) \<le> mx"
  using assms
proof (induction mx w hist cs arbitrary: now rule: window_run.induct)
  case (2 mx w hist t k cs)
  let ?ok = "int (length (in_window w t k hist)) < mx"
  let ?hist = "if ?ok then hist @ [(t, k)] else hist"
  have hist: "\<forall>c \<in> set hist. fst c \<le> t" using "2.prems"(2,4) by fastforce
  have "\<forall>u k. int (length (in_window w u k ?hist)) \<le> mx"
    using "2.prems"(1) window_grant [OF "2.prems"(1) hist] by auto
  moreover have "\<forall>c \<in> set ?hist. fst c \<le> t" using hist by auto
  moreover have "\<forall>c \<in> set cs. t \<le> fst c" using "2.prems"(3) by auto
  ultimately have "int (length (in_window w u j (?hist @ granted (window_run mx w ?hist cs) cs))) \<le> mx"
    using "2.IH" [OF refl, of t] "2.prems"(3) by simp
  then show ?case by (cases ?ok) (simp_all add: granted_Cons Let_def)
next
  case (1 mx w hist)
  then show ?case by (simp add: granted_def)
qed

text \<open>C32: The login rate limiter is an exact sliding window: on calls whose clock does not run
  backwards, \<open>allow\<close> - which forgets old attempts as it goes - answers like the reference that
  keeps every granted attempt of every client, and in every window of the configured length no
  client is granted more than the configured number of attempts.\<close>

theorem login_limiter_window:
  assumes "sorted (map fst cs)" and "0 \<le> mx" and "0 < w"
  shows "limiter_run cs (newLoginLimiter mx w) = window_run mx w [] cs
    \<and> int (length (in_window w u k (granted (limiter_run cs (newLoginLimiter mx w)) cs))) \<le> mx"
proof -
  let ?t0 = "if cs = [] then 0 else fst (hd cs)"
  have first: "\<forall>c \<in> set cs. ?t0 \<le> fst c" using assms(1) by (cases cs) auto
  have "remembers ?t0 [] (newLoginLimiter mx w)"
    by (simp add: remembers_def newLoginLimiter_def in_window_def)
  from limiter_run_window [OF this assms(1) first] have eq: "limiter_run cs (newLoginLimiter mx w) = window_run mx w [] cs"
    using assms(3) by (simp add: newLoginLimiter_def)
  have "int (length (in_window w u k ([] @ granted (window_run mx w [] cs) cs))) \<le> mx"
    using assms(1,2) first by (intro window_run_bound [of w "[]" mx ?t0]) (simp_all add: in_window_def)
  then show ?thesis by (simp add: eq)
qed

theorem login_limiter_window_witness:
  "limiter_run [(1, ''a''), (2, ''a''), (3, ''a''), (13, ''a'')] (newLoginLimiter 2 10) = [True, True, False, True]"
proof -
  have "window_run 2 10 [] [(1, ''a''), (2, ''a''), (3, ''a''), (13, ''a'')] = [True, True, False, True]" by code_simp
  moreover have "sorted (map fst [(1 :: int, ''a''), (2, ''a''), (3, ''a''), (13, ''a'')])" by simp
  ultimately show ?thesis
    using conjunct1 [OF login_limiter_window [of "[(1, ''a''), (2, ''a''), (3, ''a''), (13, ''a'')]" 2 10]]
    by (simp only: zero_le_numeral zero_less_numeral simp_thms)
qed

end
