(* ===== verification/Auth_Invariants.thy ===== *)
theory Auth_Invariants
  imports Auth_Api
begin

text \<open>
  What the handlers of local login keep: the shape of the tables, an owner, and the
  agreement between a stored session and the membership it was issued for.
\<close>

definition member_key :: "membership_row \<Rightarrow> string \<times> string" where
  "member_key m = (m_TenantID m, m_UserID m)"

definition holds_role :: "auth_db \<Rightarrow> string \<Rightarrow> role \<Rightarrow> bool" where
  "holds_role db i r = (\<exists>m \<in> set (tb_members db). m_UserID m = i \<and> m_TenantID m = defaultTenantID \<and> m_Role m = r)"

text \<open>The session snapshot agrees with the tables.\<close>

definition session_ok :: "auth_db \<Rightarrow> session_row \<Rightarrow> bool" where
  "session_ok db s = (local_user (se_UserID s) db \<and> se_TenantID s = defaultTenantID
     \<and> holds_role db (se_UserID s) (se_Role s))"

definition auth_inv :: "auth_db \<Rightarrow> bool" where
  "auth_inv db = (distinct (map u_ID (tb_users db))
     \<and> distinct (map u_Username (filter (\<lambda>u. u_Username u \<noteq> None) (tb_users db)))
     \<and> distinct (map member_key (tb_members db))
     \<and> (\<forall>m \<in> set (tb_members db). m_UserID m \<in> u_ID ` set (tb_users db) \<and> human (m_Role m))
     \<and> distinct (map se_TokenHash (tb_sessions db))
     \<and> (\<forall>s \<in> set (tb_sessions db). session_ok db s))"

definition has_owner :: "auth_db \<Rightarrow> bool" where
  "has_owner db = (\<exists>i. holds_role db i RoleOwner)"

lemmas auth_inv_unfold = auth_inv_def session_ok_def holds_role_def

section \<open>Reading the tables\<close>

lemma local_join_iff:
  "(u, m) \<in> set (local_join db) \<longleftrightarrow> u \<in> set (tb_users db) \<and> u_Username u \<noteq> None \<and> m \<in> set (tb_members db)
    \<and> m_UserID m = u_ID u \<and> m_TenantID m = defaultTenantID"
  by (auto simp: local_join_def)

lemma local_userI: "u \<in> set (tb_users db) \<Longrightarrow> u_Username u \<noteq> None \<Longrightarrow> local_user (u_ID u) db"
  by (auto simp: local_user_def list_ex_iff)

lemma GetUserByID_Inr:
  assumes "GetUserByID i db = Inr v"
  shows "local_user i db \<and> holds_role db i (User_Role v) \<and> User_ID v = i"
proof -
  obtain u m rest where f: "filter (\<lambda>(u, m). u_ID u = i) (local_join db) = (u, m) # rest" and v: "v = user_of (u, m)"
    using assms by (auto simp: GetUserByID_def split: list.splits)
  then have "(u, m) \<in> set (local_join db)" "u_ID u = i" "v = user_of (u, m)"
    using filter_head [OF f] by auto
  then show ?thesis by (auto simp: local_join_iff user_of_def holds_role_def intro: local_userI)
qed

lemma GetUserForLogin_Inr:
  assumes "GetUserForLogin n db = Inr (v, h)"
  shows "local_user (User_ID v) db \<and> holds_role db (User_ID v) (User_Role v) \<and> User_Username v = n
    \<and> (\<exists>u \<in> set (tb_users db). u_ID u = User_ID v \<and> u_Username u = Some n \<and> u_PasswordHash u = Some h)"
proof -
  obtain u m rest where f: "filter (\<lambda>(u, m). u_Username u = Some n) (local_join db) = (u, m) # rest"
      and h: "u_PasswordHash u = Some h" and v: "v = (user_of (u, m))\<lparr>User_DisplayTimezone := []\<rparr>"
    using assms by (auto simp: GetUserForLogin_def split: list.splits option.splits)
  then have "(u, m) \<in> set (local_join db)" "u_Username u = Some n" "u_PasswordHash u = Some h"
    "v = (user_of (u, m))\<lparr>User_DisplayTimezone := []\<rparr>"
    using filter_head [OF f] by auto
  then show ?thesis by (auto simp: local_join_iff user_of_def holds_role_def intro: local_userI)
qed

lemma holds_role_unique:
  assumes "auth_inv db" and "holds_role db i r" and "holds_role db i r'"
  shows "r = r'"
proof -
  obtain m m' where m: "m \<in> set (tb_members db)" "m' \<in> set (tb_members db)" "member_key m = member_key m'"
      "m_Role m = r" "m_Role m' = r'"
    using assms(2,3) by (auto simp: holds_role_def member_key_def)
  have "inj_on member_key (set (tb_members db))" using assms(1) by (simp add: auth_inv_def distinct_map)
  then have "m = m'" using m by (simp add: inj_on_def)
  then show ?thesis using m by simp
qed

lemma Authorize_Inr:
  assumes "auth_inv db" and "Authorize env r db = Inr i"
  shows "local_user (id_UserID i) db \<and> holds_role db (id_UserID i) (id_Role i) \<and> id_TenantID i = defaultTenantID"
proof -
  obtain s where "s \<in> set (tb_sessions db)" "i = \<lparr>id_TenantID = se_TenantID s, id_UserID = se_UserID s, id_Role = se_Role s\<rparr>"
    using assms(2) by (auto simp: Authorize_def GetSession_def dest!: find_SomeD split: option.splits sum.splits if_splits)
  then show ?thesis using assms(1) by (auto simp: auth_inv_def session_ok_def)
qed

section \<open>The store operations\<close>

lemma tables_sessions [simp]:
  "local_user i (db\<lparr>tb_sessions := x\<rparr>) = local_user i db"
  "holds_role (db\<lparr>tb_sessions := x\<rparr>) i r = holds_role db i r"
  "session_ok (db\<lparr>tb_sessions := x\<rparr>) s = session_ok db s"
  by (simp_all add: local_user_def holds_role_def session_ok_def)

lemma local_user_map:
  assumes "\<And>u. u_ID (f u) = u_ID u \<and> u_Username (f u) = u_Username u"
  shows "local_user i (db\<lparr>tb_users := map f (tb_users db)\<rparr>) = local_user i db"
  using assms by (simp add: local_user_def list_ex_iff)

lemma CreateUser_inv:
  assumes "auth_inv db" and "CreateUser env n h r db = Inr (v, db')"
  shows "auth_inv db'"
proof -
  have new: "le_uuid env \<notin> u_ID ` set (tb_users db)" "Some n \<notin> u_Username ` set (tb_users db)" "human r"
    using assms(2) by (auto simp: CreateUser_def Let_def split: if_splits)
  have db': "tb_users db' = tb_users db @ [\<lparr>u_ID = le_uuid env, u_Username = Some n, u_PasswordHash = Some h,
        u_DisplayTimezone = ''UTC'', u_CreatedAt = le_now env\<rparr>]"
      "tb_members db' = tb_members db @ [\<lparr>m_TenantID = defaultTenantID, m_UserID = le_uuid env, m_Role = r\<rparr>]"
      "tb_sessions db' = tb_sessions db"
    using assms(2) by (auto simp: CreateUser_def Let_def split: if_splits)
  have keep: "session_ok db' s" if "session_ok db s" for s
    using that by (auto simp: session_ok_def local_user_def holds_role_def db')
  have "member_key \<lparr>m_TenantID = defaultTenantID, m_UserID = le_uuid env, m_Role = r\<rparr> \<notin> member_key ` set (tb_members db)"
    using assms(1) new(1) by (auto simp: auth_inv_def member_key_def)
  then show ?thesis
    using assms(1) new keep by (auto simp: auth_inv_def db')
qed

lemma DeleteUser_inv:
  assumes "auth_inv db" and "DeleteUser i db = Inr db'"
  shows "auth_inv db'"
proof -
  have db': "tb_users db' = filter (\<lambda>u. u_ID u \<noteq> i) (tb_users db)" "tb_members db' = filter (\<lambda>m. m_UserID m \<noteq> i) (tb_members db)"
      "tb_sessions db' = filter (\<lambda>s. se_UserID s \<noteq> i) (tb_sessions db)"
    using assms(2) by (auto simp: DeleteUser_def split: if_splits)
  have keep: "session_ok db' s" if "session_ok db s" "se_UserID s \<noteq> i" for s
    using that by (auto simp: session_ok_def local_user_def holds_role_def list_ex_iff db')
  have "filter (\<lambda>u. u_Username u \<noteq> None) (tb_users db') = filter (\<lambda>u. u_ID u \<noteq> i) (filter (\<lambda>u. u_Username u \<noteq> None) (tb_users db))"
    by (simp add: db' conj_commute)
  then show ?thesis
    using assms(1) keep by (auto simp: auth_inv_def distinct_map_filter db' simp del: filter_filter)
qed

lemma drop_sessions_inv: "auth_inv db \<Longrightarrow> auth_inv (drop_sessions i db)"
  by (auto simp: auth_inv_def drop_sessions_def distinct_map_filter)

lemma map_users_inv:
  assumes "auth_inv db" and same: "\<And>u. u_ID (f u) = u_ID u \<and> u_Username (f u) = u_Username u"
  shows "auth_inv (db\<lparr>tb_users := map f (tb_users db)\<rparr>)"
proof -
  have "u_ID \<circ> f = u_ID" by (rule ext) (simp add: same)
  moreover have "map u_Username (filter (\<lambda>u. u_Username u \<noteq> None) (map f us)) = map u_Username (filter (\<lambda>u. u_Username u \<noteq> None) us)" for us
    using same by (induction us) auto
  moreover have "u_ID ` f ` X = u_ID ` X" for X using same by (simp add: image_image)
  ultimately show ?thesis
    using assms(1) local_user_map [OF same] by (simp add: auth_inv_def session_ok_def holds_role_def)
qed

lemma SetPasswordHash_inv: "auth_inv db \<Longrightarrow> SetPasswordHash i h db = Inr db' \<Longrightarrow> auth_inv db'"
  by (auto simp: SetPasswordHash_def split: if_splits intro!: drop_sessions_inv map_users_inv)

lemma SetDisplayTimezone_inv: "auth_inv db \<Longrightarrow> SetDisplayTimezone i tz db = Inr db' \<Longrightarrow> auth_inv db'"
  by (auto simp: SetDisplayTimezone_def split: if_splits intro!: map_users_inv)

lemma SetRole_inv:
  assumes "auth_inv db" and "SetRole i r db = Inr db'"
  shows "auth_inv db'"
proof -
  let ?hit = "\<lambda>m. m_UserID m = i \<and> m_TenantID m = defaultTenantID \<and> local_user i db"
  let ?f = "\<lambda>m. if ?hit m then m\<lparr>m_Role := r\<rparr> else m"
  have r: "human r" and db': "db' = drop_sessions i (db\<lparr>tb_members := map ?f (tb_members db)\<rparr>)"
    using assms(2) by (auto simp: SetRole_def Let_def split: if_splits)
  have key: "member_key \<circ> ?f = member_key" by (rule ext) (simp add: member_key_def)
  have keep: "session_ok db' s" if "session_ok db s" "se_UserID s \<noteq> i" for s
    using that by (force simp: session_ok_def holds_role_def local_user_def db' drop_sessions_def)
  have "\<forall>m \<in> set (tb_members db'). m_UserID m \<in> u_ID ` set (tb_users db') \<and> human (m_Role m)"
    using assms(1) r by (auto simp: auth_inv_def db' drop_sessions_def)
  then show ?thesis
    using assms(1) keep key
    by (simp add: auth_inv_def db' drop_sessions_def distinct_map_filter del: comp_apply)
qed

lemma CreateSession_inv:
  assumes "auth_inv db" and "CreateSession env i defaultTenantID r ttl db = Inr (raw, db')"
    and "local_user i db" and "holds_role db i r"
  shows "auth_inv db'"
  using assms
  by (auto simp: CreateSession_def auth_inv_def session_ok_def bindE_eq_Inr split: if_splits)

lemma DeleteSessionByHash_inv: "auth_inv db \<Longrightarrow> auth_inv (DeleteSessionByHash h db)"
  by (auto simp: auth_inv_def DeleteSessionByHash_def distinct_map_filter)

section \<open>Owners\<close>

lemma other_owner:
  assumes "auth_inv db" and "CountUsersWithRole RoleOwner db > 1"
  shows "\<exists>j. j \<noteq> i \<and> holds_role db j RoleOwner"
proof (rule ccontr)
  assume none: "\<not> ?thesis"
  let ?os = "filter (\<lambda>m. m_TenantID m = defaultTenantID \<and> m_Role m = RoleOwner) (tb_members db)"
  have "member_key m = (defaultTenantID, i)" if "m \<in> set ?os" for m
    using that none by (auto simp: holds_role_def member_key_def)
  then have "set (map member_key ?os) \<subseteq> {(defaultTenantID, i)}" by auto
  moreover have "distinct (map member_key ?os)" using assms(1) by (simp add: auth_inv_def distinct_map_filter)
  ultimately have "card (set (map member_key ?os)) \<le> 1" "card (set (map member_key ?os)) = length ?os"
    using card_mono [of "{(defaultTenantID, i)}" "set (map member_key ?os)"] distinct_card [of "map member_key ?os"]
    by simp_all
  then show False using assms(2) unfolding CountUsersWithRole_def by linarith
qed

lemma DeleteUser_roles: "DeleteUser i db = Inr db' \<Longrightarrow> j \<noteq> i \<Longrightarrow> holds_role db' j r = holds_role db j r"
  by (auto simp: DeleteUser_def holds_role_def split: if_splits)

lemma SetRole_roles: "SetRole i q db = Inr db' \<Longrightarrow> j \<noteq> i \<Longrightarrow> holds_role db j r \<Longrightarrow> holds_role db' j r"
  by (force simp: SetRole_def holds_role_def drop_sessions_def Let_def split: if_splits)

lemma SetRole_own:
  assumes "SetRole i q db = Inr db'"
  shows "holds_role db' i q"
proof -
  let ?hit = "\<lambda>m. m_UserID m = i \<and> m_TenantID m = defaultTenantID \<and> local_user i db"
  have ex: "list_ex ?hit (tb_members db)"
    and db': "tb_members db' = map (\<lambda>m. if ?hit m then m\<lparr>m_Role := q\<rparr> else m) (tb_members db)"
    using assms by (auto simp: SetRole_def drop_sessions_def Let_def split: if_splits)
  from ex obtain m where "m \<in> set (tb_members db)" "?hit m" by (auto simp: list_ex_iff)
  then have "m\<lparr>m_Role := q\<rparr> \<in> set (tb_members db')" using db' by force
  then show ?thesis using \<open>?hit m\<close> unfolding holds_role_def by (intro bexI [of _ "m\<lparr>m_Role := q\<rparr>"]) auto
qed

lemma SetPasswordHash_roles: "SetPasswordHash i h db = Inr db' \<Longrightarrow> tb_members db' = tb_members db"
  by (auto simp: SetPasswordHash_def drop_sessions_def split: if_splits)

lemma SetDisplayTimezone_roles: "SetDisplayTimezone i tz db = Inr db' \<Longrightarrow> tb_members db' = tb_members db"
  by (auto simp: SetDisplayTimezone_def split: if_splits)

lemma has_owner_members: "tb_members db' = tb_members db \<Longrightarrow> has_owner db' = has_owner db"
  by (simp add: has_owner_def holds_role_def)

lemma CreateUser_owner: "CreateUser env n h r db = Inr (v, db') \<Longrightarrow> has_owner db \<Longrightarrow> has_owner db'"
  by (auto simp: CreateUser_def has_owner_def holds_role_def Let_def split: if_splits)

section \<open>Privileged rows\<close>

definition privileged :: "auth_db \<Rightarrow> membership_row list" where
  "privileged db = filter (\<lambda>m. m_TenantID m = defaultTenantID \<and> (m_Role m = RoleAdmin \<or> m_Role m = RoleOwner)) (tb_members db)"

definition owner_rows :: "auth_db \<Rightarrow> user_row list" where
  "owner_rows db = filter (\<lambda>u. holds_role db (u_ID u) RoleOwner) (tb_users db)"

definition same_privileged :: "auth_db \<Rightarrow> auth_db \<Rightarrow> bool" where
  "same_privileged db db' = (privileged db' = privileged db \<and> owner_rows db' = owner_rows db)"

lemma same_privileged_refl [simp]: "same_privileged db db"
  by (simp add: same_privileged_def)

lemma CreateUser_privileged:
  assumes "auth_inv db" and "CreateUser env n h r db = Inr (v, db')" and "r \<noteq> RoleAdmin" and "r \<noteq> RoleOwner"
  shows "same_privileged db db'"
proof -
  have "holds_role db' j RoleOwner = holds_role db j RoleOwner" for j
    using assms(2,4) by (auto simp: CreateUser_def holds_role_def Let_def split: if_splits)
  moreover have "\<not> holds_role db (le_uuid env) RoleOwner"
    using assms(1,2) by (force simp: CreateUser_def holds_role_def auth_inv_def Let_def split: if_splits)
  ultimately show ?thesis
    using assms(2-4)
    by (auto simp: CreateUser_def same_privileged_def privileged_def owner_rows_def Let_def split: if_splits)
qed

lemma DeleteUser_privileged:
  assumes "auth_inv db" and "DeleteUser i db = Inr db'" and "holds_role db i r" and "r \<noteq> RoleAdmin" and "r \<noteq> RoleOwner"
  shows "same_privileged db db'"
proof -
  have no: "\<not> holds_role db i RoleAdmin" "\<not> holds_role db i RoleOwner"
    using holds_role_unique [OF assms(1,3)] assms(4,5) by blast+
  have eq: "tb_users db' = filter (\<lambda>u. u_ID u \<noteq> i) (tb_users db)" "tb_members db' = filter (\<lambda>m. m_UserID m \<noteq> i) (tb_members db)"
    using assms(2) by (auto simp: DeleteUser_def split: if_splits)
  have roles: "holds_role db' j RoleOwner \<longleftrightarrow> holds_role db j RoleOwner" if "j \<noteq> i" for j
    by (rule DeleteUser_roles [OF assms(2) that])
  have "privileged db' = privileged db"
    unfolding privileged_def eq filter_filter using no by (intro filter_cong) (auto simp: holds_role_def)
  moreover have "owner_rows db' = owner_rows db"
    unfolding owner_rows_def eq filter_filter
  proof (rule filter_cong [OF refl])
    fix u
    show "(u_ID u \<noteq> i \<and> holds_role db' (u_ID u) RoleOwner) = holds_role db (u_ID u) RoleOwner"
      using no roles [of "u_ID u"] by (cases "u_ID u = i") auto
  qed
  ultimately show ?thesis by (simp add: same_privileged_def)
qed

lemma map_users_privileged:
  assumes "tb_users db' = map f (tb_users db)" and "tb_members db' = tb_members db"
    and "\<And>u. u_ID (f u) = u_ID u" and "\<And>u. u_ID u \<noteq> i \<Longrightarrow> f u = u" and "\<not> holds_role db i RoleOwner"
  shows "same_privileged db db'"
proof -
  have roles: "holds_role db' j q = holds_role db j q" for j q using assms(2) by (simp add: holds_role_def)
  have "filter (\<lambda>u. holds_role db (u_ID u) RoleOwner) (map f us) = filter (\<lambda>u. holds_role db (u_ID u) RoleOwner) us" for us
  proof (induction us)
    case (Cons u us)
    then show ?case using assms(3-5) by (cases "u_ID u = i") auto
  qed simp
  then show ?thesis using assms(1,2) by (simp add: same_privileged_def privileged_def owner_rows_def roles)
qed

lemma SetPasswordHash_privileged:
  "SetPasswordHash i h db = Inr db' \<Longrightarrow> \<not> holds_role db i RoleOwner \<Longrightarrow> same_privileged db db'"
  by (rule map_users_privileged [where i = i and f = "\<lambda>u. if u_ID u = i \<and> u_Username u \<noteq> None then u\<lparr>u_PasswordHash := Some h\<rparr> else u"])
    (auto simp: SetPasswordHash_def drop_sessions_def split: if_splits)

lemma SetDisplayTimezone_privileged:
  "SetDisplayTimezone i tz db = Inr db' \<Longrightarrow> \<not> holds_role db i RoleOwner \<Longrightarrow> same_privileged db db'"
  by (rule map_users_privileged [where i = i and f = "\<lambda>u. if u_ID u = i \<and> u_Username u \<noteq> None then u\<lparr>u_DisplayTimezone := tz\<rparr> else u"])
    (auto simp: SetDisplayTimezone_def split: if_splits)

section \<open>Handlers behind the middleware\<close>

text \<open>What every guarded handler promises: with an identity in its context it keeps the
  invariant and does not lose the last owner. The client is the middleware.\<close>

locale guarded_handler =
  fixes h :: "(auth_db, auth_reply) ctx_handler"
  assumes keeps_inv: "auth_inv db \<Longrightarrow> auth_inv (snd (h ctx db))"
    and keeps_owner: "auth_inv db \<Longrightarrow> has_owner db \<Longrightarrow> has_owner (snd (h ctx db))"
begin

lemma guard_keeps_inv:
  assumes "auth_inv (as_db st)"
  shows "auth_inv (as_db (snd (guard_db env q h r st)))"
  using assms keeps_inv by (simp add: guard_db_def on_db_def RequireRole_def split: sum.split)

lemma guard_keeps_owner:
  assumes "auth_inv (as_db st)" and "has_owner (as_db st)"
  shows "has_owner (as_db (snd (guard_db env q h r st)))"
  using assms keeps_owner by (simp add: guard_db_def on_db_def RequireRole_def split: sum.split)

end

text \<open>In addition: a caller who is not an owner cannot touch the memberships of admins and owners,
  nor the account rows of owners.\<close>

locale contained_handler = guarded_handler +
  assumes contained: "auth_inv db \<Longrightarrow> holds_role db (id_UserID i) (id_Role i) \<Longrightarrow> id_Role i \<noteq> RoleOwner
    \<Longrightarrow> same_privileged db (snd (h (Some i) db))"
begin

lemma guard_contained:
  assumes inv: "auth_inv (as_db st)" and "\<And>i. Authorize env r (as_db st) = Inr i \<Longrightarrow> id_Role i \<noteq> RoleOwner"
  shows "same_privileged (as_db st) (as_db (snd (guard_db env q h r st)))"
proof (cases "Authorize env r (as_db st)")
  case (Inr i)
  then have "same_privileged (as_db st) (snd (h (Some i) (as_db st)))"
    using assms Authorize_Inr [OF inv Inr] contained [OF inv] by blast
  then show ?thesis using Inr by (simp add: guard_db_def on_db_def RequireRole_def)
qed (simp add: guard_db_def on_db_def RequireRole_def)

end

interpretation get_session: contained_handler handleGetSession
  by unfold_locales (simp_all add: handleGetSession_def split: sum.split)

interpretation list_users: contained_handler "handleListUsers env" for env
  by unfold_locales (simp_all add: handleListUsers_def)

lemma handleSetTimezone_snd:
  "snd (handleSetTimezone env body ctx db) = db \<or>
    (\<exists>tz. SetDisplayTimezone (id_UserID (ctx_identity ctx)) tz db = Inr (snd (handleSetTimezone env body ctx db)))"
  by (auto simp: handleSetTimezone_def split: option.split sum.split)

interpretation set_timezone: contained_handler "handleSetTimezone env body" for env body
proof
  fix db ctx i
  assume inv: "auth_inv db"
  show "auth_inv (snd (handleSetTimezone env body ctx db))"
    using handleSetTimezone_snd [of env body ctx db] inv SetDisplayTimezone_inv by metis
  show "has_owner (snd (handleSetTimezone env body ctx db))" if "has_owner db"
    using handleSetTimezone_snd [of env body ctx db] that SetDisplayTimezone_roles has_owner_members by metis
  show "same_privileged db (snd (handleSetTimezone env body (Some i) db))"
    if "holds_role db (id_UserID i) (id_Role i)" "id_Role i \<noteq> RoleOwner"
  proof -
    have "\<not> holds_role db (id_UserID i) RoleOwner" using holds_role_unique [OF inv] that by blast
    then show ?thesis
      using handleSetTimezone_snd [of env body "Some i" db] SetDisplayTimezone_privileged [of "id_UserID i"]
      by (auto simp: ctx_identity_def)
  qed
qed

lemma handleChangeOwnPassword_snd:
  "snd (handleChangeOwnPassword env body ctx db) = db \<or>
    (\<exists>h. SetPasswordHash (id_UserID (ctx_identity ctx)) h db = Inr (snd (handleChangeOwnPassword env body ctx db)))"
  by (auto simp: handleChangeOwnPassword_def Let_def split: option.split sum.split)

interpretation change_password: contained_handler "handleChangeOwnPassword env body" for env body
proof
  fix db ctx i
  assume inv: "auth_inv db"
  show "auth_inv (snd (handleChangeOwnPassword env body ctx db))"
    using handleChangeOwnPassword_snd [of env body ctx db] inv SetPasswordHash_inv by metis
  show "has_owner (snd (handleChangeOwnPassword env body ctx db))" if "has_owner db"
    using handleChangeOwnPassword_snd [of env body ctx db] that SetPasswordHash_roles has_owner_members by metis
  show "same_privileged db (snd (handleChangeOwnPassword env body (Some i) db))"
    if "holds_role db (id_UserID i) (id_Role i)" "id_Role i \<noteq> RoleOwner"
  proof -
    have "\<not> holds_role db (id_UserID i) RoleOwner" using holds_role_unique [OF inv] that by blast
    then show ?thesis
      using handleChangeOwnPassword_snd [of env body "Some i" db] SetPasswordHash_privileged [of "id_UserID i"]
      by (auto simp: ctx_identity_def)
  qed
qed

lemma handleResetPassword_snd:
  "snd (handleResetPassword env i body ctx db) = db \<or>
    (\<exists>h v. SetPasswordHash i h db = Inr (snd (handleResetPassword env i body ctx db)) \<and> GetUserByID i db = Inr v
      \<and> (User_Role v = RoleOwner \<longrightarrow> id_Role (ctx_identity ctx) = RoleOwner) \<and> i \<noteq> id_UserID (ctx_identity ctx))"
  by (auto simp: handleResetPassword_def split: option.split sum.split)

interpretation reset_password: contained_handler "handleResetPassword env j body" for env j body
proof
  fix db ctx i
  assume inv: "auth_inv db"
  show "auth_inv (snd (handleResetPassword env j body ctx db))"
    using handleResetPassword_snd [of env j body ctx db] inv SetPasswordHash_inv by metis
  show "has_owner (snd (handleResetPassword env j body ctx db))" if "has_owner db"
    using handleResetPassword_snd [of env j body ctx db] that SetPasswordHash_roles has_owner_members by metis
  show "same_privileged db (snd (handleResetPassword env j body (Some i) db))" if "id_Role i \<noteq> RoleOwner"
  proof -
    have "\<not> holds_role db j RoleOwner" if "GetUserByID j db = Inr v" "User_Role v \<noteq> RoleOwner" for v
      using GetUserByID_Inr [OF that(1)] that(2) holds_role_unique [OF inv] by blast
    then show ?thesis
      using handleResetPassword_snd [of env j body "Some i" db] SetPasswordHash_privileged [of j] that
      by (auto simp: ctx_identity_def)
  qed
qed

lemma handleCreateUser_snd:
  "snd (handleCreateUser env body ctx db) = db \<or>
    (\<exists>n h r v. CreateUser env n h r db = Inr (v, snd (handleCreateUser env body ctx db)) \<and> \<not> admin_blocked ctx r)"
  by (auto simp: handleCreateUser_def Let_def split: option.split sum.split)

interpretation create_user: contained_handler "handleCreateUser env body" for env body
proof
  fix db ctx i
  assume inv: "auth_inv db"
  show "auth_inv (snd (handleCreateUser env body ctx db))"
    using handleCreateUser_snd [of env body ctx db] inv CreateUser_inv by metis
  show "has_owner (snd (handleCreateUser env body ctx db))" if "has_owner db"
    using handleCreateUser_snd [of env body ctx db] that CreateUser_owner by metis
  show "same_privileged db (snd (handleCreateUser env body (Some i) db))" if "id_Role i \<noteq> RoleOwner"
    using handleCreateUser_snd [of env body "Some i" db] that CreateUser_privileged [OF inv]
    by (auto simp: admin_blocked_def)
qed

lemma handleDeleteUser_snd:
  "snd (handleDeleteUser i ctx db) = db \<or>
    (\<exists>v. DeleteUser i db = Inr (snd (handleDeleteUser i ctx db)) \<and> GetUserByID i db = Inr v
      \<and> \<not> admin_blocked ctx (User_Role v) \<and> (User_Role v = RoleOwner \<longrightarrow> \<not> wouldRemoveLastOwner db))"
  by (auto simp: handleDeleteUser_def split: sum.split)

lemma another_owner:
  assumes "auth_inv db" and "has_owner db" and "GetUserByID i db = Inr v"
    and "User_Role v = RoleOwner \<longrightarrow> \<not> wouldRemoveLastOwner db"
  shows "\<exists>j. j \<noteq> i \<and> holds_role db j RoleOwner"
proof (cases "User_Role v = RoleOwner")
  case True
  then have "CountUsersWithRole RoleOwner db > 1" using assms(4) by (simp add: wouldRemoveLastOwner_def)
  then show ?thesis by (rule other_owner [OF assms(1)])
next
  case False
  have role: "holds_role db i (User_Role v)" using GetUserByID_Inr [OF assms(3)] by simp
  obtain j where j: "holds_role db j RoleOwner" using assms(2) by (auto simp: has_owner_def)
  then have "j \<noteq> i" using holds_role_unique [OF assms(1) role] False by blast
  then show ?thesis using j by blast
qed

lemma DeleteUser_owner:
  assumes "auth_inv db" and "has_owner db" and "DeleteUser i db = Inr db'" and "GetUserByID i db = Inr v"
    and "User_Role v = RoleOwner \<longrightarrow> \<not> wouldRemoveLastOwner db"
  shows "has_owner db'"
  using another_owner [OF assms(1,2,4,5)] DeleteUser_roles [OF assms(3)] by (auto simp: has_owner_def)

interpretation delete_user: contained_handler "handleDeleteUser j" for j
proof
  fix db ctx i
  assume inv: "auth_inv db"
  show "auth_inv (snd (handleDeleteUser j ctx db))"
    using handleDeleteUser_snd [of j ctx db] inv DeleteUser_inv by metis
  show "has_owner (snd (handleDeleteUser j ctx db))" if "has_owner db"
    using handleDeleteUser_snd [of j ctx db] that DeleteUser_owner [OF inv] by metis
  show "same_privileged db (snd (handleDeleteUser j (Some i) db))" if "id_Role i \<noteq> RoleOwner"
    using handleDeleteUser_snd [of j "Some i" db]
  proof
    assume "\<exists>v. DeleteUser j db = Inr (snd (handleDeleteUser j (Some i) db)) \<and> GetUserByID j db = Inr v
      \<and> \<not> admin_blocked (Some i) (User_Role v) \<and> (User_Role v = RoleOwner \<longrightarrow> \<not> wouldRemoveLastOwner db)"
    then obtain v where v: "DeleteUser j db = Inr (snd (handleDeleteUser j (Some i) db))" "GetUserByID j db = Inr v"
        "\<not> admin_blocked (Some i) (User_Role v)" by blast
    have "holds_role db j (User_Role v)" using GetUserByID_Inr [OF v(2)] by simp
    then show ?thesis
      using v(3) that by (intro DeleteUser_privileged [OF inv v(1), of "User_Role v"]) (auto simp: admin_blocked_def)
  qed simp
qed

lemma handleSetRole_snd:
  "snd (handleSetRole i body ctx db) = db \<or>
    (\<exists>r v. SetRole i r db = Inr (snd (handleSetRole i body ctx db)) \<and> GetUserByID i db = Inr v
      \<and> (User_Role v = RoleOwner \<and> r \<noteq> RoleOwner \<longrightarrow> \<not> wouldRemoveLastOwner db))"
  by (auto simp: handleSetRole_def split: option.split sum.split)

lemma SetRole_owner:
  assumes "auth_inv db" and "has_owner db" and "SetRole i r db = Inr db'" and "GetUserByID i db = Inr v"
    and "User_Role v = RoleOwner \<and> r \<noteq> RoleOwner \<longrightarrow> \<not> wouldRemoveLastOwner db"
  shows "has_owner db'"
proof (cases "r = RoleOwner")
  case True
  then show ?thesis using SetRole_own [OF assms(3)] by (auto simp: has_owner_def)
next
  case False
  then show ?thesis
    using another_owner [OF assms(1,2,4)] assms(5) SetRole_roles [OF assms(3)] by (auto simp: has_owner_def)
qed

interpretation set_role: guarded_handler "handleSetRole j body" for j body
proof
  fix db ctx
  assume inv: "auth_inv db"
  show "auth_inv (snd (handleSetRole j body ctx db))"
    using handleSetRole_snd [of j body ctx db] inv SetRole_inv by metis
  show "has_owner (snd (handleSetRole j body ctx db))" if "has_owner db"
    using handleSetRole_snd [of j body ctx db] that SetRole_owner [OF inv] by metis
qed

section \<open>The whole surface\<close>

lemma handleLogin_db:
  "as_db (snd (handleLogin env r body st)) = as_db st \<or>
    (\<exists>n h v raw. GetUserForLogin n (as_db st) = Inr (v, h)
      \<and> CreateSession env (User_ID v) defaultTenantID (User_Role v) (le_ttl env) (as_db st)
        = Inr (raw, as_db (snd (handleLogin env r body st))))"
  by (auto simp: handleLogin_def Let_def split: prod.split option.split sum.split)

lemma handleLogin_inv:
  assumes "auth_inv (as_db st)"
  shows "auth_inv (as_db (snd (handleLogin env r body st)))"
  using handleLogin_db [of env r body st] CreateSession_inv [OF assms] GetUserForLogin_Inr assms by metis

lemma CreateSession_Inr:
  assumes "CreateSession env i t q ttl db = Inr (raw, db')"
  shows "tb_sessions db' = tb_sessions db @ [\<lparr>se_UserID = i, se_TenantID = t, se_Role = q,
      se_TokenHash = le_sha env raw, se_ExpiresAt = le_now env + ttl\<rparr>]
    \<and> (\<forall>s \<in> set (tb_sessions db). se_TokenHash s \<noteq> le_sha env raw)"
proof -
  obtain hash where "newOpaqueToken env = Inr (raw, hash)" "hash \<notin> se_TokenHash ` set (tb_sessions db)"
      and db': "db' = db\<lparr>tb_sessions := tb_sessions db @ [\<lparr>se_UserID = i, se_TenantID = t, se_Role = q,
        se_TokenHash = hash, se_ExpiresAt = le_now env + ttl\<rparr>]\<rparr>"
    using assms by (auto simp: CreateSession_def bindE_eq_Inr split: if_splits)
  then show ?thesis by (force simp: newOpaqueToken_def db' split: option.splits)
qed

lemma CreateSession_tables: "CreateSession env i t q ttl db = Inr (raw, db') \<Longrightarrow>
    tb_members db' = tb_members db \<and> tb_users db' = tb_users db"
  by (auto simp: CreateSession_def bindE_eq_Inr split: if_splits)

lemma handleLogin_tables:
  "tb_members (as_db (snd (handleLogin env r body st))) = tb_members (as_db st)
    \<and> tb_users (as_db (snd (handleLogin env r body st))) = tb_users (as_db st)"
  using handleLogin_db [of env r body st] CreateSession_tables by metis

lemma handleLogout_db: "snd (handleLogout env r db) = db \<or> (\<exists>h. snd (handleLogout env r db) = DeleteSessionByHash h db)"
  by (auto simp: handleLogout_def split: option.split)

lemma handleLogout_inv: "auth_inv db \<Longrightarrow> auth_inv (snd (handleLogout env r db))"
  using handleLogout_db [of env r db] DeleteSessionByHash_inv by metis

lemma handleLogout_tables:
  "tb_members (snd (handleLogout env r db)) = tb_members db \<and> tb_users (snd (handleLogout env r db)) = tb_users db"
  using handleLogout_db [of env r db] by (auto simp: DeleteSessionByHash_def)

lemmas guarded_inv = get_session.guard_keeps_inv list_users.guard_keeps_inv set_timezone.guard_keeps_inv
  change_password.guard_keeps_inv reset_password.guard_keeps_inv create_user.guard_keeps_inv
  delete_user.guard_keeps_inv set_role.guard_keeps_inv

lemmas guarded_owner = get_session.guard_keeps_owner list_users.guard_keeps_owner set_timezone.guard_keeps_owner
  change_password.guard_keeps_owner reset_password.guard_keeps_owner create_user.guard_keeps_owner
  delete_user.guard_keeps_owner set_role.guard_keeps_owner

lemmas guarded_contained = get_session.guard_contained list_users.guard_contained set_timezone.guard_contained
  change_password.guard_contained reset_password.guard_contained create_user.guard_contained
  delete_user.guard_contained

lemma serve_inv:
  assumes "auth_inv (as_db st)"
  shows "auth_inv (as_db (snd (serve env r route st)))"
  using assms
  by (cases route) (simp_all add: serve_def handleLogin_inv on_db_def [of "handleLogout env r"] handleLogout_inv guarded_inv)

lemma serve_owner:
  assumes "auth_inv (as_db st)" and "has_owner (as_db st)"
  shows "has_owner (as_db (snd (serve env r route st)))"
proof (cases route)
  case (RLogin body)
  then show ?thesis using assms(2) has_owner_members [OF conjunct1 [OF handleLogin_tables [of env r body st]]]
    by (simp add: serve_def)
next
  case RLogout
  then show ?thesis using assms(2) has_owner_members [OF conjunct1 [OF handleLogout_tables [of env r "as_db st"]]]
    by (simp add: serve_def on_db_def)
qed (use assms in \<open>simp_all add: serve_def guarded_owner\<close>)

lemma same_tables_privileged: "tb_members db' = tb_members db \<Longrightarrow> tb_users db' = tb_users db \<Longrightarrow> same_privileged db db'"
  by (simp add: same_privileged_def privileged_def owner_rows_def holds_role_def)

lemma owner_floor:
  assumes "\<And>i. Authorize env r (as_db st) = Inr i \<Longrightarrow> id_Role i \<noteq> RoleOwner"
  shows "snd (guard_db env RoleOwner h r st) = st"
  using assms by (cases "Authorize env r (as_db st)") (simp_all add: guard_db_def on_db_def RequireRole_def)

lemma serve_contained:
  assumes "auth_inv (as_db st)" and no: "\<And>i. Authorize env r (as_db st) = Inr i \<Longrightarrow> id_Role i \<noteq> RoleOwner"
  shows "same_privileged (as_db st) (as_db (snd (serve env r route st)))"
proof (cases route)
  case (RLogin body)
  then show ?thesis using handleLogin_tables [of env r body st] by (simp add: serve_def same_tables_privileged)
next
  case RLogout
  then show ?thesis using handleLogout_tables [of env r "as_db st"] by (simp add: serve_def on_db_def same_tables_privileged)
next
  case (RSetRole i body)
  then show ?thesis using owner_floor [OF no] by (simp add: serve_def)
qed (use assms in \<open>simp_all add: serve_def guarded_contained\<close>)

text \<open>A run of requests, each with its own environment, served one after the other.\<close>

fun serve_all :: "(auth_env \<times> http_request \<times> auth_route) list \<Rightarrow> auth_state \<Rightarrow> auth_state" where
  "serve_all [] st = st"
| "serve_all ((env, r, route) # rs) st = serve_all rs (snd (serve env r route st))"

lemma serve_all_inv: "auth_inv (as_db st) \<Longrightarrow> auth_inv (as_db (serve_all rs st))"
  by (induction rs st rule: serve_all.induct) (simp_all add: serve_inv)

lemma serve_all_owner: "auth_inv (as_db st) \<Longrightarrow> has_owner (as_db st) \<Longrightarrow> has_owner (as_db (serve_all rs st))"
  by (induction rs st rule: serve_all.induct) (simp_all add: serve_inv serve_owner)

text \<open>A seeded deployment has an owner.\<close>

lemma runSeedAdmin_owner:
  assumes "auth_inv db" and "\<not> UsernameExists seedAdminUsername db" and "runSeedAdmin env db = (0, db')"
  shows "auth_inv db' \<and> has_owner db'"
proof -
  obtain h v where cu: "CreateUser env seedAdminUsername h RoleOwner db = Inr (v, db')"
    using assms(2,3) by (auto simp: runSeedAdmin_def split: option.splits sum.splits)
  then have "has_owner db'" by (auto simp: CreateUser_def has_owner_def holds_role_def Let_def split: if_splits)
  then show ?thesis using CreateUser_inv [OF assms(1) cu] by simp
qed

section \<open>Properties\<close>

text \<open>C7: There is always an owner: after \<open>-seed-admin\<close> has created the first account, or from any
  tables that satisfy the invariant and have an owner, whatever requests are served one after
  the other, by whomever, the default tenant still has an owner afterwards, and the tables still
  satisfy the invariant.\<close>

theorem last_owner_survives:
  assumes "auth_inv db" and "as_db st = snd (runSeedAdmin env db)" and "fst (runSeedAdmin env db) = 0"
    and "UsernameExists seedAdminUsername db \<longrightarrow> has_owner db"
  shows "has_owner (as_db (serve_all rs st)) \<and> auth_inv (as_db (serve_all rs st))"
proof -
  have "auth_inv (as_db st) \<and> has_owner (as_db st)"
  proof (cases "UsernameExists seedAdminUsername db")
    case True
    then show ?thesis using assms by (simp add: runSeedAdmin_def)
  next
    case False
    then show ?thesis using runSeedAdmin_owner [OF assms(1) False, of env "as_db st"] assms(2,3)
      by (cases "runSeedAdmin env db") auto
  qed
  then show ?thesis using serve_all_inv serve_all_owner by blast
qed


text \<open>C29: Only an owner can change who is privileged: a request of a caller who is not an owner
  leaves the memberships of admins and owners, and every stored field of the owners' accounts,
  exactly as they were.\<close>

theorem privilege_containment:
  assumes "auth_inv (as_db st)" and "\<forall>i. Authorize env r (as_db st) = Inr i \<longrightarrow> id_Role i \<noteq> RoleOwner"
    and "serve env r route st = (reply, st')"
  shows "privileged (as_db st') = privileged (as_db st) \<and> owner_rows (as_db st') = owner_rows (as_db st)"
  using serve_contained [OF assms(1), of env r route] assms(2,3) by (simp add: same_privileged_def)

lemma handleLogin_200:
  assumes "handleLogin env r body st = (reply, st')" and "ar_code reply = 200"
  obtains n p v h raw where "body = Some (n, p)" and "GetUserForLogin n (as_db st) = Inr (v, h)" and "le_bcrypt_ok env h p"
    and "CreateSession env (User_ID v) defaultTenantID (User_Role v) (le_ttl env) (as_db st) = Inr (raw, as_db st')"
    and "ar_cookie reply = Some (raw, ttl_seconds (le_ttl env))"
  using assms by (auto simp: handleLogin_def writeError_def badJSON_def Let_def split: prod.splits option.splits sum.splits if_splits)

lemma find_fresh: "\<forall>x \<in> set xs. \<not> P x \<Longrightarrow> find P (xs @ [y]) = (if P y then Some y else None)"
  by (induction xs) auto

lemma revoked_Authorize:
  assumes "credentialFromRequest r = Some raw" and "\<forall>s \<in> set (tb_sessions db). se_TokenHash s \<noteq> le_sha env raw"
  shows "Authorize env r db = Inl (StoreErr AuthNotFound)"
proof -
  have "find (\<lambda>s. se_TokenHash s = le_sha env raw) (tb_sessions db) = None"
    using assms(2) by (simp add: find_None_iff)
  then show ?thesis using assms(1) by (simp add: Authorize_def GetSession_def)
qed

lemma revoking_sessions:
  assumes "SetPasswordHash i h db = Inr db' \<or> SetRole i h db = Inr db' \<or> DeleteUser i db = Inr db'"
  shows "tb_sessions db' = filter (\<lambda>s. se_UserID s \<noteq> i) (tb_sessions db)"
  using assms by (auto simp: SetPasswordHash_def SetRole_def DeleteUser_def drop_sessions_def Let_def split: if_splits)


section \<open>Interleavings\<close>

text \<open>The handlers are not transactions: the checks of \<open>handleDeleteUser\<close> and the password check of
  \<open>handleLogin\<close> read the tables in statements of their own. \<open>delete_checks\<close> is what
  \<open>handleDeleteUser\<close> does before \<open>DeleteUser\<close>.\<close>

definition delete_checks :: "string \<Rightarrow> identity option \<Rightarrow> auth_db \<Rightarrow> auth_reply option" where
  "delete_checks i ctx db =
    (if map_option id_UserID ctx = Some i then Some (writeError 409 ''cannot delete the account you are signed in as'')
     else (case GetUserByID i db of
       Inl e \<Rightarrow> Some (auth_writeStoreErr e ''deleting user'')
     | Inr target \<Rightarrow>
       if admin_blocked ctx (User_Role target) then Some (writeError 403 ''admin can only delete viewer or editor accounts'')
       else if User_Role target = RoleOwner \<and> wouldRemoveLastOwner db then Some (writeError 409 ''cannot delete the last owner'')
       else None))"

lemma handleDeleteUser_split:
  "handleDeleteUser i ctx db = (case delete_checks i ctx db of
     Some reply \<Rightarrow> (reply, db)
   | None \<Rightarrow> (case DeleteUser i db of Inl e \<Rightarrow> (auth_writeStoreErr e ''deleting user'', db) | Inr db' \<Rightarrow> (noContent, db')))"
  by (cases "GetUserByID i db") (auto simp: handleDeleteUser_def delete_checks_def)

definition member_of :: "string \<Rightarrow> role \<Rightarrow> membership_row" where
  "member_of i q = \<lparr>m_TenantID = defaultTenantID, m_UserID = i, m_Role = q\<rparr>"

definition account :: "string \<Rightarrow> user_row" where
  "account i = \<lparr>u_ID = i, u_Username = Some i, u_PasswordHash = Some (''h'' @ i), u_DisplayTimezone = ''UTC'', u_CreatedAt = 0\<rparr>"

definition signed_in :: "string \<Rightarrow> role \<Rightarrow> identity" where
  "signed_in i q = \<lparr>id_TenantID = defaultTenantID, id_UserID = i, id_Role = q\<rparr>"

definition two_owners :: auth_db where
  "two_owners = \<lparr>tb_users = [account ''ann'', account ''bob''],
     tb_members = [member_of ''ann'' RoleOwner, member_of ''bob'' RoleOwner],
     tb_sessions = [\<lparr>se_UserID = ''ann'', se_TenantID = defaultTenantID, se_Role = RoleOwner, se_TokenHash = ''#ta'', se_ExpiresAt = 100\<rparr>]\<rparr>"

definition demo_env :: auth_env where
  "demo_env = \<lparr>le_now = 5, le_uuid = ''u9'', le_random = Some ''tok'', le_sha = (\<lambda>s. CHR 0x23 # s), le_bcrypt = (\<lambda>p. Some (CHR ''h'' # p)),
     le_bcrypt_ok = (\<lambda>h p. h = CHR ''h'' # p), le_zone = (\<lambda>_. True), le_collation = (\<lambda>_. 0), le_ttl = 50\<rparr>"

definition demo_state :: auth_state where
  "demo_state = \<lparr>as_db = two_owners, as_limits = newLoginLimiter loginRateLimitMax loginRateLimitWindow\<rparr>"

lemma two_owners_inv: "auth_inv two_owners" "has_owner two_owners"
  by (auto simp: auth_inv_def two_owners_def account_def member_of_def member_key_def session_ok_def holds_role_def
      has_owner_def local_user_def human_def defaultTenantID_def)

text \<open>The owner guarantee depends on requests being served one at a time: when two owners delete each
  other's account and both requests run their checks before either deletes, both succeed and no
  owner is left.\<close>

theorem concurrent_deletes_lose_owner:
  "delete_checks ''bob'' (Some (signed_in ''ann'' RoleOwner)) two_owners = None
   \<and> delete_checks ''ann'' (Some (signed_in ''bob'' RoleOwner)) two_owners = None
   \<and> (case DeleteUser ''bob'' two_owners of Inl _ \<Rightarrow> False
      | Inr db1 \<Rightarrow> (case DeleteUser ''ann'' db1 of Inl _ \<Rightarrow> False
          | Inr db2 \<Rightarrow> CountUsersWithRole RoleOwner db2 = 0))"
  by code_simp

text \<open>The same holds for the freshness of roles: when an owner is demoted between the password check
  of a login and the insert of its session, the demotion revokes nothing of that login and the new
  session authorizes as owner although the account is a viewer.\<close>

theorem login_race_keeps_old_role:
  "case GetUserForLogin ''bob'' two_owners of Inl _ \<Rightarrow> False
   | Inr (v, h) \<Rightarrow> le_bcrypt_ok demo_env h ''bob''
      \<and> (case SetRole ''bob'' RoleViewer two_owners of Inl _ \<Rightarrow> False
         | Inr db1 \<Rightarrow> (case CreateSession demo_env (User_ID v) defaultTenantID (User_Role v) 50 db1 of Inl _ \<Rightarrow> False
             | Inr (raw, db2) \<Rightarrow>
                 Authorize demo_env (blank_request\<lparr>rq_Session := Some raw\<rparr>) db2 = Inr (signed_in ''bob'' RoleOwner)
                 \<and> map_sum id User_Role (GetUserByID ''bob'' db2) = Inr RoleViewer))"
  by code_simp

section \<open>Witnesses\<close>

theorem last_owner_survives_witness:
  "has_owner (as_db (serve_all [(demo_env, blank_request\<lparr>rq_Authorization := ''Bearer ta''\<rparr>, RDeleteUser ''bob''),
     (demo_env, blank_request\<lparr>rq_Authorization := ''Bearer ta''\<rparr>, RSetRole ''ann'' (Some RoleViewer))]
     (demo_state\<lparr>as_db := snd (runSeedAdmin demo_env two_owners)\<rparr>)))"
proof -
  have code: "fst (runSeedAdmin demo_env two_owners) = 0" and new: "\<not> UsernameExists seedAdminUsername two_owners"
    by code_simp+
  show ?thesis
    using last_owner_survives [OF two_owners_inv(1), of "demo_state\<lparr>as_db := snd (runSeedAdmin demo_env two_owners)\<rparr>" demo_env]
      code new by (simp del: serve_all.simps)
qed


theorem privilege_containment_witness:
  "privileged (as_db (snd (serve demo_env blank_request (RDeleteUser ''bob'') demo_state))) = privileged (as_db demo_state)"
proof -
  have inv: "auth_inv (as_db demo_state)" using two_owners_inv by (simp add: demo_state_def)
  have "Authorize demo_env blank_request (as_db demo_state) = Inl ErrNoCredential" by code_simp
  then have no: "\<forall>i. Authorize demo_env blank_request (as_db demo_state) = Inr i \<longrightarrow> id_Role i \<noteq> RoleOwner" by simp
  show ?thesis
    using privilege_containment [OF inv no, of "RDeleteUser ''bob''"
        "fst (serve demo_env blank_request (RDeleteUser ''bob'') demo_state)"
        "snd (serve demo_env blank_request (RDeleteUser ''bob'') demo_state)"] by simp
qed


end
