(* ===== verification/Session_Check.thy ===== *)
theory Session_Check
  imports Auth_Invariants
begin

text \<open>
  The alerting service's own session check (\<open>alerting/internal/sessioncheck\<close>), a second
  implementation of the authorization of local login on the same \<open>local_sessions\<close> table, and its
  agreement with the first.
\<close>

section \<open>Checker\<close>

definition sc_roleRank :: "string \<Rightarrow> nat" where
  "sc_roleRank r = (if r = ''viewer'' then 1 else if r = ''editor'' then 2
     else if r = ''admin'' then 3 else if r = ''owner'' then 4 else 0)"

definition roleSatisfies :: "string \<Rightarrow> string \<Rightarrow> bool" where
  "roleSatisfies role minRole = (sc_roleRank role \<ge> sc_roleRank minRole)"

definition Validate :: "auth_env \<Rightarrow> string \<Rightarrow> auth_db \<Rightarrow> string option" where
  "Validate env raw db = (case find (\<lambda>s. se_TokenHash s = le_sha env raw) (tb_sessions db) of
     None \<Rightarrow> None
   | Some s \<Rightarrow> if se_ExpiresAt s < le_now env then None else Some (se_Role s))"

section \<open>Middleware\<close>

definition mutatingRoleFloor :: string where "mutatingRoleFloor = ''editor''"

definition isReadOnly :: "string \<Rightarrow> bool" where
  "isReadOnly meth = (meth = ''GET'' \<or> meth = ''HEAD'')"

definition sc_credentialFromRequest :: "http_request \<Rightarrow> string" where
  "sc_credentialFromRequest r =
    (if length (rq_Authorization r) > length ''Bearer '' \<and> take (length ''Bearer '') (rq_Authorization r) = ''Bearer ''
     then drop (length ''Bearer '') (rq_Authorization r)
     else (case rq_Session r of None \<Rightarrow> [] | Some v \<Rightarrow> v))"

text \<open>The wrapped handler works on a state of its own; the sessions are only read.\<close>

definition RequireSession :: "auth_env \<Rightarrow> auth_db \<Rightarrow> ('s \<Rightarrow> 'r \<times> 's) \<Rightarrow> http_request \<Rightarrow> 's \<Rightarrow> 'r guarded \<times> 's" where
  "RequireSession env db next r s =
    (if rq_Path r = ''/healthz'' then map_prod Served id (next s)
     else let raw = sc_credentialFromRequest r in
       if raw = [] then (Unauthorized, s)
       else (case Validate env raw db of
         None \<Rightarrow> (Unauthorized, s)
       | Some role \<Rightarrow>
         if \<not> isReadOnly (rq_Method r) \<and> \<not> roleSatisfies role mutatingRoleFloor then (Forbidden, s)
         else map_prod Served id (next s)))"

section \<open>Agreement\<close>

lemma sc_roleRank_eq: "sc_roleRank r = roleRank r"
  by (simp add: sc_roleRank_def roleRank_def role_defs)

lemma credential_agree:
  "credentialFromRequest r = (if sc_credentialFromRequest r = [] then None else Some (sc_credentialFromRequest r))"
proof (cases "length (rq_Authorization r) > length bearer_prefix \<and> take (length bearer_prefix) (rq_Authorization r) = bearer_prefix")
  case True
  then have "drop (length bearer_prefix) (rq_Authorization r) \<noteq> []" by simp
  then show ?thesis using True by (simp add: credentialFromRequest_def sc_credentialFromRequest_def bearer_prefix_def)
next
  case False
  then show ?thesis by (auto simp: credentialFromRequest_def sc_credentialFromRequest_def bearer_prefix_def split: option.split)
qed

lemma Validate_agree:
  assumes "credentialFromRequest r = Some raw"
  shows "Validate env raw db = (case Authorize env r db of Inl _ \<Rightarrow> None | Inr i \<Rightarrow> Some (id_Role i))"
  using assms by (simp add: Authorize_def GetSession_def Validate_def split: option.split)

lemma session_role_human:
  assumes "auth_inv db" and "Authorize env r db = Inr i"
  shows "human (id_Role i)"
  using Authorize_Inr [OF assms] assms(1) by (auto simp: holds_role_def auth_inv_def)

lemma RequireSession_eq:
  assumes "auth_inv db" and "rq_Path r \<noteq> ''/healthz''"
  shows "RequireSession env db next r s =
    RequireRole (Some (\<lambda>r s. Authorize env r db)) (if isReadOnly (rq_Method r) then RoleViewer else RoleEditor)
      (\<lambda>ctx s. next s) r s"
proof (cases "Authorize env r db")
  case (Inl e)
  show ?thesis
  proof (cases "credentialFromRequest r")
    case None
    then have "sc_credentialFromRequest r = []" using credential_agree [of r] by (auto split: if_splits)
    then show ?thesis using assms(2) Inl by (simp add: RequireSession_def RequireRole_def)
  next
    case (Some raw)
    then have "sc_credentialFromRequest r = raw" "raw \<noteq> []" using credential_agree [of r] by (auto split: if_splits)
    then show ?thesis using assms(2) Inl Validate_agree [OF Some, of env db]
      by (simp add: RequireSession_def RequireRole_def)
  qed
next
  case (Inr i)
  then obtain raw where raw: "credentialFromRequest r = Some raw" by (auto simp: Authorize_def split: option.splits)
  then have sc: "sc_credentialFromRequest r = raw" "raw \<noteq> []" using credential_agree [of r] by (auto split: if_splits)
  have h: "human (id_Role i)" by (rule session_role_human [OF assms(1) Inr])
  have floor: "Satisfies (id_Role i) RoleViewer" "Satisfies (id_Role i) RoleEditor = roleSatisfies (id_Role i) mutatingRoleFloor"
    using h Satisfies_human [of RoleViewer "id_Role i"] Satisfies_human [of RoleEditor "id_Role i"]
    by (auto simp: human_def roleSatisfies_def sc_roleRank_eq mutatingRoleFloor_def roleRank_def role_defs)
  show ?thesis
    using assms(2) Inr sc floor Validate_agree [OF raw, of env db]
    by (simp add: RequireSession_def RequireRole_def)
qed

text \<open>C31: The two services agree on who may do what: on tables that satisfy the invariant, for every
  path but \<open>/healthz\<close>, the alerting service's \<open>RequireSession\<close> serves, refuses with 401 and refuses
  with 403 exactly as the api service's \<open>RequireRole\<close> does on the same request and the same
  session table, with the viewer floor for GET and HEAD and the editor floor for every other
  method.\<close>

theorem session_check_agrees:
  assumes "auth_inv db" and "rq_Path r \<noteq> ''/healthz''"
  shows "RequireSession env db next r s =
    RequireRole (Some (\<lambda>r s. Authorize env r db)) (if isReadOnly (rq_Method r) then RoleViewer else RoleEditor)
      (\<lambda>ctx s. next s) r s"
  by (rule RequireSession_eq [OF assms])

theorem session_check_agrees_witness:
  "RequireSession demo_env two_owners (\<lambda>s :: nat. ((), s + 1)) (blank_request\<lparr>rq_Method := ''POST'', rq_Authorization := ''Bearer ta''\<rparr>) 0
    = (Served (), 1)"
proof -
  have "RequireRole (Some (\<lambda>r s. Authorize demo_env r two_owners)) RoleEditor (\<lambda>ctx s :: nat. ((), s + 1))
      (blank_request\<lparr>rq_Method := ''POST'', rq_Authorization := ''Bearer ta''\<rparr>) 0 = (Served (), 1)"
    by code_simp
  then show ?thesis
    using session_check_agrees [OF two_owners_inv(1), of "blank_request\<lparr>rq_Method := ''POST'', rq_Authorization := ''Bearer ta''\<rparr>"
        demo_env "\<lambda>s :: nat. ((), s + 1)" 0]
    by (simp add: blank_request_def isReadOnly_def)
qed

end
