(* ===== verification/Audit_Log.thy ===== *)
theory Audit_Log
  imports Authz Query_Api
begin

text \<open>
  The hash-chained audit log (\<open>enterprise/internal/audit\<close>): \<open>Append\<close>, \<open>VerifyChain\<close>,
  the checkpointer with its file sink, and the adapters that turn query, AI and agent events into
  entries. SHA-256 with hex encoding is the argument \<open>sha\<close>; what Postgres gives back for a
  \<open>JSONB\<close> and a \<open>UUID\<close> value are the arguments \<open>pg_jsonb\<close> and \<open>pg_uuid\<close>, \<open>None\<close> when the
  value is refused. The table is the list of its rows in the order of insertion, with the
  sequence of its \<open>BIGSERIAL\<close> key; \<open>Append\<close> holds an advisory lock for its whole
  transaction, so it is one step.
\<close>

section \<open>Entries\<close>

definition SourceAPI :: string where "SourceAPI = ''api''"
definition SourceWeb :: string where "SourceWeb = ''web''"
definition SourceCLI :: string where "SourceCLI = ''cli''"
definition SourceAlerting :: string where "SourceAlerting = ''alerting''"

definition EventQuery :: string where "EventQuery = ''query''"
definition EventAIInteraction :: string where "EventAIInteraction = ''ai_interaction''"
definition EventAgentCommand :: string where "EventAgentCommand = ''agent_command''"

definition StatusSuccess :: string where "StatusSuccess = ''success''"
definition StatusError :: string where "StatusError = ''error''"

record audit_entry =
  en_TenantID :: string
  en_UserID :: "string option"
  en_Source :: string
  en_EventType :: string
  en_QueryText :: "string option"
  en_RowCount :: "int option"
  en_DurationMS :: "int option"
  en_Status :: string
  en_ErrorMessage :: "string option"
  en_Detail :: string

text \<open>\<open>Record\<close> embeds \<open>Entry\<close>.\<close>

record audit_record = audit_entry +
  rec_ID :: nat
  rec_PrevHash :: "string option"
  rec_RowHash :: string

record audit_db =
  al_rows :: "audit_record list"
  al_next :: nat

record audit_env =
  sha :: "string \<Rightarrow> string"
  pg_jsonb :: "string \<Rightarrow> string option"
  pg_uuid :: "string \<Rightarrow> string option"

definition deref :: "string option \<Rightarrow> string" where
  "deref s = (case s of None \<Rightarrow> [] | Some s \<Rightarrow> s)"

definition intToStr :: "int option \<Rightarrow> string" where
  "intToStr n = (case n of None \<Rightarrow> [] | Some n \<Rightarrow> itoa_int n)"

definition nul :: char where "nul = CHR 0x00"

definition entry_fields :: "'a audit_entry_scheme \<Rightarrow> string list" where
  "entry_fields e = [en_TenantID e, deref (en_UserID e), en_Source e, en_EventType e, deref (en_QueryText e),
     intToStr (en_RowCount e), intToStr (en_DurationMS e), en_Status e, deref (en_ErrorMessage e), en_Detail e]"

definition hash_input :: "string list \<Rightarrow> string" where
  "hash_input fs = concat (map (\<lambda>s. s @ [nul]) fs)"

definition computeHash :: "(string \<Rightarrow> string) \<Rightarrow> string option \<Rightarrow> 'a audit_entry_scheme \<Rightarrow> string" where
  "computeHash h prevHash e = h (hash_input (deref prevHash # entry_fields e))"

section \<open>Append\<close>

text \<open>The constraints of table \<open>audit_log\<close> after migrations 0036 and 0039; a \<open>TEXT\<close> value has no
  NUL byte.\<close>

definition pg_text :: "string \<Rightarrow> bool" where "pg_text s = (nul \<notin> set s)"

definition pg_int4 :: "int option \<Rightarrow> bool" where
  "pg_int4 n = (case n of None \<Rightarrow> True | Some n \<Rightarrow> int4 n)"

definition audit_constraints :: "audit_env \<Rightarrow> audit_entry \<Rightarrow> bool" where
  "audit_constraints env e = (pg_text (en_TenantID e)
     \<and> (case en_UserID e of None \<Rightarrow> True | Some u \<Rightarrow> pg_uuid env u \<noteq> None)
     \<and> en_Source e \<in> {SourceAPI, SourceWeb, SourceCLI, SourceAlerting}
     \<and> en_EventType e \<in> {EventQuery, ''role_change'', ''grant_change'', ''sso_config_change'', ''secret_reveal'',
         EventAIInteraction, EventAgentCommand}
     \<and> pg_text (deref (en_QueryText e)) \<and> pg_int4 (en_RowCount e) \<and> pg_int4 (en_DurationMS e)
     \<and> en_Status e \<in> {StatusSuccess, StatusError}
     \<and> pg_text (deref (en_ErrorMessage e)) \<and> pg_jsonb env (en_Detail e) \<noteq> None)"

text \<open>What a row reads back as.\<close>

definition stored :: "audit_env \<Rightarrow> audit_entry \<Rightarrow> audit_entry" where
  "stored env e = e\<lparr>en_UserID := Option.bind (en_UserID e) (pg_uuid env),
     en_Detail := (case pg_jsonb env (en_Detail e) of None \<Rightarrow> [] | Some d \<Rightarrow> d)\<rparr>"

definition record_of :: "audit_entry \<Rightarrow> nat \<Rightarrow> string option \<Rightarrow> string \<Rightarrow> audit_record" where
  "record_of e i p h = audit_entry.extend e \<lparr>rec_ID = i, rec_PrevHash = p, rec_RowHash = h\<rparr>"

definition last_hash :: "audit_db \<Rightarrow> string option" where
  "last_hash db = (case rev (sort_key rec_ID (al_rows db)) of [] \<Rightarrow> None | r # _ \<Rightarrow> Some (rec_RowHash r))"

definition Append :: "audit_env \<Rightarrow> audit_entry \<Rightarrow> audit_db \<Rightarrow> audit_record option \<times> audit_db" where
  "Append env e db =
    (let prevHash = last_hash db;
       e = (if length (en_Detail e) = 0 then e\<lparr>en_Detail := ''{}''\<rparr> else e);
       h = computeHash (sha env) prevHash e;
       i = al_next db
     in if audit_constraints env e
        then (Some (record_of e i prevHash h),
              \<lparr>al_rows = al_rows db @ [record_of (stored env e) i prevHash h], al_next = i + 1\<rparr>)
        else (None, db\<lparr>al_next := i + 1\<rparr>))"

section \<open>Verification\<close>

record verify_result =
  vr_OK :: bool
  vr_FirstBadID :: nat
  vr_RowsChecked :: nat

definition hashPtrEqual :: "string option \<Rightarrow> string option \<Rightarrow> bool" where
  "hashPtrEqual a b = (if a = None \<or> b = None then a = b else the a = the b)"

fun verify_loop :: "(string \<Rightarrow> string) \<Rightarrow> string option \<Rightarrow> nat \<Rightarrow> audit_record list \<Rightarrow> verify_result" where
  "verify_loop h expectedPrevHash checked [] = \<lparr>vr_OK = True, vr_FirstBadID = 0, vr_RowsChecked = checked\<rparr>"
| "verify_loop h expectedPrevHash checked (r # rs) =
    (if \<not> hashPtrEqual (rec_PrevHash r) expectedPrevHash
     then \<lparr>vr_OK = False, vr_FirstBadID = rec_ID r, vr_RowsChecked = checked + 1\<rparr>
     else if computeHash h (rec_PrevHash r) r \<noteq> rec_RowHash r
     then \<lparr>vr_OK = False, vr_FirstBadID = rec_ID r, vr_RowsChecked = checked + 1\<rparr>
     else verify_loop h (Some (rec_RowHash r)) (checked + 1) rs)"

definition VerifyChain :: "audit_env \<Rightarrow> audit_db \<Rightarrow> verify_result" where
  "VerifyChain env db = verify_loop (sha env) None 0 (sort_key rec_ID (al_rows db))"

definition ListForTenant :: "string \<Rightarrow> nat \<Rightarrow> audit_db \<Rightarrow> audit_record list" where
  "ListForTenant tenantID limit db =
     take limit (rev (sort_key rec_ID (filter (\<lambda>r. en_TenantID r = tenantID) (al_rows db))))"

section \<open>Checkpoints\<close>

record checkpoint =
  cp_FromID :: nat
  cp_ToID :: nat
  cp_PrevCheckpointHash :: string
  cp_Hash :: string
  cp_CreatedAt :: gotime

definition rowHashesFrom :: "nat \<Rightarrow> audit_db \<Rightarrow> string list \<times> nat" where
  "rowHashesFrom fromID db =
    (let rs = filter (\<lambda>r. rec_ID r \<ge> fromID) (sort_key rec_ID (al_rows db))
     in (map rec_RowHash rs, if rs = [] then 0 else rec_ID (last rs)))"

definition checkpoint_input :: "string \<Rightarrow> string list \<Rightarrow> string" where
  "checkpoint_input prevHash rowHashes = prevHash @ concat (map (\<lambda>rh. nul # rh) rowHashes)"

text \<open>\<open>LastCheckpoint\<close> and \<open>Write\<close> of the sink are arguments, as in the source; \<open>None\<close> of the
  outer option is an error.\<close>

definition Checkpointer_Run :: "('k \<Rightarrow> checkpoint option option) \<Rightarrow> (checkpoint \<Rightarrow> 'k \<Rightarrow> 'k option) \<Rightarrow> (string \<Rightarrow> string)
    \<Rightarrow> gotime \<Rightarrow> audit_db \<Rightarrow> 'k \<Rightarrow> checkpoint option option \<times> 'k" where
  "Checkpointer_Run LastCheckpoint Write h now db k = (case LastCheckpoint k of
     None \<Rightarrow> (None, k)
   | Some lst \<Rightarrow>
     (let fromID = (case lst of None \<Rightarrow> 1 | Some c \<Rightarrow> cp_ToID c + 1);
        prevHash = (case lst of None \<Rightarrow> [] | Some c \<Rightarrow> cp_Hash c);
        (rowHashes, maxID) = rowHashesFrom fromID db
      in if rowHashes = [] then (Some None, k)
         else let cp = \<lparr>cp_FromID = fromID, cp_ToID = maxID, cp_PrevCheckpointHash = prevHash,
                  cp_Hash = h (checkpoint_input prevHash rowHashes), cp_CreatedAt = now\<rparr>
              in (case Write cp k of None \<Rightarrow> (None, k) | Some k' \<Rightarrow> (Some (Some cp), k'))))"

text \<open>The file sink: the lines of the file, if it exists. A line decodes to a checkpoint, is blank, or
  is neither. \<open>can\<close> says whether the file can be opened and written.\<close>

datatype sink_line = CpLine checkpoint | BlankLine | BadLine

definition FileSink_Write :: "bool \<Rightarrow> checkpoint \<Rightarrow> sink_line list option \<Rightarrow> sink_line list option option" where
  "FileSink_Write can cp f = (if \<not> can then None
     else Some (Some ((case f of None \<Rightarrow> [] | Some ls \<Rightarrow> ls) @ [CpLine cp])))"

definition FileSink_LastCheckpoint :: "bool \<Rightarrow> sink_line list option \<Rightarrow> checkpoint option option" where
  "FileSink_LastCheckpoint can f = (case f of
     None \<Rightarrow> Some None
   | Some ls \<Rightarrow> if \<not> can then None
     else (case rev (filter (\<lambda>l. l \<noteq> BlankLine) ls) of
       [] \<Rightarrow> Some None
     | CpLine c # _ \<Rightarrow> Some (Some c)
     | _ \<Rightarrow> None))"

section \<open>Adapters\<close>

text \<open>The loggers refuse an entry without a tenant; the result says whether the entry was written.\<close>

definition audit_user :: "identity \<Rightarrow> string option" where
  "audit_user i = (if id_UserID i \<noteq> [] then Some (id_UserID i) else None)"

definition Milliseconds :: "int \<Rightarrow> int" where
  "Milliseconds d = (if d \<ge> 0 then d div 1000000 else - (- d div 1000000))"

definition LogQuery :: "audit_env \<Rightarrow> string \<Rightarrow> ('e exec_error option \<Rightarrow> string) \<Rightarrow> identity option \<Rightarrow> 'e query_audit_entry
    \<Rightarrow> audit_db \<Rightarrow> bool \<times> audit_db" where
  "LogQuery env source errText ctx entry db = (case ctx of
     None \<Rightarrow> (False, db)
   | Some identity \<Rightarrow>
     if id_TenantID identity = [] then (False, db)
     else map_prod (\<lambda>r. r \<noteq> None) id (Append env
       \<lparr>en_TenantID = id_TenantID identity, en_UserID = audit_user identity, en_Source = source, en_EventType = EventQuery,
        en_QueryText = Some (ae_Query entry), en_RowCount = Some (int (ae_RowCount entry)),
        en_DurationMS = Some (Milliseconds (ae_Duration entry)),
        en_Status = (if ae_Success entry then StatusSuccess else StatusError),
        en_ErrorMessage = (if ae_Success entry then None else Some (errText (ae_Error entry))), en_Detail = []\<rparr> db))"

record interaction_entry =
  ie_Operation :: string
  ie_Input :: string
  ie_Output :: string
  ie_Confidence :: string
  ie_Accepted :: bool
  ie_Edited :: bool
  ie_FinalQuery :: string

definition LogInteraction :: "audit_env \<Rightarrow> string \<Rightarrow> (interaction_entry \<Rightarrow> string) \<Rightarrow> identity option \<Rightarrow> interaction_entry
    \<Rightarrow> audit_db \<Rightarrow> bool \<times> audit_db" where
  "LogInteraction env source marshal ctx entry db = (case ctx of
     None \<Rightarrow> (False, db)
   | Some identity \<Rightarrow>
     if id_TenantID identity = [] then (False, db)
     else map_prod (\<lambda>r. r \<noteq> None) id (Append env
       \<lparr>en_TenantID = id_TenantID identity, en_UserID = audit_user identity, en_Source = source,
        en_EventType = EventAIInteraction,
        en_QueryText = (if ie_FinalQuery entry \<noteq> [] then Some (ie_FinalQuery entry) else None),
        en_RowCount = None, en_DurationMS = None, en_Status = StatusSuccess, en_ErrorMessage = None,
        en_Detail = marshal entry\<rparr> db))"

definition LogCommand :: "audit_env \<Rightarrow> string \<Rightarrow> (string \<times> string \<Rightarrow> string) \<Rightarrow> identity option \<Rightarrow> string \<times> string
    \<Rightarrow> audit_db \<Rightarrow> bool \<times> audit_db" where
  "LogCommand env source marshal ctx entry db = (case ctx of
     None \<Rightarrow> (False, db)
   | Some identity \<Rightarrow>
     if id_TenantID identity = [] then (False, db)
     else map_prod (\<lambda>r. r \<noteq> None) id (Append env
       \<lparr>en_TenantID = id_TenantID identity, en_UserID = audit_user identity, en_Source = source,
        en_EventType = EventAgentCommand, en_QueryText = None,
        en_RowCount = None, en_DurationMS = None, en_Status = StatusSuccess, en_ErrorMessage = None,
        en_Detail = marshal entry\<rparr> db))"

section \<open>The chain\<close>

fun chain :: "(string \<Rightarrow> string) \<Rightarrow> string option \<Rightarrow> audit_record list \<Rightarrow> bool" where
  "chain h p [] = True"
| "chain h p (r # rs) = (rec_PrevHash r = p \<and> rec_RowHash r = computeHash h p r \<and> chain h (Some (rec_RowHash r)) rs)"

definition head_hash :: "string option \<Rightarrow> audit_record list \<Rightarrow> string option" where
  "head_hash p rs = (if rs = [] then p else Some (rec_RowHash (last rs)))"

lemma hashPtrEqual_iff [simp]: "hashPtrEqual a b \<longleftrightarrow> a = b"
  by (cases a; cases b) (auto simp: hashPtrEqual_def)

lemma verify_loop_OK: "vr_OK (verify_loop h p n rs) \<longleftrightarrow> chain h p rs"
  by (induction rs arbitrary: p n) auto

lemma verify_loop_checked: "chain h p rs \<Longrightarrow> vr_RowsChecked (verify_loop h p n rs) = n + length rs"
  by (induction rs arbitrary: p n) auto

lemma head_hash_simps [simp]: "head_hash p [] = p" "head_hash p (rs @ [r]) = Some (rec_RowHash r)"
  "head_hash p (r # rs) = head_hash (Some (rec_RowHash r)) rs"
  by (simp_all add: head_hash_def)

lemma chain_snoc: "chain h p (rs @ [r]) \<longleftrightarrow> chain h p rs \<and> rec_PrevHash r = head_hash p rs
    \<and> rec_RowHash r = computeHash h (head_hash p rs) r"
  by (induction rs arbitrary: p) auto

lemma verify_loop_snoc_bad:
  assumes "chain h p rs" and "\<not> chain h p (rs @ [r])"
  shows "vr_FirstBadID (verify_loop h p n (rs @ [r])) = rec_ID r"
  using assms by (induction rs arbitrary: p n) auto

text \<open>Insertion order is key order.\<close>

definition audit_inv :: "audit_db \<Rightarrow> bool" where
  "audit_inv db = (sorted_wrt (<) (map rec_ID (al_rows db)) \<and> list_all (\<lambda>r. 1 \<le> rec_ID r \<and> rec_ID r < al_next db) (al_rows db)
     \<and> 1 \<le> al_next db)"

definition empty_log :: audit_db where "empty_log = \<lparr>al_rows = [], al_next = 1\<rparr>"

lemma empty_log_inv: "audit_inv empty_log"
  by (simp add: audit_inv_def empty_log_def)

lemma rows_sorted: "audit_inv db \<Longrightarrow> sort_key rec_ID (al_rows db) = al_rows db"
  by (auto simp: audit_inv_def intro!: sort_key_id_if_sorted strict_sorted_imp_sorted)

lemma record_of_simps [simp]:
  "rec_ID (record_of e i p h) = i" "rec_PrevHash (record_of e i p h) = p" "rec_RowHash (record_of e i p h) = h"
  "entry_fields (record_of e i p h) = entry_fields e" "computeHash f q (record_of e i p h) = computeHash f q e"
  "en_TenantID (record_of e i p h) = en_TenantID e"
  by (simp_all add: record_of_def audit_entry.defs entry_fields_def computeHash_def)

definition with_detail :: "audit_entry \<Rightarrow> audit_entry" where
  "with_detail e = (if length (en_Detail e) = 0 then e\<lparr>en_Detail := ''{}''\<rparr> else e)"

lemma last_hash_head: "audit_inv db \<Longrightarrow> last_hash db = head_hash None (al_rows db)"
  unfolding last_hash_def by (subst rows_sorted) (cases "al_rows db" rule: rev_cases; simp)+

lemma Append_cases:
  assumes "audit_inv db"
  obtains (refused) "Append env e db = (None, db\<lparr>al_next := al_next db + 1\<rparr>)" "\<not> audit_constraints env (with_detail e)"
  | (written) h where "audit_constraints env (with_detail e)"
      "h = computeHash (sha env) (head_hash None (al_rows db)) (with_detail e)"
      "Append env e db = (Some (record_of (with_detail e) (al_next db) (head_hash None (al_rows db)) h),
         \<lparr>al_rows = al_rows db @ [record_of (stored env (with_detail e)) (al_next db) (head_hash None (al_rows db)) h],
          al_next = al_next db + 1\<rparr>)"
  using assms by (cases "audit_constraints env (with_detail e)")
    (simp_all add: Append_def Let_def with_detail_def last_hash_head)

lemma Append_inv:
  assumes "audit_inv db"
  shows "audit_inv (snd (Append env e db))"
  using assms
  by (cases rule: Append_cases [OF assms, of env e])
    (auto simp: audit_inv_def sorted_wrt_append list_all_iff less_Suc_eq)

lemma VerifyChain_OK: "audit_inv db \<Longrightarrow> vr_OK (VerifyChain env db) \<longleftrightarrow> chain (sha env) None (al_rows db)"
  by (simp add: VerifyChain_def rows_sorted verify_loop_OK)

lemma Append_Some:
  assumes "audit_inv db" and "Append env e db = (Some r, db')"
  shows "audit_constraints env (with_detail e) \<and> rec_ID r = al_next db
    \<and> al_rows db' = al_rows db @ [record_of (stored env (with_detail e)) (al_next db) (head_hash None (al_rows db))
        (computeHash (sha env) (head_hash None (al_rows db)) (with_detail e))]"
  using assms(2) by (auto simp: Append_def Let_def with_detail_def last_hash_head [OF assms(1)] split: if_splits)

lemma deref_simps [simp]: "deref None = []" "deref (Some s) = s"
  by (simp_all add: deref_def)

lemma pg_text_Nil [simp]: "pg_text []"
  by (simp add: pg_text_def)

section \<open>Injectivity of what is hashed\<close>

lemma nul_split:
  assumes "nul \<notin> set f" and "nul \<notin> set g" and "f @ nul # x = g @ nul # y"
  shows "f = g \<and> x = y"
  using assms
proof (induction f arbitrary: g)
  case Nil
  then show ?case by (cases g) auto
next
  case (Cons c f)
  then show ?case by (cases g) auto
qed

lemma hash_input_inj:
  assumes "list_all pg_text fs" and "list_all pg_text gs" and "hash_input fs = hash_input gs"
  shows "fs = gs"
  using assms
proof (induction fs arbitrary: gs)
  case Nil
  then show ?case by (cases gs) (auto simp: hash_input_def)
next
  case (Cons f fs)
  then obtain g gs' where gs: "gs = g # gs'" by (cases gs) (auto simp: hash_input_def)
  have "f @ nul # hash_input fs = g @ nul # hash_input gs'" using Cons.prems(3) by (simp add: gs hash_input_def)
  from nul_split [OF _ _ this] have "f = g" "hash_input fs = hash_input gs'"
    using Cons.prems(1,2) by (auto simp: gs pg_text_def)
  then show ?case using Cons.IH [of gs'] Cons.prems(1,2) by (simp add: gs)
qed

lemma checkpoint_input_inj:
  assumes "list_all pg_text (p # hs)" and "list_all pg_text (q # gs)" and "checkpoint_input p hs = checkpoint_input q gs"
  shows "p = q \<and> hs = gs"
proof -
  have shift: "checkpoint_input a bs @ [nul] = hash_input (a # bs)" for a bs
    by (induction bs arbitrary: a) (auto simp: checkpoint_input_def hash_input_def)
  have "hash_input (p # hs) = hash_input (q # gs)" using assms(3) by (simp flip: shift)
  from hash_input_inj [OF assms(1,2) this] show ?thesis by simp
qed

lemma isDigit_not_nul: "list_all isDigit s \<Longrightarrow> nul \<notin> set s"
  by (auto simp: list_all_iff isDigit_def nul_def less_eq_char_def)

lemma itoa_int_text [simp]: "pg_text (itoa_int n)"
  using isDigit_not_nul [OF itoa_digits, of "nat n"] isDigit_not_nul [OF itoa_digits, of "nat (- n)"]
  by (auto simp: itoa_int_def pg_text_def nul_def)

lemma intToStr_text [simp]: "pg_text (intToStr n)"
  by (simp add: intToStr_def pg_text_def split: option.split) (metis itoa_int_text pg_text_def)

text \<open>What the database and the hash function do with NUL: Postgres refuses it in \<open>TEXT\<close>, \<open>UUID\<close> and
  \<open>JSONB\<close> values, and a hex digest is a non-empty string without it.\<close>

definition text_env :: "audit_env \<Rightarrow> bool" where
  "text_env env = ((\<forall>x. pg_text (sha env x) \<and> sha env x \<noteq> [])
     \<and> (\<forall>s d. pg_jsonb env s = Some d \<longrightarrow> pg_text s \<and> pg_text d)
     \<and> (\<forall>s d. pg_uuid env s = Some d \<longrightarrow> pg_text s \<and> pg_text d))"

lemma const_text:
  "en_Source e \<in> {SourceAPI, SourceWeb, SourceCLI, SourceAlerting} \<Longrightarrow> pg_text (en_Source e)"
  "en_Status e \<in> {StatusSuccess, StatusError} \<Longrightarrow> pg_text (en_Status e)"
  "en_EventType e \<in> {EventQuery, ''role_change'', ''grant_change'', ''sso_config_change'', ''secret_reveal'',
     EventAIInteraction, EventAgentCommand} \<Longrightarrow> pg_text (en_EventType e)"
  by (auto simp: pg_text_def nul_def SourceAPI_def SourceWeb_def SourceCLI_def SourceAlerting_def StatusSuccess_def
      StatusError_def EventQuery_def EventAIInteraction_def EventAgentCommand_def)

lemma constraints_text:
  assumes "text_env env" and c: "audit_constraints env e"
  shows "list_all pg_text (entry_fields e)" and "list_all pg_text (entry_fields (stored env e))"
proof -
  obtain d where d: "pg_jsonb env (en_Detail e) = Some d" using c by (auto simp: audit_constraints_def)
  have user: "pg_text (deref (en_UserID e)) \<and> pg_text (deref (Option.bind (en_UserID e) (pg_uuid env)))"
  proof (cases "en_UserID e")
    case (Some u)
    then obtain u' where "pg_uuid env u = Some u'" using c by (auto simp: audit_constraints_def)
    then show ?thesis using Some assms(1) by (auto simp: text_env_def deref_def)
  qed (simp add: deref_def pg_text_def)
  have "pg_text (en_Detail e) \<and> pg_text d" using assms(1) d by (auto simp: text_env_def)
  then show "list_all pg_text (entry_fields e)" "list_all pg_text (entry_fields (stored env e))"
    using c d user const_text [of e] by (simp_all add: audit_constraints_def entry_fields_def stored_def)
qed

text \<open>An entry is stable when the row reads back as what was hashed.\<close>

definition stable :: "audit_env \<Rightarrow> audit_entry \<Rightarrow> bool" where
  "stable env e = (stored env (with_detail e) = with_detail e)"

lemma stored_fields:
  assumes "audit_constraints env e"
  shows "entry_fields (stored env e) = entry_fields e \<longleftrightarrow> stored env e = e"
proof
  assume eq: "entry_fields (stored env e) = entry_fields e"
  have "Option.bind (en_UserID e) (pg_uuid env) = en_UserID e"
    using eq assms by (cases "en_UserID e") (auto simp: entry_fields_def stored_def audit_constraints_def deref_def)
  moreover have "(case pg_jsonb env (en_Detail e) of None \<Rightarrow> [] | Some d \<Rightarrow> d) = en_Detail e"
    using eq by (simp add: entry_fields_def stored_def)
  ultimately show "stored env e = e" by (simp add: stored_def)
qed simp

section \<open>Properties of the chain\<close>

fun appends :: "audit_env \<Rightarrow> audit_entry list \<Rightarrow> audit_db \<Rightarrow> audit_db" where
  "appends env [] db = db"
| "appends env (e # es) db = appends env es (snd (Append env e db))"

lemma Append_chain:
  assumes "audit_inv db" and "chain (sha env) None (al_rows db)" and "stable env e"
  shows "chain (sha env) None (al_rows (snd (Append env e db)))"
  using assms(2,3) by (cases rule: Append_cases [OF assms(1), of env e]) (simp_all add: chain_snoc stable_def)

lemma Append_length:
  assumes "audit_inv db"
  shows "length (al_rows (snd (Append env e db))) = length (al_rows db) + (if audit_constraints env (with_detail e) then 1 else 0)"
  by (cases rule: Append_cases [OF assms, of env e]) simp_all

lemma appends_chain:
  assumes "audit_inv db" and "chain (sha env) None (al_rows db)" and "\<forall>e \<in> set es. stable env e"
  shows "audit_inv (appends env es db) \<and> chain (sha env) None (al_rows (appends env es db))
    \<and> length (al_rows (appends env es db)) = length (al_rows db) + length (filter (\<lambda>e. audit_constraints env (with_detail e)) es)"
  using assms
proof (induction es arbitrary: db)
  case (Cons e es)
  then show ?case
    using Cons.IH [of "snd (Append env e db)"] Append_inv [OF Cons.prems(1), of env e]
      Append_chain [OF Cons.prems(1,2), of e] Append_length [OF Cons.prems(1), of env e] by simp
qed simp

text \<open>C4: The log verifies: whatever entries are appended to an empty log, as long as Postgres
  returns the user id and the detail of each as they were given, \<open>VerifyChain\<close> reports an intact
  chain and has checked exactly one row for each entry that the table's constraints accept.\<close>

theorem audit_log_verifies:
  assumes "\<forall>e \<in> set es. stable env e"
  shows "vr_OK (VerifyChain env (appends env es empty_log))
    \<and> vr_RowsChecked (VerifyChain env (appends env es empty_log)) = length (filter (\<lambda>e. audit_constraints env (with_detail e)) es)"
proof -
  have "audit_inv (appends env es empty_log) \<and> chain (sha env) None (al_rows (appends env es empty_log))
      \<and> length (al_rows (appends env es empty_log)) = length (filter (\<lambda>e. audit_constraints env (with_detail e)) es)"
    using appends_chain [OF empty_log_inv _ assms] by (simp add: empty_log_def)
  then show ?thesis
    by (simp add: VerifyChain_def rows_sorted verify_loop_OK verify_loop_checked)
qed

lemma chain_text:
  assumes "text_env env" and "chain (sha env) p rs" and "pg_text (deref p)"
  shows "pg_text (deref (head_hash p rs))"
  using assms(2,3)
proof (induction rs arbitrary: p)
  case (Cons r rs)
  have "pg_text (rec_RowHash r)" using Cons.prems assms(1) by (simp add: computeHash_def text_env_def)
  moreover have "chain (sha env) (Some (rec_RowHash r)) rs" using Cons.prems(1) unfolding chain.simps by blast
  ultimately show ?case using Cons.IH [of "Some (rec_RowHash r)"] by simp
qed simp

lemma Append_prefix: "audit_inv db \<Longrightarrow> \<exists>xs. al_rows (snd (Append env e db)) = al_rows db @ xs"
  by (cases rule: Append_cases [of db env e]) simp_all

lemma appends_prefix: "audit_inv db \<Longrightarrow> audit_inv (appends env es db) \<and> (\<exists>xs. al_rows (appends env es db) = al_rows db @ xs)"
proof (induction es arbitrary: db)
  case (Cons e es)
  then show ?case using Cons.IH [OF Append_inv [OF Cons.prems, of env e]] Append_prefix [OF Cons.prems, of env e] by auto
qed simp

lemma chain_prefix: "chain h p (xs @ ys) \<Longrightarrow> chain h p xs"
  by (induction xs arbitrary: p) auto

text \<open>An entry that Postgres does not return verbatim breaks the chain for good: the hash is taken
  over the text that was sent, so once such an entry has been accepted - its \<open>JSONB\<close> detail is
  reformatted, say - and unless its two hash inputs collide, \<open>VerifyChain\<close> reports it as the first
  bad row although nobody has tampered with it, and no later entry repairs that.\<close>

theorem reformatted_entry_breaks_chain:
  assumes "text_env env" and "audit_inv db" and "vr_OK (VerifyChain env db)"
    and "Append env e db = (Some r, db')" and "\<not> stable env e"
    and "inj_on (sha env) {hash_input (deref (last_hash db) # entry_fields (with_detail e)),
      hash_input (deref (last_hash db) # entry_fields (stored env (with_detail e)))}"
  shows "\<not> vr_OK (VerifyChain env (appends env es db')) \<and> vr_FirstBadID (VerifyChain env db') = rec_ID r"
proof -
  let ?e = "with_detail e" and ?p = "head_hash None (al_rows db)"
  let ?row = "record_of (stored env ?e) (al_next db) ?p (computeHash (sha env) ?p ?e)"
  have ok: "chain (sha env) None (al_rows db)" using assms(2,3) by (simp add: VerifyChain_OK)
  have c: "audit_constraints env ?e" and rows: "al_rows db' = al_rows db @ [?row]" and r: "rec_ID r = al_next db"
    using Append_Some [OF assms(2,4)] by simp_all
  have inv: "audit_inv db'" using Append_inv [OF assms(2), of env e] assms(4) by simp
  have tx: "pg_text (deref ?p)" using chain_text [OF assms(1) ok] by simp
  have "entry_fields (stored env ?e) \<noteq> entry_fields ?e"
    using assms(5) stored_fields [OF c] by (simp add: stable_def)
  then have "hash_input (deref ?p # entry_fields (stored env ?e)) \<noteq> hash_input (deref ?p # entry_fields ?e)"
    using hash_input_inj [of "deref ?p # entry_fields (stored env ?e)" "deref ?p # entry_fields ?e"]
      constraints_text [OF assms(1) c] tx by auto
  then have "computeHash (sha env) ?p (stored env ?e) \<noteq> computeHash (sha env) ?p ?e"
    using assms(6) by (auto simp: computeHash_def last_hash_head [OF assms(2)] inj_on_def)
  then have bad: "\<not> chain (sha env) None (al_rows db')" using rows by (simp add: chain_snoc)
  have "\<not> chain (sha env) None (al_rows (appends env es db'))"
    using appends_prefix [OF inv, of env es] bad chain_prefix by metis
  moreover have "vr_FirstBadID (VerifyChain env db') = rec_ID r"
    unfolding VerifyChain_def rows_sorted [OF inv] using verify_loop_snoc_bad [OF ok, of ?row] bad rows r by simp
  ultimately show ?thesis using appends_prefix [OF inv, of env es] by (simp add: VerifyChain_OK)
qed

section \<open>Tamper evidence\<close>

text \<open>The inputs hashed by a chain.\<close>

fun chain_inputs :: "string option \<Rightarrow> audit_record list \<Rightarrow> string set" where
  "chain_inputs p [] = {}"
| "chain_inputs p (r # rs) = insert (hash_input (deref p # entry_fields r)) (chain_inputs (Some (rec_RowHash r)) rs)"

lemma chain_inputs_snoc: "chain_inputs p (rs @ [r]) = insert (hash_input (deref (head_hash p rs) # entry_fields r)) (chain_inputs p rs)"
  by (induction rs arbitrary: p) auto

lemma chain_head_nonempty:
  assumes "text_env env" and "chain (sha env) None rs" and "deref (head_hash None rs) = []"
  shows "rs = []"
proof (cases rs rule: rev_cases)
  case (snoc xs r)
  then have "rec_RowHash r = computeHash (sha env) (head_hash None xs) r" using assms(2) by (simp add: chain_snoc)
  then show ?thesis using assms(1,3) snoc by (simp add: computeHash_def text_env_def)
qed simp

lemma chain_committed:
  assumes "text_env env" and "chain (sha env) None rs" and "chain (sha env) None rs'"
    and "\<forall>r \<in> set rs \<union> set rs'. list_all pg_text (entry_fields r)"
    and "inj_on (sha env) (chain_inputs None rs \<union> chain_inputs None rs')"
    and "deref (head_hash None rs) = deref (head_hash None rs')"
  shows "map entry_fields rs = map entry_fields rs'"
  using assms(2-6)
proof (induction rs arbitrary: rs' rule: rev_induct)
  case Nil
  then show ?case using chain_head_nonempty [OF assms(1), of rs'] by simp
next
  case (snoc r rs)
  have "rs' \<noteq> []" using chain_head_nonempty [OF assms(1) snoc.prems(1)] snoc.prems(5) by auto
  then obtain xs x where rs': "rs' = xs @ [x]" by (cases rs' rule: rev_cases) auto
  let ?i = "hash_input (deref (head_hash None rs) # entry_fields r)"
    and ?j = "hash_input (deref (head_hash None xs) # entry_fields x)"
  have c: "chain (sha env) None rs" "chain (sha env) None xs" and hash: "sha env ?i = sha env ?j"
    using snoc.prems(1,2,5) by (simp_all add: rs' chain_snoc computeHash_def)
  have "?i = ?j"
    using inj_onD [OF snoc.prems(4) hash] by (simp add: rs' chain_inputs_snoc)
  then have "deref (head_hash None rs) # entry_fields r = deref (head_hash None xs) # entry_fields x"
    using snoc.prems(3) chain_text [OF assms(1) c(1)] chain_text [OF assms(1) c(2)]
    by (intro hash_input_inj) (auto simp: rs')
  moreover have "inj_on (sha env) (chain_inputs None rs \<union> chain_inputs None xs)"
    using snoc.prems(4) by (rule inj_on_subset) (auto simp: rs' chain_inputs_snoc)
  ultimately show ?case using snoc.IH [OF c] snoc.prems(3) by (simp add: rs')
qed

text \<open>C19: The newest row hash commits to the whole log: when two tables both pass \<open>VerifyChain\<close> and their
  newest row hashes agree, then, unless two of the inputs hashed in them collide, they have the same
  number of rows and the rows agree in every hashed field, in order. So any insertion, deletion,
  reordering or change of a hashed field is visible in the newest hash or in \<open>VerifyChain\<close>.\<close>

theorem newest_hash_commits_to_log:
  assumes "text_env env" and "audit_inv db" and "audit_inv db'"
    and "vr_OK (VerifyChain env db)" and "vr_OK (VerifyChain env db')" and "last_hash db = last_hash db'"
    and "\<forall>r \<in> set (al_rows db) \<union> set (al_rows db'). list_all pg_text (entry_fields r)"
    and "inj_on (sha env) (chain_inputs None (al_rows db) \<union> chain_inputs None (al_rows db'))"
  shows "map entry_fields (al_rows db) = map entry_fields (al_rows db')"
  using chain_committed [OF assms(1) _ _ assms(7,8)] assms(2-6) by (simp add: VerifyChain_OK last_hash_head)

section \<open>Checkpoints tile the log\<close>

text \<open>What the checkpointer needs of a sink: what was written last is read back, and a refused write
  changes nothing that is read.\<close>

locale checkpoint_sink =
  fixes LastCheckpoint :: "'k \<Rightarrow> checkpoint option option"
    and Write :: "checkpoint \<Rightarrow> 'k \<Rightarrow> 'k option"
    and written :: "'k \<Rightarrow> checkpoint list"
  assumes last_written: "LastCheckpoint k = Some c \<Longrightarrow> c = (if written k = [] then None else Some (last (written k)))"
    and write_appends: "Write cp k = Some k' \<Longrightarrow> written k' = written k @ [cp]"

text \<open>Consecutive checkpoints: each covers the rows from where the last one ended, has at least one,
  and its hash is over the previous hash and the hashes of those rows.\<close>

fun tiles :: "(string \<Rightarrow> string) \<Rightarrow> audit_record list \<Rightarrow> nat \<Rightarrow> string \<Rightarrow> checkpoint list \<Rightarrow> bool" where
  "tiles h rs from prev [] = True"
| "tiles h rs from prev (c # cs) =
    (cp_FromID c = from \<and> cp_PrevCheckpointHash c = prev \<and> from \<le> cp_ToID c
     \<and> (\<exists>r \<in> set rs. rec_ID r = cp_ToID c)
     \<and> cp_Hash c = h (checkpoint_input prev (map rec_RowHash (filter (\<lambda>r. from \<le> rec_ID r \<and> rec_ID r \<le> cp_ToID c) rs)))
     \<and> tiles h rs (cp_ToID c + 1) (cp_Hash c) cs)"

definition tile_from :: "checkpoint list \<Rightarrow> nat" where
  "tile_from cs = (if cs = [] then 1 else cp_ToID (last cs) + 1)"

definition tile_prev :: "checkpoint list \<Rightarrow> string" where
  "tile_prev cs = (if cs = [] then [] else cp_Hash (last cs))"

lemma tiles_snoc:
  "tiles h rs f p (cs @ [c]) \<longleftrightarrow> tiles h rs f p cs
    \<and> tiles h rs (if cs = [] then f else cp_ToID (last cs) + 1) (if cs = [] then p else cp_Hash (last cs)) [c]"
  by (induction cs arbitrary: f p) auto

lemma tiles_append_row:
  assumes "tiles h rs f p cs" and "\<forall>c \<in> set cs. cp_ToID c < rec_ID r"
  shows "tiles h (rs @ [r]) f p cs"
  using assms
proof (induction h rs f p cs rule: tiles.induct)
  case (2 h rs fr prev c cs)
  have "filter (\<lambda>x. fr \<le> rec_ID x \<and> rec_ID x \<le> cp_ToID c) (rs @ [r])
      = filter (\<lambda>x. fr \<le> rec_ID x \<and> rec_ID x \<le> cp_ToID c) rs"
    using "2.prems"(2) by auto
  then show ?case using "2.IH" "2.prems" by (auto simp del: filter_append)
qed simp

lemma sorted_le_last:
  assumes "sorted (map f xs)" and "x \<in> set xs"
  shows "f x \<le> f (last xs)"
  using assms by (cases xs rule: rev_cases) (auto simp: sorted_append)

context checkpoint_sink
begin

definition sink_inv :: "(string \<Rightarrow> string) \<Rightarrow> audit_db \<Rightarrow> 'k \<Rightarrow> bool" where
  "sink_inv h db k = (audit_inv db \<and> tiles h (al_rows db) 1 [] (written k)
     \<and> (\<forall>c \<in> set (written k). cp_ToID c < al_next db))"

lemma append_keeps:
  assumes "sink_inv h db k"
  shows "sink_inv h (snd (Append env e db)) k"
proof -
  have inv: "audit_inv db" using assms by (simp add: sink_inv_def)
  show ?thesis
  proof (cases "fst (Append env e db)")
    case None
    then show ?thesis using assms Append_inv [OF inv, of env e]
      by (auto simp: sink_inv_def Append_def Let_def split: if_splits)
  next
    case (Some r)
    then obtain row where rows: "al_rows (snd (Append env e db)) = al_rows db @ [row]" "rec_ID row = al_next db"
      using Append_Some [OF inv, of env e r "snd (Append env e db)"] by (cases "Append env e db") auto
    moreover have "al_next (snd (Append env e db)) = al_next db + 1" by (simp add: Append_def Let_def)
    ultimately show ?thesis
      using assms Append_inv [OF inv, of env e] by (auto simp: sink_inv_def intro!: tiles_append_row)
  qed
qed

lemma run_keeps:
  assumes "sink_inv h db k"
  shows "sink_inv h db (snd (Checkpointer_Run LastCheckpoint Write h now db k))"
proof (cases "LastCheckpoint k")
  case None
  then show ?thesis using assms by (simp add: Checkpointer_Run_def)
next
  case (Some c)
  have inv: "audit_inv db" using assms by (simp add: sink_inv_def)
  have c: "c = (if written k = [] then None else Some (last (written k)))" by (rule last_written [OF Some])
  let ?from = "tile_from (written k)" and ?prev = "tile_prev (written k)"
  let ?rs = "filter (\<lambda>r. ?from \<le> rec_ID r) (al_rows db)"
  let ?cp = "\<lparr>cp_FromID = ?from, cp_ToID = rec_ID (last ?rs), cp_PrevCheckpointHash = ?prev,
      cp_Hash = h (checkpoint_input ?prev (map rec_RowHash ?rs)), cp_CreatedAt = now\<rparr>"
  have fp: "(case c of None \<Rightarrow> 1 | Some c \<Rightarrow> cp_ToID c + 1) = ?from" "(case c of None \<Rightarrow> [] | Some c \<Rightarrow> cp_Hash c) = ?prev"
    by (simp_all add: c tile_from_def tile_prev_def)
  have run: "Checkpointer_Run LastCheckpoint Write h now db k =
      (if ?rs = [] then (Some None, k) else (case Write ?cp k of None \<Rightarrow> (None, k) | Some k' \<Rightarrow> (Some (Some ?cp), k')))"
    by (simp add: Checkpointer_Run_def Some fp rowHashesFrom_def rows_sorted [OF inv] Let_def)
  have "sink_inv h db k'" if ne: "?rs \<noteq> []" and w: "Write ?cp k = Some k'" for k'
  proof -
    have last_in: "last ?rs \<in> set (al_rows db)" "?from \<le> rec_ID (last ?rs)" using last_in_set [OF ne] by auto
    have "sorted (map rec_ID (al_rows db))" using inv unfolding audit_inv_def by (blast intro: strict_sorted_imp_sorted)
    then have srt: "sorted (map rec_ID ?rs)" by (rule sorted_filter)
    have "rec_ID r \<le> rec_ID (last ?rs)" if "r \<in> set ?rs" for r
      by (rule sorted_le_last [OF srt that])
    then have "filter (\<lambda>r. ?from \<le> rec_ID r \<and> rec_ID r \<le> rec_ID (last ?rs)) (al_rows db) = ?rs"
      by (intro filter_cong) auto
    then have "tiles h (al_rows db) ?from ?prev [?cp]" using last_in by auto
    then show ?thesis
      using assms inv last_in(1) unfolding sink_inv_def write_appends [OF w] tiles_snoc
      by (auto simp: tile_from_def tile_prev_def audit_inv_def list_all_iff)
  qed
  then show ?thesis using assms by (auto simp: run split: option.split)
qed

end

text \<open>The checkpoints in the lines of the file sink.\<close>

definition file_checkpoints :: "sink_line list option \<Rightarrow> checkpoint list" where
  "file_checkpoints f = concat (map (\<lambda>l. case l of CpLine c \<Rightarrow> [c] | _ \<Rightarrow> []) (case f of None \<Rightarrow> [] | Some ls \<Rightarrow> ls))"

lemma file_checkpoints_last:
  assumes "rev (filter (\<lambda>l. l \<noteq> BlankLine) ls) = CpLine c # tl1"
  shows "\<exists>cs. file_checkpoints (Some ls) = cs @ [c]"
proof -
  have "filter (\<lambda>l. l \<noteq> BlankLine) ls = rev tl1 @ [CpLine c]"
    using assms by (metis rev.simps(2) rev_rev_ident)
  moreover have "concat (map (\<lambda>l. case l of CpLine c \<Rightarrow> [c] | _ \<Rightarrow> []) ls)
      = concat (map (\<lambda>l. case l of CpLine c \<Rightarrow> [c] | _ \<Rightarrow> []) (filter (\<lambda>l. l \<noteq> BlankLine) ls))"
    by (induction ls) auto
  ultimately show ?thesis by (simp add: file_checkpoints_def)
qed

interpretation file_sink: checkpoint_sink "FileSink_LastCheckpoint can" "FileSink_Write can'" file_checkpoints for can can'
proof
  fix k c
  assume r: "FileSink_LastCheckpoint can k = Some c"
  show "c = (if file_checkpoints k = [] then None else Some (last (file_checkpoints k)))"
  proof (cases k)
    case None
    then show ?thesis using r by (simp add: FileSink_LastCheckpoint_def file_checkpoints_def)
  next
    case (Some ls)
    show ?thesis
    proof (cases "rev (filter (\<lambda>l. l \<noteq> BlankLine) ls)")
      case Nil
      then have "\<forall>l \<in> set ls. l = BlankLine" by (simp add: filter_empty_conv)
      then have "file_checkpoints (Some ls) = []" by (auto simp: file_checkpoints_def)
      then show ?thesis using r Some Nil by (simp add: FileSink_LastCheckpoint_def split: if_splits)
    next
      case (Cons l tl1)
      then obtain c' where l: "l = CpLine c'" "c = Some c'"
        using r Some by (auto simp: FileSink_LastCheckpoint_def split: if_splits sink_line.splits)
      then show ?thesis using file_checkpoints_last [of ls c' tl1] Cons Some by auto
    qed
  qed
next
  fix cp k k'
  assume "FileSink_Write can' cp k = Some k'"
  then show "file_checkpoints k' = file_checkpoints k @ [cp]"
    by (cases k) (auto simp: FileSink_Write_def file_checkpoints_def split: if_splits)
qed

text \<open>The life of a deployment: entries are appended and the checkpointer runs, in any order; a run may find
  the file unreadable or unwritable.\<close>

datatype audit_op = OpAppend audit_entry | OpCheckpoint gotime bool bool

fun audit_run :: "audit_env \<Rightarrow> audit_op list \<Rightarrow> audit_db \<times> sink_line list option \<Rightarrow> audit_db \<times> sink_line list option" where
  "audit_run env [] s = s"
| "audit_run env (OpAppend e # ops) (db, k) = audit_run env ops (snd (Append env e db), k)"
| "audit_run env (OpCheckpoint now can can' # ops) (db, k) = audit_run env ops
     (db, snd (Checkpointer_Run (FileSink_LastCheckpoint can) (FileSink_Write can') (sha env) now db k))"

lemma audit_run_inv:
  assumes "file_sink.sink_inv (sha env) db k"
  shows "file_sink.sink_inv (sha env) (fst (audit_run env ops (db, k))) (snd (audit_run env ops (db, k)))"
  using assms
proof (induction ops arbitrary: db k)
  case (Cons op ops)
  then show ?case
    by (cases op) (simp_all add: file_sink.append_keeps file_sink.run_keeps)
qed simp

text \<open>C20: Checkpoints tile the log: in whatever order entries are appended and the checkpointer runs,
  also when its file cannot be read or written at times, the checkpoints in the file start at row 1,
  each begins where the previous one ended and carries its hash, and each one's own hash is that
  of the previous hash and the hashes of exactly the rows in its range as they are in the table
  now; so each row up to the last checkpoint is covered exactly once.\<close>

theorem checkpoints_tile_log:
  "case audit_run env ops (empty_log, None) of (db, k) \<Rightarrow> tiles (sha env) (al_rows db) 1 [] (file_checkpoints k)"
proof -
  have "file_sink.sink_inv (sha env) empty_log None"
    by (simp add: file_sink.sink_inv_def empty_log_inv file_checkpoints_def)
  from audit_run_inv [OF this, of ops] show ?thesis by (simp add: file_sink.sink_inv_def split_beta)
qed

section \<open>Witnesses\<close>

definition demo_audit :: audit_env where
  "demo_audit = \<lparr>sha = (\<lambda>x. CHR ''#'' # map (\<lambda>c. if c = nul then CHR ''!'' else c) x),
     pg_jsonb = (\<lambda>s. if nul \<in> set s then None else Some (concat (map (\<lambda>c. if c = CHR '':'' then '': '' else [c]) s))),
     pg_uuid = (\<lambda>s. if nul \<in> set s then None else Some s)\<rparr>"

lemma demo_text_env: "text_env demo_audit"
proof -
  have "nul \<notin> set (map (\<lambda>c. if c = nul then CHR ''!'' else c) x)" for x by (auto simp: nul_def)
  moreover have "nul \<notin> set (concat (map (\<lambda>c. if c = CHR '':'' then '': '' else [c]) s))" if "nul \<notin> set s" for s
    using that by (auto simp: nul_def split: if_splits)
  ultimately show ?thesis
    by (auto simp: text_env_def demo_audit_def pg_text_def nul_def split: if_splits)
qed

definition demo_entry :: "string \<Rightarrow> audit_entry" where
  "demo_entry d = \<lparr>en_TenantID = ''acme'', en_UserID = Some ''u1'', en_Source = SourceAPI, en_EventType = EventQuery,
     en_QueryText = Some ''service=api'', en_RowCount = Some 3, en_DurationMS = Some 12, en_Status = StatusSuccess,
     en_ErrorMessage = None, en_Detail = d\<rparr>"

theorem audit_log_verifies_witness:
  "vr_OK (VerifyChain demo_audit (appends demo_audit [demo_entry [], demo_entry []] empty_log))
    \<and> vr_RowsChecked (VerifyChain demo_audit (appends demo_audit [demo_entry [], demo_entry []] empty_log)) = 2"
proof -
  have st: "stable demo_audit (demo_entry [])"
    by (simp add: stable_def demo_audit_def demo_entry_def stored_def with_detail_def nul_def)
  have "audit_constraints demo_audit (with_detail (demo_entry []))" by code_simp
  then show ?thesis using audit_log_verifies [of "[demo_entry [], demo_entry []]" demo_audit] st by simp
qed

theorem reformatted_entry_breaks_chain_witness:
  "vr_FirstBadID (VerifyChain demo_audit (snd (Append demo_audit (demo_entry ''{a:1}'') empty_log))) = 1"
proof -
  let ?r = "the (fst (Append demo_audit (demo_entry ''{a:1}'') empty_log))"
  have wr: "Append demo_audit (demo_entry ''{a:1}'') empty_log = (Some ?r, snd (Append demo_audit (demo_entry ''{a:1}'') empty_log))"
    by code_simp
  have "\<not> stable demo_audit (demo_entry ''{a:1}'')"
    by (simp add: stable_def demo_audit_def demo_entry_def stored_def with_detail_def nul_def)
  moreover have "inj_on (sha demo_audit) {hash_input (deref (last_hash empty_log) # entry_fields (with_detail (demo_entry ''{a:1}''))),
      hash_input (deref (last_hash empty_log) # entry_fields (stored demo_audit (with_detail (demo_entry ''{a:1}''))))}"
    by code_simp
  moreover have "vr_OK (VerifyChain demo_audit empty_log)" by code_simp
  moreover have "rec_ID ?r = 1" by code_simp
  ultimately show ?thesis using reformatted_entry_breaks_chain [OF demo_text_env empty_log_inv _ wr] by simp
qed

theorem newest_hash_commits_to_log_witness:
  "map entry_fields (al_rows (appends demo_audit [demo_entry []] empty_log))
    = map entry_fields (al_rows (appends demo_audit [(demo_entry [])\<lparr>en_ErrorMessage := Some []\<rparr>] empty_log))"
proof -
  let ?a = "appends demo_audit [demo_entry []] empty_log"
    and ?b = "appends demo_audit [(demo_entry [])\<lparr>en_ErrorMessage := Some []\<rparr>] empty_log"
  have inv: "audit_inv ?a" "audit_inv ?b" using appends_prefix [OF empty_log_inv] by blast+
  have "vr_OK (VerifyChain demo_audit ?a)" "vr_OK (VerifyChain demo_audit ?b)" "last_hash ?a = last_hash ?b"
    "\<forall>r \<in> set (al_rows ?a) \<union> set (al_rows ?b). list_all pg_text (entry_fields r)"
    "inj_on (sha demo_audit) (chain_inputs None (al_rows ?a) \<union> chain_inputs None (al_rows ?b))"
    by code_simp+
  then show ?thesis using newest_hash_commits_to_log [OF demo_text_env inv] by blast
qed

end
