(* ===== verification/Dashboards.thy ===== *)
theory Dashboards
  imports Authz
begin

text \<open>
  Saved dashboards (\<open>api/dashboards\<close>) with the per-user grants of
  \<open>enterprise/internal/rbacstore\<close>: the tables, the statements of \<open>store.go\<close>,
  \<open>dashboard_permissions.go\<close> and \<open>dashboards_adapter.go\<close>, and the handlers of
  \<open>handler.go\<close>. Fresh UUIDs, the clock and the \<open>JSONB\<close> input function are arguments. Rows that
  tie in an \<open>ORDER BY\<close> come in insertion order, which Postgres leaves open.
\<close>

section \<open>Types\<close>

record panel =
  pn_ID :: string
  pn_DashboardID :: string
  pn_Title :: string
  pn_Query :: string
  pn_QueryLanguage :: string
  pn_VizType :: string
  pn_VizConfig :: string
  pn_PositionX :: int
  pn_PositionY :: int
  pn_Width :: int
  pn_Height :: int
  pn_EarliestOverride :: "string option"
  pn_LatestOverride :: "string option"
  pn_SortOrder :: int
  pn_CreatedAt :: gotime
  pn_UpdatedAt :: gotime

record dashboard =
  ds_ID :: string
  ds_TenantID :: string
  ds_Name :: string
  ds_Description :: string
  ds_DefaultEarliest :: string
  ds_DefaultLatest :: string
  ds_CreatedBy :: string
  ds_CreatedAt :: gotime
  ds_UpdatedAt :: gotime
  ds_Panels :: "panel list"

definition validVizType :: "string \<Rightarrow> bool" where
  "validVizType v = (v = ''table'' \<or> v = ''line'' \<or> v = ''bar'' \<or> v = ''single_stat'' \<or> v = ''top_n'' \<or> v = ''heatmap'')"

datatype panel_error = PanelQueryEmpty | PanelRawSQL | PanelBadViz string

definition validatePanel :: "panel \<Rightarrow> (panel_error, panel) result" where
  "validatePanel p =
    (if pn_Query p = [] then Inl PanelQueryEmpty
     else if pn_QueryLanguage p = ''sql'' then Inl PanelRawSQL
     else if \<not> validVizType (pn_VizType p) then Inl (PanelBadViz (pn_VizType p))
     else Inr (if length (pn_VizConfig p) = 0 then p\<lparr>pn_VizConfig := ''{}''\<rparr> else p))"

text \<open>A row of \<open>dashboard_permissions\<close>.\<close>

record dash_grant =
  g_DashboardID :: string
  g_UserID :: string
  g_Role :: role
  g_GrantedBy :: string
  g_CreatedAt :: gotime

text \<open>A stored dashboard row has no panels of its own. \<open>dt_tenants\<close> and \<open>dt_users\<close> are the keys the
  foreign keys refer to.\<close>

record dash_db =
  dt_boards :: "dashboard list"
  dt_panels :: "panel list"
  dt_grants :: "dash_grant list"
  dt_tenants :: "string list"
  dt_users :: "string list"

record dash_env =
  de_now :: gotime
  de_uuid :: "nat \<Rightarrow> string"
  de_jsonb :: "string \<Rightarrow> string option"

datatype dash_error = DashNotFound | DashInvalid panel_error | DashDatabase

section \<open>Store\<close>

definition or_default :: "string \<Rightarrow> string \<Rightarrow> string" where
  "or_default s d = (if s = [] then d else s)"

definition board_constraints :: "dash_db \<Rightarrow> dashboard \<Rightarrow> bool" where
  "board_constraints db d = (ds_ID d \<notin> ds_ID ` set (dt_boards db) \<and> ds_TenantID d \<in> set (dt_tenants db))"

definition CreateDashboard :: "dash_env \<Rightarrow> dashboard \<Rightarrow> dash_db \<Rightarrow> (dash_error, dashboard \<times> dash_db) result" where
  "CreateDashboard env d db =
    (let d = d\<lparr>ds_ID := de_uuid env 0, ds_TenantID := or_default (ds_TenantID d) ''default'',
               ds_CreatedBy := or_default (ds_CreatedBy d) ''anonymous'',
               ds_DefaultEarliest := or_default (ds_DefaultEarliest d) ''-1h'',
               ds_DefaultLatest := or_default (ds_DefaultLatest d) ''now'',
               ds_CreatedAt := de_now env, ds_UpdatedAt := de_now env\<rparr>
     in if board_constraints db d then Inr (d, db\<lparr>dt_boards := dt_boards db @ [d\<lparr>ds_Panels := []\<rparr>]\<rparr>)
        else Inl DashDatabase)"

definition ListDashboards :: "string \<Rightarrow> dash_db \<Rightarrow> dashboard list" where
  "ListDashboards tenantID db = rev (sort_key ds_CreatedAt (filter (\<lambda>d. ds_TenantID d = tenantID) (dt_boards db)))"

definition listPanels :: "string \<Rightarrow> dash_db \<Rightarrow> panel list" where
  "listPanels dashboardID db =
     sort_key pn_SortOrder (sort_key pn_CreatedAt (filter (\<lambda>p. pn_DashboardID p = dashboardID) (dt_panels db)))"

definition GetDashboard :: "string \<Rightarrow> string \<Rightarrow> dash_db \<Rightarrow> (dash_error, dashboard) result" where
  "GetDashboard tenantID i db = (case find (\<lambda>d. ds_ID d = i \<and> ds_TenantID d = tenantID) (dt_boards db) of
     None \<Rightarrow> Inl DashNotFound
   | Some d \<Rightarrow> Inr (d\<lparr>ds_Panels := listPanels i db\<rparr>))"

definition dashboardTenantMatches :: "string \<Rightarrow> string \<Rightarrow> dash_db \<Rightarrow> bool" where
  "dashboardTenantMatches tenantID dashboardID db =
     list_ex (\<lambda>d. ds_ID d = dashboardID \<and> ds_TenantID d = tenantID) (dt_boards db)"

definition UpdateDashboard :: "dash_env \<Rightarrow> string \<Rightarrow> dashboard \<Rightarrow> dash_db \<Rightarrow> (dash_error, dashboard \<times> dash_db) result" where
  "UpdateDashboard env tenantID d db =
    (let d = d\<lparr>ds_DefaultEarliest := or_default (ds_DefaultEarliest d) ''-1h'',
               ds_DefaultLatest := or_default (ds_DefaultLatest d) ''now''\<rparr>;
       hit = (\<lambda>x. ds_ID x = ds_ID d \<and> ds_TenantID x = tenantID);
       upd = (\<lambda>x. x\<lparr>ds_Name := ds_Name d, ds_Description := ds_Description d, ds_DefaultEarliest := ds_DefaultEarliest d,
                    ds_DefaultLatest := ds_DefaultLatest d, ds_UpdatedAt := de_now env\<rparr>)
     in case find hit (dt_boards db) of
          None \<Rightarrow> Inl DashNotFound
        | Some x \<Rightarrow> Inr (d\<lparr>ds_TenantID := ds_TenantID x, ds_CreatedBy := ds_CreatedBy x, ds_CreatedAt := ds_CreatedAt x,
                           ds_UpdatedAt := de_now env\<rparr>,
            db\<lparr>dt_boards := map (\<lambda>x. if hit x then upd x else x) (dt_boards db)\<rparr>))"

text \<open>\<open>ON DELETE CASCADE\<close> on panels and grants.\<close>

definition DeleteDashboard :: "string \<Rightarrow> string \<Rightarrow> dash_db \<Rightarrow> (dash_error, dash_db) result" where
  "DeleteDashboard tenantID i db =
    (if \<not> dashboardTenantMatches tenantID i db then Inl DashNotFound
     else Inr (db\<lparr>dt_boards := filter (\<lambda>d. \<not> (ds_ID d = i \<and> ds_TenantID d = tenantID)) (dt_boards db),
                  dt_panels := filter (\<lambda>p. pn_DashboardID p \<noteq> i) (dt_panels db),
                  dt_grants := filter (\<lambda>g. g_DashboardID g \<noteq> i) (dt_grants db)\<rparr>))"

text \<open>The constraints of \<open>dashboard_panels\<close>; the row keeps \<open>viz_config\<close> as \<open>JSONB\<close> returns it.\<close>

definition panel_ints :: "panel \<Rightarrow> bool" where
  "panel_ints p = (int4 (pn_PositionX p) \<and> int4 (pn_PositionY p) \<and> int4 (pn_Width p) \<and> int4 (pn_Height p) \<and> int4 (pn_SortOrder p))"

definition insert_panel :: "dash_env \<Rightarrow> panel \<Rightarrow> dash_db \<Rightarrow> (dash_error, panel \<times> dash_db) result" where
  "insert_panel env p db = (case de_jsonb env (pn_VizConfig p) of
     None \<Rightarrow> Inl DashDatabase
   | Some v \<Rightarrow>
     if pn_ID p \<notin> pn_ID ` set (dt_panels db) \<and> pn_DashboardID p \<in> ds_ID ` set (dt_boards db)
        \<and> validVizType (pn_VizType p) \<and> panel_ints p
     then (let p = p\<lparr>pn_CreatedAt := de_now env, pn_UpdatedAt := de_now env\<rparr>
           in Inr (p, db\<lparr>dt_panels := dt_panels db @ [p\<lparr>pn_VizConfig := v\<rparr>]\<rparr>))
     else Inl DashDatabase)"

definition AddPanel :: "dash_env \<Rightarrow> string \<Rightarrow> string \<Rightarrow> panel \<Rightarrow> dash_db \<Rightarrow> (dash_error, panel \<times> dash_db) result" where
  "AddPanel env tenantID dashboardID p db = (case validatePanel p of
     Inl e \<Rightarrow> Inl (DashInvalid e)
   | Inr p \<Rightarrow>
     if \<not> dashboardTenantMatches tenantID dashboardID db then Inl DashNotFound
     else insert_panel env (p\<lparr>pn_ID := de_uuid env 0, pn_DashboardID := dashboardID\<rparr>) db)"

definition UpdatePanel :: "dash_env \<Rightarrow> string \<Rightarrow> panel \<Rightarrow> dash_db \<Rightarrow> (dash_error, dash_db) result" where
  "UpdatePanel env tenantID p db = (case validatePanel p of
     Inl e \<Rightarrow> Inl (DashInvalid e)
   | Inr p \<Rightarrow>
     if \<not> dashboardTenantMatches tenantID (pn_DashboardID p) db then Inl DashNotFound
     else (case de_jsonb env (pn_VizConfig p) of
       None \<Rightarrow> Inl DashDatabase
     | Some v \<Rightarrow>
       (let hit = (\<lambda>x. pn_ID x = pn_ID p \<and> pn_DashboardID x = pn_DashboardID p) in
        if \<not> panel_ints p then Inl DashDatabase
        else if \<not> list_ex hit (dt_panels db) then Inl DashNotFound
        else Inr (db\<lparr>dt_panels := map (\<lambda>x. if hit x
          then p\<lparr>pn_VizConfig := v, pn_CreatedAt := pn_CreatedAt x, pn_UpdatedAt := de_now env\<rparr> else x) (dt_panels db)\<rparr>))))"

definition DeletePanel :: "string \<Rightarrow> string \<Rightarrow> string \<Rightarrow> dash_db \<Rightarrow> (dash_error, dash_db) result" where
  "DeletePanel tenantID dashboardID panelID db =
    (if \<not> dashboardTenantMatches tenantID dashboardID db then Inl DashNotFound
     else let hit = (\<lambda>x. pn_ID x = panelID \<and> pn_DashboardID x = dashboardID) in
       if \<not> list_ex hit (dt_panels db) then Inl DashNotFound
       else Inr (db\<lparr>dt_panels := filter (\<lambda>x. \<not> hit x) (dt_panels db)\<rparr>))"

text \<open>The panel loop of the import; UUID \<open>n\<close> goes to the \<open>n\<close>-th row of the transaction.\<close>

fun import_panels :: "dash_env \<Rightarrow> string \<Rightarrow> nat \<Rightarrow> panel list \<Rightarrow> dash_db \<Rightarrow> (dash_error, panel list \<times> dash_db) result" where
  "import_panels env dashboardID n [] db = Inr ([], db)"
| "import_panels env dashboardID n (p # ps) db = (case validatePanel p of
     Inl e \<Rightarrow> Inl (DashInvalid e)
   | Inr p \<Rightarrow> bindE (insert_panel env (p\<lparr>pn_ID := de_uuid env n, pn_DashboardID := dashboardID\<rparr>) db) (\<lambda>(p, db).
       bindE (import_panels env dashboardID (n + 1) ps db) (\<lambda>(ps, db). Inr (p # ps, db))))"

definition ImportDashboard :: "dash_env \<Rightarrow> string \<Rightarrow> dashboard \<Rightarrow> dash_db \<Rightarrow> (dash_error, dashboard \<times> dash_db) result" where
  "ImportDashboard env tenantID d db =
    (let out = \<lparr>ds_ID = de_uuid env 0, ds_TenantID = tenantID, ds_Name = ds_Name d, ds_Description = ds_Description d,
                ds_DefaultEarliest = or_default (ds_DefaultEarliest d) ''-1h'',
                ds_DefaultLatest = or_default (ds_DefaultLatest d) ''now'',
                ds_CreatedBy = or_default (ds_CreatedBy d) ''anonymous'',
                ds_CreatedAt = de_now env, ds_UpdatedAt = de_now env, ds_Panels = []\<rparr>
     in if \<not> board_constraints db out then Inl DashDatabase
        else bindE (import_panels env (ds_ID out) 1 (ds_Panels d) (db\<lparr>dt_boards := dt_boards db @ [out]\<rparr>))
          (\<lambda>(ps, db). Inr (out\<lparr>ds_Panels := ps\<rparr>, db)))"

section \<open>Grants\<close>

text \<open>\<open>rbacstore\<close> and its adapter; \<open>None\<close> is an error of the store.\<close>

definition SetDashboardPermission :: "dash_env \<Rightarrow> string \<Rightarrow> string \<Rightarrow> role \<Rightarrow> string \<Rightarrow> dash_db \<Rightarrow> dash_db option" where
  "SetDashboardPermission env dashboardID userID role grantedBy db =
    (if grantedBy = [] then None
     else if dashboardID \<notin> ds_ID ` set (dt_boards db) \<or> userID \<notin> set (dt_users db) \<or> grantedBy \<notin> set (dt_users db)
       \<or> (role \<noteq> RoleViewer \<and> role \<noteq> RoleEditor) then None
     else let hit = (\<lambda>g. g_DashboardID g = dashboardID \<and> g_UserID g = userID) in
       Some (if list_ex hit (dt_grants db)
         then db\<lparr>dt_grants := map (\<lambda>g. if hit g then g\<lparr>g_Role := role, g_GrantedBy := grantedBy\<rparr> else g) (dt_grants db)\<rparr>
         else db\<lparr>dt_grants := dt_grants db @ [\<lparr>g_DashboardID = dashboardID, g_UserID = userID, g_Role = role,
             g_GrantedBy = grantedBy, g_CreatedAt = de_now env\<rparr>]\<rparr>))"

definition RevokeDashboardPermission :: "string \<Rightarrow> string \<Rightarrow> dash_db \<Rightarrow> dash_db" where
  "RevokeDashboardPermission dashboardID userID db =
     db\<lparr>dt_grants := filter (\<lambda>g. \<not> (g_DashboardID g = dashboardID \<and> g_UserID g = userID)) (dt_grants db)\<rparr>"

definition GetDashboardPermission :: "string \<Rightarrow> string \<Rightarrow> dash_db \<Rightarrow> dash_grant option" where
  "GetDashboardPermission dashboardID userID db =
     find (\<lambda>g. g_DashboardID g = dashboardID \<and> g_UserID g = userID) (dt_grants db)"

definition ListDashboardPermissions :: "string \<Rightarrow> dash_db \<Rightarrow> dash_grant list" where
  "ListDashboardPermissions dashboardID db = sort_key g_CreatedAt (filter (\<lambda>g. g_DashboardID g = dashboardID) (dt_grants db))"

definition GrantedRole :: "string \<Rightarrow> string \<Rightarrow> dash_db \<Rightarrow> role option" where
  "GrantedRole dashboardID userID db = map_option g_Role (GetDashboardPermission dashboardID userID db)"

definition SetPermission :: "dash_env \<Rightarrow> string \<Rightarrow> string \<Rightarrow> role \<Rightarrow> string \<Rightarrow> dash_db \<Rightarrow> dash_db option" where
  "SetPermission env dashboardID userID role grantedBy db =
    (if role \<noteq> RoleViewer \<and> role \<noteq> RoleEditor then None
     else SetDashboardPermission env dashboardID userID role grantedBy db)"

definition validGrantRole :: "role \<Rightarrow> bool" where
  "validGrantRole role = (role = RoleViewer \<or> role = RoleEditor)"

section \<open>Handlers\<close>

text \<open>\<open>authOn\<close>: an authorizer is configured; \<open>permOn\<close>: a permission store is wired in.\<close>

record dash_conf =
  authOn :: bool
  permOn :: bool

datatype dash_body = DashEmpty | DashError string | DashBadPanel panel_error | BoardBody dashboard | BoardsBody "dashboard list"
  | PanelBody panel | GrantsBody "dash_grant list"

type_synonym dash_reply = "nat \<times> dash_body"

definition canEditDashboard :: "dash_conf \<Rightarrow> identity option \<Rightarrow> dashboard \<Rightarrow> dash_db \<Rightarrow> bool" where
  "canEditDashboard cf ctx d db =
    (if \<not> authOn cf then True
     else (case ctx of
       None \<Rightarrow> False
     | Some i \<Rightarrow>
       if Satisfies (id_Role i) RoleAdmin then True
       else if id_UserID i \<noteq> [] \<and> id_UserID i = ds_CreatedBy d then True
       else if \<not> permOn cf then False
       else (case GrantedRole (ds_ID d) (id_UserID i) db of
         None \<Rightarrow> False | Some role \<Rightarrow> Satisfies role RoleEditor)))"

definition canManageGrants :: "dash_conf \<Rightarrow> identity option \<Rightarrow> dashboard \<Rightarrow> bool" where
  "canManageGrants cf ctx d =
    (if \<not> authOn cf then True
     else (case ctx of
       None \<Rightarrow> False
     | Some i \<Rightarrow> Satisfies (id_Role i) RoleAdmin \<or> (id_UserID i \<noteq> [] \<and> id_UserID i = ds_CreatedBy d)))"

definition tenantID :: "identity option \<Rightarrow> string" where
  "tenantID ctx = (case ctx of None \<Rightarrow> ''default'' | Some i \<Rightarrow> if id_TenantID i \<noteq> [] then id_TenantID i else ''default'')"

lemma tenantID_nonempty [simp]: "tenantID ctx \<noteq> []"
  by (auto simp: tenantID_def split: option.split)

definition createdBy :: "identity option \<Rightarrow> string" where
  "createdBy ctx = (case ctx of None \<Rightarrow> [] | Some i \<Rightarrow> id_UserID i)"

definition dash_storeErr :: "dash_error \<Rightarrow> string \<Rightarrow> dash_reply" where
  "dash_storeErr e action = (if e = DashNotFound then (404, DashError ''not found'') else (500, DashError (action @ '' failed'')))"

definition dash_badJSON :: dash_reply where "dash_badJSON = (400, DashError ''invalid JSON body'')"

definition handleCreate :: "dash_env \<Rightarrow> dashboard option \<Rightarrow> (dash_db, dash_reply) ctx_handler" where
  "handleCreate env body ctx db = (case body of
     None \<Rightarrow> (dash_badJSON, db)
   | Some d \<Rightarrow>
     if ds_Name d = [] then ((400, DashError ''name must not be empty''), db)
     else (case CreateDashboard env (d\<lparr>ds_TenantID := tenantID ctx, ds_CreatedBy := createdBy ctx\<rparr>) db of
       Inl _ \<Rightarrow> ((500, DashError ''creating dashboard failed''), db)
     | Inr (d, db') \<Rightarrow> ((201, BoardBody d), db')))"

definition handleList :: "(dash_db, dash_reply) ctx_handler" where
  "handleList ctx db = ((200, BoardsBody (ListDashboards (tenantID ctx) db)), db)"

definition handleGet :: "string \<Rightarrow> (dash_db, dash_reply) ctx_handler" where
  "handleGet i ctx db = (case GetDashboard (tenantID ctx) i db of
     Inl e \<Rightarrow> (dash_storeErr e ''fetching dashboard'', db)
   | Inr d \<Rightarrow> ((200, BoardBody d), db))"

definition handleExport :: "string \<Rightarrow> (dash_db, dash_reply) ctx_handler" where
  "handleExport i = handleGet i"

definition handleImport :: "dash_env \<Rightarrow> dashboard option \<Rightarrow> (dash_db, dash_reply) ctx_handler" where
  "handleImport env body ctx db = (case body of
     None \<Rightarrow> (dash_badJSON, db)
   | Some d \<Rightarrow>
     if ds_Name d = [] then ((400, DashError ''name must not be empty''), db)
     else (case ImportDashboard env (tenantID ctx) (d\<lparr>ds_CreatedBy := createdBy ctx\<rparr>) db of
       Inl e \<Rightarrow> ((400, case e of DashInvalid pe \<Rightarrow> DashBadPanel pe | _ \<Rightarrow> DashError ''import failed''), db)
     | Inr (d, db') \<Rightarrow> ((201, BoardBody d), db')))"

text \<open>What the editing handlers share: fetch the dashboard in the caller's tenant, check, then act.\<close>

definition with_board :: "(dashboard \<Rightarrow> dash_db \<Rightarrow> bool) \<Rightarrow> string \<Rightarrow> (dashboard \<Rightarrow> (dash_db, dash_reply) ctx_handler)
    \<Rightarrow> (dash_db, dash_reply) ctx_handler" where
  "with_board allowed i act ctx db = (case GetDashboard (tenantID ctx) i db of
     Inl e \<Rightarrow> (dash_storeErr e ''fetching dashboard'', db)
   | Inr existing \<Rightarrow> if \<not> allowed existing db then ((403, DashError ''forbidden''), db) else act existing ctx db)"

definition handleUpdate :: "dash_env \<Rightarrow> dash_conf \<Rightarrow> string \<Rightarrow> dashboard option \<Rightarrow> (dash_db, dash_reply) ctx_handler" where
  "handleUpdate env cf i body ctx db = (case body of
     None \<Rightarrow> (dash_badJSON, db)
   | Some d \<Rightarrow>
     if ds_Name d = [] then ((400, DashError ''name must not be empty''), db)
     else with_board (canEditDashboard cf ctx) i (\<lambda>existing ctx db.
       case UpdateDashboard env (tenantID ctx) (d\<lparr>ds_ID := i\<rparr>) db of
         Inl e \<Rightarrow> (dash_storeErr e ''updating dashboard'', db)
       | Inr (d, db') \<Rightarrow> ((200, BoardBody d), db')) ctx db)"

definition handleDelete :: "dash_conf \<Rightarrow> string \<Rightarrow> (dash_db, dash_reply) ctx_handler" where
  "handleDelete cf i ctx db = with_board (canEditDashboard cf ctx) i (\<lambda>existing ctx db.
     case DeleteDashboard (tenantID ctx) i db of
       Inl e \<Rightarrow> (dash_storeErr e ''deleting dashboard'', db)
     | Inr db' \<Rightarrow> ((204, DashEmpty), db')) ctx db"

definition handleAddPanel :: "dash_env \<Rightarrow> dash_conf \<Rightarrow> string \<Rightarrow> panel option \<Rightarrow> (dash_db, dash_reply) ctx_handler" where
  "handleAddPanel env cf i body ctx db = (case body of
     None \<Rightarrow> (dash_badJSON, db)
   | Some p \<Rightarrow> (case validatePanel p of
       Inl e \<Rightarrow> ((400, DashBadPanel e), db)
     | Inr p \<Rightarrow> with_board (canEditDashboard cf ctx) i (\<lambda>existing ctx db.
         case AddPanel env (tenantID ctx) i p db of
           Inl e \<Rightarrow> (dash_storeErr e ''adding panel'', db)
         | Inr (p, db') \<Rightarrow> ((201, PanelBody p), db')) ctx db))"

definition handleUpdatePanel :: "dash_env \<Rightarrow> dash_conf \<Rightarrow> string \<Rightarrow> string \<Rightarrow> panel option \<Rightarrow> (dash_db, dash_reply) ctx_handler" where
  "handleUpdatePanel env cf i panelId body ctx db = (case body of
     None \<Rightarrow> (dash_badJSON, db)
   | Some p \<Rightarrow> (case validatePanel p of
       Inl e \<Rightarrow> ((400, DashBadPanel e), db)
     | Inr p \<Rightarrow> (let p = p\<lparr>pn_ID := panelId, pn_DashboardID := i\<rparr> in
         with_board (canEditDashboard cf ctx) i (\<lambda>existing ctx db.
           case UpdatePanel env (tenantID ctx) p db of
             Inl e \<Rightarrow> (dash_storeErr e ''updating panel'', db)
           | Inr db' \<Rightarrow> ((200, PanelBody p), db')) ctx db)))"

definition handleDeletePanel :: "dash_conf \<Rightarrow> string \<Rightarrow> string \<Rightarrow> (dash_db, dash_reply) ctx_handler" where
  "handleDeletePanel cf i panelId ctx db = with_board (canEditDashboard cf ctx) i (\<lambda>existing ctx db.
     case DeletePanel (tenantID ctx) i panelId db of
       Inl e \<Rightarrow> (dash_storeErr e ''deleting panel'', db)
     | Inr db' \<Rightarrow> ((204, DashEmpty), db')) ctx db"

definition no_grants :: dash_reply where
  "no_grants = (501, DashError ''dashboard permission grants are not available on this deployment'')"

definition handleListPermissions :: "dash_conf \<Rightarrow> string \<Rightarrow> (dash_db, dash_reply) ctx_handler" where
  "handleListPermissions cf i ctx db = with_board (\<lambda>d db. canManageGrants cf ctx d) i (\<lambda>existing ctx db.
     if \<not> permOn cf then (no_grants, db)
     else ((200, GrantsBody (ListDashboardPermissions (ds_ID existing) db)), db)) ctx db"

definition handleSetPermission :: "dash_env \<Rightarrow> dash_conf \<Rightarrow> string \<Rightarrow> string \<Rightarrow> string option \<Rightarrow> (dash_db, dash_reply) ctx_handler" where
  "handleSetPermission env cf i userId body ctx db = with_board (\<lambda>d db. canManageGrants cf ctx d) i (\<lambda>existing ctx db.
     if \<not> permOn cf then (no_grants, db)
     else (case body of
       None \<Rightarrow> (dash_badJSON, db)
     | Some role \<Rightarrow>
       if \<not> validGrantRole role then ((400, DashError ''role must be viewer or editor''), db)
       else (case SetPermission env (ds_ID existing) userId role (createdBy ctx) db of
         None \<Rightarrow> ((500, DashError ''granting permission failed''), db)
       | Some db' \<Rightarrow> ((204, DashEmpty), db')))) ctx db"

definition handleRevokePermission :: "dash_conf \<Rightarrow> string \<Rightarrow> string \<Rightarrow> (dash_db, dash_reply) ctx_handler" where
  "handleRevokePermission cf i userId ctx db = with_board (\<lambda>d db. canManageGrants cf ctx d) i (\<lambda>existing ctx db.
     if \<not> permOn cf then (no_grants, db)
     else ((204, DashEmpty), RevokeDashboardPermission (ds_ID existing) userId db)) ctx db"

section \<open>Routes\<close>

datatype dash_route = DCreate "dashboard option" | DList | DImport "dashboard option" | DGet string
  | DUpdate string "dashboard option" | DDelete string | DExport string | DAddPanel string "panel option"
  | DUpdatePanel string string "panel option" | DDeletePanel string string | DListPerms string
  | DSetPerm string string "string option" | DRevokePerm string string

fun dash_floor :: "dash_route \<Rightarrow> role" where
  "dash_floor DList = RoleViewer"
| "dash_floor (DGet i) = RoleViewer"
| "dash_floor (DExport i) = RoleViewer"
| "dash_floor r = RoleEditor"

fun dash_handler :: "dash_env \<Rightarrow> dash_conf \<Rightarrow> dash_route \<Rightarrow> (dash_db, dash_reply) ctx_handler" where
  "dash_handler env cf (DCreate b) = handleCreate env b"
| "dash_handler env cf DList = handleList"
| "dash_handler env cf (DImport b) = handleImport env b"
| "dash_handler env cf (DGet i) = handleGet i"
| "dash_handler env cf (DUpdate i b) = handleUpdate env cf i b"
| "dash_handler env cf (DDelete i) = handleDelete cf i"
| "dash_handler env cf (DExport i) = handleExport i"
| "dash_handler env cf (DAddPanel i b) = handleAddPanel env cf i b"
| "dash_handler env cf (DUpdatePanel i p b) = handleUpdatePanel env cf i p b"
| "dash_handler env cf (DDeletePanel i p) = handleDeletePanel cf i p"
| "dash_handler env cf (DListPerms i) = handleListPermissions cf i"
| "dash_handler env cf (DSetPerm i u b) = handleSetPermission env cf i u b"
| "dash_handler env cf (DRevokePerm i u) = handleRevokePermission cf i u"

text \<open>\<open>au\<close> is the configured authorizer, if any; it does not read the dashboard tables.\<close>

definition dash_serve :: "dash_env \<Rightarrow> bool \<Rightarrow> (http_request \<Rightarrow> ('e, identity) result) option \<Rightarrow> http_request \<Rightarrow> dash_route
    \<Rightarrow> dash_db \<Rightarrow> dash_reply guarded \<times> dash_db" where
  "dash_serve env perm au r route db =
     RequireRole (map_option (\<lambda>f r s. f r) au) (dash_floor route)
       (dash_handler env \<lparr>authOn = (au \<noteq> None), permOn = perm\<rparr> route) r db"

end
