(* ===== verification/Tenancy.thy ===== *)
theory Tenancy
  imports Dashboards
begin

text \<open>
  Tenant isolation of the dashboard store: for each tenant, the shared tables behave like
  tables of its own. \<open>tenant_view T\<close> is what is left of the tables when only the rows of \<open>T\<close>
  are kept; every handler commutes with it.
\<close>

section \<open>Invariant and views\<close>

definition dash_inv :: "dash_db \<Rightarrow> bool" where
  "dash_inv db = (distinct (map ds_ID (dt_boards db)) \<and> distinct (map pn_ID (dt_panels db))
     \<and> (\<forall>p \<in> set (dt_panels db). pn_DashboardID p \<in> ds_ID ` set (dt_boards db))
     \<and> (\<forall>g \<in> set (dt_grants db). g_DashboardID g \<in> ds_ID ` set (dt_boards db)))"

definition own_ids :: "string \<Rightarrow> dash_db \<Rightarrow> string set" where
  "own_ids T db = ds_ID ` {d \<in> set (dt_boards db). ds_TenantID d = T}"

definition tenant_view :: "string \<Rightarrow> dash_db \<Rightarrow> dash_db" where
  "tenant_view T db = db\<lparr>dt_boards := filter (\<lambda>d. ds_TenantID d = T) (dt_boards db),
     dt_panels := filter (\<lambda>p. pn_DashboardID p \<in> own_ids T db) (dt_panels db),
     dt_grants := filter (\<lambda>g. g_DashboardID g \<in> own_ids T db) (dt_grants db)\<rparr>"

text \<open>New identifiers do not clash with those of other tenants.\<close>

definition fresh_outside :: "string \<Rightarrow> dash_env \<Rightarrow> dash_db \<Rightarrow> bool" where
  "fresh_outside T env db = (\<forall>n. de_uuid env n \<notin> ds_ID ` {d \<in> set (dt_boards db). ds_TenantID d \<noteq> T}
     \<and> de_uuid env n \<notin> pn_ID ` {p \<in> set (dt_panels db). pn_DashboardID p \<notin> own_ids T db})"

lemma tenant_view_simps [simp]:
  "dt_boards (tenant_view T db) = filter (\<lambda>d. ds_TenantID d = T) (dt_boards db)"
  "dt_panels (tenant_view T db) = filter (\<lambda>p. pn_DashboardID p \<in> own_ids T db) (dt_panels db)"
  "dt_grants (tenant_view T db) = filter (\<lambda>g. g_DashboardID g \<in> own_ids T db) (dt_grants db)"
  "dt_tenants (tenant_view T db) = dt_tenants db" "dt_users (tenant_view T db) = dt_users db"
  by (simp_all add: tenant_view_def)

lemma own_ids_view [simp]: "own_ids T (tenant_view T db) = own_ids T db"
  by (auto simp: own_ids_def)

lemma dash_db_eqI:
  fixes a b :: dash_db
  assumes "dt_boards a = dt_boards b" "dt_panels a = dt_panels b" "dt_grants a = dt_grants b"
    "dt_tenants a = dt_tenants b" "dt_users a = dt_users b"
  shows "a = b"
  using assms by simp

lemma own_ids_update [simp]:
  "own_ids T (db\<lparr>dt_panels := ps\<rparr>) = own_ids T db" "own_ids T (db\<lparr>dt_grants := gs\<rparr>) = own_ids T db"
  by (simp_all add: own_ids_def)

lemma own_ids_disjoint:
  assumes "dash_inv db" and "i \<in> own_ids T db" and "i \<in> own_ids T' db"
  shows "T = T'"
proof -
  obtain d d' where "d \<in> set (dt_boards db)" "d' \<in> set (dt_boards db)" "ds_ID d = ds_ID d'" "ds_TenantID d = T" "ds_TenantID d' = T'"
    using assms(2,3) by (auto simp: own_ids_def)
  moreover have "inj_on ds_ID (set (dt_boards db))" using assms(1) by (simp add: dash_inv_def distinct_map)
  ultimately show ?thesis by (metis inj_on_def)
qed

lemma find_filter_and: "find (\<lambda>x. P x \<and> Q x) xs = find P (filter Q xs)"
  by (induction xs) auto

lemma find_view: "find (\<lambda>d. ds_ID d = i \<and> ds_TenantID d = T) (dt_boards (tenant_view T db))
    = find (\<lambda>d. ds_ID d = i \<and> ds_TenantID d = T) (dt_boards db)"
  by (simp add: find_filter_and conj_commute cong: conj_cong)

lemma matches_own: "dashboardTenantMatches T i db \<longleftrightarrow> i \<in> own_ids T db"
  by (auto simp: dashboardTenantMatches_def own_ids_def list_ex_iff)

lemma found_own: "find (\<lambda>d. ds_ID d = i \<and> ds_TenantID d = T) (dt_boards db) = Some d \<Longrightarrow> i \<in> own_ids T db"
  by (auto simp: own_ids_def dest!: find_SomeD)

lemma listPanels_view: "i \<in> own_ids T db \<Longrightarrow> listPanels i (tenant_view T db) = listPanels i db"
proof -
  assume "i \<in> own_ids T db"
  then have "filter (\<lambda>p. pn_DashboardID p = i) (dt_panels (tenant_view T db)) = filter (\<lambda>p. pn_DashboardID p = i) (dt_panels db)"
    by (auto intro!: filter_cong)
  then show ?thesis by (simp add: listPanels_def)
qed

lemma GetDashboard_view: "GetDashboard T i (tenant_view T db) = GetDashboard T i db"
  unfolding GetDashboard_def find_view
  by (auto simp: listPanels_view found_own split: option.split)

lemma ListDashboards_view: "ListDashboards T (tenant_view T db) = ListDashboards T db"
  by (simp add: ListDashboards_def)

section \<open>Store operations act inside one tenant\<close>

text \<open>What an operation on behalf of \<open>T\<close> leaves alone: the invariant and every other tenant's view.\<close>

definition kept :: "string \<Rightarrow> dash_db \<Rightarrow> dash_db \<Rightarrow> bool" where
  "kept T db db' = (dash_inv db' \<and> (\<forall>T'. T' \<noteq> T \<longrightarrow> tenant_view T' db' = tenant_view T' db))"

lemma kept_refl: "dash_inv db \<Longrightarrow> kept T db db"
  by (simp add: kept_def)

lemma filter_map_keep: "(\<And>x. P (f x) = P x) \<Longrightarrow> filter P (map f xs) = map f (filter P xs)"
  by (induction xs) auto

lemma map_filter_id: "(\<And>x. P x \<Longrightarrow> f x = x) \<Longrightarrow> map f (filter P xs) = filter P xs"
  by (rule map_idI) simp

lemma filter_absorb: "(\<And>x. P x \<Longrightarrow> Q x) \<Longrightarrow> filter P (filter Q xs) = filter P xs"
  by (auto intro: filter_cong)

lemma own_ids_iff: "i \<in> own_ids T db \<longleftrightarrow> (\<exists>d \<in> set (dt_boards db). ds_ID d = i \<and> ds_TenantID d = T)"
  by (auto simp: own_ids_def)

lemma own_ids_boards: "dt_boards db' = dt_boards db \<Longrightarrow> own_ids T db' = own_ids T db"
  by (simp add: own_ids_def)

lemma tenant_view_eq_iff:
  "tenant_view T a = tenant_view T b \<longleftrightarrow> filter (\<lambda>d. ds_TenantID d = T) (dt_boards a) = filter (\<lambda>d. ds_TenantID d = T) (dt_boards b)
     \<and> filter (\<lambda>p. pn_DashboardID p \<in> own_ids T a) (dt_panels a) = filter (\<lambda>p. pn_DashboardID p \<in> own_ids T b) (dt_panels b)
     \<and> filter (\<lambda>g. g_DashboardID g \<in> own_ids T a) (dt_grants a) = filter (\<lambda>g. g_DashboardID g \<in> own_ids T b) (dt_grants b)
     \<and> dt_tenants a = dt_tenants b \<and> dt_users a = dt_users b" for a b :: dash_db
  by (cases a; cases b) (auto simp: tenant_view_def)

lemma dash_inv_view: "dash_inv db \<Longrightarrow> dash_inv (tenant_view T db)"
  by (auto simp: dash_inv_def own_ids_def distinct_map inj_on_def)

subsection \<open>Panels\<close>

text \<open>Replacing the panel table by one that agrees on the panels outside \<open>i\<close>, a dashboard of \<open>T\<close>.\<close>

lemma kept_panels:
  assumes inv: "dash_inv db" and i: "i \<in> own_ids T db"
    and same: "filter (\<lambda>p. pn_DashboardID p \<noteq> i) ps = filter (\<lambda>p. pn_DashboardID p \<noteq> i) (dt_panels db)"
    and dist: "distinct (map pn_ID ps)"
  shows "kept T db (db\<lparr>dt_panels := ps\<rparr>)"
proof -
  have "filter (\<lambda>p. pn_DashboardID p \<in> own_ids T' db) ps = filter (\<lambda>p. pn_DashboardID p \<in> own_ids T' db) (dt_panels db)"
    if "T' \<noteq> T" for T'
  proof -
    have "i \<notin> own_ids T' db" using own_ids_disjoint[OF inv i] that by blast
    then have "filter (\<lambda>p. pn_DashboardID p \<in> own_ids T' db) qs
        = filter (\<lambda>p. pn_DashboardID p \<in> own_ids T' db) (filter (\<lambda>p. pn_DashboardID p \<noteq> i) qs)" for qs
      by (auto intro: filter_cong)
    then show ?thesis using same by metis
  qed
  moreover have "pn_DashboardID p \<in> ds_ID ` set (dt_boards db)" if p: "p \<in> set ps" for p
  proof (cases "pn_DashboardID p = i")
    case True
    then show ?thesis using i by (auto simp: own_ids_def)
  next
    case False
    then have "p \<in> set (filter (\<lambda>p. pn_DashboardID p \<noteq> i) (dt_panels db))" using p same[symmetric] by simp
    then show ?thesis using inv by (auto simp: dash_inv_def)
  qed
  ultimately show ?thesis using inv dist by (auto simp: kept_def tenant_view_eq_iff dash_inv_def)
qed

lemma insert_panel_kept:
  assumes "dash_inv db" and "pn_DashboardID p \<in> own_ids T db" and "insert_panel env p db = Inr (q, db')"
  shows "kept T db db'"
  using assms(3) kept_panels[OF assms(1,2)] assms(1)
  by (auto simp: insert_panel_def Let_def dash_inv_def split: option.splits if_splits)

lemma insert_panel_view:
  assumes "pn_DashboardID p \<in> own_ids T db" and "pn_ID p \<notin> pn_ID ` {x \<in> set (dt_panels db). pn_DashboardID x \<notin> own_ids T db}"
  shows "insert_panel env p (tenant_view T db) = map_sum id (map_prod id (tenant_view T)) (insert_panel env p db)"
proof -
  have "pn_DashboardID p \<in> ds_ID ` set (dt_boards db)"
    "pn_DashboardID p \<in> ds_ID ` set (dt_boards (tenant_view T db))" using assms(1) by (auto simp: own_ids_def)
  moreover have "pn_ID p \<in> pn_ID ` set (dt_panels (tenant_view T db)) \<longleftrightarrow> pn_ID p \<in> pn_ID ` set (dt_panels db)"
    using assms(2) by (auto simp: image_iff)
  ultimately show ?thesis using assms(1)
    by (auto simp: insert_panel_def Let_def tenant_view_def own_ids_def split: option.split)
qed

lemma AddPanel_view:
  assumes "fresh_outside T env db"
  shows "AddPanel env T i p (tenant_view T db) = map_sum id (map_prod id (tenant_view T)) (AddPanel env T i p db)"
proof -
  have "i \<in> own_ids T db \<Longrightarrow> insert_panel env (q\<lparr>pn_ID := de_uuid env 0, pn_DashboardID := i\<rparr>) (tenant_view T db)
    = map_sum id (map_prod id (tenant_view T)) (insert_panel env (q\<lparr>pn_ID := de_uuid env 0, pn_DashboardID := i\<rparr>) db)" for q
    using assms by (intro insert_panel_view) (auto simp: fresh_outside_def)
  then show ?thesis by (auto simp: AddPanel_def matches_own split: sum.split)
qed

lemma AddPanel_kept:
  assumes "dash_inv db" and "AddPanel env T i p db = Inr (q, db')"
  shows "kept T db db'"
  using assms(2) by (auto simp: AddPanel_def matches_own split: sum.splits if_splits intro: insert_panel_kept[OF assms(1), rotated])

lemma UpdatePanel_view:
  "UpdatePanel env T p (tenant_view T db) = map_sum id (tenant_view T) (UpdatePanel env T p db)"
proof (cases "validatePanel p")
  case (Inr q)
  define hit where "hit = (\<lambda>x :: panel. pn_ID x = pn_ID q \<and> pn_DashboardID x = pn_DashboardID q)"
  define f where "f v = (\<lambda>x. if hit x then q\<lparr>pn_VizConfig := v, pn_CreatedAt := pn_CreatedAt x, pn_UpdatedAt := de_now env\<rparr> else x)" for v
  have ex: "pn_DashboardID q \<in> own_ids T db \<Longrightarrow> list_ex hit (dt_panels (tenant_view T db)) = list_ex hit (dt_panels db)"
    by (auto simp: hit_def list_ex_iff)
  have f: "filter (\<lambda>x. pn_DashboardID x \<in> own_ids T db) (map (f v) (dt_panels db))
      = map (f v) (filter (\<lambda>x. pn_DashboardID x \<in> own_ids T db) (dt_panels db))" for v
    by (rule filter_map_keep) (simp add: f_def hit_def)
  have "(tenant_view T db)\<lparr>dt_panels := map (f v) (dt_panels (tenant_view T db))\<rparr> = tenant_view T (db\<lparr>dt_panels := map (f v) (dt_panels db)\<rparr>)" for v
    by (rule dash_db_eqI) (simp_all add: f)
  then show ?thesis using Inr ex
    by (auto simp: UpdatePanel_def matches_own Let_def hit_def[symmetric] f_def[symmetric] split: option.split)
qed (simp add: UpdatePanel_def)

lemma UpdatePanel_kept:
  assumes inv: "dash_inv db" and ok: "UpdatePanel env T p db = Inr db'"
  shows "kept T db db'"
proof -
  obtain q where q: "validatePanel p = Inr q" using ok by (auto simp: UpdatePanel_def split: sum.splits)
  define f where "f v = (\<lambda>x. if pn_ID x = pn_ID q \<and> pn_DashboardID x = pn_DashboardID q
    then q\<lparr>pn_VizConfig := v, pn_CreatedAt := pn_CreatedAt x, pn_UpdatedAt := de_now env\<rparr> else x)" for v
  obtain v where i: "pn_DashboardID q \<in> own_ids T db" and db': "db' = db\<lparr>dt_panels := map (f v) (dt_panels db)\<rparr>"
    using ok q by (auto simp: UpdatePanel_def matches_own Let_def f_def split: option.splits if_splits)
  have "pn_ID (f v x) = pn_ID x" for x by (simp add: f_def)
  then have "distinct (map pn_ID (map (f v) (dt_panels db)))" using inv by (simp add: dash_inv_def comp_def)
  moreover have "filter (\<lambda>p. pn_DashboardID p \<noteq> pn_DashboardID q) (map (f v) (dt_panels db))
      = filter (\<lambda>p. pn_DashboardID p \<noteq> pn_DashboardID q) (dt_panels db)"
    by (subst filter_map_keep) (auto simp: f_def intro!: map_filter_id)
  ultimately show ?thesis unfolding db' by (intro kept_panels[OF inv i])
qed

lemma DeletePanel_view:
  "DeletePanel T i q (tenant_view T db) = map_sum id (tenant_view T) (DeletePanel T i q db)"
proof -
  have "i \<in> own_ids T db \<Longrightarrow> list_ex (\<lambda>x. pn_ID x = q \<and> pn_DashboardID x = i) (dt_panels (tenant_view T db))
      = list_ex (\<lambda>x. pn_ID x = q \<and> pn_DashboardID x = i) (dt_panels db)"
    by (auto simp: list_ex_iff)
  moreover have "(tenant_view T db)\<lparr>dt_panels := filter P (dt_panels (tenant_view T db))\<rparr> = tenant_view T (db\<lparr>dt_panels := filter P (dt_panels db)\<rparr>)" for P
    by (rule dash_db_eqI) (simp_all add: conj_commute)
  ultimately show ?thesis by (auto simp: DeletePanel_def matches_own Let_def)
qed

lemma DeletePanel_kept:
  assumes inv: "dash_inv db" and ok: "DeletePanel T i q db = Inr db'"
  shows "kept T db db'"
proof -
  have i: "i \<in> own_ids T db" and db': "db' = db\<lparr>dt_panels := filter (\<lambda>x. \<not> (pn_ID x = q \<and> pn_DashboardID x = i)) (dt_panels db)\<rparr>"
    using ok by (auto simp: DeletePanel_def matches_own Let_def split: if_splits)
  show ?thesis unfolding db' using inv
    by (intro kept_panels[OF inv i] filter_absorb) (auto simp: dash_inv_def distinct_map_filter)
qed

subsection \<open>Grants\<close>

lemma kept_grants:
  assumes inv: "dash_inv db" and i: "i \<in> own_ids T db"
    and same: "filter (\<lambda>g. g_DashboardID g \<noteq> i) gs = filter (\<lambda>g. g_DashboardID g \<noteq> i) (dt_grants db)"
  shows "kept T db (db\<lparr>dt_grants := gs\<rparr>)"
proof -
  have "filter (\<lambda>g. g_DashboardID g \<in> own_ids T' db) gs = filter (\<lambda>g. g_DashboardID g \<in> own_ids T' db) (dt_grants db)"
    if "T' \<noteq> T" for T'
  proof -
    have "i \<notin> own_ids T' db" using own_ids_disjoint[OF inv i] that by blast
    then have "filter (\<lambda>g. g_DashboardID g \<in> own_ids T' db) hs
        = filter (\<lambda>g. g_DashboardID g \<in> own_ids T' db) (filter (\<lambda>g. g_DashboardID g \<noteq> i) hs)" for hs
      by (auto intro: filter_cong)
    then show ?thesis using same by metis
  qed
  moreover have "g_DashboardID g \<in> ds_ID ` set (dt_boards db)" if g: "g \<in> set gs" for g
  proof (cases "g_DashboardID g = i")
    case True
    then show ?thesis using i by (auto simp: own_ids_def)
  next
    case False
    then have "g \<in> set (filter (\<lambda>g. g_DashboardID g \<noteq> i) (dt_grants db))" using g same[symmetric] by simp
    then show ?thesis using inv by (auto simp: dash_inv_def)
  qed
  ultimately show ?thesis using inv by (auto simp: kept_def tenant_view_eq_iff dash_inv_def)
qed

lemma SetPermission_kept:
  assumes inv: "dash_inv db" and i: "i \<in> own_ids T db" and ok: "SetPermission env i u ro gb db = Some db'"
  shows "kept T db db'"
proof -
  have "filter (\<lambda>g. g_DashboardID g \<noteq> i) (map (\<lambda>g. if g_DashboardID g = i \<and> g_UserID g = u then g\<lparr>g_Role := ro, g_GrantedBy := gb\<rparr> else g) gs)
      = filter (\<lambda>g. g_DashboardID g \<noteq> i) gs" for gs
    by (subst filter_map_keep) (auto intro!: map_filter_id)
  then show ?thesis using ok kept_grants[OF inv i]
    by (auto simp: SetPermission_def SetDashboardPermission_def Let_def split: if_splits)
qed

lemma SetPermission_view:
  assumes i: "i \<in> own_ids T db"
  shows "SetPermission env i u ro gb (tenant_view T db) = map_option (tenant_view T) (SetPermission env i u ro gb db)"
proof -
  define hit where "hit = (\<lambda>g :: dash_grant. g_DashboardID g = i \<and> g_UserID g = u)"
  define f where "f = (\<lambda>g. if hit g then g\<lparr>g_Role := ro, g_GrantedBy := gb\<rparr> else g)"
  have i': "i \<in> ds_ID ` set (dt_boards db)" "i \<in> ds_ID ` set (dt_boards (tenant_view T db))"
    using i by (auto simp: own_ids_def)
  have ex: "list_ex hit (dt_grants (tenant_view T db)) = list_ex hit (dt_grants db)"
    using i by (auto simp: hit_def list_ex_iff)
  have "filter (\<lambda>g. g_DashboardID g \<in> own_ids T db) (map f (dt_grants db))
      = map f (filter (\<lambda>g. g_DashboardID g \<in> own_ids T db) (dt_grants db))"
    by (rule filter_map_keep) (simp add: f_def)
  then have upd: "(tenant_view T db)\<lparr>dt_grants := map f (dt_grants (tenant_view T db))\<rparr> = tenant_view T (db\<lparr>dt_grants := map f (dt_grants db)\<rparr>)"
    by (intro dash_db_eqI) simp_all
  have app: "g_DashboardID g = i \<Longrightarrow> (tenant_view T db)\<lparr>dt_grants := dt_grants (tenant_view T db) @ [g]\<rparr>
      = tenant_view T (db\<lparr>dt_grants := dt_grants db @ [g]\<rparr>)" for g
    using i by (intro dash_db_eqI) simp_all
  show ?thesis using i' ex upd app
    unfolding SetPermission_def SetDashboardPermission_def Let_def hit_def[symmetric] f_def[symmetric]
    by (simp del: tenant_view_simps(1-3))
qed

lemma RevokeDashboardPermission_view:
  "RevokeDashboardPermission i u (tenant_view T db) = tenant_view T (RevokeDashboardPermission i u db)"
  unfolding RevokeDashboardPermission_def by (rule dash_db_eqI) (simp_all add: conj_commute)

lemma RevokeDashboardPermission_kept:
  assumes "dash_inv db" and "i \<in> own_ids T db"
  shows "kept T db (RevokeDashboardPermission i u db)"
  unfolding RevokeDashboardPermission_def by (intro kept_grants[OF assms] filter_absorb) auto

lemma GrantedRole_view: "i \<in> own_ids T db \<Longrightarrow> GrantedRole i u (tenant_view T db) = GrantedRole i u db"
proof -
  assume "i \<in> own_ids T db"
  then have "find (\<lambda>g. g_DashboardID g = i \<and> g_UserID g = u) (filter (\<lambda>g. g_DashboardID g \<in> own_ids T db) gs)
      = find (\<lambda>g. g_DashboardID g = i \<and> g_UserID g = u) gs" for gs :: "dash_grant list"
    by (induction gs) auto
  then show ?thesis by (simp add: GrantedRole_def GetDashboardPermission_def)
qed

lemma ListDashboardPermissions_view:
  "i \<in> own_ids T db \<Longrightarrow> ListDashboardPermissions i (tenant_view T db) = ListDashboardPermissions i db"
proof -
  assume "i \<in> own_ids T db"
  then have "filter (\<lambda>g. g_DashboardID g = i) (dt_grants (tenant_view T db)) = filter (\<lambda>g. g_DashboardID g = i) (dt_grants db)"
    by (auto intro!: filter_cong)
  then show ?thesis by (simp only: ListDashboardPermissions_def)
qed

subsection \<open>Dashboards\<close>

text \<open>The row update and the result of \<open>UpdateDashboard\<close>, by name.\<close>

definition upd_board :: "dash_env \<Rightarrow> string \<Rightarrow> dashboard \<Rightarrow> dashboard \<Rightarrow> dashboard" where
  "upd_board env T d x = (if ds_ID x = ds_ID d \<and> ds_TenantID x = T then x\<lparr>ds_Name := ds_Name d, ds_Description := ds_Description d,
    ds_DefaultEarliest := or_default (ds_DefaultEarliest d) ''-1h'', ds_DefaultLatest := or_default (ds_DefaultLatest d) ''now'',
    ds_UpdatedAt := de_now env\<rparr> else x)"

definition upd_result :: "dash_env \<Rightarrow> dashboard \<Rightarrow> dashboard \<Rightarrow> dashboard" where
  "upd_result env d x = d\<lparr>ds_DefaultEarliest := or_default (ds_DefaultEarliest d) ''-1h'',
    ds_DefaultLatest := or_default (ds_DefaultLatest d) ''now'', ds_TenantID := ds_TenantID x, ds_CreatedBy := ds_CreatedBy x,
    ds_CreatedAt := ds_CreatedAt x, ds_UpdatedAt := de_now env\<rparr>"

lemma UpdateDashboard_alt: "UpdateDashboard env T d db = (case find (\<lambda>x. ds_ID x = ds_ID d \<and> ds_TenantID x = T) (dt_boards db) of
    None \<Rightarrow> Inl DashNotFound
  | Some x \<Rightarrow> Inr (upd_result env d x, db\<lparr>dt_boards := map (upd_board env T d) (dt_boards db)\<rparr>))"
  by (auto simp: UpdateDashboard_def Let_def upd_board_def upd_result_def split: option.split)

lemma upd_board_simps [simp]:
  "ds_ID (upd_board env T d x) = ds_ID x" "ds_TenantID (upd_board env T d x) = ds_TenantID x"
  "ds_CreatedBy (upd_board env T d x) = ds_CreatedBy x"
  "ds_TenantID x \<noteq> T \<Longrightarrow> upd_board env T d x = x"
  by (simp_all add: upd_board_def)

lemma own_ids_upd [simp]: "own_ids T' (db\<lparr>dt_boards := map (upd_board env T d) (dt_boards db)\<rparr>) = own_ids T' db"
  by (auto simp: own_ids_iff)

lemma UpdateDashboard_view:
  "UpdateDashboard env T d (tenant_view T db) = map_sum id (map_prod id (tenant_view T)) (UpdateDashboard env T d db)"
proof -
  have "(tenant_view T db)\<lparr>dt_boards := map (upd_board env T d) (dt_boards (tenant_view T db))\<rparr>
      = tenant_view T (db\<lparr>dt_boards := map (upd_board env T d) (dt_boards db)\<rparr>)"
    by (intro dash_db_eqI) (simp_all add: filter_map_keep)
  then show ?thesis unfolding UpdateDashboard_alt find_view by (simp split: option.split)
qed

lemma UpdateDashboard_kept:
  assumes inv: "dash_inv db" and ok: "UpdateDashboard env T d db = Inr (d', db')"
  shows "kept T db db'"
proof -
  have db': "db' = db\<lparr>dt_boards := map (upd_board env T d) (dt_boards db)\<rparr>"
    using ok by (auto simp: UpdateDashboard_alt split: option.splits)
  have "filter (\<lambda>d. ds_TenantID d = T') (map (upd_board env T d) (dt_boards db)) = filter (\<lambda>d. ds_TenantID d = T') (dt_boards db)"
    if "T' \<noteq> T" for T'
    using that by (subst filter_map_keep) (auto intro!: map_filter_id)
  moreover have "ds_ID ` set (map (upd_board env T d) (dt_boards db)) = ds_ID ` set (dt_boards db)" by (auto simp: image_iff)
  ultimately show ?thesis using inv by (simp add: kept_def tenant_view_eq_iff dash_inv_def db' comp_def)
qed

lemma DeleteDashboard_view:
  "DeleteDashboard T i (tenant_view T db) = map_sum id (tenant_view T) (DeleteDashboard T i db)"
  by (auto simp: DeleteDashboard_def matches_own own_ids_iff intro!: dash_db_eqI filter_cong) metis+

lemma DeleteDashboard_kept:
  assumes inv: "dash_inv db" and ok: "DeleteDashboard T i db = Inr db'"
  shows "kept T db db'"
proof -
  have i: "i \<in> own_ids T db" and db': "db' = db\<lparr>dt_boards := filter (\<lambda>d. \<not> (ds_ID d = i \<and> ds_TenantID d = T)) (dt_boards db),
      dt_panels := filter (\<lambda>p. pn_DashboardID p \<noteq> i) (dt_panels db), dt_grants := filter (\<lambda>g. g_DashboardID g \<noteq> i) (dt_grants db)\<rparr>"
    using ok by (auto simp: DeleteDashboard_def matches_own split: if_splits)
  have ids: "own_ids T' db' = own_ids T' db" if "T' \<noteq> T" for T' using that by (auto simp: own_ids_def db')
  have no: "i \<notin> own_ids T' db" if "T' \<noteq> T" for T' using own_ids_disjoint[OF inv i] that by blast
  have "tenant_view T' db' = tenant_view T' db" if "T' \<noteq> T" for T'
    using that no[OF that] by (simp add: tenant_view_eq_iff ids[OF that]) (auto simp: db' intro!: filter_cong)
  moreover have "dash_inv db'" using inv by (auto simp: dash_inv_def db' distinct_map_filter)
  ultimately show ?thesis by (simp add: kept_def)
qed

text \<open>A new dashboard of \<open>T\<close> under an unused identifier.\<close>

lemma new_board:
  assumes inv: "dash_inv db" and d: "ds_TenantID d = T" "ds_ID d \<notin> ds_ID ` set (dt_boards db)"
  defines "db' \<equiv> db\<lparr>dt_boards := dt_boards db @ [d]\<rparr>"
  shows new_board_kept: "kept T db db'"
    and new_board_view: "tenant_view T db' = (tenant_view T db)\<lparr>dt_boards := dt_boards (tenant_view T db) @ [d]\<rparr>"
    and new_board_own: "ds_ID d \<in> own_ids T db'"
    and new_board_fresh: "fresh_outside T env db \<Longrightarrow> fresh_outside T env db'"
proof -
  have ids: "own_ids T' db' = (if T' = T then insert (ds_ID d) (own_ids T db) else own_ids T' db)" for T'
    using d(1) by (auto simp: own_ids_def db'_def)
  then show "ds_ID d \<in> own_ids T db'" by simp
  show "kept T db db'" using inv d by (auto simp: kept_def tenant_view_eq_iff ids) (auto simp: db'_def dash_inv_def)
  have "pn_DashboardID p \<noteq> ds_ID d" if "p \<in> set (dt_panels db)" for p using inv d(2) that by (metis dash_inv_def)
  moreover have "g_DashboardID g \<noteq> ds_ID d" if "g \<in> set (dt_grants db)" for g using inv d(2) that by (metis dash_inv_def)
  ultimately show "tenant_view T db' = (tenant_view T db)\<lparr>dt_boards := dt_boards (tenant_view T db) @ [d]\<rparr>"
    using d(1) by (intro dash_db_eqI) (auto simp: ids, auto simp: db'_def intro!: filter_cong)
  show "fresh_outside T env db \<Longrightarrow> fresh_outside T env db'"
    using d(1) by (auto simp: fresh_outside_def ids) (auto simp: db'_def)
qed

lemma board_constraints_view:
  assumes "fresh_outside T env db" and "ds_TenantID d = T" and "ds_ID d = de_uuid env n"
  shows "board_constraints (tenant_view T db) d = board_constraints db d"
  using assms by (auto simp: board_constraints_def fresh_outside_def)

lemma CreateDashboard_view:
  assumes "dash_inv db" and "fresh_outside T env db" and "ds_TenantID d = T" and "T \<noteq> []"
  shows "CreateDashboard env d (tenant_view T db) = map_sum id (map_prod id (tenant_view T)) (CreateDashboard env d db)"
  using assms board_constraints_view[OF assms(2)]
  by (auto simp: CreateDashboard_def Let_def or_default_def board_constraints_def[of db] new_board_view simp del: tenant_view_simps)

lemma CreateDashboard_kept:
  assumes "dash_inv db" and "CreateDashboard env d db = Inr (d', db')" and "ds_TenantID d = T" and "T \<noteq> []"
  shows "kept T db db'"
  using assms by (auto simp: CreateDashboard_def Let_def or_default_def board_constraints_def split: if_splits intro!: new_board_kept)

lemma insert_panel_effect:
  assumes "insert_panel env p db = Inr (q, db')"
  obtains r where "db' = db\<lparr>dt_panels := dt_panels db @ [r]\<rparr>" "pn_DashboardID r = pn_DashboardID p"
  using assms by (auto simp: insert_panel_def Let_def split: option.splits if_splits)

lemma insert_panel_fresh:
  assumes "insert_panel env p db = Inr (q, db')" and "pn_DashboardID p \<in> own_ids T db" and "fresh_outside T env db"
  shows "fresh_outside T env db'" "own_ids T db' = own_ids T db"
proof -
  obtain r where "db' = db\<lparr>dt_panels := dt_panels db @ [r]\<rparr>" "pn_DashboardID r = pn_DashboardID p"
    using insert_panel_effect[OF assms(1)] .
  then show "fresh_outside T env db'" "own_ids T db' = own_ids T db" using assms(2,3) by (auto simp: fresh_outside_def)
qed

lemma kept_trans: "kept T a b \<Longrightarrow> kept T b c \<Longrightarrow> kept T a c"
  by (simp add: kept_def)

lemma import_panels_view:
  assumes "dash_inv db" and "i \<in> own_ids T db" and "fresh_outside T env db"
  shows "import_panels env i n ps (tenant_view T db) = map_sum id (map_prod id (tenant_view T)) (import_panels env i n ps db)"
  using assms
proof (induction ps arbitrary: n db)
  case (Cons p ps)
  show ?case
  proof (cases "validatePanel p")
    case (Inr q)
    define q' where "q' = q\<lparr>pn_ID := de_uuid env n, pn_DashboardID := i\<rparr>"
    have own: "pn_DashboardID q' \<in> own_ids T db" using Cons.prems(2) by (simp add: q'_def)
    have view: "insert_panel env q' (tenant_view T db) = map_sum id (map_prod id (tenant_view T)) (insert_panel env q' db)"
      using Cons.prems(3) own by (intro insert_panel_view) (auto simp: q'_def fresh_outside_def)
    have step: "import_panels env i n (p # ps) db' = bindE (insert_panel env q' db')
        (\<lambda>(p, db). bindE (import_panels env i (n + 1) ps db) (\<lambda>(ps, db). Inr (p # ps, db)))" for db'
      using Inr by (simp add: q'_def)
    show ?thesis
    proof (cases "insert_panel env q' db")
      case (Inr z)
      obtain x db1 where z: "z = (x, db1)" by (cases z)
      have "import_panels env i (n + 1) ps (tenant_view T db1) = map_sum id (map_prod id (tenant_view T)) (import_panels env i (n + 1) ps db1)"
        using insert_panel_fresh[OF Inr[unfolded z] own Cons.prems(3)] Cons.prems(2)
          insert_panel_kept[OF Cons.prems(1) own Inr[unfolded z]] by (intro Cons.IH) (simp_all add: kept_def)
      then show ?thesis using Inr z view unfolding step
        by (cases "import_panels env i (n + 1) ps db1") (auto simp: map_prod_def)
    qed (use view step in simp)
  qed simp
qed simp

lemma import_panels_kept:
  assumes "dash_inv db" and "i \<in> own_ids T db" and "fresh_outside T env db" and "import_panels env i n ps db = Inr (qs, db')"
  shows "kept T db db'"
  using assms
proof (induction ps arbitrary: n db qs)
  case (Cons p ps)
  from Cons.prems(4) obtain q x db1 qs' where
    ins: "insert_panel env (q\<lparr>pn_ID := de_uuid env n, pn_DashboardID := i\<rparr>) db = Inr (x, db1)"
    and imp: "import_panels env i (n + 1) ps db1 = Inr (qs', db')"
    by (auto simp: bindE_eq_Inr split: sum.splits)
  have own: "pn_DashboardID (q\<lparr>pn_ID := de_uuid env n, pn_DashboardID := i\<rparr>) \<in> own_ids T db" using Cons.prems(2) by simp
  note k = insert_panel_kept[OF Cons.prems(1) own ins]
  have "kept T db1 db'"
    using Cons.IH[OF _ _ _ imp] insert_panel_fresh[OF ins own Cons.prems(3)] Cons.prems(2) k by (simp add: kept_def)
  then show ?case using k kept_trans by blast
qed (simp add: kept_refl)

text \<open>The row that an import adds.\<close>

definition import_board :: "dash_env \<Rightarrow> string \<Rightarrow> dashboard \<Rightarrow> dashboard" where
  "import_board env T d = \<lparr>ds_ID = de_uuid env 0, ds_TenantID = T, ds_Name = ds_Name d, ds_Description = ds_Description d,
    ds_DefaultEarliest = or_default (ds_DefaultEarliest d) ''-1h'', ds_DefaultLatest = or_default (ds_DefaultLatest d) ''now'',
    ds_CreatedBy = or_default (ds_CreatedBy d) ''anonymous'', ds_CreatedAt = de_now env, ds_UpdatedAt = de_now env, ds_Panels = []\<rparr>"

lemma import_board_simps [simp]: "ds_ID (import_board env T d) = de_uuid env 0" "ds_TenantID (import_board env T d) = T"
  by (simp_all add: import_board_def)

lemma ImportDashboard_alt: "ImportDashboard env T d db =
   (if \<not> board_constraints db (import_board env T d) then Inl DashDatabase
    else bindE (import_panels env (de_uuid env 0) 1 (ds_Panels d) (db\<lparr>dt_boards := dt_boards db @ [import_board env T d]\<rparr>))
      (\<lambda>(ps, db). Inr ((import_board env T d)\<lparr>ds_Panels := ps\<rparr>, db)))"
  by (simp add: ImportDashboard_def Let_def import_board_def)

lemma ImportDashboard_view:
  assumes inv: "dash_inv db" and fresh: "fresh_outside T env db"
  shows "ImportDashboard env T d (tenant_view T db) = map_sum id (map_prod id (tenant_view T)) (ImportDashboard env T d db)"
proof -
  define b where "b = import_board env T d"
  define add where "add db = db\<lparr>dt_boards := dt_boards db @ [b]\<rparr>" for db :: dash_db
  have form: "ImportDashboard env T d x = (if \<not> board_constraints x b then Inl DashDatabase
      else bindE (import_panels env (ds_ID b) 1 (ds_Panels d) (add x)) (\<lambda>(ps, db). Inr (b\<lparr>ds_Panels := ps\<rparr>, db)))" for x
    by (simp add: ImportDashboard_alt b_def add_def)
  have same: "board_constraints (tenant_view T db) b = board_constraints db b"
    by (rule board_constraints_view[OF fresh, of _ 0]) (simp_all add: b_def)
  show ?thesis
  proof (cases "board_constraints db b")
    case True
    then have b: "ds_TenantID b = T" "ds_ID b \<notin> ds_ID ` set (dt_boards db)" by (simp_all add: board_constraints_def b_def)
    have "add (tenant_view T db) = tenant_view T (add db)" using new_board_view[OF inv b] by (simp add: add_def)
    moreover have "import_panels env (ds_ID b) 1 (ds_Panels d) (tenant_view T (add db))
        = map_sum id (map_prod id (tenant_view T)) (import_panels env (ds_ID b) 1 (ds_Panels d) (add db))"
      using new_board_kept[OF inv b] new_board_own[OF inv b] new_board_fresh[OF inv b fresh] unfolding add_def
      by (intro import_panels_view) (simp_all add: kept_def)
    ultimately show ?thesis using True same unfolding form
      by (cases "import_panels env (ds_ID b) 1 (ds_Panels d) (add db)") auto
  qed (use form same in simp)
qed

lemma ImportDashboard_kept:
  assumes inv: "dash_inv db" and fresh: "fresh_outside T env db" and ok: "ImportDashboard env T d db = Inr (d', db')"
  shows "kept T db db'"
proof -
  define b where "b = import_board env T d"
  obtain qs where b: "ds_TenantID b = T" "ds_ID b \<notin> ds_ID ` set (dt_boards db)"
    and imp: "import_panels env (ds_ID b) 1 (ds_Panels d) (db\<lparr>dt_boards := dt_boards db @ [b]\<rparr>) = Inr (qs, db')"
    using ok by (auto simp: ImportDashboard_alt b_def board_constraints_def bindE_eq_Inr split: if_splits)
  have "kept T (db\<lparr>dt_boards := dt_boards db @ [b]\<rparr>) db'"
    using new_board_kept[OF inv b] new_board_own[OF inv b] new_board_fresh[OF inv b fresh] imp
    by (intro import_panels_kept) (simp_all add: kept_def)
  then show ?thesis using new_board_kept[OF inv b] kept_trans by blast
qed

section \<open>Handlers act inside the caller's tenant\<close>

text \<open>The contract of a handler: with unused identifiers, it answers as if the caller's tenant had
  the tables to itself, leaves there what it leaves in the shared ones, and keeps everything else.\<close>

locale scoped_handler =
  fixes env :: dash_env and h :: "(dash_db, dash_reply) ctx_handler"
  assumes on_view: "dash_inv db \<Longrightarrow> fresh_outside (tenantID ctx) env db \<Longrightarrow>
      h ctx (tenant_view (tenantID ctx) db) = map_prod id (tenant_view (tenantID ctx)) (h ctx db)"
    and keeps: "dash_inv db \<Longrightarrow> fresh_outside (tenantID ctx) env db \<Longrightarrow> kept (tenantID ctx) db (snd (h ctx db))"
begin

lemma inv: "dash_inv db \<Longrightarrow> fresh_outside (tenantID ctx) env db \<Longrightarrow> dash_inv (snd (h ctx db))"
  using keeps by (simp add: kept_def)

lemma other_tenants:
  "dash_inv db \<Longrightarrow> fresh_outside (tenantID ctx) env db \<Longrightarrow> T \<noteq> tenantID ctx \<Longrightarrow> tenant_view T (snd (h ctx db)) = tenant_view T db"
  using keeps by (simp add: kept_def)

text \<open>The reply does not depend on what other tenants store.\<close>

lemma reply_from_view:
  assumes "dash_inv db" "dash_inv db'" "fresh_outside (tenantID ctx) env db" "fresh_outside (tenantID ctx) env db'"
    and "tenant_view (tenantID ctx) db = tenant_view (tenantID ctx) db'"
  shows "fst (h ctx db) = fst (h ctx db')"
  using on_view[OF assms(1,3)] on_view[OF assms(2,4)] assms(5) by (metis fst_map_prod id_apply)

end

lemma found_board: "GetDashboard T i db = Inr d \<Longrightarrow> i \<in> own_ids T db \<and> ds_ID d = i"
  by (auto simp: GetDashboard_def found_own dest!: find_SomeD split: option.splits)

lemma canEditDashboard_view: "ds_ID d \<in> own_ids T db \<Longrightarrow> canEditDashboard cf ctx d (tenant_view T db) = canEditDashboard cf ctx d db"
  by (auto simp: canEditDashboard_def GrantedRole_view split: option.split)

text \<open>A handler behind \<open>with_board\<close> satisfies the contract if its action does on a dashboard that the
  tenant owns.\<close>

lemma with_board_scoped:
  assumes allowed: "\<And>ctx d db. ds_ID d \<in> own_ids (tenantID ctx) db \<Longrightarrow> allowed ctx d (tenant_view (tenantID ctx) db) = allowed ctx d db"
    and act: "\<And>ctx d db. \<lbrakk>dash_inv db; fresh_outside (tenantID ctx) env db; i \<in> own_ids (tenantID ctx) db; ds_ID d = i\<rbrakk> \<Longrightarrow>
      act d ctx (tenant_view (tenantID ctx) db) = map_prod id (tenant_view (tenantID ctx)) (act d ctx db)
      \<and> kept (tenantID ctx) db (snd (act d ctx db))"
  shows "scoped_handler env (\<lambda>ctx. with_board (allowed ctx) i act ctx)"
proof
  fix db ctx
  assume hyp: "dash_inv db" "fresh_outside (tenantID ctx) env db"
  show "with_board (allowed ctx) i act ctx (tenant_view (tenantID ctx) db)
      = map_prod id (tenant_view (tenantID ctx)) (with_board (allowed ctx) i act ctx db)"
    using act[OF hyp] allowed by (auto simp: with_board_def GetDashboard_view dest: found_board split: sum.split)
  show "kept (tenantID ctx) db (snd (with_board (allowed ctx) i act ctx db))"
    using act[OF hyp] hyp(1) by (auto simp: with_board_def kept_refl dest!: found_board split: sum.split)
qed

interpretation create: scoped_handler env "handleCreate env body" for env body
proof
  fix db ctx
  assume hyp: "dash_inv db" "fresh_outside (tenantID ctx) env db"
  show "handleCreate env body ctx (tenant_view (tenantID ctx) db) = map_prod id (tenant_view (tenantID ctx)) (handleCreate env body ctx db)"
    using CreateDashboard_view[OF hyp]
    by (auto simp: handleCreate_def split: option.split) (auto split: sum.split)
  show "kept (tenantID ctx) db (snd (handleCreate env body ctx db))"
    using hyp(1) by (auto simp: handleCreate_def kept_refl split: option.split sum.split intro: CreateDashboard_kept)
qed

interpretation list_all: scoped_handler env handleList for env
  by unfold_locales (simp_all add: handleList_def ListDashboards_view kept_refl)

interpretation get: scoped_handler env "handleGet i" for env i
  by unfold_locales (auto simp: handleGet_def GetDashboard_view kept_refl split: sum.split)

interpretation imported: scoped_handler env "handleImport env body" for env body
proof
  fix db ctx
  assume hyp: "dash_inv db" "fresh_outside (tenantID ctx) env db"
  show "handleImport env body ctx (tenant_view (tenantID ctx) db) = map_prod id (tenant_view (tenantID ctx)) (handleImport env body ctx db)"
    using ImportDashboard_view[OF hyp]
    by (auto simp: handleImport_def split: option.split) (auto split: sum.split)
  show "kept (tenantID ctx) db (snd (handleImport env body ctx db))"
    using hyp by (auto simp: handleImport_def kept_refl split: option.split sum.split intro: ImportDashboard_kept)
qed

text \<open>The actions behind \<open>with_board\<close>: each commutes with the view and is kept.\<close>

lemma scoped_const: "scoped_handler env (\<lambda>ctx db. (c, db))"
  by unfold_locales (simp_all add: kept_refl)

interpretation update: scoped_handler env "handleUpdate env cf i body" for env cf i body
proof (cases "body = None \<or> ds_Name (the body) = []")
  case True
  then have "\<exists>c. handleUpdate env cf i body = (\<lambda>ctx db. (c, db))"
    by (cases body) (auto simp: handleUpdate_def fun_eq_iff)
  then show "scoped_handler env (handleUpdate env cf i body)" using scoped_const by metis
next
  case False
  then obtain d where d: "body = Some d" "ds_Name d \<noteq> []" by auto
  have "scoped_handler env (\<lambda>ctx. with_board (canEditDashboard cf ctx) i (\<lambda>existing ctx db.
       case UpdateDashboard env (tenantID ctx) (d\<lparr>ds_ID := i\<rparr>) db of
         Inl e \<Rightarrow> (dash_storeErr e ''updating dashboard'', db)
       | Inr (d, db') \<Rightarrow> ((200, BoardBody d), db')) ctx)"
    by (rule with_board_scoped)
      (auto simp: canEditDashboard_view UpdateDashboard_view kept_refl split: sum.split intro: UpdateDashboard_kept)
  then show "scoped_handler env (handleUpdate env cf i body)" using d by (simp add: handleUpdate_def[abs_def])
qed

interpretation delete: scoped_handler env "handleDelete cf i" for env cf i
  unfolding handleDelete_def[abs_def]
  by (rule with_board_scoped)
    (auto simp: canEditDashboard_view DeleteDashboard_view kept_refl split: sum.split intro: DeleteDashboard_kept)

interpretation add_panel: scoped_handler env "handleAddPanel env cf i body" for env cf i body
proof (cases "case body of None \<Rightarrow> Inl PanelQueryEmpty | Some p \<Rightarrow> validatePanel p")
  case (Inl e)
  then have "\<exists>c. handleAddPanel env cf i body = (\<lambda>ctx db. (c, db))"
    by (auto simp: handleAddPanel_def fun_eq_iff split: option.splits)
  then show "scoped_handler env (handleAddPanel env cf i body)" using scoped_const by metis
next
  case (Inr p)
  have "scoped_handler env (\<lambda>ctx. with_board (canEditDashboard cf ctx) i (\<lambda>existing ctx db.
         case AddPanel env (tenantID ctx) i p db of
           Inl e \<Rightarrow> (dash_storeErr e ''adding panel'', db)
         | Inr (p, db') \<Rightarrow> ((201, PanelBody p), db')) ctx)"
    by (rule with_board_scoped)
      (auto simp: canEditDashboard_view AddPanel_view kept_refl split: sum.split intro: AddPanel_kept)
  then show "scoped_handler env (handleAddPanel env cf i body)" using Inr
    by (auto simp: handleAddPanel_def[abs_def] split: option.splits)
qed

interpretation update_panel: scoped_handler env "handleUpdatePanel env cf i pid body" for env cf i pid body
proof (cases "case body of None \<Rightarrow> Inl PanelQueryEmpty | Some p \<Rightarrow> validatePanel p")
  case (Inl e)
  then have "\<exists>c. handleUpdatePanel env cf i pid body = (\<lambda>ctx db. (c, db))"
    by (auto simp: handleUpdatePanel_def fun_eq_iff split: option.splits)
  then show "scoped_handler env (handleUpdatePanel env cf i pid body)" using scoped_const by metis
next
  case (Inr p)
  define q where "q = p\<lparr>pn_ID := pid, pn_DashboardID := i\<rparr>"
  have "scoped_handler env (\<lambda>ctx. with_board (canEditDashboard cf ctx) i (\<lambda>existing ctx db.
           case UpdatePanel env (tenantID ctx) q db of
             Inl e \<Rightarrow> (dash_storeErr e ''updating panel'', db)
           | Inr db' \<Rightarrow> ((200, PanelBody q), db')) ctx)"
    by (rule with_board_scoped)
      (auto simp: canEditDashboard_view UpdatePanel_view kept_refl split: sum.split intro: UpdatePanel_kept)
  then show "scoped_handler env (handleUpdatePanel env cf i pid body)" using Inr
    by (auto simp: handleUpdatePanel_def[abs_def] q_def[symmetric] Let_def split: option.splits)
qed

interpretation delete_panel: scoped_handler env "handleDeletePanel cf i pid" for env cf i pid
  unfolding handleDeletePanel_def[abs_def]
  by (rule with_board_scoped)
    (auto simp: canEditDashboard_view DeletePanel_view kept_refl split: sum.split intro: DeletePanel_kept)

interpretation list_perms: scoped_handler env "handleListPermissions cf i" for env cf i
  unfolding handleListPermissions_def[abs_def]
  by (rule with_board_scoped) (auto simp: ListDashboardPermissions_view kept_refl)

interpretation set_perm: scoped_handler env "handleSetPermission env cf i u body" for env cf i u body
  unfolding handleSetPermission_def[abs_def]
  by (rule with_board_scoped)
    (auto simp: SetPermission_view kept_refl split: option.split intro: SetPermission_kept)

interpretation revoke_perm: scoped_handler env "handleRevokePermission cf i u" for env cf i u
  unfolding handleRevokePermission_def[abs_def]
  by (rule with_board_scoped)
    (auto simp: RevokeDashboardPermission_view kept_refl intro: RevokeDashboardPermission_kept)

interpretation any: scoped_handler env "dash_handler env cf route" for env cf route
proof (cases route)
qed (simp_all add: handleExport_def create.scoped_handler_axioms list_all.scoped_handler_axioms get.scoped_handler_axioms
  imported.scoped_handler_axioms update.scoped_handler_axioms delete.scoped_handler_axioms add_panel.scoped_handler_axioms
  update_panel.scoped_handler_axioms delete_panel.scoped_handler_axioms list_perms.scoped_handler_axioms
  set_perm.scoped_handler_axioms revoke_perm.scoped_handler_axioms)

section \<open>Runs\<close>

text \<open>Requests served one after the other, each with the environment of its moment.\<close>

type_synonym dash_event = "dash_env \<times> http_request \<times> dash_route"

fun dash_run :: "bool \<Rightarrow> (http_request \<Rightarrow> ('e, identity) result) option \<Rightarrow> dash_event list \<Rightarrow> dash_db
    \<Rightarrow> dash_reply guarded list \<times> dash_db" where
  "dash_run perm au [] db = ([], db)"
| "dash_run perm au ((env, r, route) # es) db =
    (let (a, db') = dash_serve env perm au r route db; (as, db'') = dash_run perm au es db' in (a # as, db''))"

text \<open>The tenant a request acts for; \<open>None\<close> if the authorizer refuses it.\<close>

definition caller_tenant :: "(http_request \<Rightarrow> ('e, identity) result) option \<Rightarrow> http_request \<Rightarrow> string option" where
  "caller_tenant au r = (case au of None \<Rightarrow> Some (tenantID None)
     | Some f \<Rightarrow> (case f r of Inl _ \<Rightarrow> None | Inr i \<Rightarrow> Some (tenantID (Some i))))"

definition of_tenant :: "(http_request \<Rightarrow> ('e, identity) result) option \<Rightarrow> string \<Rightarrow> dash_event \<Rightarrow> bool" where
  "of_tenant au T e = (caller_tenant au (fst (snd e)) = Some T)"

text \<open>Fresh UUIDs: no identifier generated for a request is in use when it is served.\<close>

definition unused :: "dash_env \<Rightarrow> dash_db \<Rightarrow> bool" where
  "unused env db = (\<forall>n. de_uuid env n \<notin> ds_ID ` set (dt_boards db) \<union> pn_ID ` set (dt_panels db))"

fun run_fresh :: "bool \<Rightarrow> (http_request \<Rightarrow> ('e, identity) result) option \<Rightarrow> dash_event list \<Rightarrow> dash_db \<Rightarrow> bool" where
  "run_fresh perm au [] db = True"
| "run_fresh perm au ((env, r, route) # es) db =
    (unused env db \<and> run_fresh perm au es (snd (dash_serve env perm au r route db)))"

lemma unused_fresh: "unused env db \<Longrightarrow> fresh_outside T env db"
  by (auto simp: unused_def fresh_outside_def)

lemma served_on_view:
  assumes "dash_inv db" and "unused env db" and "caller_tenant au r = Some T"
  shows "dash_serve env perm au r route (tenant_view T db) = map_prod id (tenant_view T) (dash_serve env perm au r route db)"
  using assms any.on_view[OF assms(1) unused_fresh[OF assms(2)]]
  by (auto simp: dash_serve_def RequireRole_def caller_tenant_def prod.map_comp comp_def split: option.splits sum.splits)

lemma served_kept:
  assumes "dash_inv db" and "unused env db"
  shows "dash_inv (snd (dash_serve env perm au r route db))"
    and "caller_tenant au r \<noteq> Some T \<Longrightarrow> tenant_view T (snd (dash_serve env perm au r route db)) = tenant_view T db"
  using any.inv[OF assms(1) unused_fresh[OF assms(2)]] any.other_tenants[OF assms(1) unused_fresh[OF assms(2)]] assms(1)
  by (auto simp: dash_serve_def RequireRole_def caller_tenant_def split: option.splits sum.splits)

text \<open>C3: Tenants do not interfere. Take any sequence of dashboard requests by callers of any tenants
  (authenticated or not), served on the shared tables with fresh identifiers. The replies that the
  requests of tenant \<open>T\<close> get, and what the tables hold for \<open>T\<close> at the end, are those of serving the
  requests of \<open>T\<close> alone on a database that holds nothing but the rows of \<open>T\<close>: the store with its
  \<open>tenant_id\<close> conditions implements one private database per tenant.\<close>

theorem tenant_noninterference:
  assumes "dash_inv db" and "run_fresh perm au es db"
  shows "fst (dash_run perm au (filter (of_tenant au T) es) (tenant_view T db))
      = map snd (filter (\<lambda>(e, a). of_tenant au T e) (zip es (fst (dash_run perm au es db))))
    \<and> snd (dash_run perm au (filter (of_tenant au T) es) (tenant_view T db)) = tenant_view T (snd (dash_run perm au es db))"
  using assms
proof (induction es arbitrary: db)
  case (Cons e es)
  obtain env r route where e: "e = (env, r, route)" by (cases e) auto
  obtain a db1 where s: "dash_serve env perm au r route db = (a, db1)" by fastforce
  have u: "unused env db" and fresh: "run_fresh perm au es db1" using Cons.prems(2) e s by auto
  have inv: "dash_inv db1" using served_kept(1)[OF Cons.prems(1) u] s by (metis snd_conv)
  note IH = Cons.IH[OF inv fresh]
  obtain as db2 where run: "dash_run perm au es db1 = (as, db2)" by fastforce
  show ?case
  proof (cases "of_tenant au T e")
    case True
    then have "dash_serve env perm au r route (tenant_view T db) = (a, tenant_view T db1)"
      using served_on_view[OF Cons.prems(1) u, of au r T perm route] s e by (simp add: of_tenant_def)
    then show ?thesis using True IH s run e by (auto split: prod.split)
  next
    case False
    then have "tenant_view T db1 = tenant_view T db"
      using served_kept(2)[OF Cons.prems(1) u, of au r T perm route] s e by (simp add: of_tenant_def)
    then show ?thesis using False IH s run e by simp
  qed
qed simp

text \<open>Two tenants, one dashboard each; the second tries to delete the dashboard of the first.\<close>

definition w_env :: "string \<Rightarrow> dash_env" where
  "w_env s = \<lparr>de_now = 0, de_uuid = (\<lambda>n. s @ replicate n (CHR ''-'')), de_jsonb = (\<lambda>s. if s = [] then None else Some s)\<rparr>"

definition w_au :: "(http_request \<Rightarrow> (unit, identity) result) option" where
  "w_au = Some (\<lambda>r. Inr \<lparr>id_TenantID = rq_Authorization r, id_UserID = ''u'', id_Role = RoleAdmin\<rparr>)"

definition w_board :: dashboard where
  "w_board = \<lparr>ds_ID = [], ds_TenantID = [], ds_Name = ''n'', ds_Description = [], ds_DefaultEarliest = [], ds_DefaultLatest = [],
     ds_CreatedBy = [], ds_CreatedAt = 0, ds_UpdatedAt = 0, ds_Panels = []\<rparr>"

definition w_req :: "string \<Rightarrow> http_request" where
  "w_req t = blank_request\<lparr>rq_Authorization := t\<rparr>"

definition w_events :: "dash_event list" where
  "w_events = [(w_env ''a'', w_req ''A'', DCreate (Some w_board)), (w_env ''b'', w_req ''B'', DCreate (Some w_board)),
     (w_env ''c'', w_req ''B'', DDelete ''a'')]"

definition w_db :: dash_db where
  "w_db = \<lparr>dt_boards = [], dt_panels = [], dt_grants = [], dt_tenants = [''A'', ''B''], dt_users = [''u'']\<rparr>"

lemma w_db_inv: "dash_inv w_db"
  by (simp add: dash_inv_def w_db_def)

lemmas w_defs = w_env_def w_au_def w_board_def w_req_def w_events_def w_db_def
  dash_serve_def RequireRole_def Satisfies_def roleRank_def handleCreate_def handleDelete_def with_board_def GetDashboard_def CreateDashboard_def
  board_constraints_def or_default_def tenantID_def createdBy_def dash_storeErr_def Let_def

lemma w_fresh: "run_fresh True w_au w_events w_db"
  by (simp add: unused_def w_defs)

theorem tenant_noninterference_witness:
  "fst (dash_run True w_au w_events w_db) ! 2 = Served (404, DashError ''not found'')
   \<and> map ds_ID (dt_boards (snd (dash_run True w_au (filter (of_tenant w_au ''A'') w_events) (tenant_view ''A'' w_db)))) = [''a'']"
  using tenant_noninterference[OF w_db_inv w_fresh, of "''A''"] by (simp add: w_defs)

end
