(* ===== verification/Dashboard_Access.thy ===== *)
theory Dashboard_Access
  imports Tenancy
begin

text \<open>
  Who may change a dashboard: what each handler of \<open>api/dashboards/handler.go\<close> changes of an
  existing dashboard, its panels and its grants, and under which authority; and the round trip
  through export and import.
\<close>

section \<open>What a handler may change\<close>

text \<open>The rows that belong to dashboard \<open>i\<close>: its content (its own row and its panels) and its grants.\<close>

definition content_of :: "string \<Rightarrow> dash_db \<Rightarrow> dashboard list \<times> panel list" where
  "content_of i db = (filter (\<lambda>d. ds_ID d = i) (dt_boards db), filter (\<lambda>p. pn_DashboardID p = i) (dt_panels db))"

definition grants_of :: "string \<Rightarrow> dash_db \<Rightarrow> dash_grant list" where
  "grants_of i db = filter (\<lambda>g. g_DashboardID g = i) (dt_grants db)"

definition board_exists :: "string \<Rightarrow> dash_db \<Rightarrow> bool" where
  "board_exists i db = (i \<in> ds_ID ` set (dt_boards db))"

text \<open>The contract: content changes only for a caller who may edit, grants of a dashboard that stays
  only for one who may manage them, both within the caller's tenant.\<close>

locale access_checked =
  fixes cf :: dash_conf and h :: "(dash_db, dash_reply) ctx_handler"
  assumes content: "dash_inv db \<Longrightarrow> board_exists j db \<Longrightarrow> content_of j (snd (h ctx db)) \<noteq> content_of j db \<Longrightarrow>
      \<exists>d. GetDashboard (tenantID ctx) j db = Inr d \<and> canEditDashboard cf ctx d db"
    and grants: "dash_inv db \<Longrightarrow> board_exists j db \<Longrightarrow> board_exists j (snd (h ctx db)) \<Longrightarrow> grants_of j (snd (h ctx db)) \<noteq> grants_of j db \<Longrightarrow>
      \<exists>d. GetDashboard (tenantID ctx) j db = Inr d \<and> canManageGrants cf ctx d"
begin

text \<open>A caller outside the dashboard's tenant changes nothing of it.\<close>

lemma foreign_untouched:
  assumes "dash_inv db" and "board_exists j db" and "GetDashboard (tenantID ctx) j db = Inl DashNotFound"
  shows "content_of j (snd (h ctx db)) = content_of j db"
  using content[OF assms(1,2)] assms(3) by fastforce

end

text \<open>A handler behind \<open>with_board\<close>: the check is made for the dashboard that the action changes.\<close>

lemma edit_checked:
  assumes off: "\<And>d ctx db j. j \<noteq> i \<Longrightarrow> content_of j (snd (act d ctx db)) = content_of j db"
    and gr: "\<And>d ctx db j. dash_inv db \<Longrightarrow> board_exists j (snd (act d ctx db)) \<Longrightarrow> grants_of j (snd (act d ctx db)) = grants_of j db"
  shows "access_checked cf (\<lambda>ctx. with_board (canEditDashboard cf ctx) i act ctx)"
proof
  fix j db ctx
  assume "content_of j (snd (with_board (canEditDashboard cf ctx) i act ctx db)) \<noteq> content_of j db"
  then show "\<exists>d. GetDashboard (tenantID ctx) j db = Inr d \<and> canEditDashboard cf ctx d db"
    using off by (cases "j = i") (auto simp: with_board_def split: sum.splits if_splits)
qed (use gr in \<open>auto simp: with_board_def split: sum.splits if_splits\<close>)

lemma manage_checked:
  assumes "\<And>d ctx db j. content_of j (snd (act d ctx db)) = content_of j db"
    and "\<And>d ctx db j. ds_ID d = i \<Longrightarrow> j \<noteq> i \<Longrightarrow> grants_of j (snd (act d ctx db)) = grants_of j db"
  shows "access_checked cf (\<lambda>ctx. with_board (\<lambda>d db. canManageGrants cf ctx d) i act ctx)"
proof
  fix j db ctx
  assume "grants_of j (snd (with_board (\<lambda>d db. canManageGrants cf ctx d) i act ctx db)) \<noteq> grants_of j db"
  then show "\<exists>d. GetDashboard (tenantID ctx) j db = Inr d \<and> canManageGrants cf ctx d"
    using assms(2) by (cases "j = i") (auto simp: with_board_def dest: found_board split: sum.splits if_splits)
qed (use assms(1) in \<open>auto simp: with_board_def split: sum.splits if_splits\<close>)

lemma unchanged_checked: "(\<And>ctx db. snd (h ctx db) = db) \<Longrightarrow> access_checked cf h"
  by unfold_locales simp_all

section \<open>Effects of the store operations\<close>

named_theorems effect_simps

lemma UpdateDashboard_effect [effect_simps]:
  assumes "UpdateDashboard env T d db = Inr (d', db')"
  shows "j \<noteq> ds_ID d \<Longrightarrow> content_of j db' = content_of j db" "grants_of j db' = grants_of j db"
proof -
  have db': "db' = db\<lparr>dt_boards := map (upd_board env T d) (dt_boards db)\<rparr>"
    using assms by (auto simp: UpdateDashboard_alt split: option.splits)
  show "grants_of j db' = grants_of j db" by (simp add: db' grants_of_def)
  show "content_of j db' = content_of j db" if "j \<noteq> ds_ID d"
  proof -
    have "map (upd_board env T d) (filter (\<lambda>d. ds_ID d = j) (dt_boards db)) = filter (\<lambda>d. ds_ID d = j) (dt_boards db)"
      using that by (intro map_filter_id) (auto simp: upd_board_def)
    then show ?thesis by (simp add: db' content_of_def filter_map_keep)
  qed
qed

lemma DeleteDashboard_effect [effect_simps]:
  assumes "DeleteDashboard T i db = Inr db'"
  shows "j \<noteq> i \<Longrightarrow> content_of j db' = content_of j db" "j \<noteq> i \<Longrightarrow> grants_of j db' = grants_of j db"
  using assms by (auto simp: DeleteDashboard_def content_of_def grants_of_def simp del: filter_filter split: if_splits intro!: filter_absorb)

lemma insert_panel_others [effect_simps]:
  assumes "insert_panel env p db = Inr (q, db')"
  shows "j \<noteq> pn_DashboardID p \<Longrightarrow> content_of j db' = content_of j db" "grants_of j db' = grants_of j db"
    "dt_boards db' = dt_boards db"
  using assms by (auto simp: content_of_def grants_of_def elim!: insert_panel_effect)

lemma AddPanel_effect [effect_simps]:
  assumes "AddPanel env T i p db = Inr (q, db')"
  shows "j \<noteq> i \<Longrightarrow> content_of j db' = content_of j db" "grants_of j db' = grants_of j db"
  using assms by (auto simp: AddPanel_def insert_panel_others split: sum.splits if_splits)

lemma UpdatePanel_effect [effect_simps]:
  assumes "UpdatePanel env T p db = Inr db'"
  shows "j \<noteq> pn_DashboardID p \<Longrightarrow> content_of j db' = content_of j db" "grants_of j db' = grants_of j db"
proof -
  obtain q where q: "validatePanel p = Inr q" using assms by (auto simp: UpdatePanel_def split: sum.splits)
  define f where "f v = (\<lambda>x. if pn_ID x = pn_ID q \<and> pn_DashboardID x = pn_DashboardID q
    then q\<lparr>pn_VizConfig := v, pn_CreatedAt := pn_CreatedAt x, pn_UpdatedAt := de_now env\<rparr> else x)" for v
  obtain v where db': "db' = db\<lparr>dt_panels := map (f v) (dt_panels db)\<rparr>"
    using assms q by (auto simp: UpdatePanel_def Let_def f_def split: option.splits if_splits)
  have qp: "pn_DashboardID q = pn_DashboardID p" using q by (auto simp: validatePanel_def split: if_splits)
  show "grants_of j db' = grants_of j db" by (simp add: db' grants_of_def)
  show "content_of j db' = content_of j db" if "j \<noteq> pn_DashboardID p"
  proof -
    have "map (f v) (filter (\<lambda>x. pn_DashboardID x = j) (dt_panels db)) = filter (\<lambda>x. pn_DashboardID x = j) (dt_panels db)"
      using that qp by (intro map_filter_id) (auto simp: f_def)
    moreover have "filter (\<lambda>x. pn_DashboardID x = j) (map (f v) (dt_panels db)) = map (f v) (filter (\<lambda>x. pn_DashboardID x = j) (dt_panels db))"
      by (rule filter_map_keep) (auto simp: f_def)
    ultimately show ?thesis by (simp add: db' content_of_def)
  qed
qed

lemma DeletePanel_effect [effect_simps]:
  assumes "DeletePanel T i q db = Inr db'"
  shows "j \<noteq> i \<Longrightarrow> content_of j db' = content_of j db" "grants_of j db' = grants_of j db"
  using assms by (auto simp: DeletePanel_def content_of_def grants_of_def Let_def simp del: filter_filter split: if_splits intro!: filter_absorb)

lemma SetPermission_effect [effect_simps]:
  assumes "SetPermission env i u ro gb db = Some db'"
  shows "content_of j db' = content_of j db" "j \<noteq> i \<Longrightarrow> grants_of j db' = grants_of j db"
proof -
  define f where "f = (\<lambda>g :: dash_grant. if g_DashboardID g = i \<and> g_UserID g = u then g\<lparr>g_Role := ro, g_GrantedBy := gb\<rparr> else g)"
  obtain gs where db': "db' = db\<lparr>dt_grants := gs\<rparr>" and gs: "gs = map f (dt_grants db) \<or> (\<exists>g. g_DashboardID g = i \<and> gs = dt_grants db @ [g])"
    using assms unfolding SetPermission_def SetDashboardPermission_def Let_def f_def[symmetric] by (auto split: if_splits)
  show "content_of j db' = content_of j db" by (simp add: db' content_of_def)
  have "filter (\<lambda>g. g_DashboardID g = j) (map f (dt_grants db)) = map f (filter (\<lambda>g. g_DashboardID g = j) (dt_grants db))"
    by (rule filter_map_keep) (simp add: f_def)
  moreover have "j \<noteq> i \<Longrightarrow> map f (filter (\<lambda>g. g_DashboardID g = j) (dt_grants db)) = filter (\<lambda>g. g_DashboardID g = j) (dt_grants db)"
    by (rule map_filter_id) (auto simp: f_def)
  ultimately show "j \<noteq> i \<Longrightarrow> grants_of j db' = grants_of j db" using gs by (auto simp: db' grants_of_def)
qed

lemma RevokeDashboardPermission_effect [effect_simps]:
  "content_of j (RevokeDashboardPermission i u db) = content_of j db"
  "j \<noteq> i \<Longrightarrow> grants_of j (RevokeDashboardPermission i u db) = grants_of j db"
  by (auto simp: RevokeDashboardPermission_def content_of_def grants_of_def intro!: filter_cong)

section \<open>Every handler checks\<close>

lemma import_panels_effect:
  "import_panels env i n ps db = Inr (qs, db') \<Longrightarrow>
    (j \<noteq> i \<longrightarrow> content_of j db' = content_of j db) \<and> grants_of j db' = grants_of j db \<and> dt_boards db' = dt_boards db"
proof (induction ps arbitrary: n db qs)
  case (Cons p ps)
  from Cons.prems obtain q x db1 qs' where
    ins: "insert_panel env (q\<lparr>pn_ID := de_uuid env n, pn_DashboardID := i\<rparr>) db = Inr (x, db1)"
    and imp: "import_panels env i (n + 1) ps db1 = Inr (qs', db')"
    by (auto simp: bindE_eq_Inr split: sum.splits)
  show ?case using Cons.IH[OF imp] insert_panel_others[OF ins] by simp
qed simp

lemma new_board_effect:
  "board_exists j db \<Longrightarrow> ds_ID d \<notin> ds_ID ` set (dt_boards db) \<Longrightarrow>
    content_of j (db\<lparr>dt_boards := dt_boards db @ [d]\<rparr>) = content_of j db \<and> j \<noteq> ds_ID d"
  by (auto simp: content_of_def board_exists_def)

interpretation create_acc: access_checked cf "handleCreate env body" for cf env body
proof
  fix j db ctx
  assume j: "board_exists j db"
  have "content_of j (snd (handleCreate env body ctx db)) = content_of j db"
    using new_board_effect[OF j]
    by (auto simp: handleCreate_def CreateDashboard_def Let_def board_constraints_def split: option.split)
  then show "\<exists>d. GetDashboard (tenantID ctx) j db = Inr d \<and> canEditDashboard cf ctx d db"
    if "content_of j (snd (handleCreate env body ctx db)) \<noteq> content_of j db" using that by blast
  have "grants_of j (snd (handleCreate env body ctx db)) = grants_of j db"
    by (auto simp: handleCreate_def CreateDashboard_def Let_def grants_of_def split: option.split)
  then show "\<exists>d. GetDashboard (tenantID ctx) j db = Inr d \<and> canManageGrants cf ctx d"
    if "grants_of j (snd (handleCreate env body ctx db)) \<noteq> grants_of j db" using that by blast
qed

lemma ImportDashboard_effect:
  assumes "ImportDashboard env T d db = Inr (d', db')" and j: "board_exists j db"
  shows "content_of j db' = content_of j db" "grants_of j db' = grants_of j db"
proof -
  define b where "b = import_board env T d"
  obtain qs where b: "ds_ID b \<notin> ds_ID ` set (dt_boards db)"
    and imp: "import_panels env (ds_ID b) 1 (ds_Panels d) (db\<lparr>dt_boards := dt_boards db @ [b]\<rparr>) = Inr (qs, db')"
    using assms(1) by (auto simp: ImportDashboard_alt b_def board_constraints_def bindE_eq_Inr split: if_splits)
  show "content_of j db' = content_of j db" using import_panels_effect[OF imp] new_board_effect[OF j b] by auto
  show "grants_of j db' = grants_of j db" using import_panels_effect[OF imp] by (simp add: grants_of_def)
qed

interpretation import_acc: access_checked cf "handleImport env body" for cf env body
proof
  fix j db ctx
  assume j: "board_exists j db"
  have same: "content_of j (snd (handleImport env body ctx db)) = content_of j db \<and> grants_of j (snd (handleImport env body ctx db)) = grants_of j db"
    using ImportDashboard_effect[OF _ j] by (auto simp: handleImport_def split: option.split sum.split)
  then show "\<exists>d. GetDashboard (tenantID ctx) j db = Inr d \<and> canEditDashboard cf ctx d db"
    if "content_of j (snd (handleImport env body ctx db)) \<noteq> content_of j db" using that by blast
  show "\<exists>d. GetDashboard (tenantID ctx) j db = Inr d \<and> canManageGrants cf ctx d"
    if "grants_of j (snd (handleImport env body ctx db)) \<noteq> grants_of j db" using that same by blast
qed

interpretation update_acc: access_checked cf "handleUpdate env cf i body" for cf env i body
proof (cases "body = None \<or> ds_Name (the body) = []")
  case True
  then have "snd (handleUpdate env cf i body ctx db) = db" for ctx db by (cases body) (auto simp: handleUpdate_def)
  then show "access_checked cf (handleUpdate env cf i body)" by (rule unchanged_checked)
next
  case False
  then obtain d where d: "body = Some d" "ds_Name d \<noteq> []" by auto
  have "access_checked cf (\<lambda>ctx. with_board (canEditDashboard cf ctx) i (\<lambda>existing ctx db.
       case UpdateDashboard env (tenantID ctx) (d\<lparr>ds_ID := i\<rparr>) db of
         Inl e \<Rightarrow> (dash_storeErr e ''updating dashboard'', db)
       | Inr (d, db') \<Rightarrow> ((200, BoardBody d), db')) ctx)"
    by (rule edit_checked) (auto simp: UpdateDashboard_effect split: sum.splits)
  then show "access_checked cf (handleUpdate env cf i body)" using d by (simp add: handleUpdate_def[abs_def])
qed

lemma DeleteDashboard_gone:
  "dash_inv db \<Longrightarrow> DeleteDashboard T i db = Inr db' \<Longrightarrow> board_exists j db' \<Longrightarrow> j \<noteq> i"
  by (auto simp: DeleteDashboard_def dashboardTenantMatches_def list_ex_iff board_exists_def dash_inv_def distinct_map inj_on_def
      split: if_splits) metis

interpretation delete_acc: access_checked cf "handleDelete cf i" for cf i
  unfolding handleDelete_def[abs_def]
  by (rule edit_checked) (auto simp: DeleteDashboard_effect dest: DeleteDashboard_gone split: sum.splits)

interpretation add_panel_acc: access_checked cf "handleAddPanel env cf i body" for cf env i body
proof (cases "case body of None \<Rightarrow> Inl PanelQueryEmpty | Some p \<Rightarrow> validatePanel p")
  case (Inl e)
  then have "snd (handleAddPanel env cf i body ctx db) = db" for ctx db
    by (auto simp: handleAddPanel_def split: option.splits)
  then show "access_checked cf (handleAddPanel env cf i body)" by (rule unchanged_checked)
next
  case (Inr p)
  have "access_checked cf (\<lambda>ctx. with_board (canEditDashboard cf ctx) i (\<lambda>existing ctx db.
         case AddPanel env (tenantID ctx) i p db of
           Inl e \<Rightarrow> (dash_storeErr e ''adding panel'', db)
         | Inr (p, db') \<Rightarrow> ((201, PanelBody p), db')) ctx)"
    by (rule edit_checked) (auto simp: AddPanel_effect split: sum.splits)
  then show "access_checked cf (handleAddPanel env cf i body)" using Inr
    by (auto simp: handleAddPanel_def[abs_def] split: option.splits)
qed

interpretation update_panel_acc: access_checked cf "handleUpdatePanel env cf i pid body" for cf env i pid body
proof (cases "case body of None \<Rightarrow> Inl PanelQueryEmpty | Some p \<Rightarrow> validatePanel p")
  case (Inl e)
  then have "snd (handleUpdatePanel env cf i pid body ctx db) = db" for ctx db
    by (auto simp: handleUpdatePanel_def split: option.splits)
  then show "access_checked cf (handleUpdatePanel env cf i pid body)" by (rule unchanged_checked)
next
  case (Inr p)
  define q where "q = p\<lparr>pn_ID := pid, pn_DashboardID := i\<rparr>"
  have "pn_DashboardID q = i" by (simp add: q_def)
  then have "access_checked cf (\<lambda>ctx. with_board (canEditDashboard cf ctx) i (\<lambda>existing ctx db.
           case UpdatePanel env (tenantID ctx) q db of
             Inl e \<Rightarrow> (dash_storeErr e ''updating panel'', db)
           | Inr db' \<Rightarrow> ((200, PanelBody q), db')) ctx)"
    by (intro edit_checked) (auto simp: UpdatePanel_effect split: sum.splits)
  then show "access_checked cf (handleUpdatePanel env cf i pid body)" using Inr
    by (auto simp: handleUpdatePanel_def[abs_def] q_def[symmetric] Let_def split: option.splits)
qed

interpretation delete_panel_acc: access_checked cf "handleDeletePanel cf i pid" for cf i pid
  unfolding handleDeletePanel_def[abs_def]
  by (rule edit_checked) (auto simp: DeletePanel_effect split: sum.splits)

interpretation set_perm_acc: access_checked cf "handleSetPermission env cf i u body" for cf env i u body
  unfolding handleSetPermission_def[abs_def]
  by (rule manage_checked) (auto simp: SetPermission_effect split: option.splits)

interpretation revoke_perm_acc: access_checked cf "handleRevokePermission cf i u" for cf i u
  unfolding handleRevokePermission_def[abs_def]
  by (rule manage_checked) (auto simp: RevokeDashboardPermission_effect)

interpretation list_perms_acc: access_checked cf "handleListPermissions cf i" for cf i
  by (rule unchanged_checked) (auto simp: handleListPermissions_def with_board_def split: sum.split)

interpretation get_acc: access_checked cf "handleGet i" for cf i
  by (rule unchanged_checked) (auto simp: handleGet_def split: sum.split)

interpretation list_acc: access_checked cf handleList for cf
  by (rule unchanged_checked) (simp add: handleList_def)

interpretation any_acc: access_checked cf "dash_handler env cf route" for cf env route
proof (cases route)
qed (simp_all add: handleExport_def create_acc.access_checked_axioms import_acc.access_checked_axioms update_acc.access_checked_axioms
  delete_acc.access_checked_axioms add_panel_acc.access_checked_axioms update_panel_acc.access_checked_axioms
  delete_panel_acc.access_checked_axioms set_perm_acc.access_checked_axioms revoke_perm_acc.access_checked_axioms
  list_perms_acc.access_checked_axioms get_acc.access_checked_axioms list_acc.access_checked_axioms)

section \<open>Authority\<close>

lemma read_only_route: "dash_floor route \<noteq> RoleEditor \<Longrightarrow> snd (dash_handler env cf route ctx db) = db"
  by (cases route) (auto simp: handleList_def handleExport_def handleGet_def split: sum.split)

lemma GetDashboard_unique:
  assumes "dash_inv db" and "d \<in> set (dt_boards db)" and "GetDashboard T (ds_ID d) db = Inr d'"
  shows "ds_TenantID d = T \<and> d' = d\<lparr>ds_Panels := listPanels (ds_ID d) db\<rparr>"
proof -
  obtain x where "find (\<lambda>x. ds_ID x = ds_ID d \<and> ds_TenantID x = T) (dt_boards db) = Some x"
    and d': "d' = x\<lparr>ds_Panels := listPanels (ds_ID d) db\<rparr>"
    using assms(3) by (auto simp: GetDashboard_def split: option.splits)
  then have x: "x \<in> set (dt_boards db)" "ds_ID x = ds_ID d" "ds_TenantID x = T" by (auto dest!: find_SomeD)
  have "inj_on ds_ID (set (dt_boards db))" using assms(1) by (simp add: dash_inv_def distinct_map)
  then have "x = d" using x(1,2) assms(2) by (meson inj_onD)
  then show ?thesis using x(3) d' by simp
qed

definition admin_or_creator :: "identity \<Rightarrow> dashboard \<Rightarrow> bool" where
  "admin_or_creator i d = (Satisfies (id_Role i) RoleAdmin \<or> id_UserID i \<noteq> [] \<and> id_UserID i = ds_CreatedBy d)"

lemma canManageGrants_auth: "authOn cf \<Longrightarrow> canManageGrants cf (Some i) d = admin_or_creator i d"
  by (simp add: canManageGrants_def admin_or_creator_def)

lemma canEditDashboard_auth:
  assumes "authOn cf" and "canEditDashboard cf (Some i) d db"
  shows "admin_or_creator i d \<or> permOn cf \<and>
    (\<exists>g \<in> set (dt_grants db). g_DashboardID g = ds_ID d \<and> g_UserID g = id_UserID i \<and> Satisfies (g_Role g) RoleEditor)"
  using assms by (auto simp: canEditDashboard_def admin_or_creator_def GrantedRole_def GetDashboardPermission_def
      split: if_splits option.splits dest!: find_SomeD)


definition w_one :: dash_db where
  "w_one = w_db\<lparr>dt_boards := [w_board\<lparr>ds_ID := ''a'', ds_TenantID := ''A''\<rparr>]\<rparr>"

definition w_viewer :: "http_request \<Rightarrow> (unit, identity) result" where
  "w_viewer = (\<lambda>r. Inr \<lparr>id_TenantID = ''A'', id_UserID = ''u'', id_Role = RoleViewer\<rparr>)"

lemma w_one_board: "dash_inv w_one" "w_board\<lparr>ds_ID := ''a'', ds_TenantID := ''A''\<rparr> \<in> set (dt_boards w_one)"
  by (simp_all add: w_one_def w_db_def w_board_def dash_inv_def)

lemma w_viewer_low: "w_viewer r = Inr i \<Longrightarrow> \<not> Satisfies (id_Role i) RoleEditor"
  by (auto simp: w_viewer_def Satisfies_def roleRank_def)


section \<open>Stored rows\<close>

text \<open>What the checks before every write establish of the stored rows.\<close>

definition panel_ok :: "panel \<Rightarrow> bool" where
  "panel_ok p = (validatePanel p = Inr p \<and> panel_ints p)"

definition board_ok :: "dash_db \<Rightarrow> dashboard \<Rightarrow> bool" where
  "board_ok db d = (ds_Name d \<noteq> [] \<and> ds_DefaultEarliest d \<noteq> [] \<and> ds_DefaultLatest d \<noteq> [] \<and> ds_CreatedBy d \<noteq> []
     \<and> ds_TenantID d \<in> set (dt_tenants db) \<and> ds_Panels d = [])"

definition grant_ok :: "dash_db \<Rightarrow> dash_grant \<Rightarrow> bool" where
  "grant_ok db g = ((g_Role g = RoleViewer \<or> g_Role g = RoleEditor) \<and> g_UserID g \<in> set (dt_users db) \<and> g_GrantedBy g \<in> set (dt_users db))"

definition rows_ok :: "dash_db \<Rightarrow> bool" where
  "rows_ok db = ((\<forall>p \<in> set (dt_panels db). panel_ok p) \<and> (\<forall>d \<in> set (dt_boards db). board_ok db d) \<and> (\<forall>g \<in> set (dt_grants db). grant_ok db g))"

text \<open>\<open>JSONB\<close> never prints the empty string.\<close>

definition jsonb_prints :: "dash_env \<Rightarrow> bool" where
  "jsonb_prints env = (\<forall>s v. de_jsonb env s = Some v \<longrightarrow> v \<noteq> [])"

lemma validatePanel_iff: "validatePanel p = Inr q \<longleftrightarrow> pn_Query p \<noteq> [] \<and> pn_QueryLanguage p \<noteq> ''sql'' \<and> validVizType (pn_VizType p)
    \<and> q = (if pn_VizConfig p = [] then p\<lparr>pn_VizConfig := ''{}''\<rparr> else p)"
  by (auto simp: validatePanel_def)

lemma panel_ok_iff: "panel_ok p \<longleftrightarrow> pn_Query p \<noteq> [] \<and> pn_QueryLanguage p \<noteq> ''sql'' \<and> validVizType (pn_VizType p)
    \<and> pn_VizConfig p \<noteq> [] \<and> panel_ints p"
proof -
  have "p \<noteq> p\<lparr>pn_VizConfig := ''{}''\<rparr>" if "pn_VizConfig p = []"
    using that by (metis list.distinct(1) panel.select_convs(7) panel.surjective panel.update_convs(7))
  then show ?thesis by (auto simp: panel_ok_def validatePanel_iff)
qed

lemma panel_ok_stored:
  assumes p: "validatePanel p = Inr q" "panel_ints q" and v: "de_jsonb env x = Some v" "jsonb_prints env"
  shows "panel_ok (q\<lparr>pn_ID := a, pn_DashboardID := b, pn_VizConfig := v, pn_CreatedAt := c, pn_UpdatedAt := e\<rparr>)"
proof -
  have "v \<noteq> []" using v by (auto simp: jsonb_prints_def)
  moreover have "pn_Query q \<noteq> []" "pn_QueryLanguage q \<noteq> ''sql''" "validVizType (pn_VizType q)"
    using p(1) unfolding validatePanel_iff by simp_all
  ultimately show ?thesis using p(2) by (simp add: panel_ok_iff panel_ints_def)
qed

lemma or_default_nonempty: "or_default s (x # xs) \<noteq> []"
  by (simp add: or_default_def)

lemma rows_ok_panels: "rows_ok db \<Longrightarrow> (\<And>p. p \<in> set ps \<Longrightarrow> panel_ok p) \<Longrightarrow> rows_ok (db\<lparr>dt_panels := ps\<rparr>)"
  by (simp add: rows_ok_def board_ok_def grant_ok_def)

lemma rows_ok_boards: "rows_ok db \<Longrightarrow> (\<And>d. d \<in> set bs \<Longrightarrow> board_ok db d) \<Longrightarrow> rows_ok (db\<lparr>dt_boards := bs\<rparr>)"
  by (simp add: rows_ok_def board_ok_def grant_ok_def)

lemma rows_ok_grants: "rows_ok db \<Longrightarrow> (\<And>g. g \<in> set gs \<Longrightarrow> grant_ok db g) \<Longrightarrow> rows_ok (db\<lparr>dt_grants := gs\<rparr>)"
  by (simp add: rows_ok_def board_ok_def grant_ok_def)

lemma insert_panel_ok:
  assumes "rows_ok db" and "jsonb_prints env" and "validatePanel p = Inr q"
    and "insert_panel env (q\<lparr>pn_ID := a, pn_DashboardID := b\<rparr>) db = Inr (x, db')"
  shows "rows_ok db'"
proof -
  obtain v where v: "de_jsonb env (pn_VizConfig q) = Some v" and "panel_ints (q\<lparr>pn_ID := a, pn_DashboardID := b\<rparr>)"
    and db': "db' = db\<lparr>dt_panels := dt_panels db @ [q\<lparr>pn_ID := a, pn_DashboardID := b, pn_VizConfig := v, pn_CreatedAt := de_now env, pn_UpdatedAt := de_now env\<rparr>]\<rparr>"
    using assms(4) by (auto simp: insert_panel_def Let_def split: option.splits if_splits)
  moreover from this(2) have "panel_ints q" by (simp add: panel_ints_def)
  moreover have "\<forall>p \<in> set (dt_panels db). panel_ok p" using assms(1) by (simp add: rows_ok_def)
  ultimately show ?thesis using assms(1) panel_ok_stored[OF assms(3) _ v assms(2)]
    by (auto intro!: rows_ok_panels)
qed

lemma import_panels_ok:
  "rows_ok db \<Longrightarrow> jsonb_prints env \<Longrightarrow> import_panels env i n ps db = Inr (qs, db') \<Longrightarrow> rows_ok db'"
proof (induction ps arbitrary: n db qs)
  case (Cons p ps)
  from Cons.prems(3) obtain q x db1 qs' where q: "validatePanel p = Inr q"
    and ins: "insert_panel env (q\<lparr>pn_ID := de_uuid env n, pn_DashboardID := i\<rparr>) db = Inr (x, db1)"
    and imp: "import_panels env i (n + 1) ps db1 = Inr (qs', db')"
    by (auto simp: bindE_eq_Inr split: sum.splits)
  show ?case using Cons.IH[OF insert_panel_ok[OF Cons.prems(1,2) q ins] Cons.prems(2) imp] .
qed simp

lemma CreateDashboard_ok:
  "rows_ok db \<Longrightarrow> ds_Name d \<noteq> [] \<Longrightarrow> CreateDashboard env d db = Inr (d', db') \<Longrightarrow> rows_ok db'"
  by (auto simp: CreateDashboard_def Let_def board_constraints_def board_ok_def rows_ok_def[of db] or_default_nonempty
      split: if_splits intro!: rows_ok_boards)

lemma UpdateDashboard_ok:
  "rows_ok db \<Longrightarrow> ds_Name d \<noteq> [] \<Longrightarrow> UpdateDashboard env T d db = Inr (d', db') \<Longrightarrow> rows_ok db'"
  by (auto simp: UpdateDashboard_alt board_ok_def rows_ok_def[of db] or_default_nonempty upd_board_def
      split: option.splits intro!: rows_ok_boards)

lemma ImportDashboard_ok:
  assumes "rows_ok db" and "jsonb_prints env" and "ds_Name d \<noteq> []" and "ImportDashboard env T d db = Inr (d', db')"
  shows "rows_ok db'"
proof -
  obtain qs where c: "board_constraints db (import_board env T d)"
    and imp: "import_panels env (de_uuid env 0) 1 (ds_Panels d) (db\<lparr>dt_boards := dt_boards db @ [import_board env T d]\<rparr>) = Inr (qs, db')"
    using assms(4) by (auto simp: ImportDashboard_alt bindE_eq_Inr split: if_splits)
  have "board_ok db (import_board env T d)"
    using c assms(3) by (auto simp: board_ok_def import_board_def board_constraints_def or_default_nonempty)
  then have "rows_ok (db\<lparr>dt_boards := dt_boards db @ [import_board env T d]\<rparr>)"
    using assms(1) by (intro rows_ok_boards) (auto simp: rows_ok_def)
  then show ?thesis using import_panels_ok[OF _ assms(2) imp] by blast
qed

lemma DeleteDashboard_ok: "rows_ok db \<Longrightarrow> DeleteDashboard T i db = Inr db' \<Longrightarrow> rows_ok db'"
  by (auto simp: DeleteDashboard_def rows_ok_def board_ok_def grant_ok_def split: if_splits)

lemma AddPanel_ok: "rows_ok db \<Longrightarrow> jsonb_prints env \<Longrightarrow> AddPanel env T i p db = Inr (q, db') \<Longrightarrow> rows_ok db'"
  by (auto simp: AddPanel_def split: sum.splits if_splits intro: insert_panel_ok)

lemma UpdatePanel_ok:
  assumes "rows_ok db" and "jsonb_prints env" and "UpdatePanel env T p db = Inr db'"
  shows "rows_ok db'"
proof -
  obtain q v where q: "validatePanel p = Inr q" and v: "de_jsonb env (pn_VizConfig q) = Some v" and ints: "panel_ints q"
    and db': "db' = db\<lparr>dt_panels := map (\<lambda>x. if pn_ID x = pn_ID q \<and> pn_DashboardID x = pn_DashboardID q
       then q\<lparr>pn_VizConfig := v, pn_CreatedAt := pn_CreatedAt x, pn_UpdatedAt := de_now env\<rparr> else x) (dt_panels db)\<rparr>"
    using assms(3) by (auto simp: UpdatePanel_def Let_def split: sum.splits option.splits if_splits)
  show ?thesis unfolding db' using assms(1) panel_ok_stored[OF q ints v assms(2), where a = "pn_ID q" and b = "pn_DashboardID q"]
    by (intro rows_ok_panels) (auto simp: rows_ok_def)
qed

lemma DeletePanel_ok: "rows_ok db \<Longrightarrow> DeletePanel T i q db = Inr db' \<Longrightarrow> rows_ok db'"
  by (auto simp: DeletePanel_def Let_def rows_ok_def[of db] split: if_splits intro!: rows_ok_panels)

lemma SetPermission_ok: "rows_ok db \<Longrightarrow> SetPermission env i u ro gb db = Some db' \<Longrightarrow> rows_ok db'"
  by (auto simp: SetPermission_def SetDashboardPermission_def Let_def rows_ok_def[of db] grant_ok_def split: if_splits intro!: rows_ok_grants)

lemma RevokeDashboardPermission_ok: "rows_ok db \<Longrightarrow> rows_ok (RevokeDashboardPermission i u db)"
  by (auto simp: RevokeDashboardPermission_def rows_ok_def[of db] intro!: rows_ok_grants)

lemmas rows_ok_intros = CreateDashboard_ok UpdateDashboard_ok ImportDashboard_ok DeleteDashboard_ok AddPanel_ok UpdatePanel_ok
  DeletePanel_ok SetPermission_ok RevokeDashboardPermission_ok

lemma dash_handler_ok:
  assumes "rows_ok db" and "jsonb_prints env"
  shows "rows_ok (snd (dash_handler env cf route ctx db))"
proof (cases route)
  case (DCreate b)
  then show ?thesis using assms by (auto simp: handleCreate_def split: option.split sum.split dest!: CreateDashboard_ok[rotated 2])
next
  case (DImport b)
  then show ?thesis using assms by (auto simp: handleImport_def split: option.split sum.split dest!: ImportDashboard_ok[rotated 3])
next
  case (DUpdate i b)
  then show ?thesis using assms by (auto simp: handleUpdate_def with_board_def split: option.split sum.split dest!: UpdateDashboard_ok[rotated 2])
next
  case (DDelete i)
  then show ?thesis using assms by (auto simp: handleDelete_def with_board_def split: sum.split intro: DeleteDashboard_ok)
next
  case (DAddPanel i b)
  then show ?thesis using assms by (auto simp: handleAddPanel_def with_board_def split: option.split sum.split intro: AddPanel_ok)
next
  case (DUpdatePanel i q b)
  then show ?thesis using assms
    by (auto simp: handleUpdatePanel_def with_board_def Let_def split: option.split sum.split intro: UpdatePanel_ok)
next
  case (DDeletePanel i q)
  then show ?thesis using assms by (auto simp: handleDeletePanel_def with_board_def split: sum.split intro: DeletePanel_ok)
next
  case (DSetPerm i u b)
  then show ?thesis using assms by (auto simp: handleSetPermission_def with_board_def split: option.split sum.split intro: SetPermission_ok)
next
  case (DRevokePerm i u)
  then show ?thesis using assms by (auto simp: handleRevokePermission_def with_board_def split: sum.split intro: RevokeDashboardPermission_ok)
qed (use assms in \<open>auto simp: handleList_def handleExport_def handleGet_def handleListPermissions_def with_board_def split: sum.split\<close>)

text \<open>C22: Well-formed rows. Starting from well-formed tables, after any sequence of requests by any callers
  every stored row is well-formed: identifiers are unique and no panel or grant is left without its
  dashboard; every panel passes \<open>validatePanel\<close> unchanged (a non-empty query not declared as raw SQL,
  a known visualisation, a non-empty configuration) and its integers fit their columns; every
  dashboard has a name, a default range, a creator and an existing tenant; every grant is for
  viewer or editor, to and by existing users.\<close>

theorem dashboard_rows_wellformed:
  assumes "dash_inv db" and "rows_ok db" and "run_fresh perm au es db" and "\<forall>(env, e) \<in> set es. jsonb_prints env"
  shows "dash_inv (snd (dash_run perm au es db)) \<and> rows_ok (snd (dash_run perm au es db))"
  using assms
proof (induction es arbitrary: db)
  case (Cons e es)
  obtain env r route where e: "e = (env, r, route)" by (cases e) auto
  obtain a db1 where s: "dash_serve env perm au r route db = (a, db1)" by fastforce
  have u: "unused env db" "run_fresh perm au es db1" and j: "jsonb_prints env" "\<forall>(env, e) \<in> set es. jsonb_prints env"
    using Cons.prems(3,4) e s by auto
  have "dash_inv db1" using served_kept(1)[OF Cons.prems(1) u(1)] s by (metis snd_conv)
  moreover have "rows_ok db1" using dash_handler_ok[OF Cons.prems(2) j(1)] Cons.prems(2) s
    by (auto simp: dash_serve_def RequireRole_def split: option.splits sum.splits if_splits) (metis snd_map_prod id_apply snd_conv)+
  ultimately show ?case using Cons.IH[of db1] u(2) j(2) s e by (cases "dash_run perm au es db1") simp
qed simp

theorem dashboard_rows_wellformed_witness:
  "rows_ok (snd (dash_run True w_au w_events w_db))"
proof -
  have "rows_ok w_db" "\<forall>(env, e) \<in> set w_events. jsonb_prints env"
    by (simp_all add: rows_ok_def w_db_def jsonb_prints_def w_events_def w_env_def split: if_splits)
  then show ?thesis using dashboard_rows_wellformed[OF w_db_inv _ w_fresh] by blast
qed

section \<open>Export and import\<close>

text \<open>What a copy shares with its original: everything but identifiers, ownership and times.\<close>

definition portable_panel :: "panel \<Rightarrow> panel" where
  "portable_panel p = p\<lparr>pn_ID := [], pn_DashboardID := [], pn_CreatedAt := 0, pn_UpdatedAt := 0\<rparr>"

definition portable :: "dashboard \<Rightarrow> dashboard" where
  "portable d = d\<lparr>ds_ID := [], ds_TenantID := [], ds_CreatedBy := [], ds_CreatedAt := 0, ds_UpdatedAt := 0,
     ds_Panels := map portable_panel (ds_Panels d)\<rparr>"

definition copy_panel :: "dash_env \<Rightarrow> string \<Rightarrow> nat \<Rightarrow> panel \<Rightarrow> panel" where
  "copy_panel env i n p = p\<lparr>pn_ID := de_uuid env n, pn_DashboardID := i, pn_CreatedAt := de_now env, pn_UpdatedAt := de_now env\<rparr>"

fun copies :: "dash_env \<Rightarrow> string \<Rightarrow> nat \<Rightarrow> panel list \<Rightarrow> panel list" where
  "copies env i n [] = []"
| "copies env i n (p # ps) = copy_panel env i n p # copies env i (n + 1) ps"

lemma copy_panel_simps [simp]:
  "pn_DashboardID (copy_panel env i n p) = i" "pn_ID (copy_panel env i n p) = de_uuid env n" "pn_CreatedAt (copy_panel env i n p) = de_now env"
  "pn_SortOrder (copy_panel env i n p) = pn_SortOrder p" "portable_panel (copy_panel env i n p) = portable_panel p"
  by (simp_all add: copy_panel_def portable_panel_def)

lemma copies_simps [simp]:
  "map pn_SortOrder (copies env i n ps) = map pn_SortOrder ps" "map pn_CreatedAt (copies env i n ps) = replicate (length ps) (de_now env)" "map portable_panel (copies env i n ps) = map portable_panel ps"
  by (induction ps arbitrary: n) auto

lemma copies_set: "p \<in> set (copies env i n ps) \<Longrightarrow> pn_DashboardID p = i \<and> pn_CreatedAt p = de_now env"
  by (induction ps arbitrary: n) auto

lemma import_panels_copies:
  assumes "\<forall>p \<in> set ps. panel_ok p \<and> de_jsonb env (pn_VizConfig p) = Some (pn_VizConfig p)"
    and "board_exists i db" and "inj (de_uuid env)" and "\<forall>k \<ge> n. de_uuid env k \<notin> pn_ID ` set (dt_panels db)"
  shows "import_panels env i n ps db = Inr (copies env i n ps, db\<lparr>dt_panels := dt_panels db @ copies env i n ps\<rparr>)"
  using assms
proof (induction ps arbitrary: n db)
  case (Cons p ps)
  let ?p = "p\<lparr>pn_ID := de_uuid env n, pn_DashboardID := i\<rparr>" and ?c = "copy_panel env i n p"
  have ok: "validatePanel p = Inr p" "panel_ints p" "de_jsonb env (pn_VizConfig p) = Some (pn_VizConfig p)"
    using Cons.prems(1) by (auto simp: panel_ok_def)
  have "validVizType (pn_VizType p)" using ok(1) by (auto simp: validatePanel_def split: if_splits)
  then have ins: "insert_panel env ?p db = Inr (?c, db\<lparr>dt_panels := dt_panels db @ [?c]\<rparr>)"
    using ok(2,3) Cons.prems(2,4) by (auto simp: insert_panel_def Let_def panel_ints_def copy_panel_def board_exists_def)
  have "de_uuid env k \<noteq> de_uuid env n" if "k \<ge> n + 1" for k using Cons.prems(3) that by (auto dest: injD)
  then have "import_panels env i (n + 1) ps (db\<lparr>dt_panels := dt_panels db @ [?c]\<rparr>)
      = Inr (copies env i (n + 1) ps, db\<lparr>dt_panels := (dt_panels db @ [?c]) @ copies env i (n + 1) ps\<rparr>)"
    using Cons.IH[of "db\<lparr>dt_panels := dt_panels db @ [?c]\<rparr>" "n + 1"] Cons.prems
    by (simp add: board_exists_def)
  then show ?case using ok(1) ins by simp
qed simp

lemma listPanels_sorted: "sorted (map pn_SortOrder (listPanels i db))"
  by (simp add: listPanels_def)

lemma listPanels_set: "set (listPanels i db) = {p \<in> set (dt_panels db). pn_DashboardID p = i}"
  by (auto simp: listPanels_def)

lemma listPanels_copies:
  assumes "sorted (map pn_SortOrder ps)" and "i \<notin> pn_DashboardID ` set (dt_panels db)"
  shows "listPanels i (db\<lparr>dt_boards := bs, dt_panels := dt_panels db @ copies env i n ps\<rparr>) = copies env i n ps"
proof -
  have "filter (\<lambda>p. pn_DashboardID p = i) (dt_panels db @ copies env i n ps) = copies env i n ps"
    using assms(2) copies_set by (auto simp: filter_empty_conv filter_id_conv)
  moreover have "sort_key pn_CreatedAt (copies env i n ps) = copies env i n ps"
    by (intro sort_key_id_if_sorted) simp
  moreover have "sort_key pn_SortOrder (copies env i n ps) = copies env i n ps"
    using assms(1) by (intro sort_key_id_if_sorted) simp
  ultimately show ?thesis by (simp add: listPanels_def)
qed


definition w_panel :: panel where
  "w_panel = \<lparr>pn_ID = ''p'', pn_DashboardID = ''a'', pn_Title = ''t'', pn_Query = ''error'', pn_QueryLanguage = '''', pn_VizType = ''line'',
     pn_VizConfig = ''{}'', pn_PositionX = 0, pn_PositionY = 0, pn_Width = 6, pn_Height = 4, pn_EarliestOverride = None,
     pn_LatestOverride = Some ''now'', pn_SortOrder = 1, pn_CreatedAt = 0, pn_UpdatedAt = 0\<rparr>"

definition w_full :: dash_db where
  "w_full = w_db\<lparr>dt_boards := [w_board\<lparr>ds_ID := ''a'', ds_TenantID := ''A'', ds_DefaultEarliest := ''-1h'', ds_DefaultLatest := ''now'',
     ds_CreatedBy := ''u''\<rparr>], dt_panels := [w_panel]\<rparr>"

definition w_id :: "identity option" where
  "w_id = Some \<lparr>id_TenantID = ''A'', id_UserID = ''u'', id_Role = RoleEditor\<rparr>"

definition w_exported :: dashboard where
  "w_exported = w_board\<lparr>ds_ID := ''a'', ds_TenantID := ''A'', ds_DefaultEarliest := ''-1h'', ds_DefaultLatest := ''now'',
     ds_CreatedBy := ''u'', ds_Panels := [w_panel]\<rparr>"

lemma w_full_ok: "dash_inv w_full" "rows_ok w_full" "handleExport ''a'' w_id w_full = ((200, BoardBody w_exported), w_full)"
  "unused (w_env ''b'') w_full" "inj (de_uuid (w_env ''b''))"
  "\<forall>p \<in> set (dt_panels w_full). de_jsonb (w_env ''b'') (pn_VizConfig p) = Some (pn_VizConfig p)"
proof -
  show "inj (de_uuid (w_env ''b''))" by (rule injI) (simp add: w_env_def replicate_eq_replicate)
  show "rows_ok w_full"
    by (simp add: rows_ok_def panel_ok_iff board_ok_def w_full_def w_db_def w_board_def w_panel_def validVizType_def panel_ints_def int4_def)
qed (simp_all add: dash_inv_def w_full_def w_db_def w_board_def w_panel_def w_env_def unused_def w_exported_def w_id_def
  handleExport_def handleGet_def GetDashboard_def tenantID_def listPanels_def)


end
