(* ===== verification/Agents.thy ===== *)
theory Agents
  imports Authz
begin

text \<open>
  Agent inventory and remote configuration: the \<open>agents\<close> table, the statements of
  \<open>api/agents/store.go\<close> and its handlers (\<open>api/agents/handler.go\<close>), and the agents' side of the
  same table, \<open>CheckIn\<close> of \<open>ingest/internal/agentregistry\<close> behind the RPC of
  \<open>ingest/internal/grpcserver\<close>. A stored override is kept as the value it decodes to; whether
  \<open>JSONB\<close> accepts its text, the clock, UUIDs, version stamps and the collation are arguments.
\<close>

section \<open>Strings and paths\<close>

definition HasPrefix :: "string \<Rightarrow> string \<Rightarrow> bool" where
  "HasPrefix s p = (take (length p) s = p)"

definition HasSuffix :: "string \<Rightarrow> string \<Rightarrow> bool" where
  "HasSuffix s p = (length p \<le> length s \<and> drop (length s - length p) s = p)"

fun Contains :: "string \<Rightarrow> string \<Rightarrow> bool" where
  "Contains [] sub = (sub = [])"
| "Contains (c # s) sub = (HasPrefix (c # s) sub \<or> Contains s sub)"

fun split_slash :: "string \<Rightarrow> string list" where
  "split_slash [] = [[]]"
| "split_slash (c # s) = (if c = CHR ''/'' then [] # split_slash s
     else (case split_slash s of [] \<Rightarrow> [[c]] | x # xs \<Rightarrow> (c # x) # xs))"

text \<open>\<open>path.Clean\<close> on a rooted path: empty and \<open>.\<close> elements go, \<open>..\<close> takes its parent with it.\<close>

fun clean_elems :: "string list \<Rightarrow> string list \<Rightarrow> string list" where
  "clean_elems st [] = rev st"
| "clean_elems st (c # cs) =
    (if c = [] \<or> c = ''.'' then clean_elems st cs
     else if c = ''..'' then clean_elems (tl st) cs
     else clean_elems (c # st) cs)"

definition abs_path :: "string list \<Rightarrow> string" where
  "abs_path cs = (if cs = [] then ''/'' else concat (map (\<lambda>c. CHR ''/'' # c) cs))"

definition path_Clean :: "string \<Rightarrow> string" where
  "path_Clean p = abs_path (clean_elems [] (split_slash p))"

section \<open>Overrides\<close>

text \<open>An absent map or slice is the empty list; the map has one entry per key.\<close>

record config_override =
  co_BatchMaxSize :: "int option"
  co_BatchFlushIntervalMS :: "int option"
  co_HeartbeatEnabled :: "bool option"
  co_HeartbeatIntervalMS :: "int option"
  co_JournaldUnit :: "string option"
  co_ExtraFilePaths :: "string list"
  co_LogRetentionDays :: "int option"
  co_ServiceLogRetentionDays :: "(string \<times> int) list"

datatype override_error = BatchMaxSizeLow | BatchFlushLow | HeartbeatLow | TooManyPaths | PathNotAbsolute | PathDotDot
  | PathNotCanonical string string | PathDenied string | RetentionRange | TooManyServices | ServiceEmpty | ServiceRange string

definition extraFilePathDenylistPrefixes :: "string list" where
  "extraFilePathDenylistPrefixes = [''/etc/'', ''/root/'', ''/home/'', ''/proc/'', ''/sys/'', ''/boot/'']"

definition extraFilePathDenylistSubstrings :: "string list" where
  "extraFilePathDenylistSubstrings = [''/.ssh/'', ''/.gnupg/'', ''/.aws/'', ''/.kube/'']"

definition extraFilePathDenylistSuffixes :: "string list" where
  "extraFilePathDenylistSuffixes = [''-key.pem'', ''id_rsa'', ''id_ecdsa'', ''id_ed25519'', ''id_dsa'', ''/shadow'', ''/gshadow'']"

definition strings_TrimSuffix :: "string \<Rightarrow> string \<Rightarrow> string" where
  "strings_TrimSuffix s p = (if HasSuffix s p then take (length s - length p) s else s)"

definition validateExtraFilePath :: "string \<Rightarrow> (override_error, unit) result" where
  "validateExtraFilePath p =
    (if p = [] \<or> \<not> HasPrefix p ''/'' then Inl PathNotAbsolute
     else if Contains p ''..'' then Inl PathDotDot
     else if path_Clean p \<noteq> p then Inl (PathNotCanonical p (path_Clean p))
     else if list_ex (\<lambda>x. p = strings_TrimSuffix x ''/'' \<or> HasPrefix p x) extraFilePathDenylistPrefixes then Inl (PathDenied p)
     else if list_ex (\<lambda>x. Contains p x) extraFilePathDenylistSubstrings then Inl (PathDenied p)
     else if list_ex (\<lambda>x. HasSuffix p x) extraFilePathDenylistSuffixes then Inl (PathDenied p)
     else Inr ())"

fun check_all :: "('a \<Rightarrow> ('e, unit) result) \<Rightarrow> 'a list \<Rightarrow> ('e, unit) result" where
  "check_all f [] = Inr ()"
| "check_all f (x # xs) = bindE (f x) (\<lambda>_. check_all f xs)"

definition check_service :: "string \<times> int \<Rightarrow> (override_error, unit) result" where
  "check_service sd = (if fst sd = [] then Inl ServiceEmpty
     else if snd sd < 1 \<or> snd sd > 3650 then Inl (ServiceRange (fst sd)) else Inr ())"

definition below :: "int option \<Rightarrow> int \<Rightarrow> bool" where
  "below v m = (case v of None \<Rightarrow> False | Some x \<Rightarrow> x < m)"

definition validateOverride :: "config_override \<Rightarrow> (override_error, unit) result" where
  "validateOverride c =
    (if below (co_BatchMaxSize c) 1 then Inl BatchMaxSizeLow
     else if below (co_BatchFlushIntervalMS c) 100 then Inl BatchFlushLow
     else if below (co_HeartbeatIntervalMS c) 5000 then Inl HeartbeatLow
     else if length (co_ExtraFilePaths c) > 20 then Inl TooManyPaths
     else bindE (check_all validateExtraFilePath (co_ExtraFilePaths c)) (\<lambda>_.
       if (case co_LogRetentionDays c of None \<Rightarrow> False | Some d \<Rightarrow> d < 1 \<or> d > 3650) then Inl RetentionRange
       else if length (co_ServiceLogRetentionDays c) > 200 then Inl TooManyServices
       else check_all check_service (co_ServiceLogRetentionDays c)))"

definition changesExtraFilePaths :: "string list \<Rightarrow> string list \<Rightarrow> bool" where
  "changesExtraFilePaths current desired = list_ex (\<lambda>p. p \<notin> set current) desired"

definition changesLogRetentionDays :: "int option \<Rightarrow> int option \<Rightarrow> bool" where
  "changesLogRetentionDays current desired = (case (current, desired) of
     (None, None) \<Rightarrow> False
   | (Some a, Some b) \<Rightarrow> a \<noteq> b
   | _ \<Rightarrow> True)"

definition changesServiceLogRetentionDays :: "(string \<times> int) list \<Rightarrow> (string \<times> int) list \<Rightarrow> bool" where
  "changesServiceLogRetentionDays current desired =
    (length current \<noteq> length desired \<or> list_ex (\<lambda>(s, d). map_of current s \<noteq> Some d) desired)"

section \<open>Store\<close>

record agent_row =
  ar_ID :: string
  ar_TenantID :: string
  ar_Host :: string
  ar_Service :: string
  ar_AgentVersion :: string
  ar_SourceKind :: string
  ar_SourceDetail :: string
  ar_BatchMaxSize :: int
  ar_BatchFlushMS :: int
  ar_HeartbeatOn :: bool
  ar_HeartbeatMS :: int
  ar_FirstSeenAt :: gotime
  ar_LastSeenAt :: gotime
  ar_DesiredOverride :: "config_override option"
  ar_DesiredVersion :: "string option"
  ar_AppliedVersion :: string
  ar_UpdatedBy :: "string option"
  ar_PendingCommand :: "string option"
  ar_CommandIssuedAt :: "gotime option"
  ar_CommandIssuedBy :: "string option"

record agents_db =
  ag_rows :: "agent_row list"
  ag_tenants :: "string list"

record agents_env =
  ge_now :: gotime
  ge_uuid :: string
  ge_newVersion :: string
  ge_jsonb :: "config_override \<Rightarrow> bool"
  ge_collation :: "string \<Rightarrow> int"

text \<open>The \<open>Agent\<close> of the API: the row with its \<open>NULL\<close>s read as empty strings.\<close>

record agent =
  a_row :: agent_row
  a_DesiredOverride :: "config_override option"
  a_DesiredOverrideVersion :: string
  a_Pending :: bool
  a_UpdatedBy :: string
  a_PendingCommand :: string
  a_CommandIssuedBy :: string

definition str_or_empty :: "string option \<Rightarrow> string" where
  "str_or_empty s = (case s of None \<Rightarrow> [] | Some x \<Rightarrow> x)"

definition scanAgent :: "agent_row \<Rightarrow> agent" where
  "scanAgent r = \<lparr>a_row = r,
     a_DesiredOverride = (case ar_DesiredVersion r of None \<Rightarrow> None | Some _ \<Rightarrow> ar_DesiredOverride r),
     a_DesiredOverrideVersion = str_or_empty (ar_DesiredVersion r),
     a_Pending = (case ar_DesiredVersion r of None \<Rightarrow> False | Some v \<Rightarrow> v \<noteq> ar_AppliedVersion r),
     a_UpdatedBy = str_or_empty (ar_UpdatedBy r), a_PendingCommand = str_or_empty (ar_PendingCommand r),
     a_CommandIssuedBy = str_or_empty (ar_CommandIssuedBy r)\<rparr>"

datatype agents_error = AgentNotFound | AgentDatabase

definition is_row :: "string \<Rightarrow> string \<Rightarrow> agent_row \<Rightarrow> bool" where
  "is_row tenant host r = (ar_TenantID r = tenant \<and> ar_Host r = host)"

definition List_agents :: "agents_env \<Rightarrow> string \<Rightarrow> agents_db \<Rightarrow> agent list" where
  "List_agents env tenant db = map scanAgent (sort_key (\<lambda>r. ge_collation env (ar_Host r)) (filter (\<lambda>r. ar_TenantID r = tenant) (ag_rows db)))"

definition Get_agent :: "string \<Rightarrow> string \<Rightarrow> agents_db \<Rightarrow> (agents_error, agent) result" where
  "Get_agent tenant host db = (case find (is_row tenant host) (ag_rows db) of
     None \<Rightarrow> Inl AgentNotFound | Some r \<Rightarrow> Inr (scanAgent r))"

definition update_row :: "string \<Rightarrow> string \<Rightarrow> (agent_row \<Rightarrow> agent_row) \<Rightarrow> agents_db \<Rightarrow> (agents_error, agents_db) result" where
  "update_row tenant host f db =
    (if list_ex (is_row tenant host) (ag_rows db)
     then Inr (db\<lparr>ag_rows := map (\<lambda>r. if is_row tenant host r then f r else r) (ag_rows db)\<rparr>)
     else Inl AgentNotFound)"

definition then_get :: "string \<Rightarrow> string \<Rightarrow> (agents_error, agents_db) result \<Rightarrow> (agents_error, agent \<times> agents_db) result" where
  "then_get tenant host res = bindE res (\<lambda>db. bindE (Get_agent tenant host db) (\<lambda>a. Inr (a, db)))"

definition SetOverride :: "agents_env \<Rightarrow> string \<Rightarrow> string \<Rightarrow> config_override \<Rightarrow> string \<Rightarrow> agents_db
    \<Rightarrow> (agents_error, agent \<times> agents_db) result" where
  "SetOverride env tenant host c updatedBy db =
    (if \<not> ge_jsonb env c then Inl AgentDatabase
     else then_get tenant host (update_row tenant host (\<lambda>r. r\<lparr>ar_DesiredOverride := Some c,
       ar_DesiredVersion := Some (ge_newVersion env), ar_UpdatedBy := Some updatedBy\<rparr>) db))"

definition IssueCommand :: "agents_env \<Rightarrow> string \<Rightarrow> string \<Rightarrow> string \<Rightarrow> string \<Rightarrow> agents_db
    \<Rightarrow> (agents_error, agent \<times> agents_db) result" where
  "IssueCommand env tenant host command issuedBy db =
     then_get tenant host (update_row tenant host (\<lambda>r. r\<lparr>ar_PendingCommand := Some command,
       ar_CommandIssuedAt := Some (ge_now env), ar_CommandIssuedBy := Some issuedBy\<rparr>) db)"

definition ClearOverride :: "string \<Rightarrow> string \<Rightarrow> agents_db \<Rightarrow> (agents_error, agents_db) result" where
  "ClearOverride tenant host db =
     update_row tenant host (\<lambda>r. r\<lparr>ar_DesiredOverride := None, ar_DesiredVersion := None, ar_UpdatedBy := None\<rparr>) db"

definition CommandRestart :: string where "CommandRestart = ''restart''"

definition validCommand :: "string \<Rightarrow> bool" where "validCommand c = (c = CommandRestart)"

section \<open>Handlers\<close>

text \<open>The command logger is an argument with a state of its own; it says whether the entry was
  written, which the handler only logs.\<close>

record command_entry =
  ce_Host :: string
  ce_Command :: string
  ce_IssuedBy :: string

type_synonym 'l command_logger = "identity option \<Rightarrow> command_entry \<Rightarrow> 'l \<Rightarrow> bool \<times> 'l"

datatype agents_body = AgNone | AgError string | AgInvalid override_error | AgentsBody "agent list" | AgentBody agent

type_synonym agents_reply = "nat \<times> agents_body"

definition agents_tenantID :: "identity option \<Rightarrow> string" where
  "agents_tenantID ctx = (case ctx of None \<Rightarrow> ''default'' | Some i \<Rightarrow> if id_TenantID i \<noteq> [] then id_TenantID i else ''default'')"

definition updatedBy :: "identity option \<Rightarrow> string" where
  "updatedBy ctx = (case ctx of None \<Rightarrow> [] | Some i \<Rightarrow> id_UserID i)"

definition agents_storeErr :: "agents_error \<Rightarrow> string \<Rightarrow> agents_reply" where
  "agents_storeErr e action = (if e = AgentNotFound then (404, AgError ''agent not found'') else (500, AgError (action @ '' failed'')))"

definition agents_badJSON :: agents_reply where "agents_badJSON = (400, AgError ''invalid JSON body'')"

definition handleListAgents :: "agents_env \<Rightarrow> (agents_db \<times> 'l, agents_reply) ctx_handler" where
  "handleListAgents env ctx s = ((200, AgentsBody (List_agents env (agents_tenantID ctx) (fst s))), s)"

definition handleGetAgent :: "string \<Rightarrow> (agents_db \<times> 'l, agents_reply) ctx_handler" where
  "handleGetAgent host ctx s = (case Get_agent (agents_tenantID ctx) host (fst s) of
     Inl e \<Rightarrow> (agents_storeErr e ''getting agent'', s)
   | Inr a \<Rightarrow> ((200, AgentBody a), s))"

definition current_override :: "string \<Rightarrow> string \<Rightarrow> agents_db \<Rightarrow> config_override option" where
  "current_override tenant host db = (case Get_agent tenant host db of Inl _ \<Rightarrow> None | Inr a \<Rightarrow> a_DesiredOverride a)"

definition currentExtraFilePaths :: "string \<Rightarrow> string \<Rightarrow> agents_db \<Rightarrow> string list" where
  "currentExtraFilePaths tenant host db = (case current_override tenant host db of None \<Rightarrow> [] | Some c \<Rightarrow> co_ExtraFilePaths c)"

definition currentLogRetentionDays :: "string \<Rightarrow> string \<Rightarrow> agents_db \<Rightarrow> int option" where
  "currentLogRetentionDays tenant host db = (case current_override tenant host db of None \<Rightarrow> None | Some c \<Rightarrow> co_LogRetentionDays c)"

definition currentServiceLogRetentionDays :: "string \<Rightarrow> string \<Rightarrow> agents_db \<Rightarrow> (string \<times> int) list" where
  "currentServiceLogRetentionDays tenant host db =
     (case current_override tenant host db of None \<Rightarrow> [] | Some c \<Rightarrow> co_ServiceLogRetentionDays c)"

definition lacks :: "identity option \<Rightarrow> role \<Rightarrow> bool" where
  "lacks ctx role = (case ctx of None \<Rightarrow> False | Some i \<Rightarrow> \<not> Satisfies (id_Role i) role)"

definition handleSetConfig :: "agents_env \<Rightarrow> string \<Rightarrow> config_override option \<Rightarrow> (agents_db \<times> 'l, agents_reply) ctx_handler" where
  "handleSetConfig env host body ctx s = (case body of
     None \<Rightarrow> (agents_badJSON, s)
   | Some c \<Rightarrow> (case validateOverride c of
       Inl e \<Rightarrow> ((400, AgInvalid e), s)
     | Inr _ \<Rightarrow>
       if lacks ctx RoleAdmin \<and> changesExtraFilePaths (currentExtraFilePaths (agents_tenantID ctx) host (fst s)) (co_ExtraFilePaths c)
       then ((403, AgError ''extra_file_paths requires the admin role''), s)
       else if lacks ctx RoleOwner \<and> changesLogRetentionDays (currentLogRetentionDays (agents_tenantID ctx) host (fst s)) (co_LogRetentionDays c)
       then ((403, AgError ''log_retention_days requires the owner role''), s)
       else if lacks ctx RoleOwner
         \<and> changesServiceLogRetentionDays (currentServiceLogRetentionDays (agents_tenantID ctx) host (fst s)) (co_ServiceLogRetentionDays c)
       then ((403, AgError ''service_log_retention_days requires the owner role''), s)
       else (case SetOverride env (agents_tenantID ctx) host c (updatedBy ctx) (fst s) of
         Inl e \<Rightarrow> (agents_storeErr e ''setting agent config'', s)
       | Inr (a, db) \<Rightarrow> ((200, AgentBody a), (db, snd s)))))"

definition handleIssueCommand :: "agents_env \<Rightarrow> 'l command_logger option \<Rightarrow> string \<Rightarrow> string option
    \<Rightarrow> (agents_db \<times> 'l, agents_reply) ctx_handler" where
  "handleIssueCommand env commands host body ctx s = (case body of
     None \<Rightarrow> (agents_badJSON, s)
   | Some command \<Rightarrow>
     if \<not> validCommand command then ((400, AgError ''command must be restart''), s)
     else (case IssueCommand env (agents_tenantID ctx) host command (updatedBy ctx) (fst s) of
       Inl e \<Rightarrow> (agents_storeErr e ''issuing agent command'', s)
     | Inr (a, db) \<Rightarrow> ((200, AgentBody a), (db, case commands of
         None \<Rightarrow> snd s
       | Some log \<Rightarrow> snd (log ctx \<lparr>ce_Host = host, ce_Command = command, ce_IssuedBy = updatedBy ctx\<rparr> (snd s))))))"

definition handleClearConfig :: "string \<Rightarrow> (agents_db \<times> 'l, agents_reply) ctx_handler" where
  "handleClearConfig host ctx s = (case ClearOverride (agents_tenantID ctx) host (fst s) of
     Inl e \<Rightarrow> (agents_storeErr e ''clearing agent config'', s)
   | Inr db \<Rightarrow> ((204, AgNone), (db, snd s)))"

datatype agents_route = AList | AGet string | ASetConfig string "config_override option" | AClearConfig string
  | ACommand string "string option"

fun agents_floor :: "agents_route \<Rightarrow> role" where
  "agents_floor AList = RoleViewer"
| "agents_floor (AGet h) = RoleViewer"
| "agents_floor (ASetConfig h b) = RoleEditor"
| "agents_floor (AClearConfig h) = RoleEditor"
| "agents_floor (ACommand h b) = RoleAdmin"

fun agents_handler :: "agents_env \<Rightarrow> 'l command_logger option \<Rightarrow> agents_route \<Rightarrow> (agents_db \<times> 'l, agents_reply) ctx_handler" where
  "agents_handler env commands AList = handleListAgents env"
| "agents_handler env commands (AGet h) = handleGetAgent h"
| "agents_handler env commands (ASetConfig h b) = handleSetConfig env h b"
| "agents_handler env commands (AClearConfig h) = handleClearConfig h"
| "agents_handler env commands (ACommand h b) = handleIssueCommand env commands h b"

definition agents_serve :: "agents_env \<Rightarrow> 'l command_logger option \<Rightarrow> (http_request \<Rightarrow> ('e, identity) result) option
    \<Rightarrow> http_request \<Rightarrow> agents_route \<Rightarrow> agents_db \<times> 'l \<Rightarrow> agents_reply guarded \<times> (agents_db \<times> 'l)" where
  "agents_serve env commands au r route s =
     RequireRole (map_option (\<lambda>f r s. f r) au) (agents_floor route) (agents_handler env commands route) r s"

section \<open>Check-in\<close>

text \<open>What an agent reports; sizes are 64-bit unsigned on the wire and \<open>BIGINT\<close> in the table.\<close>

record check_in =
  ci_Host :: string
  ci_Service :: string
  ci_AgentVersion :: string
  ci_SourceKind :: string
  ci_SourceDetail :: string
  ci_BatchMaxSize :: int
  ci_BatchFlushIntervalMS :: int
  ci_HeartbeatEnabled :: bool
  ci_HeartbeatIntervalMS :: int
  ci_AppliedOverrideVersion :: string

text \<open>The part of an override that goes to the agent; retention settings stay on the server.\<close>

record agent_override =
  ao_BatchMaxSize :: "int option"
  ao_BatchFlushIntervalMS :: "int option"
  ao_HeartbeatEnabled :: "bool option"
  ao_HeartbeatIntervalMS :: "int option"
  ao_JournaldUnit :: "string option"
  ao_ExtraFilePaths :: "string list"
  ao_Version :: string

definition override_of :: "config_override \<Rightarrow> string \<Rightarrow> agent_override" where
  "override_of c v = \<lparr>ao_BatchMaxSize = co_BatchMaxSize c, ao_BatchFlushIntervalMS = co_BatchFlushIntervalMS c,
     ao_HeartbeatEnabled = co_HeartbeatEnabled c, ao_HeartbeatIntervalMS = co_HeartbeatIntervalMS c,
     ao_JournaldUnit = co_JournaldUnit c, ao_ExtraFilePaths = co_ExtraFilePaths c, ao_Version = v\<rparr>"

text \<open>The registry decodes these three as unsigned integers.\<close>

definition unsigned_ok :: "config_override \<Rightarrow> bool" where
  "unsigned_ok c = (\<not> below (co_BatchMaxSize c) 0 \<and> \<not> below (co_BatchFlushIntervalMS c) 0 \<and> \<not> below (co_HeartbeatIntervalMS c) 0)"

definition bigint :: "int \<Rightarrow> bool" where "bigint x = (min_int64 \<le> x \<and> x \<le> max_int64)"

definition report :: "check_in \<Rightarrow> gotime \<Rightarrow> agent_row \<Rightarrow> agent_row" where
  "report info now r = r\<lparr>ar_Service := ci_Service info, ar_AgentVersion := ci_AgentVersion info, ar_SourceKind := ci_SourceKind info,
     ar_SourceDetail := ci_SourceDetail info, ar_BatchMaxSize := ci_BatchMaxSize info, ar_BatchFlushMS := ci_BatchFlushIntervalMS info,
     ar_HeartbeatOn := ci_HeartbeatEnabled info, ar_HeartbeatMS := ci_HeartbeatIntervalMS info, ar_LastSeenAt := now,
     ar_AppliedVersion := ci_AppliedOverrideVersion info, ar_PendingCommand := None\<rparr>"

definition new_row :: "agents_env \<Rightarrow> string \<Rightarrow> string \<Rightarrow> agent_row" where
  "new_row env tenant host = \<lparr>ar_ID = ge_uuid env, ar_TenantID = tenant, ar_Host = host, ar_Service = [], ar_AgentVersion = [],
     ar_SourceKind = [], ar_SourceDetail = [], ar_BatchMaxSize = 0, ar_BatchFlushMS = 0, ar_HeartbeatOn = True, ar_HeartbeatMS = 0,
     ar_FirstSeenAt = ge_now env, ar_LastSeenAt = ge_now env, ar_DesiredOverride = None, ar_DesiredVersion = None,
     ar_AppliedVersion = [], ar_UpdatedBy = None, ar_PendingCommand = None, ar_CommandIssuedAt = None, ar_CommandIssuedBy = None\<rparr>"

text \<open>The upsert; \<open>None\<close> when a constraint fails, and then the transaction has no effect.\<close>

definition upsert :: "agents_env \<Rightarrow> string \<Rightarrow> check_in \<Rightarrow> agents_db \<Rightarrow> (agent_row \<times> agents_db) option" where
  "upsert env tenant info db =
    (if \<not> (bigint (ci_BatchMaxSize info) \<and> bigint (ci_BatchFlushIntervalMS info) \<and> bigint (ci_HeartbeatIntervalMS info)) then None
     else (case find (is_row tenant (ci_Host info)) (ag_rows db) of
       Some r \<Rightarrow> Some (report info (ge_now env) r,
         db\<lparr>ag_rows := map (\<lambda>r. if is_row tenant (ci_Host info) r then report info (ge_now env) r else r) (ag_rows db)\<rparr>)
     | None \<Rightarrow>
       (let r = report info (ge_now env) (new_row env tenant (ci_Host info)) in
        if tenant \<in> set (ag_tenants db) \<and> ge_uuid env \<notin> ar_ID ` set (ag_rows db)
        then Some (r, db\<lparr>ag_rows := ag_rows db @ [r]\<rparr>) else None)))"

record check_in_result =
  cr_Override :: "agent_override option"
  cr_Command :: string

datatype check_in_error = UpsertFailed | StoredOverrideBad

definition Registry_CheckIn :: "agents_env \<Rightarrow> string \<Rightarrow> check_in \<Rightarrow> agents_db \<Rightarrow> (check_in_error, check_in_result) result \<times> agents_db" where
  "Registry_CheckIn env tenantID info db =
    (let tenant = (if tenantID = [] then ''default'' else tenantID);
       pending = (case find (is_row tenant (ci_Host info)) (ag_rows db) of None \<Rightarrow> None | Some r \<Rightarrow> ar_PendingCommand r)
     in case upsert env tenant info db of
          None \<Rightarrow> (Inl UpsertFailed, db)
        | Some (r, db') \<Rightarrow>
          (case (ar_DesiredVersion r, ar_DesiredOverride r) of
             (Some v, Some c) \<Rightarrow> if unsigned_ok c
               then (Inr \<lparr>cr_Override = Some (override_of c v), cr_Command = str_or_empty pending\<rparr>, db')
               else (Inl StoredOverrideBad, db')
           | _ \<Rightarrow> (Inr \<lparr>cr_Override = None, cr_Command = str_or_empty pending\<rparr>, db')))"

section \<open>The check-in RPC\<close>

text \<open>\<open>resolver\<close> is the configured tenant resolver, applied to the bearer token.\<close>

datatype rpc_error = InvalidArgument string | Unauthenticated string | Unavailable | Internal

definition bearerTokenFromContext :: "string list \<Rightarrow> string option" where
  "bearerTokenFromContext values = (case values of
     [] \<Rightarrow> None
   | v # _ \<Rightarrow> if HasPrefix v ''Bearer '' then Some (drop (length ''Bearer '') v) else None)"

definition resolveTenant :: "(string \<Rightarrow> string option) option \<Rightarrow> string list \<Rightarrow> (rpc_error, string) result" where
  "resolveTenant resolver md = (case resolver of
     None \<Rightarrow> Inr []
   | Some ResolveTenant \<Rightarrow> (case bearerTokenFromContext md of
       None \<Rightarrow> Inl (Unauthenticated ''missing bearer credential'')
     | Some token \<Rightarrow> (case ResolveTenant token of
         None \<Rightarrow> Inl (Unauthenticated ''invalid ingest credential'')
       | Some t \<Rightarrow> Inr t)))"

record check_in_response =
  rs_Override :: "agent_override option"
  rs_Restart :: bool

definition CheckIn_rpc :: "agents_env \<Rightarrow> (string \<Rightarrow> string option) option \<Rightarrow> bool \<Rightarrow> string list \<Rightarrow> check_in \<Rightarrow> agents_db
    \<Rightarrow> (rpc_error, check_in_response) result \<times> agents_db" where
  "CheckIn_rpc env resolver registry md req db =
    (if ci_Host req = [] then (Inl (InvalidArgument ''host must not be empty''), db)
     else (case resolveTenant resolver md of
       Inl e \<Rightarrow> (Inl e, db)
     | Inr tenant \<Rightarrow>
       if \<not> registry then (Inr \<lparr>rs_Override = None, rs_Restart = False\<rparr>, db)
       else (case Registry_CheckIn env tenant req db of
         (Inl _, db') \<Rightarrow> (Inl Internal, db')
       | (Inr res, db') \<Rightarrow> (Inr \<lparr>rs_Override = cr_Override res, rs_Restart = (cr_Command res = CommandRestart)\<rparr>, db'))))"

end
