(* ===== verification/Agent_Paths.thy ===== *)
theory Agent_Paths
  imports Agents
begin

text \<open>
  Which file paths an operator may add to an agent: \<open>validateExtraFilePath\<close> of
  \<open>api/agents/handler.go\<close> works on the text of the path; here it is characterised by the
  elements of the path.
\<close>

section \<open>Substrings\<close>

lemma HasPrefix_iff: "HasPrefix s p \<longleftrightarrow> (\<exists>t. s = p @ t)"
  by (auto simp: HasPrefix_def) (metis append_take_drop_id)

lemma HasSuffix_iff: "HasSuffix s p \<longleftrightarrow> (\<exists>t. s = t @ p)"
  by (auto simp: HasSuffix_def) (metis append_take_drop_id)

lemma Contains_iff: "Contains s sub \<longleftrightarrow> (\<exists>a b. s = a @ sub @ b)"
proof (induction s)
  case (Cons c s)
  show ?case
  proof
    assume "Contains (c # s) sub"
    then consider "HasPrefix (c # s) sub" | "Contains s sub" by auto
    then show "\<exists>a b. c # s = a @ sub @ b"
    proof cases
      case 1
      then show ?thesis by (auto simp: HasPrefix_iff intro: exI[of _ "[]"])
    next
      case 2
      then obtain a b where "s = a @ sub @ b" using Cons.IH by auto
      then show ?thesis by (intro exI[of _ "c # a"] exI[of _ b]) simp
    qed
  next
    assume "\<exists>a b. c # s = a @ sub @ b"
    then obtain a b where e: "c # s = a @ sub @ b" by auto
    show "Contains (c # s) sub"
    proof (cases a)
      case Nil
      then have "HasPrefix (c # s) sub" using e by (auto simp: HasPrefix_iff)
      then show ?thesis by simp
    next
      case (Cons x a')
      then have "s = a' @ sub @ b" using e by simp
      then show ?thesis using Cons.IH by auto
    qed
  qed
qed simp

section \<open>Elements of a path\<close>

definition elem_ok :: "string \<Rightarrow> bool" where
  "elem_ok c = (c \<noteq> [] \<and> c \<noteq> ''.'' \<and> CHR ''/'' \<notin> set c \<and> \<not> Contains c ''..'')"

lemma split_slash_no: "CHR ''/'' \<notin> set c \<Longrightarrow> split_slash c = [c]"
  by (induction c) auto

lemma split_slash_append: "CHR ''/'' \<notin> set c \<Longrightarrow> split_slash (c @ CHR ''/'' # s) = c # split_slash s"
  by (induction c) auto

lemma split_slash_elems: "c \<in> set (split_slash s) \<Longrightarrow> CHR ''/'' \<notin> set c"
  by (induction s arbitrary: c) (auto split: if_splits list.splits)

lemma split_slash_ne [simp]: "split_slash s \<noteq> []"
  by (induction s) (auto split: list.splits)

lemma split_abs_path:
  assumes "cs \<noteq> []" and "\<forall>c \<in> set cs. CHR ''/'' \<notin> set c"
  shows "split_slash (abs_path cs) = [] # cs"
proof -
  have "split_slash (c @ concat (map (\<lambda>c. CHR ''/'' # c) ds)) = c # ds"
    if "CHR ''/'' \<notin> set c" "\<forall>c \<in> set ds. CHR ''/'' \<notin> set c" for c ds
    using that
  proof (induction ds arbitrary: c)
    case Nil
    then show ?case by (simp add: split_slash_no)
  next
    case (Cons d ds)
    then show ?case using split_slash_append[of c "d @ concat (map (\<lambda>c. CHR ''/'' # c) ds)"] by simp
  qed
  moreover obtain c ds where "cs = c # ds" using assms(1) by (cases cs) auto
  ultimately show ?thesis using assms by (simp add: abs_path_def)
qed

lemma clean_elems_plain:
  "\<forall>c \<in> set cs. c \<noteq> [] \<and> c \<noteq> ''.'' \<and> c \<noteq> ''..'' \<Longrightarrow> clean_elems st cs = rev st @ cs"
  by (induction cs arbitrary: st) auto

lemma clean_elems_set: "set (clean_elems st cs) \<subseteq> set st \<union> {c \<in> set cs. c \<noteq> [] \<and> c \<noteq> ''.''}"
proof (induction cs arbitrary: st)
  case (Cons c cs)
  have "set (tl st) \<subseteq> set st" by (cases st) auto
  then show ?case using Cons.IH[of st] Cons.IH[of "tl st"] Cons.IH[of "c # st"] by auto
qed simp

lemma elem_ok_dots: "elem_ok c \<Longrightarrow> c \<noteq> ''..''"
  by (auto simp: elem_ok_def Contains_iff)

lemma split_slash_sep: "split_slash (a @ CHR ''/'' # s) = split_slash a @ split_slash s"
proof (induction a)
  case (Cons c a)
  then show ?case by (cases "split_slash a") auto
qed simp

text \<open>A string without a slash occurs in a path exactly when it occurs in an element.\<close>

lemma Contains_sep:
  assumes "CHR ''/'' \<notin> set sub" and "sub \<noteq> []"
  shows "Contains (a @ CHR ''/'' # s) sub \<longleftrightarrow> Contains a sub \<or> Contains s sub"
proof
  assume "Contains (a @ CHR ''/'' # s) sub"
  then obtain x y where e: "a @ CHR ''/'' # s = x @ sub @ y" by (auto simp: Contains_iff)
  then consider (left) u where "a = x @ u" "u @ CHR ''/'' # s = sub @ y" | (right) u where "a @ u = x" "CHR ''/'' # s = u @ sub @ y"
    by (auto simp: append_eq_append_conv2)
  then show "Contains a sub \<or> Contains s sub"
  proof cases
    case left
    then consider (in_a) v where "u = sub @ v" | (over) v where "u @ v = sub" "CHR ''/'' # s = v @ y" by (auto simp: append_eq_append_conv2)
    then show ?thesis
    proof cases
      case in_a
      then show ?thesis using left by (auto simp: Contains_iff)
    next
      case over
      then have "v = []" using assms(1) by (cases v) auto
      then have "a = x @ sub @ []" using over left by simp
      then show ?thesis unfolding Contains_iff by blast
    qed
  next
    case right
    then have "u \<noteq> []" using assms by (cases sub) auto
    then obtain u' where "u = CHR ''/'' # u'" using right by (cases u) auto
    then show ?thesis using right by (auto simp: Contains_iff)
  qed
next
  assume "Contains a sub \<or> Contains s sub"
  then show "Contains (a @ CHR ''/'' # s) sub"
  proof
    assume "Contains a sub"
    then obtain x y where "a = x @ sub @ y" by (auto simp: Contains_iff)
    then show ?thesis unfolding Contains_iff by (intro exI[of _ x] exI[of _ "y @ CHR ''/'' # s"]) simp
  next
    assume "Contains s sub"
    then obtain x y where "s = x @ sub @ y" by (auto simp: Contains_iff)
    then show ?thesis unfolding Contains_iff by (intro exI[of _ "a @ CHR ''/'' # x"] exI[of _ y]) simp
  qed
qed

lemma Contains_elems:
  assumes "CHR ''/'' \<notin> set sub" and "sub \<noteq> []" and "cs \<noteq> []"
  shows "Contains (abs_path cs) sub \<longleftrightarrow> (\<exists>c \<in> set cs. Contains c sub)"
proof -
  have nil: "\<not> Contains [] sub" using assms(2) by simp
  have "Contains (c @ concat (map (\<lambda>c. CHR ''/'' # c) ds)) sub \<longleftrightarrow> (\<exists>d \<in> set (c # ds). Contains d sub)" for c ds
  proof (induction ds arbitrary: c)
    case (Cons d ds)
    then show ?case using Contains_sep[OF assms(1,2), of c "d @ concat (map (\<lambda>c. CHR ''/'' # c) ds)"] by simp
  qed simp
  moreover obtain c ds where "cs = c # ds" using assms(3) by (cases cs) auto
  ultimately show ?thesis using Contains_sep[OF assms(1,2), of "[]" "c @ concat (map (\<lambda>c. CHR ''/'' # c) ds)"] nil
    by (simp add: abs_path_def)
qed

text \<open>A path is absolute, free of \<open>..\<close> and its own clean form exactly when its elements are fine.\<close>

lemma canonical_iff:
  "(p \<noteq> [] \<and> HasPrefix p ''/'' \<and> \<not> Contains p ''..'' \<and> path_Clean p = p) \<longleftrightarrow> (\<exists>cs. p = abs_path cs \<and> (\<forall>c \<in> set cs. elem_ok c))"
proof
  assume a: "p \<noteq> [] \<and> HasPrefix p ''/'' \<and> \<not> Contains p ''..'' \<and> path_Clean p = p"
  define cs where "cs = clean_elems [] (split_slash p)"
  have p: "p = abs_path cs" using a by (simp add: path_Clean_def cs_def)
  have c: "c \<noteq> []" "c \<noteq> ''.''" "CHR ''/'' \<notin> set c" if "c \<in> set cs" for c
    using clean_elems_set[of "[]" "split_slash p"] split_slash_elems[of c p] that by (auto simp: cs_def)
  have "\<not> Contains c ''..''" if "c \<in> set cs" for c
  proof -
    have "cs \<noteq> []" using that by auto
    then have "Contains p ''..'' \<longleftrightarrow> (\<exists>c \<in> set cs. Contains c ''..'')" unfolding p by (intro Contains_elems) auto
    then show ?thesis using a that by blast
  qed
  then show "\<exists>cs. p = abs_path cs \<and> (\<forall>c \<in> set cs. elem_ok c)" using p c by (intro exI[of _ cs]) (auto simp: elem_ok_def)
next
  assume "\<exists>cs. p = abs_path cs \<and> (\<forall>c \<in> set cs. elem_ok c)"
  then obtain cs where p: "p = abs_path cs" and ok: "\<forall>c \<in> set cs. elem_ok c" by auto
  have pre: "p \<noteq> []" "HasPrefix p ''/''" unfolding p by (cases cs; simp add: abs_path_def HasPrefix_def)+
  show "p \<noteq> [] \<and> HasPrefix p ''/'' \<and> \<not> Contains p ''..'' \<and> path_Clean p = p"
  proof (cases "cs = []")
    case True
    then show ?thesis by (simp add: p abs_path_def path_Clean_def HasPrefix_def)
  next
    case False
    have "\<not> Contains p ''..''" using Contains_elems[of "''..''" cs] False ok by (auto simp: p elem_ok_def)
    moreover have "split_slash p = [] # cs" using split_abs_path[OF False] ok by (simp add: p elem_ok_def)
    then have "clean_elems [] (split_slash p) = cs" using clean_elems_plain[of cs "[]"] ok elem_ok_dots by (auto simp: elem_ok_def)
    then have "path_Clean p = p" by (simp add: path_Clean_def p)
    ultimately show ?thesis using pre by simp
  qed
qed

section \<open>Deny lists\<close>

lemma abs_path_Cons: "ds \<noteq> [] \<Longrightarrow> abs_path (c # ds) = CHR ''/'' # c @ abs_path ds"
  by (simp add: abs_path_def)

lemma abs_path_snoc: "abs_path (us @ [c]) = (if us = [] then [] else abs_path us) @ CHR ''/'' # c"
  by (simp add: abs_path_def)

lemma under_iff:
  assumes "\<forall>c \<in> set cs. elem_ok c" and x: "CHR ''/'' \<notin> set x" "x \<noteq> []"
  shows "(abs_path cs = CHR ''/'' # x \<or> HasPrefix (abs_path cs) (CHR ''/'' # x @ ''/'')) \<longleftrightarrow> (\<exists>ds. cs = x # ds)"
proof
  assume h: "abs_path cs = CHR ''/'' # x \<or> HasPrefix (abs_path cs) (CHR ''/'' # x @ ''/'')"
  have ne: "cs \<noteq> []" using h x by (auto simp: abs_path_def HasPrefix_iff)
  have split: "split_slash (abs_path cs) = [] # cs" using split_abs_path[OF ne] assms(1) by (simp add: elem_ok_def)
  from h consider "abs_path cs = CHR ''/'' # x" | t where "abs_path cs = CHR ''/'' # (x @ CHR ''/'' # t)" by (auto simp: HasPrefix_iff)
  then show "\<exists>ds. cs = x # ds"
  proof cases
    case 1
    then have "cs = [x]" using split split_slash_no[OF x(1)] by simp
    then show ?thesis by simp
  next
    case 2
    then have "cs = x # split_slash t" using split split_slash_append[OF x(1), of t] by simp
    then show ?thesis by simp
  qed
next
  assume "\<exists>ds. cs = x # ds"
  then obtain ds where "cs = x # ds" by auto
  then show "abs_path cs = CHR ''/'' # x \<or> HasPrefix (abs_path cs) (CHR ''/'' # x @ ''/'')"
    by (cases ds) (auto simp: abs_path_def HasPrefix_iff)
qed

lemma inside_iff:
  assumes "\<forall>c \<in> set cs. elem_ok c" and x: "CHR ''/'' \<notin> set x" "x \<noteq> []"
  shows "Contains (abs_path cs) (CHR ''/'' # x @ ''/'') \<longleftrightarrow> x \<in> set (butlast cs)"
proof
  assume "Contains (abs_path cs) (CHR ''/'' # x @ ''/'')"
  then obtain a b where e: "abs_path cs = a @ CHR ''/'' # (x @ CHR ''/'' # b)" by (auto simp: Contains_iff)
  have ne: "cs \<noteq> []" using e x by (auto simp: abs_path_def Cons_eq_append_conv)
  have "[] # cs = split_slash a @ x # split_slash b"
    using split_abs_path[OF ne] assms(1) split_slash_sep[of a "x @ CHR ''/'' # b"] split_slash_append[OF x(1)] e by (simp add: elem_ok_def)
  then have "cs = tl (split_slash a) @ x # split_slash b" by (cases "split_slash a") auto
  then show "x \<in> set (butlast cs)" by (simp add: butlast_append)
next
  assume x': "x \<in> set (butlast cs)"
  then have ne: "cs \<noteq> []" by auto
  obtain us vs where "butlast cs = us @ x # vs" using split_list[OF x'] by auto
  then have "cs = us @ x # vs @ [last cs]" using append_butlast_last_id[OF ne] by simp
  moreover have "abs_path (us @ x # vs @ [last cs]) = concat (map (\<lambda>c. CHR ''/'' # c) us) @ CHR ''/'' # x @ concat (map (\<lambda>c. CHR ''/'' # c) (vs @ [last cs]))"
    by (simp add: abs_path_def)
  moreover obtain t where "concat (map (\<lambda>c. CHR ''/'' # c) (vs @ [last cs])) = CHR ''/'' # t" by (cases vs) auto
  ultimately show "Contains (abs_path cs) (CHR ''/'' # x @ ''/'')"
    unfolding Contains_iff by (metis append.assoc append_Cons append_Nil)
qed

lemma ends_iff:
  assumes "cs \<noteq> []" and "\<forall>c \<in> set cs. elem_ok c" and x: "CHR ''/'' \<notin> set x"
  shows "HasSuffix (abs_path cs) x \<longleftrightarrow> HasSuffix (last cs) x"
    and "HasSuffix (abs_path cs) (CHR ''/'' # x) \<longleftrightarrow> last cs = x"
proof -
  obtain a where e: "abs_path cs = a @ CHR ''/'' # last cs"
    using abs_path_snoc[of "butlast cs" "last cs"] assms(1) by auto
  have l: "CHR ''/'' \<notin> set (last cs)" using assms(1,2) by (auto simp: elem_ok_def)
  show "HasSuffix (abs_path cs) x \<longleftrightarrow> HasSuffix (last cs) x"
  proof
    assume "HasSuffix (abs_path cs) x"
    then obtain t where "a @ CHR ''/'' # last cs = t @ x" by (auto simp: HasSuffix_iff e)
    then consider u where "a = t @ u" "u @ CHR ''/'' # last cs = x" | u where "a @ u = t" "CHR ''/'' # last cs = u @ x"
      by (auto simp: append_eq_append_conv2)
    then show "HasSuffix (last cs) x"
    proof cases
      case 1
      then show ?thesis using x by auto
    next
      case 2
      then show ?thesis using x by (cases u) (auto simp: HasSuffix_iff)
    qed
  next
    assume "HasSuffix (last cs) x"
    then show "HasSuffix (abs_path cs) x" by (auto simp: HasSuffix_iff e)
  qed
  show "HasSuffix (abs_path cs) (CHR ''/'' # x) \<longleftrightarrow> last cs = x"
  proof
    assume "HasSuffix (abs_path cs) (CHR ''/'' # x)"
    then obtain t where t: "a @ CHR ''/'' # last cs = t @ CHR ''/'' # x" by (auto simp: HasSuffix_iff e)
    have "takeWhile (\<lambda>c. c \<noteq> CHR ''/'') (rev (u @ CHR ''/'' # v)) = rev v" if "CHR ''/'' \<notin> set v" for u v :: string
      using that by (subst rev_append) (auto simp: takeWhile_tail takeWhile_append2)
    then have "rev (last cs) = rev x" using t l x by metis
    then show "last cs = x" by simp
  qed (auto simp: HasSuffix_iff e)
qed

lemma abs_path_inj:
  assumes "abs_path cs' = abs_path cs" and "\<forall>c \<in> set cs'. elem_ok c" and "\<forall>c \<in> set cs. elem_ok c"
  shows "cs' = cs"
proof -
  have "clean_elems [] (split_slash (abs_path ds)) = ds" if "\<forall>c \<in> set ds. elem_ok c" for ds
  proof (cases "ds = []")
    case False
    have "split_slash (abs_path ds) = [] # ds" using split_abs_path[OF False] that by (simp add: elem_ok_def)
    then show ?thesis using clean_elems_plain[of ds "[]"] that elem_ok_dots by (auto simp: elem_ok_def)
  qed (simp add: abs_path_def)
  then show ?thesis using assms by metis
qed

section \<open>The check, by elements\<close>

lemma root_path_ok: "validateExtraFilePath ''/'' = Inr ()"
  by code_simp

definition path_allowed :: "string list \<Rightarrow> bool" where
  "path_allowed cs = (cs = [] \<or>
     hd cs \<notin> {''etc'', ''root'', ''home'', ''proc'', ''sys'', ''boot''}
     \<and> set (butlast cs) \<inter> {''.ssh'', ''.gnupg'', ''.aws'', ''.kube''} = {}
     \<and> list_all (\<lambda>x. \<not> HasSuffix (last cs) x) [''-key.pem'', ''id_rsa'', ''id_ecdsa'', ''id_ed25519'', ''id_dsa'']
     \<and> last cs \<notin> {''shadow'', ''gshadow''})"

lemma extra_path_iff:
  "validateExtraFilePath p = Inr () \<longleftrightarrow> (\<exists>cs. p = abs_path cs \<and> (\<forall>c \<in> set cs. elem_ok c) \<and> path_allowed cs)"
proof (cases "\<exists>cs. p = abs_path cs \<and> (\<forall>c \<in> set cs. elem_ok c)")
  case False
  then have "\<not> (p \<noteq> [] \<and> HasPrefix p ''/'' \<and> \<not> Contains p ''..'' \<and> path_Clean p = p)" using canonical_iff by blast
  then have "validateExtraFilePath p \<noteq> Inr ()" by (auto simp: validateExtraFilePath_def)
  then show ?thesis using False by blast
next
  case True
  then obtain cs where p: "p = abs_path cs" and ok: "\<forall>c \<in> set cs. elem_ok c" by auto
  have can: "p \<noteq> []" "HasPrefix p ''/''" "\<not> Contains p ''..''" "path_Clean p = p" using canonical_iff True by blast+
  have uniq: "cs' = cs" if "abs_path cs' = abs_path cs" "\<forall>c \<in> set cs'. elem_ok c" for cs'
    using that ok by (rule abs_path_inj)
  have pre: "list_ex (\<lambda>x. p = strings_TrimSuffix x ''/'' \<or> HasPrefix p x) extraFilePathDenylistPrefixes
      \<longleftrightarrow> (\<exists>x \<in> {''etc'', ''root'', ''home'', ''proc'', ''sys'', ''boot''}. \<exists>ds. cs = x # ds)"
    using under_iff[OF ok, of "''etc''"] under_iff[OF ok, of "''root''"] under_iff[OF ok, of "''home''"]
      under_iff[OF ok, of "''proc''"] under_iff[OF ok, of "''sys''"] under_iff[OF ok, of "''boot''"]
    by (simp add: extraFilePathDenylistPrefixes_def strings_TrimSuffix_def HasSuffix_def p)
  have sub: "list_ex (\<lambda>x. Contains p x) extraFilePathDenylistSubstrings
      \<longleftrightarrow> (\<exists>x \<in> {''.ssh'', ''.gnupg'', ''.aws'', ''.kube''}. x \<in> set (butlast cs))"
    using inside_iff[OF ok, of "''.ssh''"] inside_iff[OF ok, of "''.gnupg''"] inside_iff[OF ok, of "''.aws''"] inside_iff[OF ok, of "''.kube''"]
    by (simp add: extraFilePathDenylistSubstrings_def p)
  have suf: "list_ex (\<lambda>x. HasSuffix p x) extraFilePathDenylistSuffixes
      \<longleftrightarrow> list_ex (\<lambda>x. HasSuffix (last cs) x) [''-key.pem'', ''id_rsa'', ''id_ecdsa'', ''id_ed25519'', ''id_dsa''] \<or> last cs \<in> {''shadow'', ''gshadow''}"
    if "cs \<noteq> []"
    using ends_iff[OF that ok] by (simp add: extraFilePathDenylistSuffixes_def p)
  have root: "cs = [] \<Longrightarrow> validateExtraFilePath p = Inr ()"
    using root_path_ok by (simp add: p abs_path_def)
  have "validateExtraFilePath p = Inr () \<longleftrightarrow> \<not> list_ex (\<lambda>x. p = strings_TrimSuffix x ''/'' \<or> HasPrefix p x) extraFilePathDenylistPrefixes
      \<and> \<not> list_ex (\<lambda>x. Contains p x) extraFilePathDenylistSubstrings \<and> \<not> list_ex (\<lambda>x. HasSuffix p x) extraFilePathDenylistSuffixes"
    using can by (simp add: validateExtraFilePath_def)
  also have "\<dots> \<longleftrightarrow> path_allowed cs"
  proof (cases "cs = []")
    case False
    have "(\<exists>x \<in> S. \<exists>ds. cs = x # ds) \<longleftrightarrow> hd cs \<in> S" for S using False by (cases cs) auto
    moreover have "(\<exists>x \<in> S. x \<in> set (butlast cs)) \<longleftrightarrow> set (butlast cs) \<inter> S \<noteq> {}" for S by blast
    moreover have "(\<not> list_ex P xs) = list_all (\<lambda>x. \<not> P x) xs" for P :: "string \<Rightarrow> bool" and xs
      by (auto simp: list_ex_iff list_all_iff)
    ultimately show ?thesis unfolding pre sub suf[OF False] de_Morgan_disj path_allowed_def using False by (simp only: not_not simp_thms)
  qed (use root calculation in \<open>simp add: path_allowed_def\<close>)
  finally have "validateExtraFilePath p = Inr () \<longleftrightarrow> path_allowed cs" .
  moreover have "(\<exists>cs. p = abs_path cs \<and> (\<forall>c \<in> set cs. elem_ok c) \<and> path_allowed cs) \<longleftrightarrow> path_allowed cs"
    using p ok uniq by metis
  ultimately show ?thesis by simp
qed

text \<open>C27: What an operator may make an agent read: \<open>validateExtraFilePath\<close> accepts a path exactly when it
  is the root or a sequence of non-empty elements, none of them \<open>.\<close> or containing \<open>..\<close>, whose first element
  is not one of the protected top-level directories, that does not pass through a credential
  directory, and whose last element is not one of the protected file names. So no spelling of a
  path (doubled slashes, \<open>.\<close> elements, trailing slash) gets around the deny lists.\<close>

theorem extra_path_exact:
  "validateExtraFilePath p = Inr () \<longleftrightarrow> (\<exists>cs. p = abs_path cs \<and> list_all elem_ok cs \<and> path_allowed cs)"
  by (simp add: extra_path_iff list_all_iff)

end
