(* ===== verification/Log_Retention.thy ===== *)
theory Log_Retention
  imports Agents
begin

text \<open>
  Deleting logs by age (\<open>api/logretention\<close>): the statements on ClickHouse's \<open>logs\<close> table
  (\<open>store.go\<close>), the retention floors read from the agents' overrides (\<open>agent_floor.go\<close>) and the
  handlers (\<open>handler.go\<close>). A log row is its time, host, service and an identifier for the rest.
  Which of the calls fail (and whether a failed deletion was applied all the same), the two clock readings of a request and the collation of the
  \<open>ORDER BY\<close> are arguments.
\<close>

section \<open>Store\<close>

record log_row =
  lg_Timestamp :: gotime
  lg_Host :: string
  lg_Service :: string
  lg_Record :: string

type_synonym host_service = "string \<times> string"

record retention_env =
  re_now :: gotime
  re_now2 :: gotime
  re_collation :: "string \<Rightarrow> int"
  re_listFails :: bool
  re_floorsFail :: bool
  re_countFails :: bool
  re_deleteFails :: bool
  re_deleteApplied :: bool

definition target_of :: "log_row \<Rightarrow> host_service" where
  "target_of r = (lg_Host r, lg_Service r)"

text \<open>\<open>GROUP BY host, service\<close>, then \<open>ORDER BY host, n DESC\<close>.\<close>

definition TargetsOlderThan :: "retention_env \<Rightarrow> gotime \<Rightarrow> log_row list \<Rightarrow> (host_service \<times> nat) list" where
  "TargetsOlderThan env cutoff logs =
    (let old = filter (\<lambda>r. lg_Timestamp r < cutoff) logs;
       groups = map (\<lambda>t. (t, length (filter (\<lambda>r. target_of r = t) old))) (remdups (map target_of old))
     in sort_key (\<lambda>(t, n). re_collation env (fst t)) (sort_key (\<lambda>(t, n). - int n) groups))"

definition hit :: "gotime \<Rightarrow> host_service list \<Rightarrow> log_row \<Rightarrow> bool" where
  "hit cutoff targets r = (lg_Timestamp r < cutoff \<and> target_of r \<in> set targets)"

definition CountOlderThan :: "gotime \<Rightarrow> host_service list \<Rightarrow> log_row list \<Rightarrow> nat" where
  "CountOlderThan cutoff targets logs = length (filter (hit cutoff targets) logs)"

definition DeleteOlderThan :: "gotime \<Rightarrow> host_service list \<Rightarrow> log_row list \<Rightarrow> log_row list" where
  "DeleteOlderThan cutoff targets logs = filter (\<lambda>r. \<not> hit cutoff targets r) logs"

section \<open>Floors\<close>

record host_floor =
  hf_DefaultDays :: "int option"
  hf_ServiceDays :: "(string \<times> int) list"

definition no_floor :: host_floor where
  "no_floor = \<lparr>hf_DefaultDays = None, hf_ServiceDays = []\<rparr>"

text \<open>An omitted field is absent from the stored object. The rows come in table order, whatever
  tenant they belong to, and a later row of a host replaces an earlier one.\<close>

definition has_floor :: "agent_row \<Rightarrow> bool" where
  "has_floor r = (case ar_DesiredOverride r of None \<Rightarrow> False
     | Some c \<Rightarrow> co_LogRetentionDays c \<noteq> None \<or> co_ServiceLogRetentionDays c \<noteq> [])"

definition floor_of :: "agent_row \<Rightarrow> host_floor" where
  "floor_of r = (case ar_DesiredOverride r of None \<Rightarrow> no_floor
     | Some c \<Rightarrow> \<lparr>hf_DefaultDays = co_LogRetentionDays c, hf_ServiceDays = co_ServiceLogRetentionDays c\<rparr>)"

definition FloorsByHost :: "agents_db \<Rightarrow> string \<rightharpoonup> host_floor" where
  "FloorsByHost db = fold (\<lambda>r m. m(ar_Host r \<mapsto> floor_of r)) (filter has_floor (ag_rows db)) Map.empty"

definition floor_at :: "agents_db \<Rightarrow> string \<Rightarrow> host_floor" where
  "floor_at db host = (case FloorsByHost db host of None \<Rightarrow> no_floor | Some f \<Rightarrow> f)"

definition Effective :: "host_floor \<Rightarrow> string \<Rightarrow> int option" where
  "Effective hf service = (case map_of (hf_ServiceDays hf) service of
     Some days \<Rightarrow> Some days
   | None \<Rightarrow> hf_DefaultDays hf)"

section \<open>Handlers\<close>

definition maxOlderThanHours :: int where "maxOlderThanHours = 10 * 365 * 24"

definition maxTargets :: nat where "maxTargets = 2000"

text \<open>Deduplication keeps the first occurrence.\<close>

fun parseTargets_loop :: "host_service list \<Rightarrow> host_service list \<Rightarrow> host_service list option" where
  "parseTargets_loop out [] = Some out"
| "parseTargets_loop out (t # ts) =
    (if fst t = [] \<or> snd t = [] then None
     else if t \<in> set out then parseTargets_loop out ts
     else parseTargets_loop (out @ [t]) ts)"

definition parseTargets :: "host_service list \<Rightarrow> host_service list option" where
  "parseTargets targets = (case parseTargets_loop [] targets of
     None \<Rightarrow> None
   | Some out \<Rightarrow> if length out = 0 \<or> length out > maxTargets then None else Some out)"

datatype retention_body = RtError string
  | HostsBody "(string \<times> int option \<times> (string \<times> nat \<times> int option) list) list" gotime
  | CountBody nat gotime "host_service list" "(host_service \<times> int) list"

type_synonym retention_reply = "nat \<times> retention_body"

definition decodeDeletionRequest :: "(int \<times> host_service list) option \<Rightarrow> (retention_reply, int \<times> host_service list) result" where
  "decodeDeletionRequest body = (case body of
     None \<Rightarrow> Inl (400, RtError ''invalid JSON body'')
   | Some (hours, ts) \<Rightarrow>
     if hours < 1 \<or> hours > maxOlderThanHours then Inl (400, RtError ''older_than_hours must be a positive integer'')
     else (case parseTargets ts of
       None \<Rightarrow> Inl (400, RtError ''targets must name at least one non-empty host/service pair'')
     | Some ts \<Rightarrow> Inr (hours, ts)))"

text \<open>\<open>time.Duration\<close> arithmetic wraps at 64 bits.\<close>

definition hours_before :: "gotime \<Rightarrow> int \<Rightarrow> gotime" where
  "hours_before t hours = t + wrap64 (wrap64 (- hours) * Hour)"

definition days_before :: "gotime \<Rightarrow> int \<Rightarrow> gotime" where
  "days_before t days = t + wrap64 (wrap64 (wrap64 (- days) * 24) * Hour)"

fun partition_loop :: "agents_db \<Rightarrow> gotime \<Rightarrow> gotime \<Rightarrow> host_service list \<Rightarrow> host_service list \<times> (host_service \<times> int) list" where
  "partition_loop db now cutoff [] = ([], [])"
| "partition_loop db now cutoff (t # ts) =
    (let (allowed, blocked) = partition_loop db now cutoff ts in
     case Effective (floor_at db (fst t)) (snd t) of
       None \<Rightarrow> (t # allowed, blocked)
     | Some days \<Rightarrow> if cutoff > days_before now days then (allowed, (t, days) # blocked) else (t # allowed, blocked))"

definition partitionTargets :: "retention_env \<Rightarrow> agents_db \<Rightarrow> role \<Rightarrow> host_service list \<Rightarrow> gotime
    \<Rightarrow> (host_service list \<times> (host_service \<times> int) list) option" where
  "partitionTargets env db role targets cutoff =
    (if role = RoleOwner then Some (targets, [])
     else if re_floorsFail env then None
     else Some (partition_loop db (re_now2 env) cutoff targets))"

definition roleForFloorCheck :: "identity option \<Rightarrow> role" where
  "roleForFloorCheck ctx = (case ctx of None \<Rightarrow> RoleOwner | Some i \<Rightarrow> id_Role i)"

text \<open>The state: the agents' table, which these handlers only read, and the logs.\<close>

type_synonym retention_state = "agents_db \<times> log_row list"

type_synonym host_entry = "string \<times> int option \<times> (string \<times> nat \<times> int option) list"

text \<open>One turn of the loop that groups contiguous rows of a host.\<close>

definition add_target :: "agents_db \<Rightarrow> host_entry list \<Rightarrow> host_service \<times> nat \<Rightarrow> host_entry list" where
  "add_target db hosts c = (case c of ((host, service), n) \<Rightarrow>
    (let hf = floor_at db host;
       hosts = (if hosts = [] \<or> fst (last hosts) \<noteq> host then hosts @ [(host, hf_DefaultDays hf, [])] else hosts);
       (h, p, services) = last hosts
     in butlast hosts @ [(h, p, services @ [(service, n, Effective hf service)])]))"

definition handleHosts :: "retention_env \<Rightarrow> int option \<Rightarrow> (retention_state, retention_reply) ctx_handler" where
  "handleHosts env hours ctx s = (case hours of
     None \<Rightarrow> ((400, RtError ''older_than_hours must be a positive integer''), s)
   | Some h \<Rightarrow>
     if h < 1 \<or> h > maxOlderThanHours then ((400, RtError ''older_than_hours must be a positive integer''), s)
     else if re_listFails env \<or> re_floorsFail env then ((500, RtError ''listing hosts failed''), s)
     else let cutoff = hours_before (re_now env) h in
       ((200, HostsBody (foldl (add_target (fst s)) [] (TargetsOlderThan env cutoff (snd s))) cutoff), s))"

definition handlePreview :: "retention_env \<Rightarrow> (int \<times> host_service list) option \<Rightarrow> (retention_state, retention_reply) ctx_handler" where
  "handlePreview env body ctx s = (case decodeDeletionRequest body of
     Inl e \<Rightarrow> (e, s)
   | Inr (hours, targets) \<Rightarrow>
     (let cutoff = hours_before (re_now env) hours in
      case partitionTargets env (fst s) (roleForFloorCheck ctx) targets cutoff of
        None \<Rightarrow> ((500, RtError ''checking retention policy failed''), s)
      | Some (allowed, blocked) \<Rightarrow>
        if length allowed > 0 \<and> re_countFails env then ((500, RtError ''counting logs failed''), s)
        else ((200, CountBody (if length allowed > 0 then CountOlderThan cutoff allowed (snd s) else 0) cutoff allowed blocked), s)))"

definition handleDeleteLogs :: "retention_env \<Rightarrow> (int \<times> host_service list) option \<Rightarrow> (retention_state, retention_reply) ctx_handler" where
  "handleDeleteLogs env body ctx s = (case decodeDeletionRequest body of
     Inl e \<Rightarrow> (e, s)
   | Inr (hours, targets) \<Rightarrow>
     (let cutoff = hours_before (re_now env) hours in
      case partitionTargets env (fst s) (roleForFloorCheck ctx) targets cutoff of
        None \<Rightarrow> ((500, RtError ''checking retention policy failed''), s)
      | Some (allowed, blocked) \<Rightarrow>
        if length allowed > 0 then
          (if re_countFails env then ((500, RtError ''counting logs failed''), s)
           else if re_deleteFails env then ((500, RtError ''deleting logs failed''),
             (fst s, if re_deleteApplied env then DeleteOlderThan cutoff allowed (snd s) else snd s))
           else ((200, CountBody (CountOlderThan cutoff allowed (snd s)) cutoff allowed blocked),
                 (fst s, DeleteOlderThan cutoff allowed (snd s))))
        else ((200, CountBody 0 cutoff allowed blocked), s)))"

datatype retention_route = RHosts "int option" | RPreview "(int \<times> host_service list) option" | RDelete "(int \<times> host_service list) option"

fun retention_handler :: "retention_env \<Rightarrow> retention_route \<Rightarrow> (retention_state, retention_reply) ctx_handler" where
  "retention_handler env (RHosts h) = handleHosts env h"
| "retention_handler env (RPreview b) = handlePreview env b"
| "retention_handler env (RDelete b) = handleDeleteLogs env b"

definition retention_serve :: "retention_env \<Rightarrow> (http_request \<Rightarrow> ('e, identity) result) option \<Rightarrow> http_request \<Rightarrow> retention_route
    \<Rightarrow> retention_state \<Rightarrow> retention_reply guarded \<times> retention_state" where
  "retention_serve env au r route s = RequireRole (map_option (\<lambda>f r s. f r) au) RoleAdmin (retention_handler env route) r s"

end
