(* ===== verification/Fleet.thy ===== *)
theory Fleet
  imports Agent_Paths Log_Retention
begin

text \<open>
  Properties of the agents' table and of the log deletion that depends on it: who may change an
  agent's configuration, how a lifecycle command reaches its agent, and what the retention floors
  protect.
\<close>

section \<open>Rows after an update\<close>

definition keeps_keys :: "(agent_row \<Rightarrow> agent_row) \<Rightarrow> bool" where
  "keeps_keys f = (\<forall>r. ar_TenantID (f r) = ar_TenantID r \<and> ar_Host (f r) = ar_Host r)"

lemma find_upd:
  assumes "keeps_keys f"
  shows "find (is_row T' h') (map (\<lambda>r. if is_row T h r then f r else r) rs) =
    (if T' = T \<and> h' = h then map_option f (find (is_row T h) rs) else find (is_row T' h') rs)"
proof (induction rs)
  case (Cons r rs)
  have "is_row T' h' (f r) = is_row T' h' r" using assms by (simp add: is_row_def keeps_keys_def)
  moreover have "is_row T h r \<Longrightarrow> is_row T' h' r = (T' = T \<and> h' = h)" by (auto simp: is_row_def)
  ultimately show ?case using Cons.IH by auto
qed simp

lemma update_row_Inr:
  assumes "update_row T h f db = Inr db'"
  shows "db' = db\<lparr>ag_rows := map (\<lambda>r. if is_row T h r then f r else r) (ag_rows db)\<rparr>" "find (is_row T h) (ag_rows db) \<noteq> None"
  using assms by (auto simp: update_row_def find_None_iff list_ex_iff split: if_splits)

lemma find_update_row:
  assumes "keeps_keys f" and "update_row T h f db = Inr db'"
  shows "find (is_row T' h') (ag_rows db') = (if T' = T \<and> h' = h then map_option f (find (is_row T h) (ag_rows db)) else find (is_row T' h') (ag_rows db))"
  using find_upd[OF assms(1)] update_row_Inr(1)[OF assms(2)] by simp

lemma then_get_Inr: "then_get T h res = Inr (a, db) \<Longrightarrow> res = Inr db"
  by (auto simp: then_get_def bindE_eq_Inr)

lemma current_override_row: "current_override T h db = (case find (is_row T h) (ag_rows db) of None \<Rightarrow> None
    | Some r \<Rightarrow> if ar_DesiredVersion r = None then None else ar_DesiredOverride r)"
  by (auto simp: current_override_def Get_agent_def scanAgent_def split: option.split)

lemma SetOverride_current:
  assumes "SetOverride env T h c u db = Inr (a, db')"
  shows "current_override T' h' db' = (if T' = T \<and> h' = h then Some c else current_override T' h' db)"
proof -
  define f :: "agent_row \<Rightarrow> agent_row" where "f = (\<lambda>r. r\<lparr>ar_DesiredOverride := Some c, ar_DesiredVersion := Some (ge_newVersion env), ar_UpdatedBy := Some u\<rparr>)"
  have up: "update_row T h f db = Inr db'" using assms then_get_Inr by (auto simp: SetOverride_def f_def split: if_splits)
  have "keeps_keys f" by (simp add: keeps_keys_def f_def)
  then show ?thesis using find_update_row[OF _ up] update_row_Inr(2)[OF up]
    by (auto simp: current_override_row f_def split: option.split)
qed

lemma ClearOverride_current:
  assumes "ClearOverride T h db = Inr db'"
  shows "current_override T' h' db' = (if T' = T \<and> h' = h then None else current_override T' h' db)"
proof -
  define f :: "agent_row \<Rightarrow> agent_row" where "f = (\<lambda>r. r\<lparr>ar_DesiredOverride := None, ar_DesiredVersion := None, ar_UpdatedBy := None\<rparr>)"
  have up: "update_row T h f db = Inr db'" using assms by (simp add: ClearOverride_def f_def)
  have "keeps_keys f" by (simp add: keeps_keys_def f_def)
  then show ?thesis using find_update_row[OF _ up] update_row_Inr(2)[OF up]
    by (auto simp: current_override_row f_def split: option.split)
qed

lemma IssueCommand_current:
  assumes "IssueCommand env T h c u db = Inr (a, db')"
  shows "current_override T' h' db' = current_override T' h' db"
proof -
  define f :: "agent_row \<Rightarrow> agent_row" where "f = (\<lambda>r. r\<lparr>ar_PendingCommand := Some c, ar_CommandIssuedAt := Some (ge_now env), ar_CommandIssuedBy := Some u\<rparr>)"
  have up: "update_row T h f db = Inr db'" using assms then_get_Inr by (auto simp: IssueCommand_def f_def)
  have "keeps_keys f" by (simp add: keeps_keys_def f_def)
  then show ?thesis using find_update_row[OF _ up] update_row_Inr(2)[OF up]
    by (auto simp: current_override_row f_def split: option.split)
qed

section \<open>Authority over configurations\<close>

definition map_ok :: "config_override \<Rightarrow> bool" where
  "map_ok c = distinct (map fst (co_ServiceLogRetentionDays c))"

lemma map_of_sub_eq:
  assumes "distinct (map fst xs)" "distinct (map fst ys)" "length xs = length ys" "\<forall>(s, d) \<in> set ys. map_of xs s = Some d"
  shows "map_of xs = map_of ys"
proof -
  have "set ys \<subseteq> set xs" using assms(1,4) by (auto dest: map_of_SomeD)
  moreover have "card (set ys) = card (set xs)" using assms(1-3) by (simp add: distinct_card distinct_map)
  ultimately have "set ys = set xs" by (simp add: card_subset_eq)
  then show ?thesis using assms(1,2) map_of_inject_set by metis
qed

lemma unchanged_services:
  assumes "distinct (map fst cur)" "distinct (map fst des)" "\<not> changesServiceLogRetentionDays cur des"
  shows "map_of des = map_of cur"
  using assms map_of_sub_eq[of cur des] by (auto simp: changesServiceLogRetentionDays_def list_ex_iff)

fun route_ok :: "agents_route \<Rightarrow> bool" where
  "route_ok (ASetConfig h (Some c)) = map_ok c"
| "route_ok _ = True"

text \<open>What the three checks of \<open>handleSetConfig\<close> leave of a change, when it goes through.\<close>

lemma handleSetConfig_effect:
  assumes "handleSetConfig env h (Some c) (Some i) s = (rep, s')" and "fst s' \<noteq> fst s"
    and keys: "map_ok c" "\<forall>c. current_override (agents_tenantID (Some i)) h (fst s) = Some c \<longrightarrow> map_ok c"
  shows "current_override T' h' (fst s') = (if T' = agents_tenantID (Some i) \<and> h' = h then Some c else current_override T' h' (fst s))"
    and "validateOverride c = Inr ()"
    and "\<not> Satisfies (id_Role i) RoleAdmin \<Longrightarrow> set (co_ExtraFilePaths c) \<subseteq> set (currentExtraFilePaths (agents_tenantID (Some i)) h (fst s))"
    and "id_Role i \<noteq> RoleOwner \<Longrightarrow> co_LogRetentionDays c = currentLogRetentionDays (agents_tenantID (Some i)) h (fst s)
      \<and> map_of (co_ServiceLogRetentionDays c) = map_of (currentServiceLogRetentionDays (agents_tenantID (Some i)) h (fst s))"
proof -
  let ?T = "agents_tenantID (Some i)"
  show v: "validateOverride c = Inr ()"
    using assms(1,2) by (cases "validateOverride c") (auto simp: handleSetConfig_def)
  have ex: "\<not> (lacks (Some i) RoleAdmin \<and> changesExtraFilePaths (currentExtraFilePaths ?T h (fst s)) (co_ExtraFilePaths c))"
    and lr: "\<not> (lacks (Some i) RoleOwner \<and> changesLogRetentionDays (currentLogRetentionDays ?T h (fst s)) (co_LogRetentionDays c))"
    and sv: "\<not> (lacks (Some i) RoleOwner \<and> changesServiceLogRetentionDays (currentServiceLogRetentionDays ?T h (fst s)) (co_ServiceLogRetentionDays c))"
    using assms(1,2) v by (auto simp: handleSetConfig_def split: if_splits)
  have "\<exists>a. SetOverride env ?T h c (updatedBy (Some i)) (fst s) = Inr (a, fst s')"
    using assms(1,2) v ex lr sv unfolding handleSetConfig_def
    by (cases "SetOverride env ?T h c (updatedBy (Some i)) (fst s)") (auto split: prod.splits)
  then show "current_override T' h' (fst s') = (if T' = ?T \<and> h' = h then Some c else current_override T' h' (fst s))"
    using SetOverride_current by blast
  show "set (co_ExtraFilePaths c) \<subseteq> set (currentExtraFilePaths ?T h (fst s))" if "\<not> Satisfies (id_Role i) RoleAdmin"
    using ex that by (auto simp: lacks_def changesExtraFilePaths_def list_ex_iff)
  have d: "distinct (map fst (currentServiceLogRetentionDays ?T h (fst s)))" "distinct (map fst (co_ServiceLogRetentionDays c))"
    using keys by (auto simp: currentServiceLogRetentionDays_def map_ok_def split: option.split)
  show "co_LogRetentionDays c = currentLogRetentionDays ?T h (fst s)
      \<and> map_of (co_ServiceLogRetentionDays c) = map_of (currentServiceLogRetentionDays ?T h (fst s))" if "id_Role i \<noteq> RoleOwner"
    using lr sv that unchanged_services[OF d]
    by (auto simp: lacks_def changesLogRetentionDays_def split: option.splits)
qed


section \<open>Delivery of commands\<close>

text \<open>The API and the check-in RPC work on the same table; a run interleaves them in any order.\<close>

datatype fleet_event = Request http_request agents_route | Arrival "string list" check_in

datatype fleet_outcome = Issued string string | Delivered string string | Quiet

definition caller_of :: "(http_request \<Rightarrow> ('e, identity) result) option \<Rightarrow> http_request \<Rightarrow> string" where
  "caller_of au r = (case au of None \<Rightarrow> agents_tenantID None
     | Some f \<Rightarrow> (case f r of Inl _ \<Rightarrow> [] | Inr i \<Rightarrow> agents_tenantID (Some i)))"

definition arriving :: "(string \<Rightarrow> string option) option \<Rightarrow> string list \<Rightarrow> string" where
  "arriving resolver md = (case resolveTenant resolver md of Inr t \<Rightarrow> if t = [] then ''default'' else t | Inl _ \<Rightarrow> [])"

definition was_issued :: "agents_route \<Rightarrow> agents_reply guarded \<Rightarrow> string option" where
  "was_issued route rep = (case route of
     ACommand h b \<Rightarrow> (case rep of Served r \<Rightarrow> if fst r = 200 then Some h else None | _ \<Rightarrow> None)
   | _ \<Rightarrow> None)"

fun fleet_step :: "(http_request \<Rightarrow> ('e, identity) result) option \<Rightarrow> 'l command_logger option \<Rightarrow> (string \<Rightarrow> string option) option
    \<Rightarrow> agents_env \<times> fleet_event \<Rightarrow> agents_db \<times> 'l \<Rightarrow> fleet_outcome \<times> (agents_db \<times> 'l)" where
  "fleet_step au commands resolver (env, Request r route) s =
    (let (rep, s') = agents_serve env commands au r route s
     in ((case was_issued route rep of Some h \<Rightarrow> Issued (caller_of au r) h | None \<Rightarrow> Quiet), s'))"
| "fleet_step au commands resolver (env, Arrival md info) s =
    (let (rep, db') = CheckIn_rpc env resolver True md info (fst s)
     in ((case rep of Inl _ \<Rightarrow> Quiet
          | Inr resp \<Rightarrow> if rs_Restart resp then Delivered (arriving resolver md) (ci_Host info) else Quiet), (db', snd s)))"

fun fleet_run :: "(http_request \<Rightarrow> ('e, identity) result) option \<Rightarrow> 'l command_logger option \<Rightarrow> (string \<Rightarrow> string option) option
    \<Rightarrow> (agents_env \<times> fleet_event) list \<Rightarrow> agents_db \<times> 'l \<Rightarrow> fleet_outcome list \<times> (agents_db \<times> 'l)" where
  "fleet_run au commands resolver [] s = ([], s)"
| "fleet_run au commands resolver (e # es) s =
    (let (ou, s') = fleet_step au commands resolver e s; (os, s'') = fleet_run au commands resolver es s' in (ou # os, s''))"

definition pending :: "string \<Rightarrow> string \<Rightarrow> agents_db \<Rightarrow> bool" where
  "pending T h db = (case find (is_row T h) (ag_rows db) of None \<Rightarrow> False | Some r \<Rightarrow> ar_PendingCommand r = Some CommandRestart)"

lemma pending_update:
  assumes "keeps_keys f" and "update_row T h f db = Inr db'"
    and "\<And>r. ar_PendingCommand (f r) = ar_PendingCommand r"
  shows "pending T' h' db' = pending T' h' db"
  using find_update_row[OF assms(1,2)] assms(3) by (auto simp: pending_def split: option.split)

lemma pending_SetOverride:
  assumes "SetOverride env T h c u db = Inr (a, db')"
  shows "pending T' h' db' = pending T' h' db"
proof -
  have "update_row T h (\<lambda>r. r\<lparr>ar_DesiredOverride := Some c, ar_DesiredVersion := Some (ge_newVersion env), ar_UpdatedBy := Some u\<rparr>) db = Inr db'"
    using assms then_get_Inr by (auto simp: SetOverride_def split: if_splits)
  then show ?thesis by (rule pending_update[rotated]) (simp_all add: keeps_keys_def)
qed

lemma pending_ClearOverride:
  assumes "ClearOverride T h db = Inr db'"
  shows "pending T' h' db' = pending T' h' db"
  using assms unfolding ClearOverride_def by (rule pending_update[rotated]) (simp_all add: keeps_keys_def)

lemma pending_IssueCommand:
  assumes "IssueCommand env T h CommandRestart u db = Inr (a, db')"
  shows "pending T' h' db' = (T' = T \<and> h' = h \<or> pending T' h' db)"
proof -
  define f :: "agent_row \<Rightarrow> agent_row" where "f = (\<lambda>r. r\<lparr>ar_PendingCommand := Some CommandRestart, ar_CommandIssuedAt := Some (ge_now env), ar_CommandIssuedBy := Some u\<rparr>)"
  have up: "update_row T h f db = Inr db'" using assms then_get_Inr by (auto simp: IssueCommand_def f_def)
  have "keeps_keys f" by (simp add: keeps_keys_def f_def)
  then show ?thesis using find_update_row[OF _ up] update_row_Inr(2)[OF up]
    by (auto simp: pending_def f_def split: option.split)
qed

lemma report_keys: "keeps_keys (report info now)" "ar_PendingCommand (report info now r) = None"
  by (simp_all add: keeps_keys_def report_def)

lemma find_append_row: "find P (xs @ [x]) = (case find P xs of None \<Rightarrow> if P x then Some x else None | Some y \<Rightarrow> Some y)"
  by (induction xs) auto

lemma upsert_pending:
  assumes "upsert env T info db = Some (r, db')"
  shows "pending T' h' db' = (pending T' h' db \<and> \<not> (T' = T \<and> h' = ci_Host info))"
proof (cases "find (is_row T (ci_Host info)) (ag_rows db)")
  case None
  then have "db' = db\<lparr>ag_rows := ag_rows db @ [report info (ge_now env) (new_row env T (ci_Host info))]\<rparr>"
    using assms by (auto simp: upsert_def Let_def split: if_splits)
  moreover have "is_row T' h' (report info (ge_now env) (new_row env T (ci_Host info))) = (T' = T \<and> h' = ci_Host info)"
    by (auto simp: is_row_def report_def new_row_def)
  ultimately show ?thesis using None by (auto simp: pending_def find_append_row report_keys(2) split: option.split)
next
  case (Some r0)
  then have db': "db' = db\<lparr>ag_rows := map (\<lambda>r. if is_row T (ci_Host info) r then report info (ge_now env) r else r) (ag_rows db)\<rparr>"
    using assms by (auto simp: upsert_def split: if_splits)
  show ?thesis using find_upd[OF report_keys(1)] Some by (auto simp: pending_def db' report_keys(2) split: option.split)
qed

lemma CheckIn_pending:
  assumes "CheckIn_rpc env resolver True md info db = (rep, db')"
  shows "case rep of Inr resp \<Rightarrow> rs_Restart resp = pending (arriving resolver md) (ci_Host info) db
      \<and> (\<forall>T h. pending T h db' = (pending T h db \<and> \<not> (T = arriving resolver md \<and> h = ci_Host info)))
    | Inl _ \<Rightarrow> (\<forall>T h. pending T h db' \<longrightarrow> pending T h db)"
proof (cases "ci_Host info = [] \<or> (\<exists>e. resolveTenant resolver md = Inl e)")
  case True
  then show ?thesis using assms by (auto simp: CheckIn_rpc_def split: if_splits)
next
  case False
  then obtain t where t: "resolveTenant resolver md = Inr t" by (cases "resolveTenant resolver md") auto
  define T where "T = (if t = [] then ''default'' else t)"
  have arr: "arriving resolver md = T" by (simp add: arriving_def t T_def)
  show ?thesis
  proof (cases "upsert env T info db")
    case None
    then have "rep = Inl Internal" "db' = db" using assms False t by (simp_all add: CheckIn_rpc_def Registry_CheckIn_def T_def Let_def)
    then show ?thesis by simp
  next
    case (Some z)
    obtain r db1 where z: "z = (r, db1)" by (cases z)
    have db': "db' = db1" using assms False t Some z
      by (auto simp: CheckIn_rpc_def Registry_CheckIn_def T_def Let_def split: option.splits if_splits)
    have "rep = Inr resp \<Longrightarrow> rs_Restart resp = pending T (ci_Host info) db" for resp
      using assms False t Some z
      by (auto simp: CheckIn_rpc_def Registry_CheckIn_def T_def Let_def pending_def str_or_empty_def CommandRestart_def split: option.splits if_splits)
    then show ?thesis using upsert_pending[OF Some[unfolded z]] by (auto simp: db' arr split: sum.split)
  qed
qed

lemma handler_pending:
  assumes "agents_handler env commands route ctx s = (rep, s')"
  shows "pending T h (fst s') = (pending T h (fst s) \<or> T = agents_tenantID ctx \<and> was_issued route (Served rep) = Some h)"
proof (cases route)
  case (ASetConfig h1 b)
  then have "fst s' = fst s \<or> (\<exists>c a. SetOverride env (agents_tenantID ctx) h1 c (updatedBy ctx) (fst s) = Inr (a, fst s'))"
    using assms by (auto simp: handleSetConfig_def split: option.splits sum.splits if_splits)
  then show ?thesis using ASetConfig pending_SetOverride by (auto simp: was_issued_def)
next
  case (AClearConfig h1)
  then have "fst s' = fst s \<or> ClearOverride (agents_tenantID ctx) h1 (fst s) = Inr (fst s')"
    using assms by (auto simp: handleClearConfig_def split: sum.splits)
  then show ?thesis using AClearConfig pending_ClearOverride by (auto simp: was_issued_def)
next
  case (ACommand h1 b)
  then have "fst s' = fst s \<and> fst rep \<noteq> 200
      \<or> fst rep = 200 \<and> (\<exists>a. IssueCommand env (agents_tenantID ctx) h1 CommandRestart (updatedBy ctx) (fst s) = Inr (a, fst s'))"
    using assms by (auto simp: handleIssueCommand_def validCommand_def agents_storeErr_def agents_badJSON_def split: option.splits sum.splits if_splits)
  then show ?thesis using ACommand pending_IssueCommand by (auto simp: was_issued_def)
qed (use assms in \<open>auto simp: handleListAgents_def handleGetAgent_def was_issued_def split: sum.splits\<close>)

lemma map_prod_Served: "map_prod Served id x = (Served rp, s') \<longleftrightarrow> x = (rp, s')"
  by (cases x) auto

lemma map_prod_refused: "map_prod Served id x \<noteq> (Unauthorized, s')" "map_prod Served id x \<noteq> (Forbidden, s')"
  by (cases x; simp)+

lemma step_counts:
  assumes "fleet_step au commands resolver e s = (ou, s')"
  shows "of_bool (ou = Delivered T h) + of_bool (pending T h (fst s')) \<le> of_bool (ou = Issued T h) + (of_bool (pending T h (fst s)) :: nat)"
    and "ou = Issued T h \<Longrightarrow> pending T h (fst s')"
proof -
  obtain env ev where e: "e = (env, ev)" by (cases e)
  have "of_bool (ou = Delivered T h) + of_bool (pending T h (fst s')) \<le> of_bool (ou = Issued T h) + (of_bool (pending T h (fst s)) :: nat)
    \<and> (ou = Issued T h \<longrightarrow> pending T h (fst s'))"
  proof (cases ev)
    case (Request r route)
    obtain rep where sv: "agents_serve env commands au r route s = (rep, s')"
      and ou: "ou = (case was_issued route rep of Some h \<Rightarrow> Issued (caller_of au r) h | None \<Rightarrow> Quiet)"
      using assms e Request by (auto split: prod.splits)
    show ?thesis
    proof (cases rep)
      case (Served rp)
      then obtain ctx where h: "agents_handler env commands route ctx s = (rp, s')" and c: "caller_of au r = agents_tenantID ctx"
        using sv by (auto simp: agents_serve_def RequireRole_def caller_of_def map_prod_Served split: option.splits sum.splits if_splits prod.splits)
      show ?thesis using handler_pending[OF h, of T h] ou c Served by (auto split: option.splits)
    qed (use sv ou in \<open>auto simp: agents_serve_def RequireRole_def was_issued_def map_prod_refused split: option.splits sum.splits if_splits agents_route.splits\<close>)
  next
    case (Arrival md info)
    obtain rep where ci: "CheckIn_rpc env resolver True md info (fst s) = (rep, fst s')"
      and ou: "ou = (case rep of Inl _ \<Rightarrow> Quiet | Inr resp \<Rightarrow> if rs_Restart resp then Delivered (arriving resolver md) (ci_Host info) else Quiet)"
      using assms e Arrival by (auto split: prod.splits)
    show ?thesis using CheckIn_pending[OF ci] ou by (auto split: sum.splits)
  qed
  then show "of_bool (ou = Delivered T h) + of_bool (pending T h (fst s')) \<le> of_bool (ou = Issued T h) + (of_bool (pending T h (fst s)) :: nat)"
    "ou = Issued T h \<Longrightarrow> pending T h (fst s')" by blast+
qed

text \<open>C28: A restart is delivered once, and at the next opportunity. In any interleaving of API requests
  and check-ins, an agent is told to restart at most as often as a restart of it was accepted
  (counting one that was already waiting, and less the one still waiting at the end); right after a
  restart is accepted it is waiting; and a successful check-in answers with a restart exactly
  when one is waiting for that tenant's host.\<close>

theorem restart_delivery:
  assumes "fleet_run au commands resolver es s = (os, s')"
  shows "count_list os (Delivered T h) + of_bool (pending T h (fst s')) \<le> count_list os (Issued T h) + of_bool (pending T h (fst s))
    \<and> (os \<noteq> [] \<and> last os = Issued T h \<longrightarrow> pending T h (fst s'))
    \<and> (CheckIn_rpc env resolver True md info (fst s') = (Inr resp, db') \<longrightarrow>
        rs_Restart resp = pending (arriving resolver md) (ci_Host info) (fst s'))"
proof (intro conjI)
  show "count_list os (Delivered T h) + of_bool (pending T h (fst s')) \<le> count_list os (Issued T h) + of_bool (pending T h (fst s))"
    using assms
  proof (induction es arbitrary: s os)
    case (Cons e es)
    obtain ou s1 os1 where st: "fleet_step au commands resolver e s = (ou, s1)" and run: "fleet_run au commands resolver es s1 = (os1, s')"
      and os: "os = ou # os1" using Cons.prems by (auto split: prod.splits)
    show ?case using step_counts(1)[OF st, of T h] Cons.IH[OF run] os by (auto split: if_splits)
  qed auto
  show "os \<noteq> [] \<and> last os = Issued T h \<longrightarrow> pending T h (fst s')"
    using assms
  proof (induction es arbitrary: s os)
    case (Cons e es)
    obtain ou s1 os1 where st: "fleet_step au commands resolver e s = (ou, s1)" and run: "fleet_run au commands resolver es s1 = (os1, s')"
      and os: "os = ou # os1" using Cons.prems by (auto split: prod.splits)
    show ?case
    proof (cases "os1 = []")
      case True
      then have "s' = s1" using run by (cases es) (auto split: prod.splits)
      then show ?thesis using step_counts(2)[OF st, of T h] os True by simp
    next
      case False
      then show ?thesis using Cons.IH[OF run] os by simp
    qed
  qed auto
  show "CheckIn_rpc env resolver True md info (fst s') = (Inr resp, db') \<longrightarrow>
        rs_Restart resp = pending (arriving resolver md) (ci_Host info) (fst s')"
    using CheckIn_pending[of env resolver md info "fst s'" "Inr resp" db'] by simp
qed

section \<open>Retention floors\<close>

lemma partition_loop_sets:
  "set (fst (partition_loop db now cutoff ts)) = {t \<in> set ts. \<forall>days. Effective (floor_at db (fst t)) (snd t) = Some days \<longrightarrow> cutoff \<le> days_before now days}"
  "set (snd (partition_loop db now cutoff ts)) = {(t, days). t \<in> set ts \<and> Effective (floor_at db (fst t)) (snd t) = Some days \<and> cutoff > days_before now days}"
  by (induction ts) (auto split: option.splits prod.splits)

text \<open>The floors that \<open>validateOverride\<close> lets through are small enough for 64-bit durations.\<close>

lemma days_before_exact:
  assumes "1 \<le> days" "days \<le> 3650"
  shows "days_before now days = now - days * 24 * Hour"
proof -
  have "wrap64 (- days) = - days" "wrap64 (- days * 24) = - days * 24" "wrap64 (- days * 24 * Hour) = - days * 24 * Hour"
    using assms by (intro wrap64_id; simp add: min_int64_def max_int64_def Hour_def Minute_def Second_def)+
  then show ?thesis by (simp add: days_before_def)
qed

lemma hours_before_exact:
  assumes "1 \<le> hours" "hours \<le> maxOlderThanHours"
  shows "hours_before now hours = now - hours * Hour"
proof -
  have "wrap64 (- hours) = - hours" "wrap64 (- hours * Hour) = - hours * Hour"
    using assms by (intro wrap64_id; simp add: min_int64_def max_int64_def Hour_def Minute_def Second_def maxOlderThanHours_def)+
  then show ?thesis by (simp add: hours_before_def)
qed

lemma FloorsByHost_SomeD:
  assumes "FloorsByHost db h = Some f"
  shows "\<exists>r \<in> set (ag_rows db). ar_Host r = h \<and> has_floor r \<and> f = floor_of r"
proof -
  have "fold (\<lambda>r m. m(ar_Host r \<mapsto> floor_of r)) rs m h = Some f \<Longrightarrow> m h = Some f \<or> (\<exists>r \<in> set rs. ar_Host r = h \<and> f = floor_of r)" for rs m
  proof (induction rs arbitrary: m)
    case (Cons a rs)
    then have "(m(ar_Host a \<mapsto> floor_of a)) h = Some f \<or> (\<exists>r \<in> set rs. ar_Host r = h \<and> f = floor_of r)"
      using Cons.IH[of "m(ar_Host a \<mapsto> floor_of a)"] by (simp del: fun_upd_apply)
    then show ?case by (auto split: if_splits)
  qed simp
  then show ?thesis using assms unfolding FloorsByHost_def by fastforce
qed

definition floors_valid :: "agents_db \<Rightarrow> bool" where
  "floors_valid db = (\<forall>r \<in> set (ag_rows db). \<forall>c. ar_DesiredOverride r = Some c \<longrightarrow> validateOverride c = Inr ())"

lemma check_all_iff: "check_all f xs = Inr () \<longleftrightarrow> (\<forall>x \<in> set xs. f x = Inr ())"
  by (induction xs) (auto simp: bindE_eq_Inr)

lemma Effective_range:
  assumes "floors_valid db" and "Effective (floor_at db h) sv = Some days"
  shows "1 \<le> days \<and> days \<le> 3650"
proof -
  obtain f where f: "FloorsByHost db h = Some f" "Effective f sv = Some days"
    using assms(2) by (auto simp: floor_at_def Effective_def no_floor_def split: option.splits)
  obtain r c where c: "r \<in> set (ag_rows db)" "ar_DesiredOverride r = Some c"
      "f = \<lparr>hf_DefaultDays = co_LogRetentionDays c, hf_ServiceDays = co_ServiceLogRetentionDays c\<rparr>"
    using FloorsByHost_SomeD[OF f(1)] by (auto simp: has_floor_def floor_of_def split: option.splits)
  have v: "validateOverride c = Inr ()" using assms(1) c by (auto simp: floors_valid_def)
  then have sv: "\<forall>sd \<in> set (co_ServiceLogRetentionDays c). check_service sd = Inr ()"
    by (auto simp: validateOverride_def bindE_eq_Inr check_all_iff split: if_splits)
  have df: "co_LogRetentionDays c = Some d \<Longrightarrow> 1 \<le> d \<and> d \<le> 3650" for d
    using v by (auto simp: validateOverride_def bindE_eq_Inr split: if_splits)
  show ?thesis
  proof (cases "map_of (co_ServiceLogRetentionDays c) sv")
    case None
    then show ?thesis using f(2) c(3) df by (simp add: Effective_def)
  next
    case (Some d)
    then have "(sv, days) \<in> set (co_ServiceLogRetentionDays c)" using f(2) c(3) by (auto simp: Effective_def dest: map_of_SomeD)
    then have "check_service (sv, days) = Inr ()" using sv by blast
    then show ?thesis by (auto simp: check_service_def split: if_splits)
  qed
qed

lemma delete_effect:
  assumes "handleDeleteLogs env body ctx s = (rep, s')" and "rec \<in> set (snd s)" and "rec \<notin> set (snd s')"
  shows "\<exists>hours ts allowed blocked. decodeDeletionRequest body = Inr (hours, ts)
    \<and> partitionTargets env (fst s) (roleForFloorCheck ctx) ts (hours_before (re_now env) hours) = Some (allowed, blocked)
    \<and> lg_Timestamp rec < hours_before (re_now env) hours \<and> target_of rec \<in> set allowed"
  using assms by (auto simp: handleDeleteLogs_def DeleteOlderThan_def hit_def Let_def split: sum.splits prod.splits option.splits if_splits)

lemma decode_range: "decodeDeletionRequest body = Inr (hours, ts) \<Longrightarrow> 1 \<le> hours \<and> hours \<le> maxOlderThanHours"
  by (auto simp: decodeDeletionRequest_def split: option.splits if_splits)

lemma parseTargets_sub: "parseTargets ts0 = Some ts \<Longrightarrow> set ts \<subseteq> set ts0"
proof -
  have "parseTargets_loop out xs = Some ys \<Longrightarrow> set ys \<subseteq> set out \<union> set xs" for out xs ys
    by (induction out xs rule: parseTargets_loop.induct) (auto split: if_splits)
  then show "parseTargets ts0 = Some ts \<Longrightarrow> set ts \<subseteq> set ts0"
    by (fastforce simp: parseTargets_def split: option.splits if_splits)
qed

lemma count_delete: "length logs = length (DeleteOlderThan cutoff ts logs) + CountOlderThan cutoff ts logs"
  unfolding DeleteOlderThan_def CountOlderThan_def using sum_length_filter_compl[of "hit cutoff ts" logs] by simp

lemma preview_agrees:
  assumes "handleDeleteLogs env body ctx s = (rp, s')" and "rp = (200, CountBody n cutoff allowed blocked)"
  shows "fst (handlePreview env body ctx s) = rp \<and> length (snd s) = length (snd s') + n"
  using assms count_delete
  by (auto simp: handleDeleteLogs_def handlePreview_def Let_def decodeDeletionRequest_def split: sum.splits prod.splits option.splits if_splits)


lemma cleared_floor:
  assumes "ClearOverride T h db = Inr db'" and "\<forall>r \<in> set (ag_rows db). ar_Host r = h \<longrightarrow> ar_TenantID r = T"
  shows "floor_at db' h = no_floor"
proof -
  have rows: "ag_rows db' = map (\<lambda>r. if is_row T h r then r\<lparr>ar_DesiredOverride := None, ar_DesiredVersion := None, ar_UpdatedBy := None\<rparr> else r) (ag_rows db)"
    using update_row_Inr(1)[OF assms(1)[unfolded ClearOverride_def]] by simp
  have "\<not> has_floor r" if r: "r \<in> set (ag_rows db')" "ar_Host r = h" for r
  proof -
    obtain x where x: "x \<in> set (ag_rows db)"
      "r = (if is_row T h x then x\<lparr>ar_DesiredOverride := None, ar_DesiredVersion := None, ar_UpdatedBy := None\<rparr> else x)"
      using r(1) unfolding rows by auto
    have "is_row T h x" using x r(2) assms(2) by (cases "is_row T h x") (auto simp: is_row_def)
    then show ?thesis using x(2) by (simp add: has_floor_def)
  qed
  then have "FloorsByHost db' h = None" using FloorsByHost_SomeD by (cases "FloorsByHost db' h") (simp, blast)
  then show ?thesis by (simp add: floor_at_def)
qed

text \<open>The floor is not the owner's alone: an editor can lift it. The route that clears an agent's
  override asks for the editor role only and has none of the checks of the one that sets it; after it
  the host has no floor at all, and an admin's next request deletes every log of that host and
  service that is older than the requested age, however long the owner wanted it kept.\<close>

theorem editor_lifts_floor:
  fixes f f2 :: "http_request \<Rightarrow> ('e, identity) result"
  assumes row: "row \<in> set (ag_rows (fst s))" "is_row T h row"
    and one: "\<forall>r \<in> set (ag_rows (fst s)). ar_Host r = h \<longrightarrow> ar_TenantID r = T"
    and editor: "f rq = Inr i" "Satisfies (id_Role i) RoleEditor" "agents_tenantID (Some i) = T"
    and cleared: "agents_serve env commands (Some f) rq (AClearConfig h) s = (rep, s')"
    and admin: "f2 rq2 = Inr a" "Satisfies (id_Role a) RoleAdmin"
    and up: "\<not> re_floorsFail renv" "\<not> re_countFails renv" "\<not> re_deleteFails renv"
    and req: "1 \<le> hours" "hours \<le> maxOlderThanHours" "h \<noteq> []" "sv \<noteq> []"
  shows "rep = Served (204, AgNone)
    \<and> snd (snd (retention_serve renv (Some f2) rq2 (RDelete (Some (hours, [(h, sv)]))) (fst s', logs)))
      = filter (\<lambda>rec. \<not> (lg_Timestamp rec < re_now renv - hours * Hour \<and> lg_Host rec = h \<and> lg_Service rec = sv)) logs"
proof -
  have ex: "list_ex (is_row T h) (ag_rows (fst s))" using row by (auto simp: list_ex_iff)
  then obtain db where db: "ClearOverride T h (fst s) = Inr db" by (simp add: ClearOverride_def update_row_def)
  then have c: "rep = Served (204, AgNone)" "fst s' = db"
    using cleared editor by (auto simp: agents_serve_def RequireRole_def handleClearConfig_def)
  have none: "Effective (floor_at db h) sv = None" using cleared_floor[OF db one] by (simp add: Effective_def no_floor_def)
  have dec: "decodeDeletionRequest (Some (hours, [(h, sv)])) = Inr (hours, [(h, sv)])"
    using req by (simp add: decodeDeletionRequest_def parseTargets_def maxTargets_def)
  have part: "partitionTargets renv db (id_Role a) [(h, sv)] (hours_before (re_now renv) hours) = Some ([(h, sv)], [])"
    using none up(1) by (simp add: partitionTargets_def)
  have "snd (snd (retention_serve renv (Some f2) rq2 (RDelete (Some (hours, [(h, sv)]))) (db, logs)))
      = DeleteOlderThan (hours_before (re_now renv) hours) [(h, sv)] logs"
    using admin dec part up by (simp add: retention_serve_def RequireRole_def handleDeleteLogs_def roleForFloorCheck_def Let_def)
  also have "\<dots> = filter (\<lambda>rec. \<not> (lg_Timestamp rec < re_now renv - hours * Hour \<and> lg_Host rec = h \<and> lg_Service rec = sv)) logs"
    using hours_before_exact[OF req(1,2), of "re_now renv"] by (auto simp: DeleteOlderThan_def hit_def target_of_def intro!: filter_cong)
  finally show ?thesis using c by simp
qed

section \<open>Witnesses\<close>

definition w_over :: config_override where
  "w_over = \<lparr>co_BatchMaxSize = None, co_BatchFlushIntervalMS = None, co_HeartbeatEnabled = None, co_HeartbeatIntervalMS = None,
     co_JournaldUnit = None, co_ExtraFilePaths = [], co_LogRetentionDays = Some 90, co_ServiceLogRetentionDays = []\<rparr>"

definition w_genv :: agents_env where
  "w_genv = \<lparr>ge_now = 0, ge_uuid = ''u1'', ge_newVersion = ''v1'', ge_jsonb = (\<lambda>_. True), ge_collation = (\<lambda>_. 0)\<rparr>"

definition w_row :: agent_row where
  "w_row = (new_row w_genv ''default'' ''web'')\<lparr>ar_DesiredOverride := Some w_over, ar_DesiredVersion := Some ''v0''\<rparr>"

definition w_agents :: agents_db where
  "w_agents = \<lparr>ag_rows = [w_row], ag_tenants = [''default'']\<rparr>"

definition w_caller :: "role \<Rightarrow> http_request \<Rightarrow> (unit, identity) result" where
  "w_caller ro = (\<lambda>r. Inr \<lparr>id_TenantID = ''default'', id_UserID = ''u'', id_Role = ro\<rparr>)"

definition w_renv :: retention_env where
  "w_renv = \<lparr>re_now = 5000 * Hour, re_now2 = 5000 * Hour, re_collation = (\<lambda>_. 0), re_listFails = False, re_floorsFail = False,
     re_countFails = False, re_deleteFails = False, re_deleteApplied = False\<rparr>"

definition w_log :: log_row where
  "w_log = \<lparr>lg_Timestamp = 4000 * Hour, lg_Host = ''web'', lg_Service = ''nginx'', lg_Record = ''r''\<rparr>"

lemmas fleet_defs = w_over_def w_genv_def w_row_def w_agents_def w_caller_def w_renv_def w_log_def new_row_def is_row_def
  agents_tenantID_def Satisfies_def roleRank_def


theorem editor_lifts_floor_witness:
  "snd (snd (retention_serve w_renv (Some (w_caller RoleAdmin)) blank_request (RDelete (Some (24, [(''web'', ''nginx'')])))
     (fst (snd (agents_serve w_genv None (Some (w_caller RoleEditor)) blank_request (AClearConfig ''web'') (w_agents, ()))), [w_log]))) = []"
proof -
  obtain rep s' where s: "agents_serve w_genv (None :: unit command_logger option) (Some (w_caller RoleEditor)) blank_request (AClearConfig ''web'') (w_agents, ()) = (rep, s')"
    by (metis surj_pair)
  show ?thesis using editor_lifts_floor[where row = w_row and T = "''default''" and h = "''web''" and hours = 24 and sv = "''nginx''"
      and renv = w_renv and logs = "[w_log]" and ?f2.0 = "w_caller RoleAdmin" and ?rq2.0 = blank_request and s = "(w_agents, ())", OF _ _ _ _ _ _ s] s
    by (simp add: fleet_defs maxOlderThanHours_def Hour_def Minute_def Second_def)
qed


theorem restart_delivery_witness:
  "rs_Restart (the (case fst (CheckIn_rpc w_genv None True [] \<lparr>ci_Host = ''web'', ci_Service = [], ci_AgentVersion = [], ci_SourceKind = [],
      ci_SourceDetail = [], ci_BatchMaxSize = 0, ci_BatchFlushIntervalMS = 0, ci_HeartbeatEnabled = True, ci_HeartbeatIntervalMS = 0,
      ci_AppliedOverrideVersion = []\<rparr> (fst (snd (fleet_run (Some (w_caller RoleAdmin)) (None :: unit command_logger option) None
        [(w_genv, Request blank_request (ACommand ''web'' (Some ''restart'')))] (w_agents, ()))))) of Inr x \<Rightarrow> Some x | Inl _ \<Rightarrow> None))"
proof -
  let ?es = "[(w_genv, Request blank_request (ACommand ''web'' (Some ''restart'')))]"
  let ?info = "\<lparr>ci_Host = ''web'', ci_Service = [], ci_AgentVersion = [], ci_SourceKind = [],
      ci_SourceDetail = [], ci_BatchMaxSize = 0, ci_BatchFlushIntervalMS = 0, ci_HeartbeatEnabled = True, ci_HeartbeatIntervalMS = 0,
      ci_AppliedOverrideVersion = []\<rparr>"
  obtain os s' where run: "fleet_run (Some (w_caller RoleAdmin)) (None :: unit command_logger option) None ?es (w_agents, ()) = (os, s')" by (metis surj_pair)
  obtain rep db' where ci: "CheckIn_rpc w_genv None True [] ?info (fst s') = (rep, db')" by (metis surj_pair)
  have os: "os = [Issued ''default'' ''web'']" using run
    by (auto simp: agents_serve_def RequireRole_def handleIssueCommand_def validCommand_def CommandRestart_def IssueCommand_def then_get_def
        update_row_def Get_agent_def was_issued_def caller_of_def updatedBy_def fleet_defs)
  have "\<exists>resp. rep = Inr resp" using ci run
    by (auto simp: agents_serve_def RequireRole_def handleIssueCommand_def validCommand_def CommandRestart_def IssueCommand_def then_get_def
        update_row_def Get_agent_def was_issued_def caller_of_def updatedBy_def fleet_defs CheckIn_rpc_def resolveTenant_def Registry_CheckIn_def
        upsert_def bigint_def min_int64_def max_int64_def report_def unsigned_ok_def below_def Let_def)
  then obtain resp where "rep = Inr resp" by blast
  then have "rs_Restart resp" using restart_delivery[OF run, of "''default''" "''web''" w_genv "[]" ?info resp db'] os ci
    by (simp add: arriving_def resolveTenant_def)
  then show ?thesis using run ci \<open>rep = Inr resp\<close> by simp
qed

end
