(* ===== verification/Ingest.thy ===== *)
theory Ingest
  imports Agents
begin

text \<open>
  The way of a log record from an agent to ClickHouse: \<open>PushBatch\<close> of
  \<open>ingest/internal/grpcserver\<close> with the tenant resolver, the batching loop of \<open>ingest/consumer\<close>,
  \<open>ingest/internal/normalize\<close>, the single-tenant writer of \<open>ingest/clickhousewriter\<close> and the
  per-tenant one of \<open>enterprise/internal/chwriter\<close>, whose counterpart on the reading side is
  \<open>enterprise/internal/chrunner\<close>. Protobuf coding, UUIDs, the HTTP call of the resolver and the
  outcome of each call to Redpanda and ClickHouse are arguments.
\<close>

section \<open>Records and rows\<close>

record log_record =
  lr_TimestampUnixNano :: int
  lr_Host :: string
  lr_Service :: string
  lr_Severity :: int
  lr_Message :: string
  lr_Attributes :: "(string \<times> string) list"
  lr_RecordId :: string

record ch_row =
  cw_Timestamp :: gotime
  cw_Host :: string
  cw_Service :: string
  cw_Severity :: string
  cw_Message :: string
  cw_Attributes :: "(string \<times> string) list"
  cw_RecordID :: string

definition severityText :: "int \<Rightarrow> string" where
  "severityText sev = (if sev = 1 then ''TRACE'' else if sev = 2 then ''DEBUG'' else if sev = 3 then ''INFO''
     else if sev = 4 then ''WARN'' else if sev = 5 then ''ERROR'' else if sev = 6 then ''FATAL'' else ''UNSPECIFIED'')"

text \<open>\<open>parse\<close> is \<open>uuid.Parse\<close>; on an error the zero UUID is kept.\<close>

definition nil_uuid :: string where "nil_uuid = ''00000000-0000-0000-0000-000000000000''"

definition ToRow :: "(string \<Rightarrow> string option) \<Rightarrow> log_record \<Rightarrow> ch_row" where
  "ToRow parse rec = \<lparr>cw_Timestamp = lr_TimestampUnixNano rec, cw_Host = lr_Host rec, cw_Service = lr_Service rec,
     cw_Severity = severityText (lr_Severity rec), cw_Message = lr_Message rec, cw_Attributes = lr_Attributes rec,
     cw_RecordID = (case parse (lr_RecordId rec) of None \<Rightarrow> nil_uuid | Some u \<Rightarrow> u)\<rparr>"

section \<open>Resolver\<close>

text \<open>\<open>call\<close> is the POST to enterprise-auth: \<open>None\<close> on a transport error, else the status and the
  \<open>tenant_id\<close> of the body if it decodes.\<close>

definition ResolveTenant :: "(string \<Rightarrow> (int \<times> string option) option) \<Rightarrow> string \<Rightarrow> string option" where
  "ResolveTenant call token = (case call (''Bearer '' @ token) of
     None \<Rightarrow> None
   | Some (status, body) \<Rightarrow>
     if status \<noteq> 200 then None
     else (case body of None \<Rightarrow> None | Some t \<Rightarrow> if t = [] then None else Some t))"

section \<open>Pushing a batch\<close>

record kafka_message =
  km_Partition :: nat
  km_Offset :: nat
  km_Key :: string
  km_Headers :: "(string \<times> string) list"
  km_Value :: string

definition TenantIDHeaderKey :: string where "TenantIDHeaderKey = ''tenant_id''"

text \<open>\<open>marshal\<close> fails on a record that is not valid UTF-8; \<open>uuid n\<close> is the n-th UUID of the call.
  Partition and offset are the broker's.\<close>

fun make_messages :: "(log_record \<Rightarrow> string option) \<Rightarrow> (nat \<Rightarrow> string) \<Rightarrow> string \<Rightarrow> nat \<Rightarrow> log_record list \<Rightarrow> kafka_message list option" where
  "make_messages marshal uuid tenant n [] = Some []"
| "make_messages marshal uuid tenant n (rec # recs) = (case marshal (rec\<lparr>lr_RecordId := uuid n\<rparr>) of
     None \<Rightarrow> None
   | Some val \<Rightarrow> (case make_messages marshal uuid tenant (n + 1) recs of
       None \<Rightarrow> None
     | Some msgs \<Rightarrow> Some (\<lparr>km_Partition = 0, km_Offset = 0, km_Key = lr_Host rec,
         km_Headers = (if tenant \<noteq> [] then [(TenantIDHeaderKey, tenant)] else []), km_Value = val\<rparr> # msgs)))"

text \<open>\<open>produce\<close> is the producer's \<open>WriteBatch\<close>: whether it succeeds and which messages reach the
  broker.\<close>

definition PushBatch :: "(string \<Rightarrow> string option) option \<Rightarrow> (log_record \<Rightarrow> string option) \<Rightarrow> (nat \<Rightarrow> string)
    \<Rightarrow> (kafka_message list \<Rightarrow> bool \<times> kafka_message list)
    \<Rightarrow> string list \<Rightarrow> log_record list \<Rightarrow> (rpc_error, nat) result \<times> kafka_message list" where
  "PushBatch resolver marshal uuid produce md records =
    (if length records = 0 then (Inr 0, [])
     else (case resolveTenant resolver md of
       Inl e \<Rightarrow> (Inl e, [])
     | Inr tenant \<Rightarrow> (case make_messages marshal uuid tenant 0 records of
         None \<Rightarrow> (Inl (InvalidArgument ''marshaling record''), [])
       | Some msgs \<Rightarrow> (case produce msgs of (ok, arrived) \<Rightarrow>
           (if ok then Inr (length records mod 2 ^ 32) else Inl Unavailable, arrived)))))"

section \<open>Consumer\<close>

record consumer_record =
  cr_TenantID :: string
  cr_Record :: log_record

fun tenantIDFromHeaders :: "(string \<times> string) list \<Rightarrow> string" where
  "tenantIDFromHeaders [] = []"
| "tenantIDFromHeaders ((k, v) # hs) = (if k = TenantIDHeaderKey then v else tenantIDFromHeaders hs)"

text \<open>A writer maps the outcomes its calls get, the batch and its database to success and the new
  database.\<close>

type_synonym ('o, 'db) batch_writer = "'o \<Rightarrow> consumer_record list \<Rightarrow> 'db \<Rightarrow> bool \<times> 'db"

record 'db consumer =
  cs_records :: "consumer_record list"
  cs_pending :: "kafka_message list"
  cs_db :: 'db
  cs_commits :: "kafka_message list list"
  cs_stopped :: bool

text \<open>The \<open>select\<close> of \<open>Run\<close>: a tick, a message, or the end of the loop (cancelled context or fetch
  error). Each event carries the outcome of the write and of the commit it may lead to.\<close>

datatype consumer_event = CTick | CMsg kafka_message | CStop

definition flush_batch :: "('o, 'db) batch_writer \<Rightarrow> 'o \<Rightarrow> bool \<Rightarrow> 'db consumer \<Rightarrow> 'db consumer" where
  "flush_batch write ou commit_ok st =
    (if length (cs_records st) = 0 then st
     else (let (ok, db') = write ou (cs_records st) (cs_db st)
           in st\<lparr>cs_db := db', cs_commits := (if ok \<and> commit_ok then cs_commits st @ [cs_pending st] else cs_commits st),
                 cs_records := [], cs_pending := []\<rparr>))"

definition consumer_step :: "(string \<Rightarrow> log_record option) \<Rightarrow> nat \<Rightarrow> ('o, 'db) batch_writer \<Rightarrow> 'o \<times> bool \<times> consumer_event
    \<Rightarrow> 'db consumer \<Rightarrow> 'db consumer" where
  "consumer_step unmarshal BatchMaxSize write e st =
    (if cs_stopped st then st
     else (case e of (ou, commit_ok, ev) \<Rightarrow> (case ev of
       CTick \<Rightarrow> flush_batch write ou commit_ok st
     | CStop \<Rightarrow> (flush_batch write ou commit_ok st)\<lparr>cs_stopped := True\<rparr>
     | CMsg m \<Rightarrow> (case unmarshal (km_Value m) of
         None \<Rightarrow> st\<lparr>cs_commits := (if commit_ok then cs_commits st @ [[m]] else cs_commits st)\<rparr>
       | Some rec \<Rightarrow>
         (let st = st\<lparr>cs_records := cs_records st @ [\<lparr>cr_TenantID = tenantIDFromHeaders (km_Headers m), cr_Record = rec\<rparr>],
                      cs_pending := cs_pending st @ [m]\<rparr>
          in if length (cs_records st) \<ge> BatchMaxSize then flush_batch write ou commit_ok st else st)))))"

definition consumer_run :: "(string \<Rightarrow> log_record option) \<Rightarrow> nat \<Rightarrow> ('o, 'db) batch_writer \<Rightarrow> ('o \<times> bool \<times> consumer_event) list
    \<Rightarrow> 'db consumer \<Rightarrow> 'db consumer" where
  "consumer_run unmarshal BatchMaxSize write es st = fold (consumer_step unmarshal BatchMaxSize write) es st"

definition consumer_start :: "'db \<Rightarrow> 'db consumer" where
  "consumer_start db = \<lparr>cs_records = [], cs_pending = [], cs_db = db, cs_commits = [], cs_stopped = False\<rparr>"

section \<open>Writers\<close>

text \<open>The insert of one connection is one block. The outcome says whether all calls succeed, and if
  not whether the rows were stored all the same. The single-tenant writer ignores the tenant.\<close>

datatype write_outcome = WriteOk | WriteFailed | WriteUnconfirmed

definition Writer_WriteBatch :: "(string \<Rightarrow> string option) \<Rightarrow> write_outcome \<Rightarrow> log_record list \<Rightarrow> ch_row list \<Rightarrow> bool \<times> ch_row list" where
  "Writer_WriteBatch parse ou records table =
     (ou = WriteOk, if ou = WriteFailed then table else table @ map (ToRow parse) records)"

definition single_writer :: "(string \<Rightarrow> string option) \<Rightarrow> (write_outcome, ch_row list) batch_writer" where
  "single_writer parse ou records table = Writer_WriteBatch parse ou (map cr_Record records) table"

text \<open>The registry: the tenants with an open connection, and the table of each tenant's database.\<close>

record registry =
  rg_writers :: "string list"
  rg_tables :: "string \<Rightarrow> ch_row list"

text \<open>The outcome of a call: the order in which Go's map iteration yields the groups, and the
  outcome of each tenant's insert.\<close>

fun write_groups :: "(string \<Rightarrow> string option) \<Rightarrow> (string \<Rightarrow> write_outcome) \<Rightarrow> consumer_record list \<Rightarrow> string list \<Rightarrow> registry \<Rightarrow> bool \<times> registry" where
  "write_groups parse ok records [] reg = (True, reg)"
| "write_groups parse ok records (tenantID # ts) reg =
    (if tenantID = [] then (False, reg)
     else if tenantID \<notin> set (rg_writers reg) then (False, reg)
     else (let (done_ok, table) = Writer_WriteBatch parse (ok tenantID)
                  (map cr_Record (filter (\<lambda>r. cr_TenantID r = tenantID) records)) (rg_tables reg tenantID);
             reg' = reg\<lparr>rg_tables := (rg_tables reg)(tenantID := table)\<rparr>
           in if \<not> done_ok then (False, reg') else write_groups parse ok records ts reg'))"

text \<open>An order that is not one of the groups' is replaced by the order of first occurrence, so that
  the iteration always yields every group once.\<close>

definition group_order :: "string list \<Rightarrow> consumer_record list \<Rightarrow> string list" where
  "group_order order records =
    (if distinct order \<and> set order = cr_TenantID ` set records then order else remdups (map cr_TenantID records))"

definition Registry_WriteBatch :: "(string \<Rightarrow> string option) \<Rightarrow> (string list \<times> (string \<Rightarrow> write_outcome), registry) batch_writer" where
  "Registry_WriteBatch parse ou records reg = write_groups parse (snd ou) records (group_order (fst ou) records) reg"

text \<open>\<open>refresh\<close>: \<open>listed\<close> are the active tenants, \<open>None\<close> if listing fails; \<open>opens\<close> says which new
  connections can be opened.\<close>

definition refresh :: "string list option \<Rightarrow> (string \<Rightarrow> bool) \<Rightarrow> registry \<Rightarrow> registry" where
  "refresh listed opens reg = (case listed of
     None \<Rightarrow> reg
   | Some sources \<Rightarrow>
     (let fresh = remdups sources;
        toOpen = filter (\<lambda>t. t \<notin> set (rg_writers reg)) fresh;
        newWriters = filter opens toOpen
      in reg\<lparr>rg_writers := filter (\<lambda>t. t \<in> set fresh) (rg_writers reg @ newWriters)\<rparr>))"

section \<open>Reading side\<close>

datatype runner_error = NoIdentity | NoTenant | NotProvisioned

text \<open>\<open>chrunner.RunSQL\<close>: a statement runs on the connection of the caller's own tenant. \<open>run\<close> is the
  execution on a tenant's connection.\<close>

definition chrunner_RunSQL :: "string list \<Rightarrow> (string \<Rightarrow> string \<Rightarrow> 'r) \<Rightarrow> identity option \<Rightarrow> string \<Rightarrow> (runner_error, 'r) result" where
  "chrunner_RunSQL runners run ctx sql = (case ctx of
     None \<Rightarrow> Inl NoIdentity
   | Some i \<Rightarrow>
     if id_TenantID i = [] then Inl NoTenant
     else if id_TenantID i \<notin> set runners then Inl NotProvisioned
     else Inr (run (id_TenantID i) sql))"

end
