(* ===== verification/Ingest_Delivery.thy ===== *)
theory Ingest_Delivery
  imports Ingest
begin

text \<open>
  What becomes of the records that agents push: the consumer loop against the contract of a
  batch writer, the two writers that fulfil it, and the way of a tenant's records from the
  credential presented to the table that the tenant's users query.
\<close>

section \<open>The contract of a writer\<close>

text \<open>\<open>rows db x\<close> counts the stored copies of \<open>x\<close>; \<open>dest\<close> is what a record becomes, and where.\<close>

locale ch_writer =
  fixes wr :: "('o, 'db) batch_writer" and rows :: "'db \<Rightarrow> 'x \<Rightarrow> nat" and dest :: "consumer_record \<Rightarrow> 'x"
  assumes success: "wr ou rs db = (True, db') \<Longrightarrow> rows db' x = rows db x + count_list (map dest rs) x"
    and partial: "wr ou rs db = (ok, db') \<Longrightarrow> rows db x \<le> rows db' x \<and> rows db' x \<le> rows db x + count_list (map dest rs) x"

section \<open>The consumer against the contract\<close>

definition parsed :: "(string \<Rightarrow> log_record option) \<Rightarrow> kafka_message \<Rightarrow> bool" where
  "parsed unmarshal m = (unmarshal (km_Value m) \<noteq> None)"

definition record_of_msg :: "(string \<Rightarrow> log_record option) \<Rightarrow> kafka_message \<Rightarrow> consumer_record" where
  "record_of_msg unmarshal m = \<lparr>cr_TenantID = tenantIDFromHeaders (km_Headers m), cr_Record = the (unmarshal (km_Value m))\<rparr>"

definition arrived_by :: "consumer_event \<Rightarrow> kafka_message list" where
  "arrived_by ev = (case ev of CMsg m \<Rightarrow> [m] | _ \<Rightarrow> [])"

definition received :: "('o \<times> bool \<times> consumer_event) list \<Rightarrow> kafka_message list" where
  "received es = concat (map (\<lambda>e. arrived_by (snd (snd e))) es)"

text \<open>The records of the parseable messages in a list.\<close>

definition decoded :: "(string \<Rightarrow> log_record option) \<Rightarrow> kafka_message list \<Rightarrow> consumer_record list" where
  "decoded unmarshal ms = map (record_of_msg unmarshal) (filter (parsed unmarshal) ms)"

lemma decoded_append [simp]: "decoded u (xs @ ys) = decoded u xs @ decoded u ys"
  by (simp add: decoded_def)

lemma decoded_nil [simp]: "decoded u [] = []"
  by (simp add: decoded_def)

definition batch_inv :: "(string \<Rightarrow> log_record option) \<Rightarrow> nat \<Rightarrow> 'db consumer \<Rightarrow> bool" where
  "batch_inv u b st = (cs_records st = decoded u (cs_pending st) \<and> list_all (parsed u) (cs_pending st) \<and> length (cs_records st) < max b 1)"

lemma batch_inv_start: "batch_inv u b (consumer_start db)"
  by (simp add: batch_inv_def consumer_start_def)

lemma flush_empty: "cs_records st = [] \<Longrightarrow> flush_batch wr ou ok st = st"
  by (simp add: flush_batch_def)

lemma flush_inv: "batch_inv u b st \<Longrightarrow> batch_inv u b (flush_batch wr ou ok st)"
  by (auto simp: batch_inv_def flush_batch_def split: prod.split)

lemma step_inv: "batch_inv u b st \<Longrightarrow> batch_inv u b (consumer_step u b wr e st)"
proof -
  assume inv: "batch_inv u b st"
  obtain ou ok ev where e: "e = (ou, ok, ev)" by (cases e) auto
  show ?thesis
  proof (cases ev)
    case (CMsg m)
    show ?thesis
    proof (cases "u (km_Value m)")
      case (Some rec)
      define st1 where "st1 = st\<lparr>cs_records := cs_records st @ [\<lparr>cr_TenantID = tenantIDFromHeaders (km_Headers m), cr_Record = rec\<rparr>],
        cs_pending := cs_pending st @ [m]\<rparr>"
      have st1: "cs_records st1 = decoded u (cs_pending st1)" "list_all (parsed u) (cs_pending st1)"
        using inv Some by (simp_all add: batch_inv_def st1_def decoded_def parsed_def record_of_msg_def)
      have "batch_inv u b (if length (cs_records st1) \<ge> b then flush_batch wr ou ok st1 else st1)"
        using st1 by (auto simp: batch_inv_def flush_batch_def split: prod.split)
      then show ?thesis using inv e CMsg Some by (auto simp: consumer_step_def Let_def st1_def)
    qed (use inv e CMsg in \<open>auto simp: consumer_step_def batch_inv_def\<close>)
  next
    case CTick
    then show ?thesis using inv e by (simp add: consumer_step_def flush_inv)
  next
    case CStop
    then show ?thesis using inv e flush_inv[OF inv, of wr ou ok] by (auto simp: consumer_step_def batch_inv_def)
  qed
qed

context ch_writer
begin

text \<open>What is accounted for: with the records still in memory, nothing more than has arrived is
  stored; and what is committed is stored.\<close>

definition accounted :: "(string \<Rightarrow> log_record option) \<Rightarrow> 'db \<Rightarrow> kafka_message list \<Rightarrow> 'db consumer \<Rightarrow> bool" where
  "accounted u db0 ms st = (\<forall>x.
     rows db0 x + count_list (map dest (decoded u (concat (cs_commits st)))) x \<le> rows (cs_db st) x
     \<and> rows (cs_db st) x + count_list (map dest (cs_records st)) x \<le> rows db0 x + count_list (map dest (decoded u ms)) x)"

lemma accounted_flush:
  assumes "batch_inv u b st" and "accounted u db0 ms st"
  shows "accounted u db0 ms (flush_batch wr ou ok st)"
proof (cases "cs_records st = []")
  case False
  obtain w db' where w: "wr ou (cs_records st) (cs_db st) = (w, db')" by fastforce
  have pend: "map dest (decoded u (cs_pending st)) = map dest (cs_records st)" using assms(1) by (simp add: batch_inv_def)
  have "rows db0 x + count_list (map dest (decoded u (concat (cs_commits (flush_batch wr ou ok st))))) x \<le> rows db' x
      \<and> rows db' x \<le> rows db0 x + count_list (map dest (decoded u ms)) x" for x
  proof -
    have a: "rows db0 x + count_list (map dest (decoded u (concat (cs_commits st)))) x \<le> rows (cs_db st) x"
      "rows (cs_db st) x + count_list (map dest (cs_records st)) x \<le> rows db0 x + count_list (map dest (decoded u ms)) x"
      using assms(2) by (simp_all add: accounted_def)
    have p: "rows (cs_db st) x \<le> rows db' x" "rows db' x \<le> rows (cs_db st) x + count_list (map dest (cs_records st)) x"
      using partial[OF w] by auto
    show ?thesis
    proof (cases "w \<and> ok")
      case True
      then have "rows db' x = rows (cs_db st) x + count_list (map dest (cs_records st)) x" using success[of ou "cs_records st" "cs_db st" db' x] w by simp
      then show ?thesis using a p True False w pend by (simp add: flush_batch_def)
    next
      case F: False
      then show ?thesis using a p False w by (auto simp: flush_batch_def)
    qed
  qed
  then show ?thesis using False w by (simp add: accounted_def flush_batch_def)
qed (simp add: assms(2) flush_empty)

lemma accounted_step:
  assumes inv: "batch_inv u b st" and acc: "accounted u db0 ms st"
  shows "accounted u db0 (ms @ arrived_by (snd (snd e))) (consumer_step u b wr e st)"
proof -
  obtain ou ok ev where e: "e = (ou, ok, ev)" by (cases e) auto
  have more: "accounted u db0 (ms @ xs) st" for xs using acc by (auto simp: accounted_def trans_le_add1 intro: le_trans add_mono)
  show ?thesis
  proof (cases "cs_stopped st")
    case True
    then show ?thesis using more by (simp add: consumer_step_def)
  next
    case run: False
    show ?thesis
    proof (cases ev)
      case (CMsg m)
      show ?thesis
      proof (cases "u (km_Value m)")
        case None
        then show ?thesis using run e CMsg acc by (simp add: consumer_step_def accounted_def arrived_by_def decoded_def parsed_def)
      next
        case (Some rec)
        define st1 where "st1 = st\<lparr>cs_records := cs_records st @ [record_of_msg u m], cs_pending := cs_pending st @ [m]\<rparr>"
        have "accounted u db0 (ms @ [m]) st1"
          using acc Some by (auto simp: accounted_def st1_def decoded_def parsed_def)
        moreover have "cs_records st1 = decoded u (cs_pending st1)" "list_all (parsed u) (cs_pending st1)"
          using inv Some by (simp_all add: batch_inv_def st1_def decoded_def parsed_def)
        then have "batch_inv u (Suc (length (cs_records st1))) st1" by (simp add: batch_inv_def)
        ultimately have "accounted u db0 (ms @ [m]) (flush_batch wr ou ok st1)" "accounted u db0 (ms @ [m]) st1"
          using accounted_flush by blast+
        then show ?thesis using run e CMsg Some by (auto simp: consumer_step_def Let_def arrived_by_def st1_def record_of_msg_def)
      qed
    next
      case CTick
      then show ?thesis using run e accounted_flush[OF inv acc] by (simp add: consumer_step_def arrived_by_def)
    next
      case CStop
      then show ?thesis using run e accounted_flush[OF inv acc] by (simp add: consumer_step_def arrived_by_def accounted_def)
    qed
  qed
qed

lemma accounted_run:
  "batch_inv u b (consumer_run u b wr es (consumer_start db0))
   \<and> accounted u db0 (concat (map (\<lambda>e. arrived_by (snd (snd e))) es)) (consumer_run u b wr es (consumer_start db0))"
proof (induction es rule: rev_induct)
  case Nil
  show ?case by (simp add: consumer_run_def batch_inv_start accounted_def) (simp add: consumer_start_def)
next
  case (snoc e es)
  define st where "st = consumer_run u b wr es (consumer_start db0)"
  have ih: "batch_inv u b st" "accounted u db0 (concat (map (\<lambda>e. arrived_by (snd (snd e))) es)) st" using snoc.IH by (simp_all add: st_def)
  have "consumer_run u b wr (es @ [e]) (consumer_start db0) = consumer_step u b wr e st" by (simp add: consumer_run_def st_def)
  then show ?case using step_inv[OF ih(1), of wr e] accounted_step[OF ih, of e] by simp
qed

lemma run_bounds:
  fixes u b es db0 x
  defines "st \<equiv> consumer_run u b wr es (consumer_start db0)"
  shows "rows db0 x + count_list (map dest (decoded u (concat (cs_commits st)))) x \<le> rows (cs_db st) x"
    "rows (cs_db st) x \<le> rows db0 x + count_list (map dest (decoded u (received es))) x" "length (cs_records st) < max b 1"
  using accounted_run[of u b es db0]
  by (auto simp: accounted_def received_def batch_inv_def st_def[symmetric] dest: spec[of _ x])

end

section \<open>The two writers\<close>

definition to_row :: "(string \<Rightarrow> string option) \<Rightarrow> consumer_record \<Rightarrow> ch_row" where
  "to_row parse r = ToRow parse (cr_Record r)"

definition to_dest :: "(string \<Rightarrow> string option) \<Rightarrow> consumer_record \<Rightarrow> string \<times> ch_row" where
  "to_dest parse r = (cr_TenantID r, ToRow parse (cr_Record r))"

definition reg_rows :: "registry \<Rightarrow> string \<times> ch_row \<Rightarrow> nat" where
  "reg_rows reg x = count_list (rg_tables reg (fst x)) (snd x)"

interpretation single: ch_writer "single_writer parse" "count_list" "to_row parse" for parse
  by unfold_locales (auto simp: single_writer_def Writer_WriteBatch_def to_row_def[abs_def] comp_def)

lemma count_group: "count_list (map (to_dest parse) rs) (t, row) = count_list (map (ToRow parse) (map cr_Record (filter (\<lambda>r. cr_TenantID r = t) rs))) row"
  by (induction rs) (auto simp: to_dest_def)

lemma write_groups_rows:
  assumes "write_groups parse ok rs ts reg = (b, reg')" and "distinct ts"
  shows "reg_rows reg (t, row) \<le> reg_rows reg' (t, row)
    \<and> reg_rows reg' (t, row) \<le> reg_rows reg (t, row) + (if t \<in> set ts then count_list (map (to_dest parse) rs) (t, row) else 0)
    \<and> (b \<longrightarrow> reg_rows reg' (t, row) = reg_rows reg (t, row) + (if t \<in> set ts then count_list (map (to_dest parse) rs) (t, row) else 0))"
  using assms
proof (induction ts arbitrary: reg)
  case (Cons t1 ts)
  show ?case
  proof (cases "t1 = [] \<or> t1 \<notin> set (rg_writers reg)")
    case True
    then show ?thesis using Cons.prems(1) by (auto split: if_splits)
  next
    case False
    define g where "g = map cr_Record (filter (\<lambda>r. cr_TenantID r = t1) rs)"
    define table where "table = (if ok t1 = WriteFailed then rg_tables reg t1 else rg_tables reg t1 @ map (ToRow parse) g)"
    define reg1 where "reg1 = reg\<lparr>rg_tables := (rg_tables reg)(t1 := table)\<rparr>"
    have step: "write_groups parse ok rs (t1 # ts) reg = (if ok t1 \<noteq> WriteOk then (False, reg1) else write_groups parse ok rs ts reg1)"
      using False by (simp add: Writer_WriteBatch_def g_def table_def reg1_def Let_def)
    have c: "count_list (map (to_dest parse) rs) (t1, row) = count_list (map (ToRow parse) g) row" by (simp add: count_group g_def)
    have one: "reg_rows reg1 (t, row) = (if t = t1 then count_list table row else reg_rows reg (t, row))"
      by (simp add: reg_rows_def reg1_def)
    show ?thesis
    proof (cases "ok t1 = WriteOk")
      case True
      then have "write_groups parse ok rs ts reg1 = (b, reg')" using Cons.prems(1) step by simp
      then show ?thesis using Cons.IH[of reg1] Cons.prems(2) one c True by (auto simp: table_def reg_rows_def)
    next
      case F: False
      then have "reg' = reg1" "\<not> b" using Cons.prems(1) step by auto
      then show ?thesis using one c by (auto simp: table_def reg_rows_def)
    qed
  qed
qed simp

lemma group_order_ok: "distinct (group_order order rs)" "set (group_order order rs) = cr_TenantID ` set rs"
  by (simp_all add: group_order_def)

lemma count_other: "t \<notin> cr_TenantID ` set rs \<Longrightarrow> count_list (map (to_dest parse) rs) (t, row) = 0"
  by (induction rs) (auto simp: to_dest_def)

interpretation per_tenant: ch_writer "Registry_WriteBatch parse" reg_rows "to_dest parse" for parse
proof
  fix ou :: "string list \<times> (string \<Rightarrow> write_outcome)" and rs db db' ok and x :: "string \<times> ch_row"
  obtain t row where x: "x = (t, row)" by (cases x)
  have count: "(if t \<in> set (group_order (fst ou) rs) then count_list (map (to_dest parse) rs) (t, row) else 0) = count_list (map (to_dest parse) rs) (t, row)"
    using count_other by (auto simp: group_order_ok)
  show "reg_rows db' x = reg_rows db x + count_list (map (to_dest parse) rs) x" if "Registry_WriteBatch parse ou rs db = (True, db')"
    using write_groups_rows[OF that[unfolded Registry_WriteBatch_def] group_order_ok(1), of t row] count x by simp
  show "reg_rows db x \<le> reg_rows db' x \<and> reg_rows db' x \<le> reg_rows db x + count_list (map (to_dest parse) rs) x"
    if "Registry_WriteBatch parse ou rs db = (ok, db')"
    using write_groups_rows[OF that[unfolded Registry_WriteBatch_def] group_order_ok(1), of t row] count x by simp
qed

section \<open>Properties\<close>


text \<open>What the broker delivers again after a restart: the messages of a partition from the committed
  offset on, which is one more than the highest offset committed there.\<close>

definition group_offset :: "nat \<Rightarrow> kafka_message list list \<Rightarrow> nat" where
  "group_offset p commits = fold (\<lambda>m n. if km_Partition m = p then max n (km_Offset m + 1) else n) (concat commits) 0"

definition redelivered :: "kafka_message list list \<Rightarrow> kafka_message \<Rightarrow> bool" where
  "redelivered commits m = (group_offset (km_Partition m) commits \<le> km_Offset m)"

lemma group_offset_gt:
  assumes "m \<in> set (concat commits)" and "km_Partition m = p"
  shows "km_Offset m < group_offset p commits"
proof -
  define f :: "kafka_message \<Rightarrow> nat \<Rightarrow> nat" where "f = (\<lambda>m n. if km_Partition m = p then max n (km_Offset m + 1) else n)"
  have ge: "n \<le> fold f ms n" for ms n
  proof (induction ms arbitrary: n)
    case (Cons x ms)
    have "n \<le> f x n" by (simp add: f_def)
    then show ?case using Cons.IH[of "f x n"] by simp
  qed simp
  have "m \<in> set ms \<Longrightarrow> km_Offset m < fold f ms n" for ms n
  proof (induction ms arbitrary: n)
    case (Cons x ms)
    then show ?case using ge[of "f m n" ms] assms(2) by (auto simp: f_def)
  qed simp
  then show ?thesis using assms(1) by (simp add: group_offset_def f_def)
qed

text \<open>A batch whose write fails is lost. The loop drops the batch from memory although its offsets are
  not committed, and the next successful flush commits later offsets of the same partition: then
  the record of the failed batch is neither stored nor will the broker deliver it again, not even
  after a restart.\<close>

theorem failed_batch_lost:
  assumes parse_ok: "unmarshal (km_Value m1) = Some r1" "unmarshal (km_Value m2) = Some r2"
    and order: "km_Partition m1 = km_Partition m2" "km_Offset m1 < km_Offset m2"
    and rows: "ToRow parse r1 \<noteq> ToRow parse r2" "ToRow parse r1 \<notin> set table"
    and st: "st = consumer_run unmarshal 1 (single_writer parse)
      [(WriteFailed, True, CMsg m1), (WriteOk, True, CMsg m2)] (consumer_start table)"
  shows "ToRow parse r1 \<notin> set (cs_db st) \<and> \<not> redelivered (cs_commits st) m1 \<and> cs_records st = [] \<and> cs_pending st = []"
proof -
  have s: "st = \<lparr>cs_records = [], cs_pending = [], cs_db = table @ [ToRow parse r2], cs_commits = [[m2]], cs_stopped = False\<rparr>"
    using parse_ok by (simp add: st consumer_run_def consumer_step_def consumer_start_def flush_batch_def single_writer_def Writer_WriteBatch_def)
  have "km_Offset m2 < group_offset (km_Partition m1) [[m2]]" using order(1) by (intro group_offset_gt) simp_all
  then have "\<not> redelivered [[m2]] m1" using order(2) by (simp add: redelivered_def)
  then show ?thesis using rows by (simp add: s)
qed

section \<open>From credential to table\<close>

lemma ResolveTenant_nonempty: "ResolveTenant call token = Some t \<Longrightarrow> t \<noteq> []"
  by (auto simp: ResolveTenant_def split: option.splits if_splits)

lemma make_messages_set:
  assumes "make_messages marshal uuid tenant n recs = Some msgs" and "m \<in> set msgs"
  shows "\<exists>rec k. rec \<in> set recs \<and> marshal (rec\<lparr>lr_RecordId := uuid k\<rparr>) = Some (km_Value m)
    \<and> km_Headers m = (if tenant \<noteq> [] then [(TenantIDHeaderKey, tenant)] else [])"
  using assms
proof (induction recs arbitrary: n msgs)
  case (Cons rec recs)
  then show ?case by (auto split: option.splits) blast+
qed simp

text \<open>A message that \<open>PushBatch\<close> hands over carries the tenant of the credential.\<close>

lemma PushBatch_message:
  assumes "m \<in> set (snd (PushBatch (Some R) marshal uuid produce md recs))"
    and "\<forall>ms. set (snd (produce ms)) \<subseteq> set ms" and "\<forall>token t. R token = Some t \<longrightarrow> t \<noteq> []"
  shows "\<exists>token t rec k. bearerTokenFromContext md = Some token \<and> R token = Some t \<and> rec \<in> set recs
    \<and> marshal (rec\<lparr>lr_RecordId := uuid k\<rparr>) = Some (km_Value m) \<and> tenantIDFromHeaders (km_Headers m) = t"
proof -
  obtain t msgs where t: "resolveTenant (Some R) md = Inr t" and mk: "make_messages marshal uuid t 0 recs = Some msgs" and m: "m \<in> set (snd (produce msgs))"
    using assms(1) by (auto simp: PushBatch_def split: sum.splits option.splits prod.splits if_splits)
  obtain token where tok: "bearerTokenFromContext md = Some token" "R token = Some t"
    using t by (auto simp: resolveTenant_def split: option.splits)
  have "t \<noteq> []" using assms(3) tok(2) by blast
  moreover have "m \<in> set msgs" using m assms(2) by blast
  then obtain rec k where "rec \<in> set recs" "marshal (rec\<lparr>lr_RecordId := uuid k\<rparr>) = Some (km_Value m)"
    "km_Headers m = (if t \<noteq> [] then [(TenantIDHeaderKey, t)] else [])"
    using make_messages_set[OF mk] by blast
  ultimately show ?thesis using tok by auto
qed

lemma count_list_pos: "0 < count_list xs x \<Longrightarrow> x \<in> set xs"
  by (metis count_notin less_numeral_extra(3))

text \<open>C25: What a tenant's user can read was pushed for that tenant. Agents push batches with credentials,
  the consumer takes whatever of it the broker delivers, in any order and with any failures, and the
  per-tenant writer stores it; a user's query runs against the table that \<open>chrunner\<close> picks for the
  user's identity. Every row there that was not there before is the normalised form of a record that
  was pushed under a credential which enterprise-auth resolved to the user's own tenant.\<close>

theorem ingest_tenant_isolation:
  fixes call marshal unmarshal produce parse
  assumes codec: "\<forall>r v. marshal r = Some v \<longrightarrow> unmarshal v = Some r"
    and broker: "\<forall>ms. set (snd (produce ms)) \<subseteq> set ms"
    and delivered: "\<forall>m \<in> set (received es). \<exists>(md, recs, uuid) \<in> set pushes.
      \<exists>m' \<in> set (snd (PushBatch (Some (ResolveTenant call)) marshal uuid produce md recs)). km_Headers m = km_Headers m' \<and> km_Value m = km_Value m'"
    and st: "st = consumer_run unmarshal b (Registry_WriteBatch parse) es (consumer_start reg)"
    and query: "chrunner_RunSQL runners (\<lambda>t sql. rg_tables (cs_db st) t) (Some i) sql = Inr table"
    and row: "row \<in> set table" "row \<notin> set (rg_tables reg (id_TenantID i))"
  shows "\<exists>(md, recs, uuid) \<in> set pushes. \<exists>token rec k. bearerTokenFromContext md = Some token
    \<and> ResolveTenant call token = Some (id_TenantID i) \<and> rec \<in> set recs \<and> row = ToRow parse (rec\<lparr>lr_RecordId := uuid k\<rparr>)"
proof -
  let ?x = "(id_TenantID i, row)"
  have t: "table = rg_tables (cs_db st) (id_TenantID i)" using query by (auto simp: chrunner_RunSQL_def split: if_splits)
  then have "reg_rows (cs_db st) ?x \<noteq> 0" using row(1) by (simp add: reg_rows_def count_list_0_iff)
  moreover have "reg_rows reg ?x = 0" using row(2) by (simp add: reg_rows_def count_list_0_iff)
  ultimately have "0 < count_list (map (to_dest parse) (decoded unmarshal (received es))) ?x"
    using per_tenant.run_bounds(2)[where u = unmarshal and b = b and es = es and ?db0.0 = reg and x = ?x and parse = parse] st by simp
  then have "?x \<in> set (map (to_dest parse) (decoded unmarshal (received es)))" by (rule count_list_pos)
  then obtain m where m: "m \<in> set (received es)" "parsed unmarshal m" "to_dest parse (record_of_msg unmarshal m) = ?x"
    by (auto simp: decoded_def)
  obtain md recs uuid m' where p: "(md, recs, uuid) \<in> set pushes"
    and m': "m' \<in> set (snd (PushBatch (Some (ResolveTenant call)) marshal uuid produce md recs))" "km_Headers m = km_Headers m'" "km_Value m = km_Value m'"
    using delivered m(1) by blast
  obtain token tn rec k where q: "bearerTokenFromContext md = Some token" "ResolveTenant call token = Some tn" "rec \<in> set recs"
    "marshal (rec\<lparr>lr_RecordId := uuid k\<rparr>) = Some (km_Value m')" "tenantIDFromHeaders (km_Headers m') = tn"
    using PushBatch_message[OF m'(1) broker] ResolveTenant_nonempty by blast
  have "unmarshal (km_Value m) = Some (rec\<lparr>lr_RecordId := uuid k\<rparr>)" using codec q(4) m'(3) by simp
  then have "tn = id_TenantID i" "row = ToRow parse (rec\<lparr>lr_RecordId := uuid k\<rparr>)"
    using m(3) q(5) m'(2) by (simp_all add: to_dest_def record_of_msg_def)
  then show ?thesis using p q(1-3) by blast
qed

section \<open>Witnesses\<close>

definition w_rec :: "string \<Rightarrow> log_record" where
  "w_rec msg = \<lparr>lr_TimestampUnixNano = 7, lr_Host = ''web'', lr_Service = ''nginx'', lr_Severity = 5, lr_Message = msg,
     lr_Attributes = [], lr_RecordId = ''id''\<rparr>"

text \<open>A codec for two records.\<close>

definition w_marshal :: "log_record \<Rightarrow> string option" where
  "w_marshal r = (if r = w_rec ''m1'' then Some ''1'' else if r = w_rec ''m2'' then Some ''2'' else None)"

definition w_unmarshal :: "string \<Rightarrow> log_record option" where
  "w_unmarshal v = (if v = ''1'' then Some (w_rec ''m1'') else if v = ''2'' then Some (w_rec ''m2'') else None)"

definition w_msg :: "string \<Rightarrow> nat \<Rightarrow> kafka_message" where
  "w_msg v n = \<lparr>km_Partition = 0, km_Offset = n, km_Key = ''web'', km_Headers = [(''tenant_id'', ''A'')], km_Value = v\<rparr>"

definition w_call :: "string \<Rightarrow> (int \<times> string option) option" where
  "w_call s = (if s = ''Bearer tok'' then Some (200, Some ''A'') else None)"

theorem failed_batch_lost_witness:
  "ToRow Some (w_rec ''m1'') \<notin> set (cs_db (consumer_run w_unmarshal 1 (single_writer Some)
     [(WriteFailed, True, CMsg (w_msg ''1'' 0)), (WriteOk, True, CMsg (w_msg ''2'' 1))] (consumer_start [])))"
  using failed_batch_lost[where unmarshal = w_unmarshal and ?m1.0 = "w_msg ''1'' 0" and ?m2.0 = "w_msg ''2'' 1"
      and ?r1.0 = "w_rec ''m1''" and ?r2.0 = "w_rec ''m2''" and parse = Some and table = "[]", OF _ _ _ _ _ _ refl]
  by (simp add: w_unmarshal_def w_msg_def ToRow_def w_rec_def)

theorem ingest_tenant_isolation_witness:
  "\<exists>token. bearerTokenFromContext [''Bearer tok''] = Some token \<and> ResolveTenant w_call token = Some ''A''"
proof -
  define st where "st = consumer_run w_unmarshal 1 (Registry_WriteBatch Some) [(([''A''], \<lambda>_. WriteOk), True, CMsg (w_msg ''1'' 0))]
    (consumer_start \<lparr>rg_writers = [''A''], rg_tables = (\<lambda>_. [])\<rparr>)"
  have db: "rg_tables (cs_db st) ''A'' = [ToRow Some (w_rec ''m1'')]"
    by (simp add: st_def consumer_run_def consumer_step_def consumer_start_def flush_batch_def Registry_WriteBatch_def group_order_def
      Writer_WriteBatch_def w_unmarshal_def w_msg_def TenantIDHeaderKey_def)
  have codec: "\<forall>r v. w_marshal r = Some v \<longrightarrow> w_unmarshal v = Some r"
    by (auto simp: w_marshal_def w_unmarshal_def split: if_splits)
  have push: "snd (PushBatch (Some (ResolveTenant w_call)) w_marshal (\<lambda>_. ''id'') (\<lambda>ms. (True, ms)) [''Bearer tok''] [w_rec ''m1'']) = [w_msg ''1'' 0]"
    by (simp add: PushBatch_def resolveTenant_def bearerTokenFromContext_def HasPrefix_def ResolveTenant_def w_call_def w_marshal_def w_rec_def
      w_msg_def TenantIDHeaderKey_def)
  have q: "chrunner_RunSQL [''A''] (\<lambda>t sql. rg_tables (cs_db st) t) (Some \<lparr>id_TenantID = ''A'', id_UserID = ''u'', id_Role = RoleViewer\<rparr>) [] = Inr [ToRow Some (w_rec ''m1'')]"
    by (simp add: chrunner_RunSQL_def db)
  have del: "\<forall>m \<in> set (received [(([''A''], \<lambda>_. WriteOk), True, CMsg (w_msg ''1'' 0))]). \<exists>(md, recs, uuid) \<in> set [([''Bearer tok''], [w_rec ''m1''], \<lambda>_. ''id'')].
      \<exists>m' \<in> set (snd (PushBatch (Some (ResolveTenant w_call)) w_marshal uuid (\<lambda>ms. (True, ms)) md recs)). km_Headers m = km_Headers m' \<and> km_Value m = km_Value m'"
    by (simp add: received_def arrived_by_def push)
  show ?thesis using ingest_tenant_isolation[OF codec _ del st_def q] by (simp, blast)
qed

end
