(* ===== verification/Rbac_Store.thy ===== *)
theory Rbac_Store
  imports Ingest
begin

text \<open>
  Tenants, users, memberships, data sources and ingest credentials of a multi-tenant deployment:
  the statements of \<open>enterprise/internal/rbacstore\<close> on the tables of the migrations 0017 to 0034,
  and the operator commands of \<open>enterprise/cmd/enterprise-auth\<close> that call them. Each statement can
  fail at the database; the clock, UUIDs, random tokens, their SHA-256 and the collation are
  arguments.
\<close>

section \<open>Tables\<close>

text \<open>\<open>NULL\<close> is \<open>None\<close>. A row of local login has neither email nor subject.\<close>

record rbac_user_row =
  ru_ID :: string
  ru_Email :: "string option"
  ru_DisplayName :: string
  ru_SSOSubject :: "string option"
  ru_CreatedAt :: gotime
  ru_UpdatedAt :: gotime

record rbac_tenant_row =
  rt_ID :: string
  rt_DisplayName :: string
  rt_Status :: string
  rt_Owner :: "string option"
  rt_CreatedAt :: gotime
  rt_UpdatedAt :: gotime

record rbac_membership =
  rm_ID :: string
  rm_TenantID :: string
  rm_UserID :: string
  rm_Role :: role

record data_source =
  src_ID :: string
  src_TenantID :: string
  src_Name :: string
  src_Database :: string
  src_IndexPath :: string
  src_Username :: "string option"
  src_Password :: "string option"
  src_CreatedAt :: gotime

record ingest_credential =
  ic_ID :: string
  ic_TenantID :: string
  ic_Hash :: string
  ic_CreatedAt :: gotime

record rbac_db =
  rb_users :: "rbac_user_row list"
  rb_tenants :: "rbac_tenant_row list"
  rb_members :: "rbac_membership list"
  rb_sources :: "data_source list"
  rb_creds :: "ingest_credential list"

text \<open>\<open>rv_up n\<close> says whether the n-th database call of an operation gets through, \<open>rv_uuid n\<close> is its
  UUID; \<open>rv_rand\<close> is the random token, \<open>None\<close> if the source fails.\<close>

record rbac_env =
  rv_now :: gotime
  rv_uuid :: "nat \<Rightarrow> string"
  rv_up :: "nat \<Rightarrow> bool"
  rv_rand :: "string option"
  rv_hash :: "string \<Rightarrow> string"
  rv_collation :: "string \<Rightarrow> int"

datatype rbac_error = RbNotFound | RbRequired | RbDatabase | RbScanNull | RbNoOwner | RbAlreadyOwner | RbRefuseOwner

section \<open>Users\<close>

text \<open>The \<open>User\<close> and \<open>Tenant\<close> structs have plain strings: scanning a \<open>NULL\<close> fails, and the tenant query
  coalesces the owner.\<close>

record rbac_user =
  us_ID :: string
  us_Email :: string
  us_DisplayName :: string
  us_SSOSubject :: string

definition scan_user :: "rbac_user_row \<Rightarrow> (rbac_error, rbac_user) result" where
  "scan_user u = (case (ru_Email u, ru_SSOSubject u) of
     (Some e, Some s) \<Rightarrow> Inr \<lparr>us_ID = ru_ID u, us_Email = e, us_DisplayName = ru_DisplayName u, us_SSOSubject = s\<rparr>
   | _ \<Rightarrow> Inl RbScanNull)"

definition UpsertUserBySSO :: "rbac_env \<Rightarrow> nat \<Rightarrow> string \<Rightarrow> string \<Rightarrow> string \<Rightarrow> rbac_db \<Rightarrow> (rbac_error, rbac_user) result \<times> rbac_db" where
  "UpsertUserBySSO env n ssoSubject email displayName db =
    (if ssoSubject = [] \<or> email = [] then (Inl RbRequired, db)
     else if \<not> rv_up env n then (Inl RbDatabase, db)
     else if list_ex (\<lambda>u. ru_Email u = Some email) (rb_users db)
     then (let f = (\<lambda>u. u\<lparr>ru_DisplayName := displayName, ru_SSOSubject := Some ssoSubject, ru_UpdatedAt := rv_now env\<rparr>);
             us = map (\<lambda>u. if ru_Email u = Some email then f u else u) (rb_users db)
           in (case find (\<lambda>u. ru_Email u = Some email) us of None \<Rightarrow> Inl RbNotFound | Some u \<Rightarrow> scan_user u, db\<lparr>rb_users := us\<rparr>))
     else if rv_uuid env n \<in> ru_ID ` set (rb_users db) then (Inl RbDatabase, db)
     else (let u = \<lparr>ru_ID = rv_uuid env n, ru_Email = Some email, ru_DisplayName = displayName, ru_SSOSubject = Some ssoSubject,
                    ru_CreatedAt = rv_now env, ru_UpdatedAt = rv_now env\<rparr>
           in (scan_user u, db\<lparr>rb_users := rb_users db @ [u]\<rparr>)))"

definition GetUserByEmail :: "rbac_env \<Rightarrow> nat \<Rightarrow> string \<Rightarrow> rbac_db \<Rightarrow> (rbac_error, rbac_user) result" where
  "GetUserByEmail env n email db = (if \<not> rv_up env n then Inl RbDatabase
     else (case find (\<lambda>u. ru_Email u = Some email) (rb_users db) of None \<Rightarrow> Inl RbNotFound | Some u \<Rightarrow> scan_user u))"

definition GetUser :: "rbac_env \<Rightarrow> nat \<Rightarrow> string \<Rightarrow> rbac_db \<Rightarrow> (rbac_error, rbac_user) result" where
  "GetUser env n i db = (if \<not> rv_up env n then Inl RbDatabase
     else (case find (\<lambda>u. ru_ID u = i) (rb_users db) of None \<Rightarrow> Inl RbNotFound | Some u \<Rightarrow> scan_user u))"

section \<open>Tenants\<close>

record rbac_tenant =
  te_ID :: string
  te_DisplayName :: string
  te_Status :: string
  te_OwnerUserID :: string

definition scan_tenant :: "rbac_tenant_row \<Rightarrow> rbac_tenant" where
  "scan_tenant t = \<lparr>te_ID = rt_ID t, te_DisplayName = rt_DisplayName t, te_Status = rt_Status t, te_OwnerUserID = str_or_empty (rt_Owner t)\<rparr>"

definition tenant_row :: "string \<Rightarrow> rbac_db \<Rightarrow> rbac_tenant_row option" where
  "tenant_row i db = find (\<lambda>t. rt_ID t = i) (rb_tenants db)"

definition CreateTenant :: "rbac_env \<Rightarrow> nat \<Rightarrow> string \<Rightarrow> string \<Rightarrow> rbac_db \<Rightarrow> (rbac_error, rbac_tenant) result \<times> rbac_db" where
  "CreateTenant env n i displayName db =
    (if i = [] \<or> displayName = [] then (Inl RbRequired, db)
     else if \<not> rv_up env n \<or> tenant_row i db \<noteq> None then (Inl RbDatabase, db)
     else (let t = \<lparr>rt_ID = i, rt_DisplayName = displayName, rt_Status = ''provisioning'', rt_Owner = None,
                    rt_CreatedAt = rv_now env, rt_UpdatedAt = rv_now env\<rparr>
           in (Inr (scan_tenant t), db\<lparr>rb_tenants := rb_tenants db @ [t]\<rparr>)))"

definition GetTenant :: "rbac_env \<Rightarrow> nat \<Rightarrow> string \<Rightarrow> rbac_db \<Rightarrow> (rbac_error, rbac_tenant) result" where
  "GetTenant env n i db = (if \<not> rv_up env n then Inl RbDatabase
     else (case tenant_row i db of None \<Rightarrow> Inl RbNotFound | Some t \<Rightarrow> Inr (scan_tenant t)))"

definition TenantIsActive :: "rbac_env \<Rightarrow> nat \<Rightarrow> string \<Rightarrow> rbac_db \<Rightarrow> (rbac_error, bool) result" where
  "TenantIsActive env n i db = (case GetTenant env n i db of
     Inl e \<Rightarrow> if e = RbNotFound then Inr False else Inl e
   | Inr t \<Rightarrow> Inr (te_Status t = ''active''))"

definition ListActiveTenantIDs :: "rbac_env \<Rightarrow> nat \<Rightarrow> rbac_db \<Rightarrow> (rbac_error, string list) result" where
  "ListActiveTenantIDs env n db = (if \<not> rv_up env n then Inl RbDatabase
     else Inr (map rt_ID (filter (\<lambda>t. rt_Status t = ''active'') (rb_tenants db))))"

definition tenant_status :: "string \<Rightarrow> bool" where
  "tenant_status s = (s = ''provisioning'' \<or> s = ''active'' \<or> s = ''suspended'' \<or> s = ''deprovisioning'')"

definition update_tenant :: "string \<Rightarrow> (rbac_tenant_row \<Rightarrow> rbac_tenant_row) \<Rightarrow> rbac_db \<Rightarrow> rbac_db" where
  "update_tenant i f db = db\<lparr>rb_tenants := map (\<lambda>t. if rt_ID t = i then f t else t) (rb_tenants db)\<rparr>"

definition SetTenantStatus :: "rbac_env \<Rightarrow> nat \<Rightarrow> string \<Rightarrow> string \<Rightarrow> rbac_db \<Rightarrow> (rbac_error, unit) result \<times> rbac_db" where
  "SetTenantStatus env n i status db =
    (if \<not> rv_up env n then (Inl RbDatabase, db)
     else if tenant_row i db = None then (Inl RbNotFound, db)
     else if \<not> tenant_status status then (Inl RbDatabase, db)
     else (Inr (), update_tenant i (\<lambda>t. t\<lparr>rt_Status := status, rt_UpdatedAt := rv_now env\<rparr>) db))"

definition set_owner :: "gotime \<Rightarrow> string \<Rightarrow> string \<Rightarrow> rbac_db \<Rightarrow> (rbac_error, rbac_db) result" where
  "set_owner now tenantID userID db =
    (if tenant_row tenantID db = None then Inl RbNotFound
     else if userID \<notin> ru_ID ` set (rb_users db) then Inl RbDatabase
     else Inr (update_tenant tenantID (\<lambda>t. t\<lparr>rt_Owner := Some userID, rt_UpdatedAt := now\<rparr>) db))"

text \<open>A statement outside a transaction: it takes effect or fails as a whole.\<close>

definition exec_stmt :: "bool \<Rightarrow> (rbac_error, rbac_db) result \<Rightarrow> rbac_db \<Rightarrow> (rbac_error, unit) result \<times> rbac_db" where
  "exec_stmt up res db = (if \<not> up then (Inl RbDatabase, db)
     else (case res of Inl e \<Rightarrow> (Inl e, db) | Inr db' \<Rightarrow> (Inr (), db')))"

definition SetOwner :: "rbac_env \<Rightarrow> nat \<Rightarrow> string \<Rightarrow> string \<Rightarrow> rbac_db \<Rightarrow> (rbac_error, unit) result \<times> rbac_db" where
  "SetOwner env n tenantID userID db = exec_stmt (rv_up env n) (set_owner (rv_now env) tenantID userID db) db"

section \<open>Memberships\<close>

definition is_member :: "string \<Rightarrow> string \<Rightarrow> rbac_membership \<Rightarrow> bool" where
  "is_member tenantID userID m = (rm_TenantID m = tenantID \<and> rm_UserID m = userID)"

definition upsert_member :: "string \<Rightarrow> string \<Rightarrow> string \<Rightarrow> role \<Rightarrow> rbac_db \<Rightarrow> (rbac_error, rbac_db) result" where
  "upsert_member uuid tenantID userID role db =
    (if \<not> human role then Inl RbDatabase
     else if list_ex (is_member tenantID userID) (rb_members db)
     then Inr (db\<lparr>rb_members := map (\<lambda>m. if is_member tenantID userID m then m\<lparr>rm_Role := role\<rparr> else m) (rb_members db)\<rparr>)
     else if uuid \<in> rm_ID ` set (rb_members db) \<or> tenant_row tenantID db = None \<or> userID \<notin> ru_ID ` set (rb_users db) then Inl RbDatabase
     else Inr (db\<lparr>rb_members := rb_members db @ [\<lparr>rm_ID = uuid, rm_TenantID = tenantID, rm_UserID = userID, rm_Role = role\<rparr>]\<rparr>))"

definition SetMembership :: "rbac_env \<Rightarrow> nat \<Rightarrow> string \<Rightarrow> string \<Rightarrow> role \<Rightarrow> rbac_db \<Rightarrow> (rbac_error, unit) result \<times> rbac_db" where
  "SetMembership env n tenantID userID role db = exec_stmt (rv_up env n) (upsert_member (rv_uuid env n) tenantID userID role db) db"

text \<open>The transaction of a transfer after the read of the current owner.\<close>

definition transfer :: "rbac_env \<Rightarrow> nat \<Rightarrow> string \<Rightarrow> string \<Rightarrow> string \<Rightarrow> role \<Rightarrow> rbac_db \<Rightarrow> (rbac_error, rbac_db) result" where
  "transfer env n tenantID oldOwner newOwner downgradeRole db =
     bindE (upsert_member (rv_uuid env n) tenantID oldOwner downgradeRole db)
       (\<lambda>db. bindE (upsert_member (rv_uuid env (n + 1)) tenantID newOwner RoleOwner db)
         (\<lambda>db. set_owner (rv_now env) tenantID newOwner db))"

definition TransferOwner :: "rbac_env \<Rightarrow> nat \<Rightarrow> string \<Rightarrow> string \<Rightarrow> role \<Rightarrow> rbac_db \<Rightarrow> (rbac_error, unit) result \<times> rbac_db" where
  "TransferOwner env n tenantID newOwner downgradeRole db = (case GetTenant env n tenantID db of
     Inl e \<Rightarrow> (Inl RbDatabase, db)
   | Inr t \<Rightarrow>
     if te_OwnerUserID t = [] then (Inl RbNoOwner, db)
     else if te_OwnerUserID t = newOwner then (Inl RbAlreadyOwner, db)
     else exec_stmt (rv_up env (n + 1)) (transfer env (n + 1) tenantID (te_OwnerUserID t) newOwner downgradeRole db) db)"

definition GetMembership :: "rbac_env \<Rightarrow> nat \<Rightarrow> string \<Rightarrow> string \<Rightarrow> rbac_db \<Rightarrow> (rbac_error, rbac_membership) result" where
  "GetMembership env n tenantID userID db = (if \<not> rv_up env n then Inl RbDatabase
     else (case find (is_member tenantID userID) (rb_members db) of None \<Rightarrow> Inl RbNotFound | Some m \<Rightarrow> Inr m))"

definition delete_member :: "string \<Rightarrow> string \<Rightarrow> rbac_db \<Rightarrow> (rbac_error, rbac_db) result" where
  "delete_member tenantID userID db =
    (if \<not> list_ex (is_member tenantID userID) (rb_members db) then Inl RbNotFound
     else Inr (db\<lparr>rb_members := filter (\<lambda>m. \<not> is_member tenantID userID m) (rb_members db)\<rparr>))"

definition RevokeMembership :: "rbac_env \<Rightarrow> nat \<Rightarrow> string \<Rightarrow> string \<Rightarrow> rbac_db \<Rightarrow> (rbac_error, unit) result \<times> rbac_db" where
  "RevokeMembership env n tenantID userID db = (case GetTenant env n tenantID db of
     Inl e \<Rightarrow> (Inl RbDatabase, db)
   | Inr t \<Rightarrow>
     if te_OwnerUserID t = userID then (Inl RbRefuseOwner, db)
     else exec_stmt (rv_up env (n + 1)) (delete_member tenantID userID db) db)"

record tenant_member =
  tm_UserID :: string
  tm_Email :: string
  tm_DisplayName :: string
  tm_Role :: role

text \<open>A joined user without an email fails the scan, wherever the order puts it.\<close>

definition member_join :: "string \<Rightarrow> rbac_db \<Rightarrow> (rbac_user_row \<times> rbac_membership) list" where
  "member_join tenantID db = concat (map (\<lambda>m. map (\<lambda>u. (u, m)) (filter (\<lambda>u. ru_ID u = rm_UserID m) (rb_users db)))
     (filter (\<lambda>m. rm_TenantID m = tenantID) (rb_members db)))"

definition ListMembershipsForTenant :: "rbac_env \<Rightarrow> nat \<Rightarrow> string \<Rightarrow> rbac_db \<Rightarrow> (rbac_error, tenant_member list) result" where
  "ListMembershipsForTenant env n tenantID db =
    (let rows = sort_key (\<lambda>(u, m). rv_collation env (str_or_empty (ru_Email u))) (member_join tenantID db)
     in if \<not> rv_up env n then Inl RbDatabase
        else if list_ex (\<lambda>(u, m). ru_Email u = None) rows then Inl RbScanNull
        else Inr (map (\<lambda>(u, m). \<lparr>tm_UserID = ru_ID u, tm_Email = str_or_empty (ru_Email u), tm_DisplayName = ru_DisplayName u, tm_Role = rm_Role m\<rparr>) rows))"

definition ListMembershipsForUser :: "rbac_env \<Rightarrow> nat \<Rightarrow> string \<Rightarrow> rbac_db \<Rightarrow> (rbac_error, rbac_membership list) result" where
  "ListMembershipsForUser env n userID db = (if \<not> rv_up env n then Inl RbDatabase
     else Inr (sort_key (\<lambda>m. rv_collation env (rm_TenantID m)) (filter (\<lambda>m. rm_UserID m = userID) (rb_members db))))"

record membership_with_tenant =
  mt_TenantID :: string
  mt_DisplayName :: string
  mt_Role :: role

definition ListMembershipsWithTenantForUser :: "rbac_env \<Rightarrow> nat \<Rightarrow> string \<Rightarrow> rbac_db \<Rightarrow> (rbac_error, membership_with_tenant list) result" where
  "ListMembershipsWithTenantForUser env n userID db = (if \<not> rv_up env n then Inl RbDatabase
     else Inr (sort_key (\<lambda>m. rv_collation env (mt_DisplayName m))
       (concat (map (\<lambda>m. map (\<lambda>t. \<lparr>mt_TenantID = rm_TenantID m, mt_DisplayName = rt_DisplayName t, mt_Role = rm_Role m\<rparr>)
         (filter (\<lambda>t. rt_ID t = rm_TenantID m) (rb_tenants db))) (filter (\<lambda>m. rm_UserID m = userID) (rb_members db))))))"

section \<open>Data sources\<close>

definition CreateDataSource :: "rbac_env \<Rightarrow> nat \<Rightarrow> string \<Rightarrow> string \<Rightarrow> string \<Rightarrow> string \<Rightarrow> rbac_db \<Rightarrow> (rbac_error, data_source) result \<times> rbac_db" where
  "CreateDataSource env n tenantID name database path db =
    (let ds = \<lparr>src_ID = rv_uuid env n, src_TenantID = tenantID, src_Name = name, src_Database = database, src_IndexPath = path,
               src_Username = None, src_Password = None, src_CreatedAt = rv_now env\<rparr>
     in if \<not> rv_up env n \<or> tenant_row tenantID db = None \<or> src_ID ds \<in> src_ID ` set (rb_sources db)
          \<or> list_ex (\<lambda>d. src_TenantID d = tenantID \<and> src_Name d = name) (rb_sources db) then (Inl RbDatabase, db)
        else (Inr ds, db\<lparr>rb_sources := rb_sources db @ [ds]\<rparr>))"

definition SetDataSourceClickHouseCredentials :: "rbac_env \<Rightarrow> nat \<Rightarrow> string \<Rightarrow> string \<Rightarrow> string \<Rightarrow> rbac_db \<Rightarrow> (rbac_error, unit) result \<times> rbac_db" where
  "SetDataSourceClickHouseCredentials env n i username password db =
     exec_stmt (rv_up env n) (if \<not> list_ex (\<lambda>d. src_ID d = i) (rb_sources db) then Inl RbNotFound
       else Inr (db\<lparr>rb_sources := map (\<lambda>d. if src_ID d = i then d\<lparr>src_Username := Some username, src_Password := Some password\<rparr> else d) (rb_sources db)\<rparr>)) db"

definition GetDataSourceForTenant :: "rbac_env \<Rightarrow> nat \<Rightarrow> string \<Rightarrow> rbac_db \<Rightarrow> (rbac_error, data_source) result" where
  "GetDataSourceForTenant env n tenantID db = (if \<not> rv_up env n then Inl RbDatabase
     else (case sort_key src_CreatedAt (filter (\<lambda>d. src_TenantID d = tenantID) (rb_sources db)) of [] \<Rightarrow> Inl RbNotFound | d # _ \<Rightarrow> Inr d))"

definition tenant_active :: "string \<Rightarrow> rbac_db \<Rightarrow> bool" where
  "tenant_active i db = list_ex (\<lambda>t. rt_ID t = i \<and> rt_Status t = ''active'') (rb_tenants db)"

definition ListProvisionedDataSources :: "rbac_env \<Rightarrow> nat \<Rightarrow> rbac_db \<Rightarrow> (rbac_error, data_source list) result" where
  "ListProvisionedDataSources env n db = (if \<not> rv_up env n then Inl RbDatabase
     else Inr (filter (\<lambda>d. tenant_active (src_TenantID d) db \<and> src_Username d \<noteq> None \<and> src_Password d \<noteq> None) (rb_sources db)))"

section \<open>Ingest credentials\<close>

definition CreateIngestCredential :: "rbac_env \<Rightarrow> nat \<Rightarrow> string \<Rightarrow> rbac_db \<Rightarrow> (rbac_error, string) result \<times> rbac_db" where
  "CreateIngestCredential env n tenantID db = (case rv_rand env of
     None \<Rightarrow> (Inl RbDatabase, db)
   | Some token \<Rightarrow>
     if \<not> rv_up env n \<or> tenant_row tenantID db = None \<or> rv_uuid env n \<in> ic_ID ` set (rb_creds db)
       \<or> rv_hash env token \<in> ic_Hash ` set (rb_creds db) then (Inl RbDatabase, db)
     else (Inr token, db\<lparr>rb_creds := rb_creds db @ [\<lparr>ic_ID = rv_uuid env n, ic_TenantID = tenantID, ic_Hash = rv_hash env token, ic_CreatedAt = rv_now env\<rparr>]\<rparr>))"

definition ValidateIngestCredential :: "rbac_env \<Rightarrow> nat \<Rightarrow> string \<Rightarrow> rbac_db \<Rightarrow> (rbac_error, string) result" where
  "ValidateIngestCredential env n token db = (if \<not> rv_up env n then Inl RbDatabase
     else (case find (\<lambda>c. ic_Hash c = rv_hash env token) (rb_creds db) of None \<Rightarrow> Inl RbNotFound | Some c \<Rightarrow> Inr (ic_TenantID c)))"

definition RevokeIngestCredential :: "rbac_env \<Rightarrow> nat \<Rightarrow> string \<Rightarrow> rbac_db \<Rightarrow> (rbac_error, unit) result \<times> rbac_db" where
  "RevokeIngestCredential env n i db =
     exec_stmt (rv_up env n) (if \<not> list_ex (\<lambda>c. ic_ID c = i) (rb_creds db) then Inl RbNotFound
       else Inr (db\<lparr>rb_creds := filter (\<lambda>c. ic_ID c \<noteq> i) (rb_creds db)\<rparr>)) db"

definition ListIngestCredentialsForTenant :: "rbac_env \<Rightarrow> nat \<Rightarrow> string \<Rightarrow> rbac_db \<Rightarrow> (rbac_error, (string \<times> gotime) list) result" where
  "ListIngestCredentialsForTenant env n tenantID db = (if \<not> rv_up env n then Inl RbDatabase
     else Inr (map (\<lambda>c. (ic_ID c, ic_CreatedAt c)) (sort_key ic_CreatedAt (filter (\<lambda>c. ic_TenantID c = tenantID) (rb_creds db)))))"

section \<open>Operator commands\<close>

text \<open>A command returns its exit code and what it prints.\<close>

datatype operator_output = NoOutput | PrintedMembers "tenant_member list" | PrintedToken string | PrintedCredentials "(string \<times> gotime) list"

type_synonym operator_result = "nat \<times> operator_output"

definition runCreateTenant :: "rbac_env \<Rightarrow> string \<Rightarrow> string \<Rightarrow> rbac_db \<Rightarrow> operator_result \<times> rbac_db" where
  "runCreateTenant env tenantID displayName db = (case GetTenant env 0 tenantID db of
     Inr _ \<Rightarrow> ((1, NoOutput), db)
   | Inl e \<Rightarrow>
     if e \<noteq> RbNotFound then ((1, NoOutput), db)
     else (case CreateTenant env 1 tenantID (if displayName = [] then tenantID else displayName) db of
       (Inl _, db) \<Rightarrow> ((1, NoOutput), db)
     | (Inr _, db) \<Rightarrow> ((0, NoOutput), db)))"

definition runGrantMembership :: "rbac_env \<Rightarrow> string \<Rightarrow> string \<Rightarrow> role \<Rightarrow> rbac_db \<Rightarrow> operator_result \<times> rbac_db" where
  "runGrantMembership env tenantID userEmail role db =
    (if tenantID = [] \<or> userEmail = [] \<or> role = [] then ((1, NoOutput), db)
     else if \<not> human role then ((1, NoOutput), db)
     else (case GetTenant env 0 tenantID db of
       Inl _ \<Rightarrow> ((1, NoOutput), db)
     | Inr tenant \<Rightarrow> (case GetUserByEmail env 1 userEmail db of
         Inl _ \<Rightarrow> ((1, NoOutput), db)
       | Inr u \<Rightarrow>
         if role = RoleOwner \<and> te_OwnerUserID tenant \<noteq> [] \<and> te_OwnerUserID tenant \<noteq> us_ID u then ((1, NoOutput), db)
         else (case SetMembership env 2 tenantID (us_ID u) role db of
           (Inl _, db) \<Rightarrow> ((1, NoOutput), db)
         | (Inr _, db) \<Rightarrow>
           if role = RoleOwner
           then (case SetOwner env 3 tenantID (us_ID u) db of (Inl _, db) \<Rightarrow> ((1, NoOutput), db) | (Inr _, db) \<Rightarrow> ((0, NoOutput), db))
           else ((0, NoOutput), db)))))"

definition runRevokeMembership :: "rbac_env \<Rightarrow> string \<Rightarrow> string \<Rightarrow> rbac_db \<Rightarrow> operator_result \<times> rbac_db" where
  "runRevokeMembership env tenantID userEmail db =
    (if tenantID = [] \<or> userEmail = [] then ((1, NoOutput), db)
     else (case GetUserByEmail env 0 userEmail db of
       Inl _ \<Rightarrow> ((1, NoOutput), db)
     | Inr u \<Rightarrow> (case RevokeMembership env 1 tenantID (us_ID u) db of
         (Inl _, db) \<Rightarrow> ((1, NoOutput), db)
       | (Inr _, db) \<Rightarrow> ((0, NoOutput), db))))"

definition runListMemberships :: "rbac_env \<Rightarrow> string \<Rightarrow> rbac_db \<Rightarrow> operator_result \<times> rbac_db" where
  "runListMemberships env tenantID db = (case GetTenant env 0 tenantID db of
     Inl _ \<Rightarrow> ((1, NoOutput), db)
   | Inr _ \<Rightarrow> (case ListMembershipsForTenant env 1 tenantID db of
       Inl _ \<Rightarrow> ((1, NoOutput), db) | Inr ms \<Rightarrow> ((0, PrintedMembers ms), db)))"

definition runTransferOwner :: "rbac_env \<Rightarrow> string \<Rightarrow> string \<Rightarrow> rbac_db \<Rightarrow> operator_result \<times> rbac_db" where
  "runTransferOwner env tenantID userEmail db =
    (if tenantID = [] \<or> userEmail = [] then ((1, NoOutput), db)
     else (case GetUserByEmail env 0 userEmail db of
       Inl _ \<Rightarrow> ((1, NoOutput), db)
     | Inr u \<Rightarrow> (case TransferOwner env 1 tenantID (us_ID u) RoleAdmin db of
         (Inl _, db) \<Rightarrow> ((1, NoOutput), db)
       | (Inr _, db) \<Rightarrow> ((0, NoOutput), db))))"

definition runCreateIngestCredential :: "rbac_env \<Rightarrow> string \<Rightarrow> rbac_db \<Rightarrow> operator_result \<times> rbac_db" where
  "runCreateIngestCredential env tenantID db = (case GetTenant env 0 tenantID db of
     Inl _ \<Rightarrow> ((1, NoOutput), db)
   | Inr _ \<Rightarrow> (case CreateIngestCredential env 1 tenantID db of
       (Inl _, db) \<Rightarrow> ((1, NoOutput), db) | (Inr token, db) \<Rightarrow> ((0, PrintedToken token), db)))"

definition runListIngestCredentials :: "rbac_env \<Rightarrow> string \<Rightarrow> rbac_db \<Rightarrow> operator_result \<times> rbac_db" where
  "runListIngestCredentials env tenantID db = (case GetTenant env 0 tenantID db of
     Inl _ \<Rightarrow> ((1, NoOutput), db)
   | Inr _ \<Rightarrow> (case ListIngestCredentialsForTenant env 1 tenantID db of
       Inl _ \<Rightarrow> ((1, NoOutput), db) | Inr cs \<Rightarrow> ((0, PrintedCredentials cs), db)))"

definition runRevokeIngestCredential :: "rbac_env \<Rightarrow> string \<Rightarrow> rbac_db \<Rightarrow> operator_result \<times> rbac_db" where
  "runRevokeIngestCredential env i db = (case RevokeIngestCredential env 0 i db of
     (Inl _, db) \<Rightarrow> ((1, NoOutput), db) | (Inr _, db) \<Rightarrow> ((0, NoOutput), db))"

text \<open>The flags of the command line in the order in which \<open>main\<close> looks at them.\<close>

record operator_flags =
  fl_createTenant :: string
  fl_displayName :: string
  fl_grantTenant :: string
  fl_grantUserEmail :: string
  fl_grantRole :: string
  fl_revokeTenant :: string
  fl_revokeUserEmail :: string
  fl_listMemberships :: string
  fl_transferTenant :: string
  fl_transferUserEmail :: string
  fl_createCredential :: string
  fl_listCredentials :: string
  fl_revokeCredential :: string

text \<open>\<open>None\<close> when no command is given and the server starts.\<close>

definition operator_main :: "rbac_env \<Rightarrow> operator_flags \<Rightarrow> rbac_db \<Rightarrow> operator_result option \<times> rbac_db" where
  "operator_main env fl db =
    (if fl_createTenant fl \<noteq> [] then map_prod Some id (runCreateTenant env (fl_createTenant fl) (fl_displayName fl) db)
     else if fl_grantTenant fl \<noteq> [] \<or> fl_grantUserEmail fl \<noteq> [] \<or> fl_grantRole fl \<noteq> []
     then map_prod Some id (runGrantMembership env (fl_grantTenant fl) (fl_grantUserEmail fl) (fl_grantRole fl) db)
     else if fl_revokeTenant fl \<noteq> [] \<or> fl_revokeUserEmail fl \<noteq> []
     then map_prod Some id (runRevokeMembership env (fl_revokeTenant fl) (fl_revokeUserEmail fl) db)
     else if fl_listMemberships fl \<noteq> [] then map_prod Some id (runListMemberships env (fl_listMemberships fl) db)
     else if fl_transferTenant fl \<noteq> [] \<or> fl_transferUserEmail fl \<noteq> []
     then map_prod Some id (runTransferOwner env (fl_transferTenant fl) (fl_transferUserEmail fl) db)
     else if fl_createCredential fl \<noteq> [] then map_prod Some id (runCreateIngestCredential env (fl_createCredential fl) db)
     else if fl_listCredentials fl \<noteq> [] then map_prod Some id (runListIngestCredentials env (fl_listCredentials fl) db)
     else if fl_revokeCredential fl \<noteq> [] then map_prod Some id (runRevokeIngestCredential env (fl_revokeCredential fl) db)
     else (None, db))"

lemma str_or_empty_simps [simp]: "str_or_empty None = []" "str_or_empty (Some x) = x"
  by (simp_all add: str_or_empty_def)

end
