(* ===== verification/Sso_Login.thy ===== *)
theory Sso_Login
  imports Rbac_Store
begin

text \<open>
  Single sign-on: the signed tokens of \<open>enterprise/internal/session\<close>, the endpoints of
  \<open>enterprise/internal/authhandler\<close> that other services ask, the login flow of
  \<open>enterprise/internal/loginhandler\<close>, and what \<open>internal/oidc\<close> and \<open>internal/saml\<close> read from a verified
  answer of the identity provider. The JWT library, the OAuth and SAML libraries, random values
  and the clock are arguments.
\<close>

section \<open>Tokens\<close>

text \<open>The JSON object of a token; an absent key is \<open>None\<close> and times are in seconds.\<close>

record jwt_payload =
  jp_tenant_id :: "string option"
  jp_user_id :: "string option"
  jp_role :: "string option"
  jp_pending_user_id :: "string option"
  jp_sub :: string
  jp_iat :: int
  jp_exp :: int

text \<open>\<open>jw_open\<close> is \<open>ParseSigned\<close> with the check of the signature, \<open>jw_valid\<close> the check of the times.\<close>

record jwt_lib =
  jw_sign :: "jwt_payload \<Rightarrow> string option"
  jw_open :: "string \<Rightarrow> jwt_payload option"
  jw_valid :: "gotime \<Rightarrow> jwt_payload \<Rightarrow> bool"

definition HumanSessionTTL :: int where "HumanSessionTTL = 12 * Hour"
definition ServiceTokenTTL :: int where "ServiceTokenTTL = 24 * 365 * Hour"
definition PendingLoginTTL :: int where "PendingLoginTTL = 10 * Minute"
definition MinSigningKeyBytes :: nat where "MinSigningKeyBytes = 32"

text \<open>\<open>signer\<close> is the library's constructor for a key.\<close>

definition NewManager :: "(string \<Rightarrow> jwt_lib option) \<Rightarrow> string \<Rightarrow> jwt_lib option" where
  "NewManager signer key = (if length key < MinSigningKeyBytes then None else signer key)"

definition seconds :: "gotime \<Rightarrow> int" where "seconds t = t div Second"

definition omitempty :: "string \<Rightarrow> string option" where
  "omitempty s = (if s = [] then None else Some s)"

definition IssueUserSession :: "jwt_lib \<Rightarrow> gotime \<Rightarrow> string \<Rightarrow> string \<Rightarrow> string \<Rightarrow> string option" where
  "IssueUserSession lib now tenantID userID role = jw_sign lib \<lparr>jp_tenant_id = omitempty tenantID, jp_user_id = omitempty userID,
     jp_role = Some role, jp_pending_user_id = None, jp_sub = userID, jp_iat = seconds now, jp_exp = seconds (now + HumanSessionTTL)\<rparr>"

definition IssueServiceToken :: "jwt_lib \<Rightarrow> gotime \<Rightarrow> string \<Rightarrow> string option" where
  "IssueServiceToken lib now subject = jw_sign lib \<lparr>jp_tenant_id = None, jp_user_id = None,
     jp_role = Some ''service'', jp_pending_user_id = None, jp_sub = subject, jp_iat = seconds now, jp_exp = seconds (now + ServiceTokenTTL)\<rparr>"

definition IssuePendingLogin :: "jwt_lib \<Rightarrow> gotime \<Rightarrow> string \<Rightarrow> string option" where
  "IssuePendingLogin lib now userID = jw_sign lib \<lparr>jp_tenant_id = None, jp_user_id = None,
     jp_role = None, jp_pending_user_id = Some userID, jp_sub = userID, jp_iat = seconds now, jp_exp = seconds (now + PendingLoginTTL)\<rparr>"

definition ValidatePendingLogin :: "jwt_lib \<Rightarrow> gotime \<Rightarrow> string \<Rightarrow> string option" where
  "ValidatePendingLogin lib now token = (case jw_open lib token of
     None \<Rightarrow> None
   | Some p \<Rightarrow> if \<not> jw_valid lib now p then None
     else if str_or_empty (jp_pending_user_id p) = [] then None else Some (str_or_empty (jp_pending_user_id p)))"

definition Validate_token :: "jwt_lib \<Rightarrow> gotime \<Rightarrow> string \<Rightarrow> identity option" where
  "Validate_token lib now token = (case jw_open lib token of
     None \<Rightarrow> None
   | Some p \<Rightarrow> if \<not> jw_valid lib now p then None
     else Some \<lparr>id_TenantID = str_or_empty (jp_tenant_id p), id_UserID = str_or_empty (jp_user_id p), id_Role = str_or_empty (jp_role p)\<rparr>)"

section \<open>Endpoints for other services\<close>

definition bearerToken :: "string \<Rightarrow> string" where
  "bearerToken header = (if \<not> HasPrefix header ''Bearer '' then [] else drop (length ''Bearer '') header)"

definition handleAuthorize :: "jwt_lib \<Rightarrow> gotime \<Rightarrow> string \<Rightarrow> string option \<Rightarrow> int \<times> identity option" where
  "handleAuthorize lib now authorization cookie =
    (let token = bearerToken authorization;
       token = (if token = [] then str_or_empty cookie else token)
     in if token = [] then (401, None)
        else (case Validate_token lib now token of None \<Rightarrow> (401, None) | Some i \<Rightarrow> (200, Some i)))"

definition handleAuthorizeIngest :: "rbac_env \<Rightarrow> string \<Rightarrow> rbac_db \<Rightarrow> int \<times> string option" where
  "handleAuthorizeIngest env authorization db =
    (let token = bearerToken authorization
     in if token = [] then (401, None)
        else (case ValidateIngestCredential env 0 token db of Inl _ \<Rightarrow> (401, None) | Inr t \<Rightarrow> (200, Some t)))"

definition handleActiveTenants :: "jwt_lib \<Rightarrow> rbac_env \<Rightarrow> gotime \<Rightarrow> string \<Rightarrow> rbac_db \<Rightarrow> int \<times> string list option" where
  "handleActiveTenants lib env now authorization db =
    (let token = bearerToken authorization
     in if token = [] then (401, None)
        else (case Validate_token lib now token of
          None \<Rightarrow> (401, None)
        | Some i \<Rightarrow> if id_Role i \<noteq> ''service'' then (401, None)
            else (case ListActiveTenantIDs env 0 db of Inl _ \<Rightarrow> (500, None) | Inr ids \<Rightarrow> (200, Some ids))))"

record features =
  ft_SSOConfigured :: bool
  ft_OIDCEnabled :: bool
  ft_SAMLEnabled :: bool

definition handleFeatures :: "bool \<Rightarrow> bool \<Rightarrow> features" where
  "handleFeatures oidc saml = \<lparr>ft_SSOConfigured = (oidc \<or> saml), ft_OIDCEnabled = oidc, ft_SAMLEnabled = saml\<rparr>"

text \<open>The api process with enterprise-auth behind it. \<open>cookie_of\<close> finds the session cookie in a cookie
  header.\<close>

definition enterprise_authorizer :: "(string \<Rightarrow> string option) \<Rightarrow> jwt_lib \<Rightarrow> gotime \<Rightarrow> http_request \<Rightarrow> (authz_error, identity) result" where
  "enterprise_authorizer cookie_of lib now = HTTPAuthorizer_Authorize (\<lambda>cookie auth. Some (handleAuthorize lib now auth (cookie_of cookie)))"

section \<open>Answers of the identity provider\<close>

record oidc_claims =
  oc_Subject :: string
  oc_Email :: string
  oc_EmailVerified :: bool

text \<open>\<open>op_exchange\<close> trades a code for the token response with its \<open>id_token\<close> if it has one; \<open>op_verify\<close>
  gives the claims of a verified token, \<open>Some None\<close> if they do not decode.\<close>

record oidc_provider =
  op_AuthCodeURL :: "string \<Rightarrow> string"
  op_exchange :: "string \<Rightarrow> string option option"
  op_verify :: "string \<Rightarrow> oidc_claims option option"

definition Exchange :: "oidc_provider \<Rightarrow> string \<Rightarrow> oidc_claims option" where
  "Exchange p code = (case op_exchange p code of
     None \<Rightarrow> None
   | Some rawIDToken \<Rightarrow> if str_or_empty rawIDToken = [] then None
     else (case op_verify p (str_or_empty rawIDToken) of None \<Rightarrow> None | Some claims \<Rightarrow> claims))"

text \<open>A validated assertion: the name identifier and the attributes with their values.\<close>

record saml_assertion =
  as_NameID :: "string option"
  as_Attributes :: "(string \<times> string list) list list"

record saml_claims =
  sm_NameID :: string
  sm_Email :: string

record saml_provider =
  sp_request :: "string \<Rightarrow> (string \<times> string) option"
  sp_parse :: "string \<Rightarrow> string list \<Rightarrow> saml_assertion option"

definition email_attribute :: "string \<Rightarrow> bool" where
  "email_attribute name = (name = ''email'' \<or> name = ''http://schemas.xmlsoap.org/ws/2005/05/identity/claims/emailaddress''
     \<or> name = ''urn:oid:0.9.2342.19200300.100.1.3'')"

definition read_attribute :: "string \<times> string list \<Rightarrow> saml_claims \<Rightarrow> saml_claims" where
  "read_attribute a c = (if email_attribute (fst a) \<and> length (snd a) > 0 then c\<lparr>sm_Email := hd (snd a)\<rparr> else c)"

text \<open>\<open>form\<close> is the posted form, \<open>None\<close> if it does not parse.\<close>

definition ParseResponse :: "saml_provider \<Rightarrow> string option \<Rightarrow> string list \<Rightarrow> saml_claims option" where
  "ParseResponse p form possibleRequestIDs = (case form of
     None \<Rightarrow> None
   | Some f \<Rightarrow> (case sp_parse p f possibleRequestIDs of
       None \<Rightarrow> None
     | Some a \<Rightarrow> Some (fold (fold read_attribute) (as_Attributes a) \<lparr>sm_NameID = str_or_empty (as_NameID a), sm_Email = []\<rparr>)))"

section \<open>Responses\<close>

datatype same_site = SameSiteLax | SameSiteNone

record cookie =
  ck_Name :: string
  ck_Value :: string
  ck_Path :: string
  ck_HttpOnly :: bool
  ck_Secure :: bool
  ck_SameSite :: same_site
  ck_MaxAge :: int

datatype login_body = LbText string | LbRedirect string | LbMemberships "membership_with_tenant list" | LbSelected string

text \<open>A response writer: the header that is being built, and the response once its header has been
  written. Later changes of the header have no effect on it.\<close>

record response_writer =
  rw_Header :: "cookie list"
  rw_Sent :: "(nat \<times> cookie list \<times> login_body) option"

definition fresh_writer :: response_writer where
  "fresh_writer = \<lparr>rw_Header = [], rw_Sent = None\<rparr>"

definition SetCookie :: "cookie \<Rightarrow> response_writer \<Rightarrow> response_writer" where
  "SetCookie c w = w\<lparr>rw_Header := rw_Header w @ [c]\<rparr>"

definition respond :: "nat \<Rightarrow> login_body \<Rightarrow> response_writer \<Rightarrow> response_writer" where
  "respond status body w = (if rw_Sent w = None then w\<lparr>rw_Sent := Some (status, rw_Header w, body)\<rparr> else w)"

definition http_Error :: "string \<Rightarrow> nat \<Rightarrow> response_writer \<Rightarrow> response_writer" where
  "http_Error msg status = respond status (LbText msg)"

definition Redirect :: "string \<Rightarrow> response_writer \<Rightarrow> response_writer" where
  "Redirect url = respond 302 (LbRedirect url)"

section \<open>Login flow\<close>

text \<open>The parts of a request that the handlers read: cookies, query, form and how it arrived.\<close>

record login_request =
  lq_StateCookie :: "string option"
  lq_SamlCookie :: "string option"
  lq_PendingCookie :: "string option"
  lq_state :: string
  lq_code :: string
  lq_form :: "string option"
  lq_TLS :: bool
  lq_ForwardedProto :: string

record login_config =
  lc_oidc :: "oidc_provider option"
  lc_saml :: "saml_provider option"
  lc_lib :: jwt_lib
  lc_postLogin :: string
  lc_selectTenant :: string

text \<open>\<open>le_state\<close> is the random state, \<open>None\<close> if the source fails.\<close>

record login_env =
  le_now :: gotime
  le_state :: "string option"
  le_rbac :: rbac_env

definition oidcStateCookieName :: string where "oidcStateCookieName = ''cairnobs_oidc_state''"
definition samlRequestCookieName :: string where "samlRequestCookieName = ''cairnobs_saml_request''"
definition pendingLoginCookieName :: string where "pendingLoginCookieName = ''cairnobs_pending_login''"
definition SessionCookieName :: string where "SessionCookieName = ''cairnobs_session''"
definition loginCookieTTL :: int where "loginCookieTTL = 10 * Minute"

definition isSecureRequest :: "login_request \<Rightarrow> bool" where
  "isSecureRequest r = (lq_TLS r \<or> lq_ForwardedProto r = ''https'')"

definition login_cookie :: "login_request \<Rightarrow> string \<Rightarrow> string \<Rightarrow> string \<Rightarrow> same_site \<Rightarrow> int \<Rightarrow> cookie" where
  "login_cookie r name val path site ttl = \<lparr>ck_Name = name, ck_Value = val, ck_Path = path, ck_HttpOnly = True,
     ck_Secure = isSecureRequest r, ck_SameSite = site, ck_MaxAge = ttl div Second\<rparr>"

definition clearCookie :: "login_request \<Rightarrow> string \<Rightarrow> string \<Rightarrow> response_writer \<Rightarrow> response_writer" where
  "clearCookie r name path = SetCookie \<lparr>ck_Name = name, ck_Value = [], ck_Path = path, ck_HttpOnly = True,
     ck_Secure = isSecureRequest r, ck_SameSite = SameSiteLax, ck_MaxAge = -1\<rparr>"

definition handleOIDCLogin :: "login_env \<Rightarrow> oidc_provider \<Rightarrow> login_request \<Rightarrow> response_writer \<Rightarrow> response_writer" where
  "handleOIDCLogin env p r w = (case le_state env of
     None \<Rightarrow> http_Error ''internal error'' 500 w
   | Some state \<Rightarrow>
     Redirect (op_AuthCodeURL p state)
       (SetCookie (login_cookie r oidcStateCookieName state ''/auth/oidc/callback'' SameSiteLax loginCookieTTL) w))"

definition handleSAMLLogin :: "login_env \<Rightarrow> saml_provider \<Rightarrow> login_request \<Rightarrow> response_writer \<Rightarrow> response_writer" where
  "handleSAMLLogin env p r w = (case le_state env of
     None \<Rightarrow> http_Error ''internal error'' 500 w
   | Some relayState \<Rightarrow> (case sp_request p relayState of
       None \<Rightarrow> http_Error ''internal error'' 500 w
     | Some (redirectURL, requestID) \<Rightarrow>
       Redirect redirectURL
         (SetCookie (login_cookie r samlRequestCookieName requestID ''/auth/saml/acs'' SameSiteNone loginCookieTTL) w)))"

text \<open>The tenant and role of a user with one membership, or the user alone when there are more.\<close>

datatype identity_outcome = OneTenant string string role | ManyTenants string

definition resolveIdentity :: "login_env \<Rightarrow> string \<Rightarrow> string \<Rightarrow> rbac_db \<Rightarrow> (nat \<times> string, identity_outcome) result \<times> rbac_db" where
  "resolveIdentity env subject email db = (case UpsertUserBySSO (le_rbac env) 0 subject email email db of
     (Inl _, db) \<Rightarrow> (Inl (500, ''loginhandler: upserting user''), db)
   | (Inr u, db) \<Rightarrow> (case ListMembershipsForUser (le_rbac env) 1 (us_ID u) db of
       Inl _ \<Rightarrow> (Inl (500, ''loginhandler: listing memberships''), db)
     | Inr [] \<Rightarrow> (Inl (403, ''loginhandler: this identity has no tenant membership''), db)
     | Inr [m] \<Rightarrow> (Inr (OneTenant (rm_TenantID m) (us_ID u) (rm_Role m)), db)
     | Inr _ \<Rightarrow> (Inr (ManyTenants (us_ID u)), db)))"

definition issueSessionAndRedirect :: "login_config \<Rightarrow> login_env \<Rightarrow> login_request \<Rightarrow> string \<Rightarrow> string \<Rightarrow> role \<Rightarrow> response_writer \<Rightarrow> response_writer" where
  "issueSessionAndRedirect cfg env r tenantID userID role w = (case IssueUserSession (lc_lib cfg) (le_now env) tenantID userID role of
     None \<Rightarrow> http_Error ''internal error'' 500 w
   | Some token \<Rightarrow> Redirect (lc_postLogin cfg) (SetCookie (login_cookie r SessionCookieName token ''/'' SameSiteLax HumanSessionTTL) w))"

definition startTenantSelection :: "login_config \<Rightarrow> login_env \<Rightarrow> login_request \<Rightarrow> string \<Rightarrow> response_writer \<Rightarrow> response_writer" where
  "startTenantSelection cfg env r userID w = (case IssuePendingLogin (lc_lib cfg) (le_now env) userID of
     None \<Rightarrow> http_Error ''internal error'' 500 w
   | Some token \<Rightarrow> Redirect (lc_selectTenant cfg) (SetCookie (login_cookie r pendingLoginCookieName token ''/auth'' SameSiteLax PendingLoginTTL) w))"

definition finishLogin :: "login_config \<Rightarrow> login_env \<Rightarrow> login_request \<Rightarrow> string \<Rightarrow> string \<Rightarrow> response_writer \<times> rbac_db \<Rightarrow> response_writer \<times> rbac_db" where
  "finishLogin cfg env r subject email s = (case s of (w, db) \<Rightarrow> (case resolveIdentity env subject email db of
     (Inl (status, msg), db) \<Rightarrow> (http_Error msg status w, db)
   | (Inr (ManyTenants u), db) \<Rightarrow> (startTenantSelection cfg env r u w, db)
   | (Inr (OneTenant t u role), db) \<Rightarrow> (issueSessionAndRedirect cfg env r t u role w, db)))"

definition oidc_callback :: "login_config \<Rightarrow> login_env \<Rightarrow> oidc_provider \<Rightarrow> login_request \<Rightarrow> response_writer \<times> rbac_db \<Rightarrow> response_writer \<times> rbac_db" where
  "oidc_callback cfg env p r s = (case s of (w, db) \<Rightarrow>
    (if str_or_empty (lq_StateCookie r) = [] then (http_Error ''missing or expired login state'' 400 w, db)
     else if lq_state r \<noteq> str_or_empty (lq_StateCookie r) then (http_Error ''state mismatch'' 400 w, db)
     else if lq_code r = [] then (http_Error ''missing code parameter'' 400 w, db)
     else (case Exchange p (lq_code r) of
       None \<Rightarrow> (http_Error ''login failed'' 401 w, db)
     | Some claims \<Rightarrow>
       if oc_Email claims = [] then (http_Error ''identity provider did not return an email claim'' 401 w, db)
       else finishLogin cfg env r (oc_Subject claims) (oc_Email claims) (w, db))))"

text \<open>The deferred call runs after the body of the handler.\<close>

definition handleOIDCCallback :: "login_config \<Rightarrow> login_env \<Rightarrow> oidc_provider \<Rightarrow> login_request \<Rightarrow> response_writer \<times> rbac_db \<Rightarrow> response_writer \<times> rbac_db" where
  "handleOIDCCallback cfg env p r s =
     map_prod (clearCookie r oidcStateCookieName ''/auth/oidc/callback'') id (oidc_callback cfg env p r s)"

definition saml_acs :: "login_config \<Rightarrow> login_env \<Rightarrow> saml_provider \<Rightarrow> login_request \<Rightarrow> response_writer \<times> rbac_db \<Rightarrow> response_writer \<times> rbac_db" where
  "saml_acs cfg env p r s = (case s of (w, db) \<Rightarrow>
    (if str_or_empty (lq_SamlCookie r) = [] then (http_Error ''missing or expired login state'' 400 w, db)
     else (case ParseResponse p (lq_form r) [str_or_empty (lq_SamlCookie r)] of
       None \<Rightarrow> (http_Error ''login failed'' 401 w, db)
     | Some claims \<Rightarrow>
       if sm_Email claims = [] then (http_Error ''identity provider did not return an email attribute'' 401 w, db)
       else if sm_NameID claims = [] then (http_Error ''identity provider did not return a NameID'' 401 w, db)
       else finishLogin cfg env r (sm_NameID claims) (sm_Email claims) (w, db))))"

definition handleSAMLACS :: "login_config \<Rightarrow> login_env \<Rightarrow> saml_provider \<Rightarrow> login_request \<Rightarrow> response_writer \<times> rbac_db \<Rightarrow> response_writer \<times> rbac_db" where
  "handleSAMLACS cfg env p r s =
     map_prod (clearCookie r samlRequestCookieName ''/auth/saml/acs'') id (saml_acs cfg env p r s)"

definition pendingUserID :: "login_config \<Rightarrow> login_env \<Rightarrow> login_request \<Rightarrow> (nat, string) result" where
  "pendingUserID cfg env r =
    (if str_or_empty (lq_PendingCookie r) = [] then Inl 400
     else (case ValidatePendingLogin (lc_lib cfg) (le_now env) (str_or_empty (lq_PendingCookie r)) of None \<Rightarrow> Inl 401 | Some u \<Rightarrow> Inr u))"

definition handleListMemberships :: "login_config \<Rightarrow> login_env \<Rightarrow> login_request \<Rightarrow> response_writer \<times> rbac_db \<Rightarrow> response_writer \<times> rbac_db" where
  "handleListMemberships cfg env r s = (case s of (w, db) \<Rightarrow> (case pendingUserID cfg env r of
     Inl status \<Rightarrow> (http_Error ''missing or expired pending login'' status w, db)
   | Inr userID \<Rightarrow> (case ListMembershipsWithTenantForUser (le_rbac env) 0 userID db of
       Inl _ \<Rightarrow> (http_Error ''internal error'' 500 w, db)
     | Inr ms \<Rightarrow> (respond 200 (LbMemberships ms) w, db))))"

definition handleSelectTenant :: "login_config \<Rightarrow> login_env \<Rightarrow> login_request \<Rightarrow> string option \<Rightarrow> response_writer \<times> rbac_db \<Rightarrow> response_writer \<times> rbac_db" where
  "handleSelectTenant cfg env r body s = (case s of (w, db) \<Rightarrow> (case pendingUserID cfg env r of
     Inl status \<Rightarrow> (http_Error ''missing or expired pending login'' status w, db)
   | Inr userID \<Rightarrow>
     if str_or_empty body = [] then (http_Error ''invalid request body'' 400 w, db)
     else (case ListMembershipsForUser (le_rbac env) 0 userID db of
       Inl _ \<Rightarrow> (http_Error ''internal error'' 500 w, db)
     | Inr ms \<Rightarrow> (case find (\<lambda>m. rm_TenantID m = str_or_empty body) ms of
         None \<Rightarrow> (http_Error ''no membership in the requested tenant'' 403 w, db)
       | Some m \<Rightarrow>
         (let w = clearCookie r pendingLoginCookieName ''/auth'' w in
          case IssueUserSession (lc_lib cfg) (le_now env) (str_or_empty body) userID (rm_Role m) of
            None \<Rightarrow> (http_Error ''internal error'' 500 w, db)
          | Some token \<Rightarrow> (respond 200 (LbSelected (lc_postLogin cfg))
              (SetCookie (login_cookie r SessionCookieName token ''/'' SameSiteLax HumanSessionTTL) w), db))))))"

datatype login_route = OIDCLogin | OIDCCallback | SAMLLogin | SAMLACS | ListMemberships | SelectTenant "string option"

text \<open>A route whose protocol is not configured is not registered and answers 404.\<close>

definition login_handler :: "login_config \<Rightarrow> login_env \<Rightarrow> login_route \<Rightarrow> login_request \<Rightarrow> response_writer \<times> rbac_db \<Rightarrow> response_writer \<times> rbac_db" where
  "login_handler cfg env route r s = (let missing = map_prod (http_Error ''404 page not found'' 404) id s in
    case route of
      OIDCLogin \<Rightarrow> (case lc_oidc cfg of None \<Rightarrow> missing | Some p \<Rightarrow> map_prod (handleOIDCLogin env p r) id s)
    | OIDCCallback \<Rightarrow> (case lc_oidc cfg of None \<Rightarrow> missing | Some p \<Rightarrow> handleOIDCCallback cfg env p r s)
    | SAMLLogin \<Rightarrow> (case lc_saml cfg of None \<Rightarrow> missing | Some p \<Rightarrow> map_prod (handleSAMLLogin env p r) id s)
    | SAMLACS \<Rightarrow> (case lc_saml cfg of None \<Rightarrow> missing | Some p \<Rightarrow> handleSAMLACS cfg env p r s)
    | ListMemberships \<Rightarrow> if lc_oidc cfg = None \<and> lc_saml cfg = None then missing else handleListMemberships cfg env r s
    | SelectTenant body \<Rightarrow> if lc_oidc cfg = None \<and> lc_saml cfg = None then missing else handleSelectTenant cfg env r body s)"

definition login_serve :: "login_config \<Rightarrow> login_env \<Rightarrow> login_route \<Rightarrow> login_request \<Rightarrow> rbac_db
    \<Rightarrow> (nat \<times> cookie list \<times> login_body) option \<times> rbac_db" where
  "login_serve cfg env route r db = map_prod rw_Sent id (login_handler cfg env route r (fresh_writer, db))"

end
