(* ===== verification/Sso_Sessions.thy ===== *)
theory Sso_Sessions
  imports Sso_Login
begin

text \<open>
  Where an identity that enterprise-auth vouches for comes from: runs of logins, operator commands
  and token mintings, and the two kinds of token that a login hands out.
\<close>

section \<open>Runs\<close>

datatype sso_event = LoginEvent login_route login_request | OperatorEvent operator_flags | MintEvent string | StatusEvent string string

text \<open>The tokens a browser finds in the cookies of a reply.\<close>

definition reply_tokens :: "(nat \<times> cookie list \<times> login_body) option \<Rightarrow> string list" where
  "reply_tokens rep = (case rep of None \<Rightarrow> [] | Some (_, cs, _) \<Rightarrow>
     filter (\<lambda>t. t \<noteq> []) (map ck_Value (filter (\<lambda>c. ck_Name c = SessionCookieName \<or> ck_Name c = pendingLoginCookieName) cs)))"

definition new_tokens :: "login_config \<Rightarrow> login_env \<times> sso_event \<Rightarrow> rbac_db \<Rightarrow> string list" where
  "new_tokens cfg x db = (case x of (env, e) \<Rightarrow> (case e of
     LoginEvent route r \<Rightarrow> reply_tokens (fst (login_serve cfg env route r db))
   | MintEvent subject \<Rightarrow> (case IssueServiceToken (lc_lib cfg) (le_now env) subject of None \<Rightarrow> [] | Some t \<Rightarrow> [t])
   | _ \<Rightarrow> []))"

definition sso_step :: "login_config \<Rightarrow> login_env \<times> sso_event \<Rightarrow> rbac_db \<Rightarrow> rbac_db" where
  "sso_step cfg x db = (case x of (env, e) \<Rightarrow> (case e of
     LoginEvent route r \<Rightarrow> snd (login_serve cfg env route r db)
   | OperatorEvent fl \<Rightarrow> snd (operator_main (le_rbac env) fl db)
   | MintEvent subject \<Rightarrow> db
   | StatusEvent t st \<Rightarrow> snd (SetTenantStatus (le_rbac env) 0 t st db)))"

text \<open>The tables after a run, and the tokens handed out in it.\<close>

fun sso_run :: "login_config \<Rightarrow> (login_env \<times> sso_event) list \<Rightarrow> rbac_db \<Rightarrow> rbac_db" where
  "sso_run cfg [] db = db"
| "sso_run cfg (x # xs) db = sso_run cfg xs (sso_step cfg x db)"

fun sso_tokens :: "login_config \<Rightarrow> (login_env \<times> sso_event) list \<Rightarrow> rbac_db \<Rightarrow> string list" where
  "sso_tokens cfg [] db = []"
| "sso_tokens cfg (x # xs) db = new_tokens cfg x db @ sso_tokens cfg xs (sso_step cfg x db)"

lemma sso_run_append [simp]: "sso_run cfg (xs @ ys) db = sso_run cfg ys (sso_run cfg xs db)"
  by (induction xs arbitrary: db) auto

lemma sso_tokens_append [simp]: "sso_tokens cfg (xs @ ys) db = sso_tokens cfg xs db @ sso_tokens cfg ys (sso_run cfg xs db)"
  by (induction xs arbitrary: db) auto

lemma token_origin:
  "t \<in> set (sso_tokens cfg es db) \<Longrightarrow> \<exists>es1 x es2. es = es1 @ x # es2 \<and> t \<in> set (new_tokens cfg x (sso_run cfg es1 db))"
proof (induction es arbitrary: db)
  case (Cons x es)
  show ?case
  proof (cases "t \<in> set (new_tokens cfg x db)")
    case True
    then show ?thesis by (intro exI[of _ "[]"]) simp
  next
    case False
    with Cons.prems have "t \<in> set (sso_tokens cfg es (sso_step cfg x db))" by simp
    from Cons.IH[OF this] obtain es1 y es2 where "es = es1 @ y # es2" "t \<in> set (new_tokens cfg y (sso_run cfg es1 (sso_step cfg x db)))" by blast
    then show ?thesis by (intro exI[of _ "x # es1"]) auto
  qed
qed simp

text \<open>Nobody but the manager makes tokens that its key accepts: whatever a request presents as a
  pending login opens only if it was handed out before.\<close>

definition genuine :: "jwt_lib \<Rightarrow> string list \<Rightarrow> string \<Rightarrow> bool" where
  "genuine lib tokens t = (jw_open lib t = None \<or> t \<in> set tokens)"

fun unforged :: "login_config \<Rightarrow> string list \<Rightarrow> (login_env \<times> sso_event) list \<Rightarrow> rbac_db \<Rightarrow> bool" where
  "unforged cfg tokens [] db = True"
| "unforged cfg tokens ((env, e) # xs) db =
    ((case e of LoginEvent route r \<Rightarrow> genuine (lc_lib cfg) tokens (str_or_empty (lq_PendingCookie r)) | _ \<Rightarrow> True)
     \<and> unforged cfg (tokens @ new_tokens cfg (env, e) db) xs (sso_step cfg (env, e) db))"

lemma unforged_at:
  "unforged cfg tokens (xs @ (env, LoginEvent route r) # ys) db \<Longrightarrow>
    genuine (lc_lib cfg) (tokens @ sso_tokens cfg xs db) (str_or_empty (lq_PendingCookie r))"
proof (induction xs arbitrary: tokens db)
  case (Cons x xs)
  obtain env' e where "x = (env', e)" by fastforce
  with Cons.prems Cons.IH[of "tokens @ new_tokens cfg x db" "sso_step cfg x db"] show ?case by simp
qed simp

section \<open>What a login hands out\<close>

text \<open>The subject and email that the identity provider vouches for in a callback.\<close>

definition vouched :: "login_config \<Rightarrow> login_route \<Rightarrow> login_request \<Rightarrow> string option" where
  "vouched cfg route r = (case route of
     OIDCCallback \<Rightarrow> (case lc_oidc cfg of None \<Rightarrow> None
       | Some p \<Rightarrow> if lq_StateCookie r = Some (lq_state r) \<and> lq_state r \<noteq> [] then map_option oc_Email (Exchange p (lq_code r)) else None)
   | SAMLACS \<Rightarrow> (case lc_saml cfg of None \<Rightarrow> None
       | Some p \<Rightarrow> (case lq_SamlCookie r of None \<Rightarrow> None | Some i \<Rightarrow> if i = [] then None else map_option sm_Email (ParseResponse p (lq_form r) [i])))
   | _ \<Rightarrow> None)"

definition has_email :: "string \<Rightarrow> string \<Rightarrow> rbac_db \<Rightarrow> bool" where
  "has_email u email db = list_ex (\<lambda>row. ru_ID row = u \<and> ru_Email row = Some email) (rb_users db)"

definition has_role_in :: "string \<Rightarrow> string \<Rightarrow> role \<Rightarrow> rbac_db \<Rightarrow> bool" where
  "has_role_in t u role db = list_ex (\<lambda>m. is_member t u m \<and> rm_Role m = role) (rb_members db)"

lemma scan_user_Inr: "scan_user row = Inr u \<Longrightarrow> us_ID u = ru_ID row"
  by (auto simp: scan_user_def split: option.splits)

lemma find_row: "find P xs = Some x \<Longrightarrow> x \<in> set xs \<and> P x"
  by (metis find_Some_iff nth_mem)

lemma Upsert_user:
  assumes "UpsertUserBySSO env n sub email name db = (Inr u, db')"
  shows "has_email (us_ID u) email db'" "rb_members db' = rb_members db"
proof -
  have "\<exists>row. row \<in> set (rb_users db') \<and> ru_Email row = Some email \<and> scan_user row = Inr u"
  proof (cases "list_ex (\<lambda>u. ru_Email u = Some email) (rb_users db)")
    case True
    then have "(case find (\<lambda>u. ru_Email u = Some email) (rb_users db') of None \<Rightarrow> Inl RbNotFound | Some u \<Rightarrow> scan_user u) = Inr u"
      using assms by (auto simp: UpsertUserBySSO_def Let_def split: if_splits)
    then show ?thesis by (auto split: option.splits dest: find_row)
  next
    case False
    then show ?thesis using assms by (auto simp: UpsertUserBySSO_def Let_def split: if_splits)
  qed
  then show "has_email (us_ID u) email db'" using scan_user_Inr by (fastforce simp: has_email_def list_ex_iff)
  show "rb_members db' = rb_members db"
    using assms by (auto simp: UpsertUserBySSO_def Let_def split: if_splits)
qed

lemma Upsert_members: "rb_members (snd (UpsertUserBySSO env n sub email name db)) = rb_members db"
  by (simp add: UpsertUserBySSO_def Let_def)

lemma memberships_held:
  assumes "ListMembershipsForUser env n u db = Inr ms" "m \<in> set ms"
  shows "has_role_in (rm_TenantID m) u (rm_Role m) db"
  using assms by (auto simp: ListMembershipsForUser_def has_role_in_def is_member_def list_ex_iff split: if_splits)

lemma has_role_in_cong: "rb_members db' = rb_members db \<Longrightarrow> has_role_in t u role db' = has_role_in t u role db"
  by (simp add: has_role_in_def)

lemma resolveIdentity_ok:
  assumes "resolveIdentity env sub email db = (Inr out, db')"
  shows "case out of OneTenant t u role \<Rightarrow> has_email u email db' \<and> has_role_in t u role db
    | ManyTenants u \<Rightarrow> has_email u email db'"
proof -
  obtain us db1 where up: "UpsertUserBySSO (le_rbac env) 0 sub email email db = (us, db1)" by (metis surj_pair)
  then obtain u where us: "us = Inr u" using assms by (cases us) (auto simp: resolveIdentity_def)
  from up us assms obtain ms where ms: "ListMembershipsForUser (le_rbac env) 1 (us_ID u) db1 = Inr ms"
    by (cases "ListMembershipsForUser (le_rbac env) 1 (us_ID u) db1") (auto simp: resolveIdentity_def)
  note row = Upsert_user[OF up[unfolded us]]
  have db': "db' = db1" and out: "(\<exists>m. ms = [m] \<and> out = OneTenant (rm_TenantID m) (us_ID u) (rm_Role m)) \<or> out = ManyTenants (us_ID u)"
    using assms by (auto simp: resolveIdentity_def up us ms[simplified] split: list.splits)
  from out show ?thesis
  proof
    assume "\<exists>m. ms = [m] \<and> out = OneTenant (rm_TenantID m) (us_ID u) (rm_Role m)"
    then show ?thesis using memberships_held[OF ms] row db' has_role_in_cong[OF row(2)] by auto
  qed (use row db' in simp)
qed

lemma login_members [simp]: "rb_members (snd (login_serve cfg env route r db)) = rb_members db"
proof -
  have r: "rb_members (snd (resolveIdentity env sub email db)) = rb_members db" for sub email
    using Upsert_members[of "le_rbac env" 0 sub email email db]
    by (auto simp: resolveIdentity_def split: prod.split sum.split list.split)
  have f: "rb_members (snd (finishLogin cfg env r sub email (w, db))) = rb_members db" for sub email w
    using r[of sub email] by (auto simp: finishLogin_def split: prod.split sum.split identity_outcome.split)
  show ?thesis
    by (auto simp: login_serve_def login_handler_def Let_def handleOIDCCallback_def oidc_callback_def handleSAMLACS_def saml_acs_def
        handleListMemberships_def handleSelectTenant_def f split: login_route.split option.split sum.split)
qed

lemmas writer_defs = respond_def http_Error_def Redirect_def SetCookie_def clearCookie_def fresh_writer_def login_cookie_def

lemma cookie_names [simp]:
  "oidcStateCookieName \<noteq> SessionCookieName" "oidcStateCookieName \<noteq> pendingLoginCookieName"
  "samlRequestCookieName \<noteq> SessionCookieName" "samlRequestCookieName \<noteq> pendingLoginCookieName"
  by (simp_all add: oidcStateCookieName_def samlRequestCookieName_def SessionCookieName_def pendingLoginCookieName_def)

lemma sent_clearCookie [simp]: "rw_Sent (clearCookie r name path w) = rw_Sent w"
  by (simp add: clearCookie_def SetCookie_def)

lemma tokens_error [simp]: "reply_tokens (rw_Sent (http_Error msg status fresh_writer)) = []"
  by (simp add: writer_defs reply_tokens_def)

lemma tokens_session:
  "tok \<in> set (reply_tokens (rw_Sent (issueSessionAndRedirect cfg env r t u role fresh_writer)))
    \<Longrightarrow> IssueUserSession (lc_lib cfg) (le_now env) t u role = Some tok"
  by (auto simp: issueSessionAndRedirect_def writer_defs reply_tokens_def split: option.splits if_splits)

lemma tokens_pending:
  "tok \<in> set (reply_tokens (rw_Sent (startTenantSelection cfg env r u fresh_writer)))
    \<Longrightarrow> IssuePendingLogin (lc_lib cfg) (le_now env) u = Some tok"
  by (auto simp: startTenantSelection_def writer_defs reply_tokens_def split: option.splits if_splits)

text \<open>What a token that a callback hands out says.\<close>

definition session_for :: "login_config \<Rightarrow> login_env \<Rightarrow> string \<Rightarrow> rbac_db \<Rightarrow> string \<Rightarrow> bool" where
  "session_for cfg env u db tok = (\<exists>t role. IssueUserSession (lc_lib cfg) (le_now env) t u role = Some tok \<and> has_role_in t u role db)"

lemma finishLogin_tokens:
  assumes "tok \<in> set (reply_tokens (rw_Sent (fst (finishLogin cfg env r sub email (fresh_writer, db)))))"
  shows "\<exists>u. has_email u email (snd (finishLogin cfg env r sub email (fresh_writer, db)))
    \<and> (session_for cfg env u db tok \<or> IssuePendingLogin (lc_lib cfg) (le_now env) u = Some tok)"
proof -
  obtain res db' where res: "resolveIdentity env sub email db = (res, db')" by (metis surj_pair)
  show ?thesis
  proof (cases res)
    case (Inl e)
    then show ?thesis using assms by (cases e) (simp add: finishLogin_def res)
  next
    case (Inr out)
    note ok = resolveIdentity_ok[OF res[unfolded Inr]]
    show ?thesis
    proof (cases out)
      case (OneTenant t u role)
      then have "IssueUserSession (lc_lib cfg) (le_now env) t u role = Some tok"
        using assms by (intro tokens_session) (simp add: finishLogin_def res Inr)
      then show ?thesis using ok OneTenant by (auto simp: finishLogin_def res Inr session_for_def)
    next
      case (ManyTenants u)
      then show ?thesis using assms ok tokens_pending by (auto simp: finishLogin_def res Inr)
    qed
  qed
qed

lemma select_tokens:
  assumes "tok \<in> set (reply_tokens (rw_Sent (fst (handleSelectTenant cfg env r body (fresh_writer, db)))))"
  shows "\<exists>u. pendingUserID cfg env r = Inr u \<and> session_for cfg env u db tok"
proof (cases "pendingUserID cfg env r")
  case (Inr u)
  then obtain ms where ms: "ListMembershipsForUser (le_rbac env) 0 u db = Inr ms" and b: "str_or_empty body \<noteq> []"
    using assms by (auto simp: handleSelectTenant_def split: if_splits sum.splits)
  then obtain m where m: "find (\<lambda>m. rm_TenantID m = str_or_empty body) ms = Some m"
    using assms Inr by (auto simp: handleSelectTenant_def split: option.splits)
  have held: "has_role_in (str_or_empty body) u (rm_Role m) db"
    using memberships_held[OF ms] find_row[OF m] by metis
  have "IssueUserSession (lc_lib cfg) (le_now env) (str_or_empty body) u (rm_Role m) = Some tok"
    using assms Inr ms m b by (auto simp: handleSelectTenant_def writer_defs reply_tokens_def Let_def split: option.splits if_splits)
  then show ?thesis using Inr held by (auto simp: session_for_def)
qed (use assms in \<open>simp add: handleSelectTenant_def\<close>)

lemma login_tokens:
  assumes "tok \<in> set (reply_tokens (fst (login_serve cfg env route r db)))"
  shows "(\<exists>email u. vouched cfg route r = Some email \<and> has_email u email (snd (login_serve cfg env route r db))
        \<and> (session_for cfg env u db tok \<or> IssuePendingLogin (lc_lib cfg) (le_now env) u = Some tok))
    \<or> (\<exists>u. pendingUserID cfg env r = Inr u \<and> session_for cfg env u db tok)"
proof (cases route)
  case OIDCCallback
  then obtain p where p: "lc_oidc cfg = Some p"
    using assms by (cases "lc_oidc cfg") (auto simp: login_serve_def login_handler_def)
  then obtain c where c: "lq_StateCookie r = Some (lq_state r)" "lq_state r \<noteq> []" "Exchange p (lq_code r) = Some c"
    and fin: "login_serve cfg env route r db = map_prod rw_Sent id (finishLogin cfg env r (oc_Subject c) (oc_Email c) (fresh_writer, db))"
    using assms OIDCCallback
    by (auto simp: login_serve_def login_handler_def handleOIDCCallback_def oidc_callback_def str_or_empty_def prod.map_comp o_def id_def
        split: if_splits option.splits)
  have "vouched cfg route r = Some (oc_Email c)" using p c OIDCCallback by (simp add: vouched_def)
  then show ?thesis using finishLogin_tokens[of tok] assms fin by auto
next
  case SAMLACS
  then obtain p where p: "lc_saml cfg = Some p"
    using assms by (cases "lc_saml cfg") (auto simp: login_serve_def login_handler_def)
  then obtain i c where c: "lq_SamlCookie r = Some i" "i \<noteq> []" "ParseResponse p (lq_form r) [i] = Some c"
    and fin: "login_serve cfg env route r db = map_prod rw_Sent id (finishLogin cfg env r (sm_NameID c) (sm_Email c) (fresh_writer, db))"
    using assms SAMLACS
    by (auto simp: login_serve_def login_handler_def handleSAMLACS_def saml_acs_def str_or_empty_def prod.map_comp o_def id_def
        split: if_splits option.splits)
  have "vouched cfg route r = Some (sm_Email c)" using p c SAMLACS by (simp add: vouched_def)
  then show ?thesis using finishLogin_tokens[of tok] assms fin by auto
next
  case (SelectTenant body)
  then have "tok \<in> set (reply_tokens (rw_Sent (fst (handleSelectTenant cfg env r body (fresh_writer, db)))))"
    using assms by (auto simp: login_serve_def login_handler_def split: if_splits)
  then show ?thesis using select_tokens by blast
next
  case OIDCLogin
  then show ?thesis using assms
    by (auto simp: login_serve_def login_handler_def handleOIDCLogin_def writer_defs reply_tokens_def split: option.splits)
next
  case SAMLLogin
  then show ?thesis using assms
    by (auto simp: login_serve_def login_handler_def handleSAMLLogin_def writer_defs reply_tokens_def split: option.splits)
next
  case ListMemberships
  then show ?thesis using assms
    by (auto simp: login_serve_def login_handler_def handleListMemberships_def writer_defs reply_tokens_def split: option.splits sum.splits if_splits)
qed

section \<open>Origin of a session\<close>

lemma seconds_le: "seconds t * Second \<le> t"
  by (simp add: seconds_def Second_def)

text \<open>The properties of the JWT library that the code relies on: a signed token opens to what was
  signed, and a token passes the check of its times at most a minute, the library's leeway, after it
  expired.\<close>

definition jwt_sound :: "jwt_lib \<Rightarrow> bool" where
  "jwt_sound lib = ((\<forall>p t. jw_sign lib p = Some t \<longrightarrow> jw_open lib t = Some p)
     \<and> (\<forall>now p. jw_valid lib now p \<longrightarrow> now \<le> jp_exp p * Second + Minute))"

lemma opened_session:
  assumes "jwt_sound lib" "IssueUserSession lib t0 t u role = Some tok" "jw_open lib tok = Some p"
  shows "p = \<lparr>jp_tenant_id = omitempty t, jp_user_id = omitempty u, jp_role = Some role, jp_pending_user_id = None,
    jp_sub = u, jp_iat = seconds t0, jp_exp = seconds (t0 + HumanSessionTTL)\<rparr>"
  using assms by (auto simp: jwt_sound_def IssueUserSession_def)

lemma opened_pending:
  assumes "jwt_sound lib" "IssuePendingLogin lib t0 u = Some tok" "jw_open lib tok = Some p"
  shows "p = \<lparr>jp_tenant_id = None, jp_user_id = None, jp_role = None, jp_pending_user_id = Some u,
    jp_sub = u, jp_iat = seconds t0, jp_exp = seconds (t0 + PendingLoginTTL)\<rparr>"
  using assms by (auto simp: jwt_sound_def IssuePendingLogin_def)

lemma opened_service:
  assumes "jwt_sound lib" "IssueServiceToken lib t0 sub = Some tok" "jw_open lib tok = Some p"
  shows "jp_role p = Some RoleService \<and> jp_pending_user_id p = None"
  using assms by (auto simp: jwt_sound_def IssueServiceToken_def RoleService_def)

lemma str_omitempty [simp]: "str_or_empty (omitempty s) = s"
  by (simp add: omitempty_def str_or_empty_def)

text \<open>What an identity with a human role that a token validates to says about its issue.\<close>

lemma validated_session:
  assumes sound: "jwt_sound lib" and "session_for cfg env u db tok" and lib: "lib = lc_lib cfg"
    and v: "Validate_token lib now tok = Some i"
  shows "id_UserID i = u \<and> has_role_in (id_TenantID i) u (id_Role i) db \<and> now \<le> le_now env + HumanSessionTTL + Minute"
proof -
  obtain t role where iss: "IssueUserSession lib (le_now env) t u role = Some tok" and held: "has_role_in t u role db"
    using assms(2) lib by (auto simp: session_for_def)
  from v obtain p where p: "jw_open lib tok = Some p" "jw_valid lib now p"
    and i: "i = \<lparr>id_TenantID = str_or_empty (jp_tenant_id p), id_UserID = str_or_empty (jp_user_id p), id_Role = str_or_empty (jp_role p)\<rparr>"
    by (auto simp: Validate_token_def split: option.splits if_splits)
  note pe = opened_session[OF sound iss p(1)]
  have "now \<le> jp_exp p * Second + Minute" using sound p(2) by (auto simp: jwt_sound_def)
  then show ?thesis using pe i held seconds_le[of "le_now env + HumanSessionTTL"] by simp
qed

lemma pending_never_session:
  assumes "jwt_sound lib" "IssuePendingLogin lib t0 u = Some tok" "Validate_token lib now tok = Some i"
  shows "id_Role i = []"
  using assms(3) opened_pending[OF assms(1,2)] by (fastforce simp: Validate_token_def split: option.splits if_splits)

lemma service_never_human:
  assumes "jwt_sound lib" "IssueServiceToken lib t0 sub = Some tok" "Validate_token lib now tok = Some i"
  shows "id_Role i = RoleService"
  using assms(3) opened_service[OF assms(1,2)] by (fastforce simp: Validate_token_def split: option.splits if_splits)

lemma pending_is_pending:
  assumes sound: "jwt_sound lib" and v: "ValidatePendingLogin lib now tok = Some u"
  shows "\<not> (\<exists>t0 t u' role. IssueUserSession lib t0 t u' role = Some tok)" "\<not> (\<exists>t0 sub. IssueServiceToken lib t0 sub = Some tok)"
    "IssuePendingLogin lib t0 u' = Some tok \<Longrightarrow> u' = u \<and> now \<le> t0 + PendingLoginTTL + Minute"
proof -
  obtain p where p: "jw_open lib tok = Some p" "jw_valid lib now p" "str_or_empty (jp_pending_user_id p) = u" "u \<noteq> []"
    using v by (auto simp: ValidatePendingLogin_def split: option.splits if_splits)
  have "jp_pending_user_id p \<noteq> None" using p by (auto simp: str_or_empty_def split: option.splits)
  then show "\<not> (\<exists>t0 t u' role. IssueUserSession lib t0 t u' role = Some tok)" "\<not> (\<exists>t0 sub. IssueServiceToken lib t0 sub = Some tok)"
    using opened_session[OF sound _ p(1)] opened_service[OF sound _ p(1)] by fastforce+
  assume "IssuePendingLogin lib t0 u' = Some tok"
  note pe = opened_pending[OF sound this p(1)]
  have "now \<le> jp_exp p * Second + Minute" using sound p(2) by (auto simp: jwt_sound_def)
  then show "u' = u \<and> now \<le> t0 + PendingLoginTTL + Minute" using pe p(3) seconds_le[of "t0 + PendingLoginTTL"] by simp
qed

text \<open>A user's identity was proved in a run: a callback in which the provider vouched for an email,
  after which the user's row has that email.\<close>

definition proved_at :: "login_config \<Rightarrow> rbac_db \<Rightarrow> (login_env \<times> sso_event) list \<Rightarrow> string \<Rightarrow> gotime \<Rightarrow> bool" where
  "proved_at cfg db es u t = (\<exists>es0 env route r rest email. es = es0 @ (env, LoginEvent route r) # rest
     \<and> vouched cfg route r = Some email \<and> has_email u email (sso_run cfg (es0 @ [(env, LoginEvent route r)]) db) \<and> le_now env = t)"

lemma new_token_cases:
  assumes "tok \<in> set (new_tokens cfg x db)"
  obtains (login) env route r where "x = (env, LoginEvent route r)" "tok \<in> set (reply_tokens (fst (login_serve cfg env route r db)))"
  | (service) env sub where "x = (env, MintEvent sub)" "IssueServiceToken (lc_lib cfg) (le_now env) sub = Some tok"
proof -
  obtain env e where x: "x = (env, e)" by fastforce
  show ?thesis
    using assms login service unfolding x by (cases e) (auto simp: new_tokens_def split: option.splits)
qed

lemma pending_origin:
  assumes sound: "jwt_sound (lc_lib cfg)" and gen: "genuine (lc_lib cfg) (sso_tokens cfg es db) (str_or_empty (lq_PendingCookie r))"
    and p: "pendingUserID cfg env r = Inr u"
  shows "\<exists>t. proved_at cfg db es u t \<and> le_now env \<le> t + PendingLoginTTL + Minute"
proof -
  let ?tok = "str_or_empty (lq_PendingCookie r)"
  have v: "ValidatePendingLogin (lc_lib cfg) (le_now env) ?tok = Some u"
    using p by (auto simp: pendingUserID_def split: if_splits option.splits)
  then have "?tok \<in> set (sso_tokens cfg es db)"
    using gen by (auto simp: genuine_def ValidatePendingLogin_def split: option.splits)
  then obtain es1 x es2 where es: "es = es1 @ x # es2" and new: "?tok \<in> set (new_tokens cfg x (sso_run cfg es1 db))"
    using token_origin by blast
  note no = pending_is_pending[OF sound v]
  from new show ?thesis
  proof (cases rule: new_token_cases)
    case (service env' sub)
    then show ?thesis using no(2) by blast
  next
    case (login env' route r')
    have "\<not> session_for cfg env' u' db' ?tok" for u' db' using no(1) by (auto simp: session_for_def)
    with login_tokens[OF login(2)] obtain email u' where
      e: "vouched cfg route r' = Some email" "has_email u' email (snd (login_serve cfg env' route r' (sso_run cfg es1 db)))"
        "IssuePendingLogin (lc_lib cfg) (le_now env') u' = Some ?tok" by blast
    then have "u' = u" "le_now env \<le> le_now env' + PendingLoginTTL + Minute" using no(3) by blast+
    moreover have "proved_at cfg db es u' (le_now env')"
      unfolding proved_at_def using e es login(1) by (intro exI[of _ es1]) (auto simp: sso_step_def)
    ultimately show ?thesis by blast
  qed
qed


section \<open>Two consequences of the callback's code\<close>

text \<open>The deferred call that clears the state cookie comes after the response has been written, so no
  reply of a callback clears it.\<close>

theorem callback_keeps_state_cookie:
  assumes "fst (login_serve cfg env OIDCCallback r db) = Some (status, cookies, body)"
  shows "list_all (\<lambda>c. ck_Name c \<noteq> oidcStateCookieName) cookies"
proof -
  have fin: "list_all (\<lambda>c. ck_Name c \<noteq> oidcStateCookieName) cookies"
    if "rw_Sent (fst (finishLogin cfg env r sub email (fresh_writer, db))) = Some (status, cookies, body)" for sub email status cookies body
    using that
    by (auto simp: finishLogin_def issueSessionAndRedirect_def startTenantSelection_def writer_defs
        cookie_names(1,2)[symmetric] split: prod.splits sum.splits identity_outcome.splits option.splits)
  have "rw_Sent (http_Error msg n fresh_writer) = Some (n, [], LbText msg)" for msg n
    by (simp add: writer_defs)
  then show ?thesis using assms fin
    by (auto simp: login_serve_def login_handler_def handleOIDCCallback_def oidc_callback_def split: if_splits option.splits)
qed

text \<open>The claim \<open>email_verified\<close> plays no part: an identity whose email is not verified signs in as the user
  that has this email, with that user's membership.\<close>

theorem unverified_email_signs_in:
  assumes cfg: "lc_oidc cfg = Some p" "Exchange p (lq_code r) = Some c" "\<not> oc_EmailVerified c" "oc_Subject c \<noteq> []" "oc_Email c \<noteq> []"
    and req: "lq_StateCookie r = Some (lq_state r)" "lq_state r \<noteq> []" "lq_code r \<noteq> []"
    and row: "find (\<lambda>u. ru_Email u = Some (oc_Email c)) (rb_users db) = Some victim"
    and one: "filter (\<lambda>m. rm_UserID m = ru_ID victim) (rb_members db) = [m]"
    and up: "rv_up (le_rbac env) 0" "rv_up (le_rbac env) 1"
    and tok: "IssueUserSession (lc_lib cfg) (le_now env) (rm_TenantID m) (ru_ID victim) (rm_Role m) = Some tok" "tok \<noteq> []"
  shows "tok \<in> set (reply_tokens (fst (login_serve cfg env OIDCCallback r db)))"
proof -
  define f :: "rbac_user_row \<Rightarrow> rbac_user_row" where
    "f = (\<lambda>u. u\<lparr>ru_DisplayName := oc_Email c, ru_SSOSubject := Some (oc_Subject c), ru_UpdatedAt := rv_now (le_rbac env)\<rparr>)"
  let ?us = "map (\<lambda>u. if ru_Email u = Some (oc_Email c) then f u else u) (rb_users db)"
  have fm: "find P (map (\<lambda>u. if P u then f u else u) xs) = map_option f (find P xs)" if "\<And>u. P (f u) = P u" for P xs
    using that by (induction xs) auto
  have "find (\<lambda>u. ru_Email u = Some (oc_Email c)) ?us = Some (f victim)" using fm[of "\<lambda>u. ru_Email u = Some (oc_Email c)"] row by (simp add: f_def)
  moreover have "list_ex (\<lambda>u. ru_Email u = Some (oc_Email c)) (rb_users db)" using find_row[OF row] by (auto simp: list_ex_iff)
  ultimately have "UpsertUserBySSO (le_rbac env) 0 (oc_Subject c) (oc_Email c) (oc_Email c) db = (scan_user (f victim), db\<lparr>rb_users := ?us\<rparr>)"
    using cfg up(1) by (simp add: UpsertUserBySSO_def Let_def f_def cong: if_cong)
  moreover have "scan_user (f victim) = Inr \<lparr>us_ID = ru_ID victim, us_Email = oc_Email c, us_DisplayName = oc_Email c, us_SSOSubject = oc_Subject c\<rparr>"
    using find_row[OF row] by (simp add: scan_user_def f_def)
  ultimately have "resolveIdentity env (oc_Subject c) (oc_Email c) db = (Inr (OneTenant (rm_TenantID m) (ru_ID victim) (rm_Role m)), db\<lparr>rb_users := ?us\<rparr>)"
    using one up(2) by (simp add: resolveIdentity_def ListMembershipsForUser_def)
  then have "login_serve cfg env OIDCCallback r db =
      (rw_Sent (issueSessionAndRedirect cfg env r (rm_TenantID m) (ru_ID victim) (rm_Role m) fresh_writer), db\<lparr>rb_users := ?us\<rparr>)"
    using cfg req by (simp add: login_serve_def login_handler_def handleOIDCCallback_def oidc_callback_def finishLogin_def)
  then show ?thesis using tok by (simp add: issueSessionAndRedirect_def writer_defs reply_tokens_def)
qed

section \<open>A login\<close>

text \<open>A key that signs one payload, for the session of one user.\<close>

definition w_payload :: jwt_payload where
  "w_payload = \<lparr>jp_tenant_id = Some ''acme'', jp_user_id = Some ''u1'', jp_role = Some ''editor'', jp_pending_user_id = None,
     jp_sub = ''u1'', jp_iat = 0, jp_exp = 43200\<rparr>"

definition w_lib :: jwt_lib where
  "w_lib = \<lparr>jw_sign = (\<lambda>p. if p = w_payload then Some ''tok'' else None), jw_open = (\<lambda>t. if t = ''tok'' then Some w_payload else None),
     jw_valid = (\<lambda>now p. now \<le> jp_exp p * Second)\<rparr>"

definition w_oidc :: oidc_provider where
  "w_oidc = \<lparr>op_AuthCodeURL = (\<lambda>s. s), op_exchange = (\<lambda>c. Some (Some c)),
     op_verify = (\<lambda>t. Some (Some \<lparr>oc_Subject = ''sub'', oc_Email = ''ann@acme'', oc_EmailVerified = False\<rparr>))\<rparr>"

definition w_cfg :: login_config where
  "w_cfg = \<lparr>lc_oidc = Some w_oidc, lc_saml = None, lc_lib = w_lib, lc_postLogin = ''/'', lc_selectTenant = ''/select''\<rparr>"

definition w_rbac_env :: rbac_env where
  "w_rbac_env = \<lparr>rv_now = 0, rv_uuid = (\<lambda>n. ''new''), rv_up = (\<lambda>n. True), rv_rand = Some ''secret'', rv_hash = (\<lambda>t. t), rv_collation = (\<lambda>s. 0)\<rparr>"

definition w_login_env :: login_env where
  "w_login_env = \<lparr>le_now = 0, le_state = Some ''st'', le_rbac = w_rbac_env\<rparr>"

definition w_user :: rbac_user_row where
  "w_user = \<lparr>ru_ID = ''u1'', ru_Email = Some ''ann@acme'', ru_DisplayName = ''Ann'', ru_SSOSubject = Some ''old'', ru_CreatedAt = 0, ru_UpdatedAt = 0\<rparr>"

definition w_member :: rbac_membership where
  "w_member = \<lparr>rm_ID = ''m1'', rm_TenantID = ''acme'', rm_UserID = ''u1'', rm_Role = ''editor''\<rparr>"

definition w_rbac :: rbac_db where
  "w_rbac = \<lparr>rb_users = [w_user], rb_tenants = [\<lparr>rt_ID = ''acme'', rt_DisplayName = ''Acme'', rt_Status = ''active'', rt_Owner = None, rt_CreatedAt = 0, rt_UpdatedAt = 0\<rparr>],
     rb_members = [w_member], rb_sources = [], rb_creds = []\<rparr>"

definition w_login :: login_request where
  "w_login = \<lparr>lq_StateCookie = Some ''st'', lq_SamlCookie = None, lq_PendingCookie = None, lq_state = ''st'', lq_code = ''code'',
     lq_form = None, lq_TLS = True, lq_ForwardedProto = []\<rparr>"

lemmas w_login_defs = w_payload_def w_lib_def w_oidc_def w_cfg_def w_rbac_env_def w_login_env_def w_user_def w_member_def w_rbac_def w_login_def

lemma w_lib_sound: "jwt_sound (lc_lib w_cfg)"
  by (auto simp: jwt_sound_def w_cfg_def w_lib_def Minute_def Second_def)

lemma w_login_tokens: "''tok'' \<in> set (sso_tokens w_cfg [(w_login_env, LoginEvent OIDCCallback w_login)] w_rbac)"
proof -
  have "IssueUserSession (lc_lib w_cfg) (le_now w_login_env) ''acme'' ''u1'' ''editor'' = Some ''tok''"
    by (simp add: IssueUserSession_def w_login_defs omitempty_def seconds_def HumanSessionTTL_def Hour_def Minute_def Second_def)
  then have "''tok'' \<in> set (reply_tokens (fst (login_serve w_cfg w_login_env OIDCCallback w_login w_rbac)))"
    by (intro unverified_email_signs_in[where p = w_oidc and m = w_member and victim = w_user
        and c = "\<lparr>oc_Subject = ''sub'', oc_Email = ''ann@acme'', oc_EmailVerified = False\<rparr>"])
      (simp_all add: w_login_defs Exchange_def)
  then show ?thesis by (simp add: new_tokens_def)
qed


end
