(* ===== verification/Tenant_Ownership.thy ===== *)
theory Tenant_Ownership
  imports Rbac_Store
begin

text \<open>
  The owner of a tenant is recorded twice, in \<open>tenants.owner_user_id\<close> and as the role of a membership.
  This theory shows what the operator commands of \<open>enterprise-auth\<close> keep of the agreement of the two,
  and the life of an ingest credential.
\<close>

section \<open>What a statement changes\<close>

definition role_of :: "string \<Rightarrow> string \<Rightarrow> rbac_db \<Rightarrow> role option" where
  "role_of t u db = map_option rm_Role (find (is_member t u) (rb_members db))"

definition owner_of :: "string \<Rightarrow> rbac_db \<Rightarrow> string option" where
  "owner_of t db = (case tenant_row t db of None \<Rightarrow> None | Some row \<Rightarrow> rt_Owner row)"

lemma tenant_row_update:
  "(\<And>r. rt_ID (f r) = rt_ID r) \<Longrightarrow>
    tenant_row t' (update_tenant t f db) = (if t' = t then map_option f (tenant_row t db) else tenant_row t' db)"
proof -
  assume f: "\<And>r. rt_ID (f r) = rt_ID r"
  have "find (\<lambda>r. rt_ID r = t') (map (\<lambda>r. if rt_ID r = t then f r else r) rs) =
      (if t' = t then map_option f (find (\<lambda>r. rt_ID r = t) rs) else find (\<lambda>r. rt_ID r = t') rs)" for rs
    using f by (induction rs) auto
  then show ?thesis by (simp add: tenant_row_def update_tenant_def)
qed

lemma update_tenant_rest [simp]:
  "rb_users (update_tenant t f db) = rb_users db" "rb_members (update_tenant t f db) = rb_members db" "rb_creds (update_tenant t f db) = rb_creds db"
  by (simp_all add: update_tenant_def)

lemma is_member_role [simp]: "is_member t u (m\<lparr>rm_Role := role\<rparr>) = is_member t u m"
  by (simp add: is_member_def)

lemma is_member_key: "is_member t u m \<Longrightarrow> is_member t' u' m \<longleftrightarrow> t' = t \<and> u' = u"
  by (auto simp: is_member_def)

lemma find_upd_member:
  "find (is_member t' u') (map (\<lambda>m. if is_member t u m then m\<lparr>rm_Role := role\<rparr> else m) ms) =
    (if t' = t \<and> u' = u then map_option (\<lambda>m. m\<lparr>rm_Role := role\<rparr>) (find (is_member t u) ms) else find (is_member t' u') ms)"
proof (induction ms)
  case (Cons m ms)
  then show ?case using is_member_key[of t u m t' u'] by auto
qed simp

lemma find_member_append: "find P (xs @ ys) = (case find P xs of None \<Rightarrow> find P ys | Some x \<Rightarrow> Some x)"
  by (induction xs) auto

lemma upsert_member_effect:
  assumes "upsert_member uuid t u role db = Inr db'"
  shows "role_of t' u' db' = (if t' = t \<and> u' = u then Some role else role_of t' u' db)"
    "rb_tenants db' = rb_tenants db" "rb_users db' = rb_users db" "rb_creds db' = rb_creds db" "human role"
proof -
  have nf: "find (is_member t u) (rb_members db) = None \<longleftrightarrow> \<not> list_ex (is_member t u) (rb_members db)"
    by (auto simp: find_None_iff list_ex_iff)
  have im: "is_member t' u' \<lparr>rm_ID = uuid, rm_TenantID = t, rm_UserID = u, rm_Role = role\<rparr> \<longleftrightarrow> t' = t \<and> u' = u"
    by (auto simp: is_member_def)
  show "role_of t' u' db' = (if t' = t \<and> u' = u then Some role else role_of t' u' db)"
    using assms nf im by (auto simp: upsert_member_def role_of_def find_upd_member find_member_append split: if_splits option.splits)
qed (use assms in \<open>auto simp: upsert_member_def split: if_splits\<close>)

lemma delete_member_effect:
  assumes "delete_member t u db = Inr db'"
  shows "role_of t' u' db' = (if t' = t \<and> u' = u then None else role_of t' u' db)"
    "rb_tenants db' = rb_tenants db" "rb_users db' = rb_users db" "rb_creds db' = rb_creds db"
proof -
  have "find (is_member t' u') (filter (\<lambda>m. \<not> is_member t u m) ms) = (if t' = t \<and> u' = u then None else find (is_member t' u') ms)" for ms
  proof (induction ms)
    case (Cons m ms)
    then show ?case using is_member_key[of t u m t' u'] by auto
  qed simp
  then show "role_of t' u' db' = (if t' = t \<and> u' = u then None else role_of t' u' db)"
    using assms by (auto simp: delete_member_def role_of_def split: if_splits)
qed (use assms in \<open>auto simp: delete_member_def split: if_splits\<close>)

lemma owner_of_cong: "rb_tenants db' = rb_tenants db \<Longrightarrow> owner_of t db' = owner_of t db"
  by (simp add: owner_of_def tenant_row_def)

lemma role_of_cong: "rb_members db' = rb_members db \<Longrightarrow> role_of t u db' = role_of t u db"
  by (simp add: role_of_def)

lemma set_owner_effect:
  assumes "set_owner now t u db = Inr db'"
  shows "owner_of t' db' = (if t' = t then Some u else owner_of t' db)" "role_of t' u' db' = role_of t' u' db"
    "rb_users db' = rb_users db" "u \<in> ru_ID ` set (rb_users db)"
proof -
  have db': "db' = update_tenant t (\<lambda>r. r\<lparr>rt_Owner := Some u, rt_UpdatedAt := now\<rparr>) db" "tenant_row t db \<noteq> None"
    "u \<in> ru_ID ` set (rb_users db)"
    using assms by (auto simp: set_owner_def split: if_splits)
  then show "owner_of t' db' = (if t' = t then Some u else owner_of t' db)"
    by (auto simp: owner_of_def tenant_row_update split: option.splits)
  show "role_of t' u' db' = role_of t' u' db" "rb_users db' = rb_users db" "u \<in> ru_ID ` set (rb_users db)"
    using db' by (simp_all add: role_of_def)
qed

section \<open>The two records of the owner\<close>

text \<open>The column points to a member with the owner role; and, in the other direction, whoever has that
  role is the one the column names.\<close>

definition owner_ok :: "rbac_db \<Rightarrow> bool" where
  "owner_ok db = (\<forall>t u. owner_of t db = Some u \<longrightarrow> u \<noteq> [] \<and> role_of t u db = Some RoleOwner)"

definition owner_sole :: "rbac_db \<Rightarrow> bool" where
  "owner_sole db = (\<forall>t u. role_of t u db = Some RoleOwner \<longrightarrow> owner_of t db = Some u)"

definition users_ok :: "rbac_db \<Rightarrow> bool" where
  "users_ok db = ([] \<notin> ru_ID ` set (rb_users db))"

text \<open>A grant of a lower role to the current owner.\<close>

definition demotes :: "rbac_env \<Rightarrow> operator_flags \<Rightarrow> rbac_db \<Rightarrow> bool" where
  "demotes env fl db = (fl_createTenant fl = [] \<and> human (fl_grantRole fl) \<and> fl_grantRole fl \<noteq> RoleOwner \<and> fl_grantTenant fl \<noteq> []
     \<and> fl_grantUserEmail fl \<noteq> [] \<and> rv_up env 0 \<and> rv_up env 2
     \<and> (case GetUserByEmail env 1 (fl_grantUserEmail fl) db of Inl _ \<Rightarrow> False | Inr u \<Rightarrow> owner_of (fl_grantTenant fl) db = Some (us_ID u)))"

lemma GetTenant_Inr: "GetTenant env n t db = Inr x \<Longrightarrow> te_OwnerUserID x = str_or_empty (owner_of t db) \<and> tenant_row t db \<noteq> None \<and> rv_up env n"
  by (auto simp: GetTenant_def owner_of_def scan_tenant_def str_or_empty_def split: if_splits option.splits)

lemma GetUserByEmail_Inr: "GetUserByEmail env n e db = Inr u \<Longrightarrow> us_ID u \<in> ru_ID ` set (rb_users db)"
  by (auto simp: GetUserByEmail_def scan_user_def find_Some_iff split: if_splits option.splits)

lemma exec_stmt_cases:
  obtains "fst (exec_stmt up res db) = Inr ()" "res = Inr (snd (exec_stmt up res db))" "up"
  | e where "fst (exec_stmt up res db) = Inl e" "snd (exec_stmt up res db) = db" "\<not> up \<or> (\<exists>e. res = Inl e)"
  by (cases res; cases up) (auto simp: exec_stmt_def)

section \<open>What a command changes\<close>

text \<open>The tables a command leaves agree with these on owners, roles and users.\<close>

definition same_owners :: "rbac_db \<Rightarrow> rbac_db \<Rightarrow> bool" where
  "same_owners db db' = ((\<forall>t. owner_of t db' = owner_of t db) \<and> (\<forall>t u. role_of t u db' = role_of t u db) \<and> rb_users db' = rb_users db)"

lemma same_owners_refl [simp]: "same_owners db db"
  by (simp add: same_owners_def)

lemma create_tenant_same: "same_owners db (snd (runCreateTenant env t name db))"
proof -
  have "same_owners db (snd (CreateTenant env 1 t n db))" for n
  proof -
    have "owner_of t' (snd (CreateTenant env 1 t n db)) = owner_of t' db" for t'
      by (auto simp: CreateTenant_def owner_of_def tenant_row_def find_member_append Let_def split: option.splits)
    then show ?thesis by (simp add: same_owners_def CreateTenant_def role_of_def Let_def)
  qed
  then show ?thesis by (auto simp: runCreateTenant_def split: sum.split prod.split) (metis snd_conv)+
qed

text \<open>A grant changes one role, and the column after it when it grants ownership.\<close>

definition grant_effect :: "string \<Rightarrow> string \<Rightarrow> role \<Rightarrow> rbac_db \<Rightarrow> rbac_db \<Rightarrow> bool" where
  "grant_effect t u role db db' = ((\<forall>t' v. role_of t' v db' = (if t' = t \<and> v = u then Some role else role_of t' v db)) \<and> rb_users db' = rb_users db
     \<and> u \<in> ru_ID ` set (rb_users db))"

lemma SetMembership_cases:
  obtains (done_ok) db' where "SetMembership env n t u role db = (Inr (), db')" "rv_up env n" "rb_tenants db' = rb_tenants db"
    "rb_users db' = rb_users db" "\<And>t' v. role_of t' v db' = (if t' = t \<and> v = u then Some role else role_of t' v db)"
  | (failed) e where "SetMembership env n t u role db = (Inl e, db)"
proof (cases "upsert_member (rv_uuid env n) t u role db")
  case (Inl e)
  then show thesis by (cases "rv_up env n") (auto simp: SetMembership_def exec_stmt_def intro: failed)
next
  case (Inr db1)
  note eff = upsert_member_effect[OF Inr]
  show thesis
  proof (cases "rv_up env n")
    case True
    then have "SetMembership env n t u role db = (Inr (), db1)" using Inr by (simp add: SetMembership_def exec_stmt_def)
    then show thesis using done_ok True eff by blast
  qed (use Inr in \<open>auto simp: SetMembership_def exec_stmt_def intro: failed\<close>)
qed

lemma grant_cases:
  assumes "runGrantMembership env t e role db = (res, db')"
  obtains (same) "db' = db"
  | (set) u where "GetUserByEmail env 1 e db = Inr u" "grant_effect t (us_ID u) role db db'" "t \<noteq> []" "e \<noteq> []" "human role" "rv_up env 0" "rv_up env 2"
      "role \<noteq> RoleOwner \<longrightarrow> (\<forall>t'. owner_of t' db' = owner_of t' db)"
      "role = RoleOwner \<longrightarrow> str_or_empty (owner_of t db) \<in> {[], us_ID u}
        \<and> ((\<forall>t'. owner_of t' db' = (if t' = t then Some (us_ID u) else owner_of t' db)) \<or> (\<forall>t'. owner_of t' db' = owner_of t' db) \<and> \<not> rv_up env 3)"
proof (cases "db' = db")
  case False
  then obtain x where x: "GetTenant env 0 t db = Inr x" "t \<noteq> []" "e \<noteq> []" "human role"
    using assms by (auto simp: runGrantMembership_def split: if_splits sum.splits)
  then obtain u where u: "GetUserByEmail env 1 e db = Inr u"
    using assms False by (auto simp: runGrantMembership_def split: if_splits sum.splits)
  have ok: "\<not> (role = RoleOwner \<and> te_OwnerUserID x \<noteq> [] \<and> te_OwnerUserID x \<noteq> us_ID u)"
    using assms False x u by (auto simp: runGrantMembership_def split: if_splits)
  from GetTenant_Inr[OF x(1)] have te: "te_OwnerUserID x = str_or_empty (owner_of t db)" "tenant_row t db \<noteq> None" "rv_up env 0" by auto
  note mem = GetUserByEmail_Inr[OF u]
  have nonempty: "role \<noteq> []" using x(4) by (auto simp: human_def role_defs)
  show thesis
  proof (cases rule: SetMembership_cases[of env 2 t "us_ID u" role db])
    case (failed e)
    then show ?thesis using assms False x u ok by (auto simp: runGrantMembership_def split: if_splits)
  next
    case (done_ok db1)
    have step: "(res, db') = (if role = RoleOwner
        then (case SetOwner env 3 t (us_ID u) db1 of (Inl _, db) \<Rightarrow> ((1, NoOutput), db) | (Inr _, db) \<Rightarrow> ((0, NoOutput), db))
        else ((0, NoOutput), db1))"
      using assms x u ok done_ok nonempty by (auto simp: runGrantMembership_def split: if_splits)
    have g1: "grant_effect t (us_ID u) role db db1" using done_ok mem by (simp add: grant_effect_def)
    show ?thesis
    proof (cases "role = RoleOwner")
      case False
      then show ?thesis using that(2)[OF u] step g1 x te done_ok(2) owner_of_cong[OF done_ok(3)] by simp
    next
      case True
      have tr: "tenant_row t db1 \<noteq> None" "us_ID u \<in> ru_ID ` set (rb_users db1)" using te(2) mem done_ok by (simp_all add: tenant_row_def)
      then obtain db2 where db2: "set_owner (rv_now env) t (us_ID u) db1 = Inr db2" by (simp add: set_owner_def)
      note eff = set_owner_effect[OF db2]
      have "db' = (if rv_up env 3 then db2 else db1)" using step True db2 by (auto simp: SetOwner_def exec_stmt_def split: if_splits)
      moreover have "grant_effect t (us_ID u) role db db2" using g1 eff by (simp add: grant_effect_def)
      ultimately show ?thesis
        using that(2)[OF u] g1 x te done_ok(2) eff(1) ok True owner_of_cong[OF done_ok(3)] by (auto split: if_splits)
    qed
  qed
qed

lemma RevokeMembership_cases:
  assumes "RevokeMembership env n t u db = (res, db')"
  obtains "db' = db"
  | "str_or_empty (owner_of t db) \<noteq> u" "\<And>t' v. role_of t' v db' = (if t' = t \<and> v = u then None else role_of t' v db)"
      "\<And>t'. owner_of t' db' = owner_of t' db" "rb_users db' = rb_users db"
proof (cases "db' = db")
  case False
  then obtain x where x: "GetTenant env n t db = Inr x" "te_OwnerUserID x \<noteq> u"
    using assms by (auto simp: RevokeMembership_def split: if_splits sum.splits)
  then have "delete_member t u db = Inr db'"
    using assms False by (auto simp: RevokeMembership_def exec_stmt_def split: if_splits sum.splits)
  note eff = delete_member_effect[OF this]
  show thesis using that(2) GetTenant_Inr[OF x(1)] x(2) eff owner_of_cong[OF eff(2)] by simp
qed

lemma TransferOwner_cases:
  assumes "TransferOwner env n t new role db = (res, db')"
  obtains "db' = db"
  | old where "owner_of t db = Some old" "old \<noteq> new" "\<And>t'. owner_of t' db' = (if t' = t then Some new else owner_of t' db)"
      "\<And>t' v. role_of t' v db' = (if t' = t \<and> v = new then Some RoleOwner else if t' = t \<and> v = old then Some role else role_of t' v db)"
      "rb_users db' = rb_users db" "new \<in> ru_ID ` set (rb_users db)"
proof (cases "db' = db")
  case False
  then obtain x where x: "GetTenant env n t db = Inr x" "te_OwnerUserID x \<noteq> []" "te_OwnerUserID x \<noteq> new"
    and tr: "transfer env (n + 1) t (te_OwnerUserID x) new role db = Inr db'"
    using assms by (auto simp: TransferOwner_def exec_stmt_def split: if_splits sum.splits)
  then obtain old where old: "owner_of t db = Some old" "te_OwnerUserID x = old"
    using GetTenant_Inr[OF x(1)] by (auto simp: str_or_empty_def split: option.splits)
  from tr old(2) obtain db1 db2 where
    s: "upsert_member (rv_uuid env (n + 1)) t old role db = Inr db1" "upsert_member (rv_uuid env (n + 1 + 1)) t new RoleOwner db1 = Inr db2"
      "set_owner (rv_now env) t new db2 = Inr db'"
    by (auto simp: transfer_def bindE_eq_Inr)
  note e1 = upsert_member_effect[OF s(1)] and e2 = upsert_member_effect[OF s(2)] and e3 = set_owner_effect[OF s(3)]
  show thesis
    using that(2)[OF old(1)] x(3) old(2) e1 e2 e3 owner_of_cong[OF e1(2)] owner_of_cong[OF e2(2)] by simp
qed

lemma operator_main_cases:
  assumes "operator_main env fl db = (res, db')"
  obtains (same) "same_owners db db'"
  | (grant) out where "fl_createTenant fl = []" "runGrantMembership env (fl_grantTenant fl) (fl_grantUserEmail fl) (fl_grantRole fl) db = (out, db')"
  | (revoke) u out where "RevokeMembership env 1 (fl_revokeTenant fl) u db = (out, db')"
  | (transfer) u out where "TransferOwner env 1 (fl_transferTenant fl) u RoleAdmin db = (out, db')"
proof -
  note db' = assms[unfolded operator_main_def]
  consider (create) "fl_createTenant fl \<noteq> []"
    | (grant) "fl_createTenant fl = []" "fl_grantTenant fl \<noteq> [] \<or> fl_grantUserEmail fl \<noteq> [] \<or> fl_grantRole fl \<noteq> []"
    | (revoke) "fl_createTenant fl = []" "\<not> (fl_grantTenant fl \<noteq> [] \<or> fl_grantUserEmail fl \<noteq> [] \<or> fl_grantRole fl \<noteq> [])"
        "fl_revokeTenant fl \<noteq> [] \<or> fl_revokeUserEmail fl \<noteq> []"
    | (transfer) "db' = snd (runTransferOwner env (fl_transferTenant fl) (fl_transferUserEmail fl) db)"
    | (other) "db' = db \<or> db' = snd (runListMemberships env (fl_listMemberships fl) db)
        \<or> db' = snd (runCreateIngestCredential env (fl_createCredential fl) db) \<or> db' = snd (runListIngestCredentials env (fl_listCredentials fl) db)
        \<or> db' = snd (runRevokeIngestCredential env (fl_revokeCredential fl) db)"
    using db' by (auto simp: map_prod_def split: if_splits prod.splits)
  then show thesis
  proof cases
    case create
    then have "db' = snd (runCreateTenant env (fl_createTenant fl) (fl_displayName fl) db)"
      using db' by (auto simp: map_prod_def split: prod.splits)
    then show thesis using create_tenant_same same by simp
  next
    case grant
    then have "db' = snd (runGrantMembership env (fl_grantTenant fl) (fl_grantUserEmail fl) (fl_grantRole fl) db)"
      using db' by (auto simp: map_prod_def split: prod.splits if_splits)
    then show thesis using that(2)[OF grant(1)] by (metis surjective_pairing)
  next
    case revoke
    then have "db' = snd (runRevokeMembership env (fl_revokeTenant fl) (fl_revokeUserEmail fl) db)"
      using db' by (auto simp: map_prod_def split: prod.splits if_splits)
    then have "db' = db \<or> (\<exists>u. db' = snd (RevokeMembership env 1 (fl_revokeTenant fl) u db))"
      by (auto simp: runRevokeMembership_def split: if_splits sum.splits prod.splits) (metis snd_conv)+
    then show thesis using same that(3) by (metis same_owners_refl surjective_pairing)
  next
    case transfer
    then have "db' = db \<or> (\<exists>u. db' = snd (TransferOwner env 1 (fl_transferTenant fl) u RoleAdmin db))"
      by (auto simp: runTransferOwner_def split: if_splits sum.splits prod.splits) (metis snd_conv)+
    then show thesis using same that(4) by (metis same_owners_refl surjective_pairing)
  next
    case other
    have cr: "same_owners db (snd (CreateIngestCredential env 1 t db))" for t
      by (auto simp: CreateIngestCredential_def same_owners_def owner_of_def tenant_row_def role_of_def split: option.split)
    have rv: "same_owners db (snd (RevokeIngestCredential env 0 i db))" for i
      by (auto simp: RevokeIngestCredential_def exec_stmt_def same_owners_def owner_of_def tenant_row_def role_of_def)
    have "same_owners db (snd (runCreateIngestCredential env t db))" for t
      using cr[of t] by (auto simp: runCreateIngestCredential_def split: sum.split prod.split)
    moreover have "same_owners db (snd (runRevokeIngestCredential env i db))" for i
      using rv[of i] by (auto simp: runRevokeIngestCredential_def split: sum.split prod.split)
    moreover have "snd (runListMemberships env t db) = db" "snd (runListIngestCredentials env t db) = db" for t
      by (auto simp: runListMemberships_def runListIngestCredentials_def split: sum.split)
    ultimately have "same_owners db db'" using other by (auto simp: same_owners_def)
    then show thesis by (rule same)
  qed
qed

lemma owner_ok_same: "same_owners db db' \<Longrightarrow> owner_ok db' = owner_ok db \<and> owner_sole db' = owner_sole db \<and> users_ok db' = users_ok db"
  by (simp add: same_owners_def owner_ok_def owner_sole_def users_ok_def)

lemma demotion_breaks:
  assumes ok: "owner_ok db" and d: "demotes env fl db" and run: "operator_main env fl db = (res, db')"
  shows "\<not> owner_ok db'"
proof -
  let ?t = "fl_grantTenant fl" and ?role = "fl_grantRole fl"
  obtain u where u: "GetUserByEmail env 1 (fl_grantUserEmail fl) db = Inr u" and o: "owner_of ?t db = Some (us_ID u)"
    using d by (auto simp: demotes_def split: sum.splits)
  have r: "role_of ?t (us_ID u) db = Some RoleOwner" using ok o by (simp add: owner_ok_def)
  then have ex: "list_ex (is_member ?t (us_ID u)) (rb_members db)"
    by (auto simp: role_of_def list_ex_iff find_Some_iff)
  have x: "\<exists>x. GetTenant env 0 ?t db = Inr x" using d o
    by (auto simp: demotes_def GetTenant_def owner_of_def split: option.splits)
  obtain db1 where db1: "upsert_member (rv_uuid env 2) ?t (us_ID u) ?role db = Inr db1"
    using ex d by (simp add: upsert_member_def demotes_def)
  have "?role \<noteq> []" using d by (auto simp: demotes_def human_def role_defs)
  then have "runGrantMembership env ?t (fl_grantUserEmail fl) ?role db = ((0, NoOutput), db1)"
    using d x u db1 by (auto simp: runGrantMembership_def SetMembership_def exec_stmt_def demotes_def)
  moreover have "operator_main env fl db = map_prod Some id (runGrantMembership env ?t (fl_grantUserEmail fl) ?role db)"
    using d by (simp add: operator_main_def demotes_def)
  ultimately have "db' = db1" using run by simp
  then have "owner_of ?t db' = Some (us_ID u)" "role_of ?t (us_ID u) db' = Some ?role"
    using upsert_member_effect(1)[OF db1] owner_of_cong[OF upsert_member_effect(2)[OF db1]] o by simp_all
  moreover have "?role \<noteq> RoleOwner" using d by (simp add: demotes_def)
  ultimately show ?thesis unfolding owner_ok_def by (metis option.inject)
qed

lemma owner_step:
  assumes ok: "owner_ok db" "users_ok db" and nd: "\<not> demotes env fl db" and run: "operator_main env fl db = (res, db')"
  shows "owner_ok db' \<and> users_ok db' \<and> ((\<forall>n. rv_up env n) \<and> owner_sole db \<longrightarrow> owner_sole db')"
  using run
proof (cases rule: operator_main_cases)
  case same
  then show ?thesis using owner_ok_same ok by simp
next
  case (grant out)
  from grant(2) show ?thesis
  proof (cases rule: grant_cases)
    case (set u)
    let ?t = "fl_grantTenant fl" and ?role = "fl_grantRole fl" and ?u = "us_ID u"
    have ne: "?u \<noteq> []" using set(2) ok(2) by (auto simp: grant_effect_def users_ok_def)
    have not_owner: "?role = RoleOwner \<or> owner_of ?t db \<noteq> Some ?u"
      using nd set grant(1) by (auto simp: demotes_def)
    have own: "owner_of ?t db = None \<or> owner_of ?t db = Some ?u" if "?role = RoleOwner"
      using set(9) that ok(1) by (auto simp: owner_ok_def str_or_empty_def split: option.splits)
    have roles: "role_of t' v db' = (if t' = ?t \<and> v = ?u then Some ?role else role_of t' v db)" for t' v
      using set(2) by (simp add: grant_effect_def)
    have owners: "owner_of t' db' = owner_of t' db \<or> ?role = RoleOwner \<and> t' = ?t \<and> owner_of t' db' = Some ?u" for t'
      using set(8,9) by (cases "?role = RoleOwner") (auto split: if_splits)
    have "owner_ok db'"
      unfolding owner_ok_def
    proof (intro allI impI)
      fix t' v
      assume "owner_of t' db' = Some v"
      then show "v \<noteq> [] \<and> role_of t' v db' = Some RoleOwner"
        using owners[of t'] roles[of t' v] ok(1)[unfolded owner_ok_def, rule_format, of t' v] not_owner ne by (auto split: if_splits)
    qed
    moreover have "owner_sole db'" if up: "\<forall>n. rv_up env n" and sole: "owner_sole db"
      unfolding owner_sole_def
    proof (intro allI impI)
      fix t' v
      assume r: "role_of t' v db' = Some RoleOwner"
      have upd: "?role = RoleOwner \<longrightarrow> owner_of ?t db' = Some ?u" using set(9) up by auto
      show "owner_of t' db' = Some v"
        using owners[of t'] roles[of t' v] r upd own sole[unfolded owner_sole_def, rule_format, of t' v] by (auto split: if_splits)
    qed
    ultimately show ?thesis using set(2) ok(2) by (auto simp: grant_effect_def users_ok_def)
  qed (use ok in auto)
next
  case (revoke u out)
  then show ?thesis
  proof (cases rule: RevokeMembership_cases)
    case 2
    have no: "owner_of (fl_revokeTenant fl) db \<noteq> Some u" using 2(1) by auto
    have "v \<noteq> [] \<and> role_of t v db' = Some RoleOwner" if "owner_of t db' = Some v" for t v
      using ok(1)[unfolded owner_ok_def, rule_format, of t v] that no 2(2)[of t v] 2(3)[of t] by auto
    moreover have "owner_of t db' = Some v" if "owner_sole db" "role_of t v db' = Some RoleOwner" for t v
      using that(1)[unfolded owner_sole_def, rule_format, of t v] that(2) 2(2)[of t v] 2(3)[of t] by (auto split: if_splits)
    ultimately have "owner_ok db'" "owner_sole db \<longrightarrow> owner_sole db'"
      unfolding owner_ok_def[of db'] owner_sole_def[of db'] by blast+
    then show ?thesis using ok(2) 2(4) by (simp add: users_ok_def)
  qed (use ok in auto)
next
  case (transfer u out)
  then show ?thesis
  proof (cases rule: TransferOwner_cases)
    case (2 old)
    have "u \<noteq> []" using 2(6) ok(2) unfolding users_ok_def by metis
    then have "v \<noteq> [] \<and> role_of t v db' = Some RoleOwner" if "owner_of t db' = Some v" for t v
      using ok(1)[unfolded owner_ok_def, rule_format, of t v] that 2(1,2) 2(3)[of t] 2(4)[of t v] by (auto split: if_splits)
    moreover have "owner_of t db' = Some v" if "owner_sole db" "role_of t v db' = Some RoleOwner" for t v
      using that(1)[unfolded owner_sole_def, rule_format, of t v] that(2) 2(1,2) 2(3)[of t] 2(4)[of t v] by (auto split: if_splits)
    ultimately have "owner_ok db'" "owner_sole db \<longrightarrow> owner_sole db'"
      unfolding owner_ok_def[of db'] owner_sole_def[of db'] by blast+
    then show ?thesis using ok(2) 2(5) by (simp add: users_ok_def)
  qed (use ok in auto)
qed

section \<open>Runs of commands\<close>

fun operator_run :: "(rbac_env \<times> operator_flags) list \<Rightarrow> rbac_db \<Rightarrow> rbac_db" where
  "operator_run [] db = db"
| "operator_run ((env, fl) # xs) db = operator_run xs (snd (operator_main env fl db))"

fun demotion_in :: "(rbac_env \<times> operator_flags) list \<Rightarrow> rbac_db \<Rightarrow> bool" where
  "demotion_in [] db = False"
| "demotion_in ((env, fl) # xs) db = (demotes env fl db \<or> demotion_in xs (snd (operator_main env fl db)))"


section \<open>Two transfers at once\<close>

text \<open>The current owner is read before the transaction. Two transfers that both read the old owner leave
  the first successor with the owner role while the column names the second.\<close>

theorem concurrent_transfers_two_owners:
  assumes "transfer env n t old b RoleAdmin db = Inr db1" "transfer env' n' t old c RoleAdmin db1 = Inr db2" "b \<noteq> c" "b \<noteq> old"
  shows "role_of t b db2 = Some RoleOwner \<and> role_of t c db2 = Some RoleOwner \<and> owner_of t db2 = Some c"
proof -
  from assms(1) obtain x y where 1: "upsert_member (rv_uuid env n) t old RoleAdmin db = Inr x" "upsert_member (rv_uuid env (n + 1)) t b RoleOwner x = Inr y"
    "set_owner (rv_now env) t b y = Inr db1" by (auto simp: transfer_def bindE_eq_Inr)
  from assms(2) obtain x' y' where 2: "upsert_member (rv_uuid env' n') t old RoleAdmin db1 = Inr x'" "upsert_member (rv_uuid env' (n' + 1)) t c RoleOwner x' = Inr y'"
    "set_owner (rv_now env') t c y' = Inr db2" by (auto simp: transfer_def bindE_eq_Inr)
  note e = upsert_member_effect(1)[OF 1(2)] set_owner_effect(2)[OF 1(3)] upsert_member_effect(1)[OF 2(1)] upsert_member_effect(1)[OF 2(2)]
    set_owner_effect(1,2)[OF 2(3)]
  show ?thesis using e assms(3,4) by simp
qed

section \<open>A tenant with an owner\<close>

definition w_up_env :: rbac_env where
  "w_up_env = \<lparr>rv_now = 0, rv_uuid = (\<lambda>n. ''new''), rv_up = (\<lambda>n. True), rv_rand = Some ''secret'', rv_hash = (\<lambda>t. t), rv_collation = (\<lambda>s. 0)\<rparr>"

definition w_owned :: rbac_db where
  "w_owned = \<lparr>rb_users = [\<lparr>ru_ID = ''u1'', ru_Email = Some ''ann@acme'', ru_DisplayName = ''Ann'', ru_SSOSubject = Some ''s1'', ru_CreatedAt = 0, ru_UpdatedAt = 0\<rparr>,
       \<lparr>ru_ID = ''u2'', ru_Email = Some ''bob@acme'', ru_DisplayName = ''Bob'', ru_SSOSubject = Some ''s2'', ru_CreatedAt = 0, ru_UpdatedAt = 0\<rparr>],
     rb_tenants = [\<lparr>rt_ID = ''acme'', rt_DisplayName = ''Acme'', rt_Status = ''active'', rt_Owner = Some ''u1'', rt_CreatedAt = 0, rt_UpdatedAt = 0\<rparr>],
     rb_members = [\<lparr>rm_ID = ''m1'', rm_TenantID = ''acme'', rm_UserID = ''u1'', rm_Role = ''owner''\<rparr>], rb_sources = [], rb_creds = []\<rparr>"

definition no_flags :: operator_flags where
  "no_flags = \<lparr>fl_createTenant = [], fl_displayName = [], fl_grantTenant = [], fl_grantUserEmail = [], fl_grantRole = [], fl_revokeTenant = [],
     fl_revokeUserEmail = [], fl_listMemberships = [], fl_transferTenant = [], fl_transferUserEmail = [], fl_createCredential = [],
     fl_listCredentials = [], fl_revokeCredential = []\<rparr>"

definition w_transfer :: operator_flags where
  "w_transfer = no_flags\<lparr>fl_transferTenant := ''acme'', fl_transferUserEmail := ''bob@acme''\<rparr>"

definition w_demote :: operator_flags where
  "w_demote = no_flags\<lparr>fl_grantTenant := ''acme'', fl_grantUserEmail := ''ann@acme'', fl_grantRole := ''viewer''\<rparr>"

lemmas w_owner_defs = w_up_env_def w_owned_def no_flags_def w_transfer_def w_demote_def role_defs

lemma w_owned_ok: "owner_ok w_owned" "users_ok w_owned" "owner_sole w_owned"
  by (auto simp: owner_ok_def users_ok_def owner_sole_def owner_of_def role_of_def tenant_row_def is_member_def w_owner_defs split: if_splits)


end
