(* ===== verification/Provisioning.thy ===== *)
theory Provisioning
  imports Rbac_Store Sql
begin

text \<open>
  Provisioning of a tenant's data plane: the statements that
  \<open>enterprise/internal/tenantprovision\<close> sends to ClickHouse, \<open>runProvisionTenant\<close> of
  \<open>enterprise/cmd/enterprise-api\<close> around them, and the clients that only serve active tenants: the
  connections of \<open>chrunner.New\<close>, the source list of \<open>enterprise/cmd/enterprise-ingest\<close> and the search
  client. ClickHouse is the list of statements it has accepted, with what it accepts next as an
  argument; the random password, the Tenant resource in Kubernetes and the search service are arguments too.
\<close>

section \<open>Statements\<close>

definition lower :: "char \<Rightarrow> bool" where "lower c = (CHR ''a'' \<le> c \<and> c \<le> CHR ''z'')"

text \<open>\<open>^[a-z][a-z0-9_-]{0,62}$\<close>\<close>

definition tenantIdentifierPattern :: "string \<Rightarrow> bool" where
  "tenantIdentifierPattern s = (case s of [] \<Rightarrow> False
     | c # cs \<Rightarrow> lower c \<and> length cs \<le> 62 \<and> list_all (\<lambda>c. lower c \<or> isDigit c \<or> c = CHR ''_'' \<or> c = CHR ''-'') cs)"

fun escapeSingleQuotes :: "string \<Rightarrow> string" where
  "escapeSingleQuotes [] = []"
| "escapeSingleQuotes (c # s) = (if c = quote then quote # quote # escapeSingleQuotes s else c # escapeSingleQuotes s)"

definition create_database :: "string \<Rightarrow> string" where
  "create_database database = ''CREATE DATABASE IF NOT EXISTS '' @ [backtick] @ database @ [backtick]"

definition create_user :: "string \<Rightarrow> string \<Rightarrow> string" where
  "create_user username password = ''CREATE USER '' @ [backtick] @ username @ [backtick] @ '' IDENTIFIED WITH plaintext_password BY ''
     @ [quote] @ escapeSingleQuotes password @ [quote]"

definition grant_access :: "string \<Rightarrow> string \<Rightarrow> string" where
  "grant_access database username = ''GRANT SELECT, INSERT ON '' @ [backtick] @ database @ [backtick] @ ''.* TO '' @ [backtick] @ username @ [backtick]"

definition revoke_system :: "string \<Rightarrow> string" where
  "revoke_system username = ''REVOKE SELECT ON system.* FROM '' @ [backtick] @ username @ [backtick]"

section \<open>ClickHouse\<close>

record ch_env =
  ce_accepts :: "string list \<Rightarrow> string \<Rightarrow> bool"
  ce_password :: "string option"

text \<open>\<open>Exec\<close> on the admin connection: the log is the list of accepted statements.\<close>

definition admin_Exec :: "ch_env \<Rightarrow> string \<Rightarrow> string list \<Rightarrow> string list option" where
  "admin_Exec ce stmt log = (if ce_accepts ce log stmt then Some (log @ [stmt]) else None)"

record ch_credentials =
  cc_Username :: string
  cc_Password :: string

text \<open>The result and the log, which also holds the statements before a failure.\<close>

definition ProvisionClickHouse :: "ch_env \<Rightarrow> string \<Rightarrow> string list \<Rightarrow> ch_credentials option \<times> string list" where
  "ProvisionClickHouse ce tenantID log =
    (if \<not> tenantIdentifierPattern tenantID then (None, log)
     else let database = tenantID; username = ''tenant_'' @ tenantID in
       (case admin_Exec ce (create_database database) log of
          None \<Rightarrow> (None, log)
        | Some log1 \<Rightarrow> (case ce_password ce of
            None \<Rightarrow> (None, log1)
          | Some password \<Rightarrow> (case admin_Exec ce (create_user username password) log1 of
              None \<Rightarrow> (None, log1)
            | Some log2 \<Rightarrow> (case admin_Exec ce (grant_access database username) log2 of
                None \<Rightarrow> (None, log2)
              | Some log3 \<Rightarrow> (case admin_Exec ce (revoke_system username) log3 of
                  None \<Rightarrow> (None, log3)
                | Some log4 \<Rightarrow> (Some \<lparr>cc_Username = username, cc_Password = password\<rparr>, log4)))))))"

section \<open>The command\<close>

text \<open>\<open>pe_sync\<close> is \<open>None\<close> when no namespace is configured; otherwise whether building the syncer and
  the synchronisation succeed.\<close>

record prov_env =
  pe_rbac :: rbac_env
  pe_ch :: ch_env
  pe_opens :: bool
  pe_sync :: "(string \<Rightarrow> string \<Rightarrow> string \<Rightarrow> ch_credentials \<Rightarrow> bool) option"

type_synonym prov_state = "rbac_db \<times> string list"

definition provision_sync :: "prov_env \<Rightarrow> string \<Rightarrow> rbac_tenant \<Rightarrow> data_source \<Rightarrow> ch_credentials \<Rightarrow> nat" where
  "provision_sync env tenantID tenant ds creds = (case pe_sync env of
     None \<Rightarrow> 0
   | Some Sync \<Rightarrow> if Sync tenantID (te_DisplayName tenant) (src_IndexPath ds) creds then 0 else 1)"

definition provision_tenant :: "prov_env \<Rightarrow> string \<Rightarrow> string \<Rightarrow> rbac_db \<Rightarrow> rbac_tenant option \<times> rbac_db" where
  "provision_tenant env tenantID displayName db = (case GetTenant (pe_rbac env) 0 tenantID db of
     Inr t \<Rightarrow> (Some t, db)
   | Inl e \<Rightarrow> if e \<noteq> RbNotFound then (None, db)
     else (case CreateTenant (pe_rbac env) 1 tenantID (if displayName = [] then tenantID else displayName) db of
       (Inl _, db) \<Rightarrow> (None, db) | (Inr t, db) \<Rightarrow> (Some t, db)))"

definition provision_source :: "prov_env \<Rightarrow> string \<Rightarrow> bool \<Rightarrow> rbac_db \<Rightarrow> data_source option \<times> rbac_db" where
  "provision_source env tenantID alreadyActive db = (case GetDataSourceForTenant (pe_rbac env) 2 tenantID db of
     Inr ds \<Rightarrow> (Some ds, db)
   | Inl e \<Rightarrow> if e \<noteq> RbNotFound then (None, db)
     else if alreadyActive then (None, db)
     else (case CreateDataSource (pe_rbac env) 3 tenantID ''default'' tenantID (''/var/lib/cairnobs-search/tenants/'' @ tenantID) db of
       (Inl _, db) \<Rightarrow> (None, db) | (Inr ds, db) \<Rightarrow> (Some ds, db)))"

definition provision_data_plane :: "prov_env \<Rightarrow> string \<Rightarrow> data_source \<Rightarrow> prov_state \<Rightarrow> ch_credentials option \<times> prov_state" where
  "provision_data_plane env tenantID ds s = (case s of (db, log) \<Rightarrow>
    (if src_Username ds \<noteq> None then (None, (db, log))
     else (case ProvisionClickHouse (pe_ch env) tenantID log of
       (None, log) \<Rightarrow> (None, (db, log))
     | (Some creds, log) \<Rightarrow>
       (case SetDataSourceClickHouseCredentials (pe_rbac env) 4 (src_ID ds) (cc_Username creds) (cc_Password creds) db of
          (Inl _, db) \<Rightarrow> (None, (db, log))
        | (Inr _, db) \<Rightarrow> (case SetTenantStatus (pe_rbac env) 5 tenantID ''active'' db of
            (Inl _, db) \<Rightarrow> (None, (db, log))
          | (Inr _, db) \<Rightarrow> (Some creds, (db, log)))))))"

definition runProvisionTenant :: "prov_env \<Rightarrow> string \<Rightarrow> string \<Rightarrow> prov_state \<Rightarrow> nat \<times> prov_state" where
  "runProvisionTenant env tenantID displayName s = (case s of (db, log) \<Rightarrow>
    (if \<not> pe_opens env then (1, (db, log))
     else (case provision_tenant env tenantID displayName db of
       (None, db) \<Rightarrow> (1, (db, log))
     | (Some tenant, db) \<Rightarrow>
       (let alreadyActive = (te_Status tenant = ''active'') in
        case provision_source env tenantID alreadyActive db of
          (None, db) \<Rightarrow> (1, (db, log))
        | (Some ds, db) \<Rightarrow>
          if alreadyActive
          then (case (src_Username ds, src_Password ds) of
            (Some u, Some p) \<Rightarrow> (provision_sync env tenantID tenant ds \<lparr>cc_Username = u, cc_Password = p\<rparr>, (db, log))
          | _ \<Rightarrow> (1, (db, log)))
          else (case provision_data_plane env tenantID ds (db, log) of
            (None, s) \<Rightarrow> (1, s)
          | (Some creds, s) \<Rightarrow> (provision_sync env tenantID tenant ds creds, s))))))"

section \<open>Clients of the data plane\<close>

text \<open>What a registry needs to connect.\<close>

record ch_source =
  cs_TenantID :: string
  cs_Database :: string
  cs_Username :: string
  cs_Password :: string

definition tenantDataSourceLister :: "rbac_env \<Rightarrow> rbac_db \<Rightarrow> (rbac_error, ch_source list) result" where
  "tenantDataSourceLister env db = bindE (ListProvisionedDataSources env 0 db) (\<lambda>sources.
     Inr (map (\<lambda>s. \<lparr>cs_TenantID = src_TenantID s, cs_Database = src_Database s, cs_Username = str_or_empty (src_Username s),
         cs_Password = str_or_empty (src_Password s)\<rparr>)
       (filter (\<lambda>s. src_Username s \<noteq> None \<and> src_Password s \<noteq> None) sources)))"

text \<open>\<open>chrunner.New\<close>: one connection per source, the last one of a tenant; none at all if one cannot be
  opened or does not answer.\<close>

fun chrunner_New :: "(ch_source \<Rightarrow> bool) \<Rightarrow> (string \<rightharpoonup> ch_source) \<Rightarrow> ch_source list \<Rightarrow> (string \<rightharpoonup> ch_source) option" where
  "chrunner_New connects reg [] = Some reg"
| "chrunner_New connects reg (src # sources) = (if \<not> connects src then None
     else chrunner_New connects (reg(cs_TenantID src \<mapsto> src)) sources)"

datatype search_error = SearchNoIdentity | SearchNoTenant | SearchCheckFailed | SearchNotActive | SearchCallFailed

text \<open>\<open>call\<close> is the request to the search service for a tenant's index.\<close>

definition searchclient_Search :: "rbac_env \<Rightarrow> (string \<Rightarrow> string \<Rightarrow> nat \<Rightarrow> string list option) \<Rightarrow> identity option \<Rightarrow> string \<Rightarrow> nat \<Rightarrow> rbac_db
    \<Rightarrow> (search_error, string list) result" where
  "searchclient_Search env call ctx query limit db = (case ctx of
     None \<Rightarrow> Inl SearchNoIdentity
   | Some i \<Rightarrow>
     if id_TenantID i = [] then Inl SearchNoTenant
     else (case TenantIsActive env 0 (id_TenantID i) db of
       Inl _ \<Rightarrow> Inl SearchCheckFailed
     | Inr active \<Rightarrow> if \<not> active then Inl SearchNotActive
       else (case call (id_TenantID i) query limit of None \<Rightarrow> Inl SearchCallFailed | Some ids \<Rightarrow> Inr ids)))"

section \<open>What the statements say\<close>

definition provision_statements :: "string \<Rightarrow> string \<Rightarrow> string list" where
  "provision_statements t pw = [create_database t, create_user (''tenant_'' @ t) pw, grant_access t (''tenant_'' @ t), revoke_system (''tenant_'' @ t)]"

definition provision_tokens :: "string \<Rightarrow> string \<Rightarrow> sql_tok list list" where
  "provision_tokens t pw = [
     map Plain ''CREATE DATABASE IF NOT EXISTS '' @ [Name t],
     map Plain ''CREATE USER '' @ [Name (''tenant_'' @ t)] @ map Plain '' IDENTIFIED WITH plaintext_password BY '' @ [Lit pw],
     map Plain ''GRANT SELECT, INSERT ON '' @ [Name t] @ map Plain ''.* TO '' @ [Name (''tenant_'' @ t)],
     map Plain ''REVOKE SELECT ON system.* FROM '' @ [Name (''tenant_'' @ t)]]"

text \<open>The alphabet of \<open>base64.RawURLEncoding\<close>, in which passwords are written.\<close>

definition url_safe :: "char \<Rightarrow> bool" where
  "url_safe c = (lower c \<or> CHR ''A'' \<le> c \<and> c \<le> CHR ''Z'' \<or> isDigit c \<or> c = CHR ''_'' \<or> c = CHR ''-'')"

lemma url_safe_plain: "url_safe c \<Longrightarrow> c \<noteq> quote \<and> c \<noteq> backslash \<and> c \<noteq> backtick"
  by (auto simp: url_safe_def lower_def isDigit_def less_eq_char_def quote_def backslash_def backtick_def)

lemma scan_plain: "list_all (\<lambda>c. c \<noteq> quote \<and> c \<noteq> backtick) s \<Longrightarrow> scan_sql InPlain (s @ t) = map Plain s @ scan_sql InPlain t"
  by (induction s) auto

lemma scan_name: "list_all (\<lambda>c. c \<noteq> backtick) s \<Longrightarrow> scan_sql (InName v) (s @ t) = scan_sql (InName (v @ s)) t"
  by (induction s arbitrary: v) auto

lemma scan_quoted_name:
  "list_all (\<lambda>c. c \<noteq> backtick) s \<Longrightarrow> scan_sql InPlain ([backtick] @ s @ [backtick]) = [Name s]"
  "list_all (\<lambda>c. c \<noteq> backtick) s \<Longrightarrow> c \<noteq> backtick \<Longrightarrow> c \<noteq> quote \<Longrightarrow>
    scan_sql InPlain ([backtick] @ s @ [backtick] @ c # t) = Name s # Plain c # scan_sql InPlain t"
  using scan_name[of s "[]"] by (simp_all add: quote_def backtick_def)

lemma scan_escaped: "list_all (\<lambda>c. c \<noteq> backslash) s \<Longrightarrow> scan_sql (InLit v) (escapeSingleQuotes s @ t) = scan_sql (InLit (v @ s)) t"
  by (induction s arbitrary: v) (auto simp: quote_def backslash_def)

lemma scan_quoted_literal: "list_all (\<lambda>c. c \<noteq> backslash) s \<Longrightarrow> scan_sql InPlain ([quote] @ escapeSingleQuotes s @ [quote]) = [Lit s]"
  using scan_escaped[of s "[]" "[quote]"] by (simp add: quote_def backslash_def)

lemma pattern_plain: "tenantIdentifierPattern t \<Longrightarrow> list_all (\<lambda>c. c \<noteq> backtick) t"
proof -
  have "url_safe c \<Longrightarrow> c \<noteq> backtick" for c using url_safe_plain by blast
  moreover assume "tenantIdentifierPattern t"
  then have "list_all url_safe t"
    by (auto simp: tenantIdentifierPattern_def url_safe_def list_all_iff split: list.splits)
  ultimately show ?thesis by (auto simp: list_all_iff)
qed

lemma statements_tokens:
  assumes t: "tenantIdentifierPattern t" and pw: "list_all url_safe pw"
  shows "map (scan_sql InPlain) (provision_statements t pw) = provision_tokens t pw"
proof -
  let ?u = "''tenant_'' @ t"
  have n: "list_all (\<lambda>c. c \<noteq> backtick) t" "list_all (\<lambda>c. c \<noteq> backtick) ?u"
    using pattern_plain[OF t] by (simp_all add: backtick_def)
  have l: "list_all (\<lambda>c. c \<noteq> backslash) pw" using pw url_safe_plain by (auto simp: list_all_iff)
  have p: "scan_sql InPlain (s @ r) = map Plain s @ scan_sql InPlain r" if "list_all (\<lambda>c. c \<noteq> CHR 0x27 \<and> c \<noteq> CHR 0x60) s" for s r
    using scan_plain[of s r] that by (simp add: quote_def backtick_def)
  have "scan_sql InPlain (create_database t) = map Plain ''CREATE DATABASE IF NOT EXISTS '' @ [Name t]"
    unfolding create_database_def by (subst p) (simp_all only: scan_quoted_name(1)[OF n(1)], simp)
  moreover have "scan_sql InPlain (revoke_system ?u) = map Plain ''REVOKE SELECT ON system.* FROM '' @ [Name ?u]"
    unfolding revoke_system_def by (subst p) (simp_all only: scan_quoted_name(1)[OF n(2)], simp)
  moreover have "scan_sql InPlain (grant_access t ?u) = map Plain ''GRANT SELECT, INSERT ON '' @ [Name t] @ map Plain ''.* TO '' @ [Name ?u]"
  proof -
    have "scan_sql InPlain ([backtick] @ t @ [backtick] @ ''.* TO '' @ [backtick] @ ?u @ [backtick])
        = Name t # map Plain ''.* TO '' @ scan_sql InPlain ([backtick] @ ?u @ [backtick])"
      using scan_quoted_name(2)[OF n(1), of "CHR ''.''" "''* TO '' @ [backtick] @ ?u @ [backtick]"] p[of "''* TO ''" "[backtick] @ ?u @ [backtick]"]
      by (simp add: quote_def backtick_def)
    then show ?thesis unfolding grant_access_def scan_quoted_name(1)[OF n(2)] by (subst p) simp_all
  qed
  moreover have "scan_sql InPlain (create_user ?u pw) =
      map Plain ''CREATE USER '' @ [Name ?u] @ map Plain '' IDENTIFIED WITH plaintext_password BY '' @ [Lit pw]"
  proof -
    have "scan_sql InPlain ([backtick] @ ?u @ [backtick] @ '' IDENTIFIED WITH plaintext_password BY '' @ [quote] @ escapeSingleQuotes pw @ [quote])
        = Name ?u # map Plain '' IDENTIFIED WITH plaintext_password BY '' @ scan_sql InPlain ([quote] @ escapeSingleQuotes pw @ [quote])"
      using scan_quoted_name(2)[OF n(2), of "CHR '' ''" "''IDENTIFIED WITH plaintext_password BY '' @ [quote] @ escapeSingleQuotes pw @ [quote]"]
        p[of "''IDENTIFIED WITH plaintext_password BY ''" "[quote] @ escapeSingleQuotes pw @ [quote]"]
      by (simp add: quote_def backtick_def)
    then show ?thesis unfolding create_user_def scan_quoted_literal[OF l] by (subst p) simp_all
  qed
  ultimately show ?thesis by (simp add: provision_statements_def provision_tokens_def)
qed

section \<open>What a run of the command changes\<close>

lemma ProvisionClickHouse_log: "\<exists>done_now. snd (ProvisionClickHouse ce t log) = log @ done_now"
  by (auto simp: ProvisionClickHouse_def admin_Exec_def Let_def split: option.split)

lemma ProvisionClickHouse_Some:
  assumes "ProvisionClickHouse ce t log = (Some creds, log')"
  shows "\<exists>pw. tenantIdentifierPattern t \<and> ce_password ce = Some pw \<and> creds = \<lparr>cc_Username = ''tenant_'' @ t, cc_Password = pw\<rparr>
    \<and> log' = log @ provision_statements t pw"
  using assms
  by (auto simp: ProvisionClickHouse_def admin_Exec_def Let_def provision_statements_def split: if_splits option.splits)

definition sources_wf :: "rbac_db \<Rightarrow> bool" where
  "sources_wf db = distinct (map src_ID (rb_sources db))"

lemma provision_tenant_effect:
  assumes "provision_tenant env t name db = (r, db1)"
  shows "rb_sources db1 = rb_sources db" "tenant_active x db1 = tenant_active x db"
  using assms
  by (auto simp: provision_tenant_def CreateTenant_def tenant_active_def Let_def split: sum.splits if_splits)

lemma provision_source_effect:
  assumes run: "provision_source env t act db = (r, db1)" and wf: "sources_wf db"
  shows "rb_tenants db1 = rb_tenants db" "sources_wf db1" "set (rb_sources db) \<subseteq> set (rb_sources db1)"
    "r = Some ds \<Longrightarrow> ds \<in> set (rb_sources db1) \<and> src_TenantID ds = t"
proof -
  have get: "d \<in> set (rb_sources db) \<and> src_TenantID d = t" if got: "GetDataSourceForTenant (pe_rbac env) 2 t db = Inr d" for d
  proof -
    obtain ds' where "sort_key src_CreatedAt (filter (\<lambda>d. src_TenantID d = t) (rb_sources db)) = d # ds'"
      using got by (cases "sort_key src_CreatedAt (filter (\<lambda>d. src_TenantID d = t) (rb_sources db))")
        (auto simp: GetDataSourceForTenant_def split: if_splits)
    then have "d \<in> set (sort_key src_CreatedAt (filter (\<lambda>d. src_TenantID d = t) (rb_sources db)))" by (metis list.set_intros(1))
    then show ?thesis by simp
  qed
  show "rb_tenants db1 = rb_tenants db" "sources_wf db1" "set (rb_sources db) \<subseteq> set (rb_sources db1)"
    "r = Some ds \<Longrightarrow> ds \<in> set (rb_sources db1) \<and> src_TenantID ds = t"
    using run wf get
    by (auto simp: provision_source_def CreateDataSource_def sources_wf_def Let_def split: sum.splits if_splits)
qed

lemma active_update:
  "tenant_active x (update_tenant t (\<lambda>r. r\<lparr>rt_Status := ''active'', rt_UpdatedAt := now\<rparr>) db) \<Longrightarrow> x = t \<or> tenant_active x db"
  by (auto simp: tenant_active_def update_tenant_def list_ex_iff split: if_splits)

lemma SetTenantStatus_effect:
  assumes "SetTenantStatus env n t ''active'' db = (res, db1)"
  shows "rb_sources db1 = rb_sources db" "tenant_active x db1 \<Longrightarrow> x = t \<or> tenant_active x db"
    "res \<noteq> Inr () \<Longrightarrow> db1 = db"
  using assms active_update[of x t "rv_now env" db] by (auto simp: SetTenantStatus_def update_tenant_def split: if_splits)

definition credentials_in :: "string \<Rightarrow> string \<Rightarrow> rbac_db \<Rightarrow> bool" where
  "credentials_in t pw db = list_ex (\<lambda>d. src_TenantID d = t \<and> src_Username d = Some (''tenant_'' @ t) \<and> src_Password d = Some pw) (rb_sources db)"

lemma set_credentials_effect:
  assumes run: "SetDataSourceClickHouseCredentials env n (src_ID ds) u p db = (res, db1)" and wf: "sources_wf db"
    and ds: "ds \<in> set (rb_sources db)" "src_Username ds = None"
  shows "rb_tenants db1 = rb_tenants db" "sources_wf db1" "\<forall>d \<in> set (rb_sources db). src_Username d \<noteq> None \<longrightarrow> d \<in> set (rb_sources db1)"
    "res = Inr () \<Longrightarrow> ds\<lparr>src_Username := Some u, src_Password := Some p\<rparr> \<in> set (rb_sources db1)"
proof -
  have key: "src_ID d = src_ID ds \<Longrightarrow> d = ds" if "d \<in> set (rb_sources db)" for d
    using wf ds(1) that by (auto simp: sources_wf_def distinct_map inj_on_def)
  have ids: "map src_ID (map (\<lambda>d. if src_ID d = i then d\<lparr>src_Username := Some u, src_Password := Some p\<rparr> else d) xs) = map src_ID xs" for xs i
    by (induction xs) auto
  show "sources_wf db1"
    using run wf ids[of "src_ID ds" "rb_sources db"]
    by (auto simp: SetDataSourceClickHouseCredentials_def exec_stmt_def sources_wf_def simp del: map_map split: if_splits)
  show "rb_tenants db1 = rb_tenants db"
    using run by (auto simp: SetDataSourceClickHouseCredentials_def exec_stmt_def split: if_splits)
  have db1: "db1 = db \<or> rb_sources db1 = map (\<lambda>d. if src_ID d = src_ID ds then d\<lparr>src_Username := Some u, src_Password := Some p\<rparr> else d) (rb_sources db)"
    using run by (auto simp: SetDataSourceClickHouseCredentials_def exec_stmt_def split: if_splits)
  show "\<forall>d \<in> set (rb_sources db). src_Username d \<noteq> None \<longrightarrow> d \<in> set (rb_sources db1)"
  proof (intro ballI impI)
    fix d
    assume d: "d \<in> set (rb_sources db)" "src_Username d \<noteq> None"
    then have "src_ID d \<noteq> src_ID ds" using key ds(2) by metis
    then show "d \<in> set (rb_sources db1)" using db1 d(1) by (force simp: image_iff)
  qed
  assume "res = Inr ()"
  then have "rb_sources db1 = map (\<lambda>d. if src_ID d = src_ID ds then d\<lparr>src_Username := Some u, src_Password := Some p\<rparr> else d) (rb_sources db)"
    using run by (auto simp: SetDataSourceClickHouseCredentials_def exec_stmt_def split: if_splits)
  then show "ds\<lparr>src_Username := Some u, src_Password := Some p\<rparr> \<in> set (rb_sources db1)"
    using ds(1) by (force simp: image_iff)
qed

text \<open>The effect of a command on the active tenants, the stored credentials and the log.\<close>

definition prov_effect :: "prov_env \<Rightarrow> string \<Rightarrow> prov_state \<Rightarrow> prov_state \<Rightarrow> bool" where
  "prov_effect env t s s' = (sources_wf (fst s')
     \<and> (\<forall>d \<in> set (rb_sources (fst s)). src_Username d \<noteq> None \<longrightarrow> d \<in> set (rb_sources (fst s')))
     \<and> (\<exists>done_now. snd s' = snd s @ done_now)
     \<and> (\<forall>x. tenant_active x (fst s') \<longrightarrow> tenant_active x (fst s) \<or> x = t \<and> (\<exists>pw. tenantIdentifierPattern t \<and> ce_password (pe_ch env) = Some pw
          \<and> snd s' = snd s @ provision_statements t pw \<and> credentials_in t pw (fst s'))))"

lemma data_plane_effect:
  assumes run: "provision_data_plane env t ds s = (r, s')" and wf: "sources_wf (fst s)"
    and ds: "ds \<in> set (rb_sources (fst s))" "src_TenantID ds = t"
  shows "prov_effect env t s s'"
proof -
  obtain db log where s: "s = (db, log)" by fastforce
  obtain rc log1 where pr: "ProvisionClickHouse (pe_ch env) t log = (rc, log1)" by (metis surj_pair)
  have lg: "\<exists>done_now. log1 = log @ done_now" using ProvisionClickHouse_log[of "pe_ch env" t log] pr by simp
  show ?thesis
  proof (cases "src_Username ds \<noteq> None \<or> rc = None")
    case True
    then have "s' = (db, log) \<or> s' = (db, log1)" using run pr by (auto simp: provision_data_plane_def s split: if_splits)
    then show ?thesis using wf lg by (auto simp: prov_effect_def s)
  next
    case False
    then obtain creds where creds: "src_Username ds = None" "rc = Some creds" by auto
    from ProvisionClickHouse_Some[OF pr[unfolded creds(2)]] obtain pw where pw: "tenantIdentifierPattern t" "ce_password (pe_ch env) = Some pw"
      "creds = \<lparr>cc_Username = ''tenant_'' @ t, cc_Password = pw\<rparr>" "log1 = log @ provision_statements t pw" by blast
    obtain r1 db1 where c: "SetDataSourceClickHouseCredentials (pe_rbac env) 4 (src_ID ds) (cc_Username creds) (cc_Password creds) db = (r1, db1)"
      by (metis surj_pair)
    note ce = set_credentials_effect[OF c wf[unfolded s fst_conv] ds(1)[unfolded s fst_conv] creds(1)]
    obtain r2 db2 where st: "SetTenantStatus (pe_rbac env) 5 t ''active'' db1 = (r2, db2)" by (metis surj_pair)
    note se = SetTenantStatus_effect[OF st]
    have act: "tenant_active x db1 = tenant_active x db" for x using ce(1) by (simp add: tenant_active_def)
    show ?thesis
    proof (cases r1)
      case (Inl e)
      then have "s' = (db1, log1)" using run pr creds c by (simp add: provision_data_plane_def s)
      then show ?thesis using ce act lg by (simp add: prov_effect_def s)
    next
      case (Inr x)
      then have s': "s' = (db2, log1)" using run pr creds c st by (auto simp: provision_data_plane_def s split: sum.splits)
      have "ds\<lparr>src_Username := Some (''tenant_'' @ t), src_Password := Some pw\<rparr> \<in> set (rb_sources db2)" using ce(4) Inr pw(3) se(1) by simp
      then have "credentials_in t pw db2" unfolding credentials_in_def list_ex_iff by (rule bexI[rotated]) (simp add: ds(2))
      then show ?thesis using ce se act lg pw by (auto simp: prov_effect_def s s' sources_wf_def)
    qed
  qed
qed

lemma prov_effect_source:
  assumes run: "provision_source env t act db = (r, db1)" and wf: "sources_wf db" and later: "prov_effect env t (db1, log) s'"
  shows "prov_effect env t (db, log) s'"
proof -
  note e = provision_source_effect(1,3)[OF run wf]
  have "tenant_active x db1 = tenant_active x db" for x using e(1) by (simp add: tenant_active_def)
  then show ?thesis using later e(2) by (auto simp: prov_effect_def)
qed

lemma provision_step:
  assumes run: "runProvisionTenant env t name s = (code, s')" and wf: "sources_wf (fst s)"
  shows "prov_effect env t s s'"
proof -
  obtain db log where s: "s = (db, log)" by fastforce
  have refl: "prov_effect env t (d, log) (d, log)" if "sources_wf d" for d using that by (simp add: prov_effect_def)
  obtain tn db1 where t: "provision_tenant env t name db = (tn, db1)" by (metis surj_pair)
  have te: "rb_sources db1 = rb_sources db" "tenant_active x db1 = tenant_active x db" for x
    using provision_tenant_effect[OF t] by simp_all
  then have wf1: "sources_wf db1" using wf by (simp add: sources_wf_def s)
  have from1: "prov_effect env t (db1, log) s' \<Longrightarrow> prov_effect env t (db, log) s'" using te by (simp add: prov_effect_def)
  have "prov_effect env t (db1, log) s' \<or> s' = (db, log)"
  proof (cases "pe_opens env \<and> tn \<noteq> None")
    case False
    then show ?thesis using run t refl[OF wf1] by (auto simp: runProvisionTenant_def s split: if_splits)
  next
    case True
    then obtain tenant where tn: "tn = Some tenant" and o: "pe_opens env" by auto
    let ?act = "te_Status tenant = ''active''"
    obtain r db2 where src: "provision_source env t ?act db1 = (r, db2)" by (metis surj_pair)
    note pe = provision_source_effect[OF src wf1]
    show ?thesis
    proof (cases r)
      case None
      then have "s' = (db2, log)" using run t tn o src by (simp add: runProvisionTenant_def s Let_def)
      then show ?thesis using prov_effect_source[OF src wf1 refl[OF pe(2)]] by simp
    next
      case (Some ds)
      note d = pe(4)[OF Some]
      show ?thesis
      proof (cases ?act)
        case True
        then have "s' = (db2, log)" using run t tn o src Some by (auto simp: runProvisionTenant_def s Let_def split: option.splits)
        then show ?thesis using prov_effect_source[OF src wf1 refl[OF pe(2)]] by simp
      next
        case False
        obtain c s2 where dp: "provision_data_plane env t ds (db2, log) = (c, s2)" by (metis surj_pair)
        then have "s' = s2" using run t tn o src Some False by (auto simp: runProvisionTenant_def s Let_def split: option.splits)
        then show ?thesis using prov_effect_source[OF src wf1] data_plane_effect[OF dp] pe(2) d by simp
      qed
    qed
  qed
  then show ?thesis using from1 wf refl s by auto
qed

section \<open>Operator commands leave the data plane alone\<close>

definition same_plane :: "rbac_db \<Rightarrow> rbac_db \<Rightarrow> bool" where
  "same_plane db db' = (rb_sources db' = rb_sources db \<and> (\<forall>x. tenant_active x db' = tenant_active x db))"

lemma same_plane_refl [simp]: "same_plane db db"
  by (simp add: same_plane_def)

lemma same_plane_trans: "same_plane a b \<Longrightarrow> same_plane b c \<Longrightarrow> same_plane a c"
  by (simp add: same_plane_def)

lemma exec_stmt_plane: "(\<And>db'. res = Inr db' \<Longrightarrow> same_plane db db') \<Longrightarrow> same_plane db (snd (exec_stmt up res db))"
  by (auto simp: exec_stmt_def split: sum.split)

lemma upsert_member_plane: "upsert_member uuid t u role db = Inr db' \<Longrightarrow> same_plane db db'"
  by (auto simp: upsert_member_def same_plane_def tenant_active_def split: if_splits)

lemma set_owner_plane:
  assumes "set_owner now t u db = Inr db'"
  shows "same_plane db db'"
proof -
  have "list_ex (\<lambda>r. rt_ID r = x \<and> rt_Status r = ''active'') (map (\<lambda>r. if rt_ID r = t then r\<lparr>rt_Owner := Some u, rt_UpdatedAt := now\<rparr> else r) rs)
      = list_ex (\<lambda>r. rt_ID r = x \<and> rt_Status r = ''active'') rs" for x and rs :: "rbac_tenant_row list"
    by (induction rs) auto
  then show ?thesis using assms by (auto simp: set_owner_def update_tenant_def same_plane_def tenant_active_def split: if_splits)
qed

lemma store_planes [simp]:
  "same_plane db (snd (SetMembership env n t u role db))" "same_plane db (snd (SetOwner env n t u db))"
  "same_plane db (snd (TransferOwner env n t u role db))" "same_plane db (snd (RevokeMembership env n t u db))"
  "same_plane db (snd (CreateTenant env n t name db))" "same_plane db (snd (CreateIngestCredential env n t db))"
  "same_plane db (snd (RevokeIngestCredential env n i db))"
proof -
  show "same_plane db (snd (SetMembership env n t u role db))" "same_plane db (snd (SetOwner env n t u db))"
    unfolding SetMembership_def SetOwner_def by (intro exec_stmt_plane upsert_member_plane set_owner_plane; assumption)+
  have "transfer env k t old u role db = Inr db' \<Longrightarrow> same_plane db db'" for k old db'
    by (auto simp: transfer_def bindE_eq_Inr intro: same_plane_trans dest!: upsert_member_plane set_owner_plane)
  then show "same_plane db (snd (TransferOwner env n t u role db))"
    by (auto simp: TransferOwner_def intro!: exec_stmt_plane split: sum.split)
  have "delete_member t u db = Inr db' \<Longrightarrow> same_plane db db'" for db'
    by (auto simp: delete_member_def same_plane_def tenant_active_def split: if_splits)
  then show "same_plane db (snd (RevokeMembership env n t u db))"
    by (auto simp: RevokeMembership_def intro!: exec_stmt_plane split: sum.split)
  show "same_plane db (snd (CreateTenant env n t name db))" "same_plane db (snd (CreateIngestCredential env n t db))"
    by (auto simp: CreateTenant_def CreateIngestCredential_def same_plane_def tenant_active_def Let_def split: option.split)
  show "same_plane db (snd (RevokeIngestCredential env n i db))"
    unfolding RevokeIngestCredential_def by (rule exec_stmt_plane) (auto simp: same_plane_def tenant_active_def split: if_splits)
qed

lemma operator_plane: "same_plane db (snd (operator_main env fl db))"
proof -
  have grant: "same_plane db (snd (runGrantMembership env t e role db))" for t e role
  proof -
    have "same_plane db (snd (case SetMembership env 2 t u role db of (Inl _, db) \<Rightarrow> ((1, NoOutput), db)
      | (Inr _, db) \<Rightarrow> if role = RoleOwner
           then (case SetOwner env 3 t u db of (Inl _, db) \<Rightarrow> ((1, NoOutput), db) | (Inr _, db) \<Rightarrow> ((0, NoOutput), db))
           else ((0, NoOutput), db)))" for u
    proof -
      obtain r1 d1 where m: "SetMembership env 2 t u role db = (r1, d1)" by (metis surj_pair)
      obtain r2 d2 where o: "SetOwner env 3 t u d1 = (r2, d2)" by (metis surj_pair)
      have "same_plane db d1" "same_plane d1 d2" using store_planes(1,2) m o by (metis snd_conv)+
      then show ?thesis using same_plane_trans by (auto simp: m o split: sum.split)
    qed
    then show ?thesis by (auto simp: runGrantMembership_def split: sum.split)
  qed
  have cases2: "same_plane db (snd (case f db of (Inl _, db) \<Rightarrow> (a, db) | (Inr x, db) \<Rightarrow> (b x, db)))"
    if "same_plane db (snd (f db))" for f :: "rbac_db \<Rightarrow> ('e, 'x) result \<times> rbac_db" and a :: 'y and b
    using that by (auto split: prod.split sum.split)
  have "same_plane db (snd (runCreateTenant env t name db))" "same_plane db (snd (runRevokeMembership env t e db))"
    "same_plane db (snd (runTransferOwner env t e db))" "same_plane db (snd (runCreateIngestCredential env t db))"
    "same_plane db (snd (runRevokeIngestCredential env t db))" "same_plane db (snd (runListMemberships env t db))"
    "same_plane db (snd (runListIngestCredentials env t db))" for t name e
    unfolding runCreateTenant_def runRevokeMembership_def runTransferOwner_def runCreateIngestCredential_def runRevokeIngestCredential_def
      runListMemberships_def runListIngestCredentials_def
    by (auto split: sum.split intro!: cases2)
  with grant show ?thesis by (simp add: operator_main_def)
qed

section \<open>The gate\<close>

datatype plane_command = Provision prov_env string string | Operate rbac_env operator_flags

fun plane_step :: "plane_command \<Rightarrow> prov_state \<Rightarrow> prov_state" where
  "plane_step (Provision env t name) s = snd (runProvisionTenant env t name s)"
| "plane_step (Operate env fl) (db, log) = (snd (operator_main env fl db), log)"

definition plane_run :: "plane_command list \<Rightarrow> prov_state \<Rightarrow> prov_state" where
  "plane_run cmds s = fold plane_step cmds s"

text \<open>The random source gives passwords in the alphabet of the encoding.\<close>

fun passwords_encoded :: "plane_command \<Rightarrow> bool" where
  "passwords_encoded (Provision env t name) = (case ce_password (pe_ch env) of None \<Rightarrow> True | Some pw \<Rightarrow> list_all url_safe pw)"
| "passwords_encoded (Operate env fl) = True"

definition gated :: "string \<Rightarrow> string list \<Rightarrow> prov_state \<Rightarrow> bool" where
  "gated t log s = (\<exists>pw earlier later. snd s = log @ earlier @ provision_statements t pw @ later
     \<and> map (scan_sql InPlain) (provision_statements t pw) = provision_tokens t pw \<and> credentials_in t pw (fst s))"

lemma credentials_kept:
  assumes "credentials_in t pw db" "\<forall>d \<in> set (rb_sources db). src_Username d \<noteq> None \<longrightarrow> d \<in> set (rb_sources db')"
  shows "credentials_in t pw db'"
  using assms by (fastforce simp: credentials_in_def list_ex_iff)

lemma plane_step_gated:
  assumes wf: "sources_wf (fst s)" and pre: "\<exists>more_log. snd s = log @ more_log" and enc: "passwords_encoded c"
    and inv: "\<forall>x. tenant_active x (fst s) \<longrightarrow> tenant_active x db \<or> gated x log s"
  shows "sources_wf (fst (plane_step c s)) \<and> (\<exists>more_log. snd (plane_step c s) = log @ more_log)
    \<and> (\<forall>x. tenant_active x (fst (plane_step c s)) \<longrightarrow> tenant_active x db \<or> gated x log (plane_step c s))"
proof (cases c)
  case (Operate env fl)
  obtain d l where s: "s = (d, l)" by fastforce
  have p: "rb_sources (snd (operator_main env fl d)) = rb_sources d" "tenant_active x (snd (operator_main env fl d)) = tenant_active x d" for x
    using operator_plane[of d env fl] by (simp_all add: same_plane_def)
  show ?thesis using wf pre inv p by (simp add: Operate s sources_wf_def gated_def credentials_in_def)
next
  case (Provision env t name)
  let ?s' = "plane_step c s"
  have e: "prov_effect env t s ?s'"
    using provision_step[OF _ wf] by (metis Provision plane_step.simps(1) surjective_pairing)
  then have parts: "sources_wf (fst ?s')" "\<forall>d \<in> set (rb_sources (fst s)). src_Username d \<noteq> None \<longrightarrow> d \<in> set (rb_sources (fst ?s'))"
    "\<exists>done_now. snd ?s' = snd s @ done_now" unfolding prov_effect_def by blast+
  have keep: "gated x log ?s'" if "gated x log s" for x
    using that credentials_kept[OF _ parts(2)] parts(3) unfolding gated_def by (metis append.assoc)
  have "tenant_active x db \<or> gated x log ?s'" if "tenant_active x (fst ?s')" for x
  proof (cases "tenant_active x (fst s)")
    case True
    then show ?thesis using inv keep by blast
  next
    case False
    with e that obtain pw where pw: "x = t" "tenantIdentifierPattern t" "ce_password (pe_ch env) = Some pw"
      "snd ?s' = snd s @ provision_statements t pw" "credentials_in t pw (fst ?s')"
      unfolding prov_effect_def by blast
    have "list_all url_safe pw" using enc pw(3) by (simp add: Provision)
    from statements_tokens[OF pw(2) this] have "gated x log ?s'"
      using pw pre unfolding gated_def by (metis append.assoc append_Nil2)
    then show ?thesis ..
  qed
  then show ?thesis using parts(1,3) pre by (metis append.assoc)
qed

lemma plane_run_gated:
  assumes "sources_wf db" "list_all passwords_encoded cmds" "tenant_active t (fst (plane_run cmds (db, log)))"
  shows "tenant_active t db \<or> gated t log (plane_run cmds (db, log))"
proof -
  have "sources_wf (fst (plane_run cmds (db, log))) \<and> (\<exists>more_log. snd (plane_run cmds (db, log)) = log @ more_log)
      \<and> (\<forall>x. tenant_active x (fst (plane_run cmds (db, log))) \<longrightarrow> tenant_active x db \<or> gated x log (plane_run cmds (db, log)))"
    using assms(2)
  proof (induction cmds rule: rev_induct)
    case Nil
    then show ?case using assms(1) by (simp add: plane_run_def)
  next
    case (snoc c cmds)
    then have "sources_wf (fst (plane_run cmds (db, log)))" "\<exists>more_log. snd (plane_run cmds (db, log)) = log @ more_log" "passwords_encoded c"
      "\<forall>x. tenant_active x (fst (plane_run cmds (db, log))) \<longrightarrow> tenant_active x db \<or> gated x log (plane_run cmds (db, log))" by simp_all
    from plane_step_gated[OF this] show ?case by (simp add: plane_run_def)
  qed
  then show ?thesis using assms(3) by blast
qed

text \<open>A tenant is served: a query runner has a connection for it, a refresh gives the writer one, or a
  search in its index is answered.\<close>

definition served :: "rbac_env \<Rightarrow> (ch_source \<Rightarrow> bool) \<Rightarrow> (string \<Rightarrow> bool) \<Rightarrow> (string \<Rightarrow> string \<Rightarrow> nat \<Rightarrow> string list option) \<Rightarrow> string \<Rightarrow> rbac_db \<Rightarrow> bool" where
  "served env connects opens call t db =
    ((case tenantDataSourceLister env db of Inl _ \<Rightarrow> False
      | Inr sources \<Rightarrow> (case chrunner_New connects Map.empty sources of None \<Rightarrow> False | Some reg \<Rightarrow> reg t \<noteq> None)
          \<or> t \<in> set (rg_writers (refresh (Some (map cs_TenantID sources)) opens \<lparr>rg_writers = [], rg_tables = (\<lambda>_. [])\<rparr>)))
     \<or> is_ok (searchclient_Search env call (Some \<lparr>id_TenantID = t, id_UserID = [], id_Role = RoleViewer\<rparr>) [] 0 db))"

lemma lister_active: "tenantDataSourceLister env db = Inr sources \<Longrightarrow> src \<in> set sources \<Longrightarrow> tenant_active (cs_TenantID src) db"
  by (auto simp: tenantDataSourceLister_def ListProvisionedDataSources_def split: if_splits)

lemma chrunner_New_sources:
  "chrunner_New connects reg sources = Some reg' \<Longrightarrow> reg' t = Some src \<Longrightarrow> reg t = Some src \<or> (src \<in> set sources \<and> cs_TenantID src = t)"
  by (induction sources arbitrary: reg) (fastforce split: if_splits)+

lemma served_active:
  assumes "served env connects opens call t db"
  shows "tenant_active t db"
proof -
  consider (runner) sources reg src where "tenantDataSourceLister env db = Inr sources" "chrunner_New connects Map.empty sources = Some reg" "reg t = Some src"
    | (writer) sources where "tenantDataSourceLister env db = Inr sources" "t \<in> cs_TenantID ` set sources"
    | (search) "TenantIsActive env 0 t db = Inr True"
    using assms
    by (auto simp: served_def refresh_def Let_def searchclient_Search_def is_ok_def split: sum.splits option.splits if_splits)
  then show ?thesis
  proof cases
    case runner
    then show ?thesis using chrunner_New_sources[OF runner(2,3)] lister_active[OF runner(1)] by auto
  next
    case writer
    then show ?thesis using lister_active[OF writer(1)] by auto
  next
    case search
    then obtain r where "tenant_row t db = Some r" "rt_Status r = ''active''"
      by (auto simp: TenantIsActive_def GetTenant_def scan_tenant_def split: sum.splits if_splits option.splits)
    then show ?thesis by (auto simp: tenant_row_def tenant_active_def list_ex_iff find_Some_iff)
  qed
qed


text \<open>After the credentials are stored and the activation fails, the tenant stays as it is: every later run
  of the command refuses.\<close>

theorem half_provisioned_stuck:
  assumes "GetTenant (pe_rbac env) 0 t db = Inr tenant" "te_Status tenant \<noteq> ''active''"
    "GetDataSourceForTenant (pe_rbac env) 2 t db = Inr ds" "src_Username ds \<noteq> None"
  shows "runProvisionTenant env t name (db, log) = (1, (db, log))"
  using assms by (auto simp: runProvisionTenant_def provision_tenant_def provision_source_def provision_data_plane_def Let_def)

section \<open>A tenant is provisioned\<close>

definition w_ch_env :: ch_env where
  "w_ch_env = \<lparr>ce_accepts = (\<lambda>log stmt. True), ce_password = Some ''pw''\<rparr>"

definition w_plane_env :: rbac_env where
  "w_plane_env = \<lparr>rv_now = 0, rv_uuid = (\<lambda>n. ''new''), rv_up = (\<lambda>n. True), rv_rand = None, rv_hash = (\<lambda>t. t), rv_collation = (\<lambda>s. 0)\<rparr>"

definition w_prov_env :: prov_env where
  "w_prov_env = \<lparr>pe_rbac = w_plane_env, pe_ch = w_ch_env, pe_opens = True, pe_sync = None\<rparr>"

definition no_rows :: rbac_db where
  "no_rows = \<lparr>rb_users = [], rb_tenants = [], rb_members = [], rb_sources = [], rb_creds = []\<rparr>"


end
