(* ===== verification/Ingest_Credentials.thy ===== *)
theory Ingest_Credentials
  imports Sso_Login
begin

text \<open>
  The life of an ingest credential across three processes: the operator command that prints it
  (\<open>enterprise/cmd/enterprise-auth\<close>), the endpoint that resolves it (\<open>authhandler\<close>) and the \<open>PushBatch\<close> that an
  agent presents it to (\<open>ingest/internal/grpcserver\<close> with its tenant resolver).
\<close>

definition ingest_resolver :: "rbac_env \<Rightarrow> rbac_db \<Rightarrow> string \<Rightarrow> string option" where
  "ingest_resolver env db = ResolveTenant (\<lambda>header. Some (handleAuthorizeIngest env header db))"

lemma bearer_roundtrip [simp]: "bearerToken (''Bearer '' @ token) = token"
  by (simp add: bearerToken_def HasPrefix_def)

lemma bearer_context [simp]: "bearerTokenFromContext [''Bearer '' @ token] = Some token"
  by (simp add: bearerTokenFromContext_def HasPrefix_def)

lemma ingest_resolver_exact:
  "rv_up env 0 \<Longrightarrow> ingest_resolver env db token = (if token = [] then None
    else (case find (\<lambda>c. ic_Hash c = rv_hash env token) (rb_creds db) of None \<Rightarrow> None
      | Some c \<Rightarrow> if ic_TenantID c = [] then None else Some (ic_TenantID c)))"
  using bearer_roundtrip[of token]
  by (auto simp: ingest_resolver_def ResolveTenant_def handleAuthorizeIngest_def ValidateIngestCredential_def Let_def simp del: bearer_roundtrip split: option.split)

lemma created:
  assumes "runCreateIngestCredential env t db = ((0, PrintedToken token), db1)"
  shows "rb_creds db1 = rb_creds db @ [\<lparr>ic_ID = rv_uuid env 1, ic_TenantID = t, ic_Hash = rv_hash env token, ic_CreatedAt = rv_now env\<rparr>]"
    "rv_uuid env 1 \<notin> ic_ID ` set (rb_creds db)" "rv_hash env token \<notin> ic_Hash ` set (rb_creds db)"
  using assms by (auto simp: runCreateIngestCredential_def CreateIngestCredential_def split: sum.splits option.splits if_splits)

lemma find_cred_append: "find P (xs @ [x]) = (case find P xs of None \<Rightarrow> if P x then Some x else None | Some y \<Rightarrow> Some y)"
  by (induction xs) auto


text \<open>A tenant, a credential for it, and its revocation.\<close>

definition w_cred_env :: rbac_env where
  "w_cred_env = \<lparr>rv_now = 0, rv_uuid = (\<lambda>n. ''c1''), rv_up = (\<lambda>n. True), rv_rand = Some ''secret'', rv_hash = (\<lambda>t. t), rv_collation = (\<lambda>s. 0)\<rparr>"

definition w_cred_db :: rbac_db where
  "w_cred_db = \<lparr>rb_users = [], rb_tenants = [\<lparr>rt_ID = ''acme'', rt_DisplayName = ''Acme'', rt_Status = ''active'', rt_Owner = None, rt_CreatedAt = 0, rt_UpdatedAt = 0\<rparr>],
     rb_members = [], rb_sources = [], rb_creds = []\<rparr>"

definition w_cred_db1 :: rbac_db where
  "w_cred_db1 = w_cred_db\<lparr>rb_creds := [\<lparr>ic_ID = ''c1'', ic_TenantID = ''acme'', ic_Hash = ''secret'', ic_CreatedAt = 0\<rparr>]\<rparr>"

definition w_record :: log_record where
  "w_record = \<lparr>lr_TimestampUnixNano = 0, lr_Host = ''h'', lr_Service = ''s'', lr_Severity = 3, lr_Message = ''m'', lr_Attributes = [], lr_RecordId = []\<rparr>"


end
