(* ===== verification/Ai_Grounding.thy ===== *)
theory Ai_Grounding
  imports Ingest Sql
begin

text \<open>
  What the language model is told about a tenant's data: the schema context of
  \<open>api/ai/provider\<close>, the sampling service of \<open>api/ai/grounding\<close> and its per-tenant registry in
  \<open>enterprise/internal/groundingregistry\<close>. A \<open>Service\<close> is its snapshot; the runner it wraps is an
  argument of \<open>Refresh\<close>, from a statement to a failure or a result, \<open>None\<close> for a nil result. A cell of
  a row is a string or something else, which is all the code asks of it. A refreshing loop is the
  sequence of its rounds. Shown: a refresh that fails keeps the snapshot, an attribute name never
  leaves its string literal, every example list is short, and the context of one tenant does not
  depend on the data or the presence of any other.
\<close>

section \<open>Schema context\<close>

record field_info =
  fi_Name :: string
  fi_Examples :: "string list"

record schema_context =
  sc_Services :: "string list"
  sc_Fields :: "field_info list"

definition zero_schema :: schema_context where
  "zero_schema = \<lparr>sc_Services = [], sc_Fields = []\<rparr>"

section \<open>Sampling\<close>

datatype any_value = AnyString string | AnyOther

type_synonym sample_result = "any_value query_result option"

definition staticFields :: "string list" where
  "staticFields = [''timestamp'', ''host'', ''service'', ''severity'', ''message'', ''record_id'']"

definition sampleWindow :: int where "sampleWindow = 7 * 24 * Hour"
definition maxServices :: nat where "maxServices = 50"
definition maxAttributeKeys :: nat where "maxAttributeKeys = 100"
definition maxEnumCandidateKeys :: nat where "maxEnumCandidateKeys = 15"
definition maxExamplesPerField :: nat where "maxExamplesPerField = 20"
definition perFieldQueryLimit :: nat where "perFieldQueryLimit = maxExamplesPerField + 1"

lemmas sampling_limits = maxServices_def maxAttributeKeys_def maxEnumCandidateKeys_def maxExamplesPerField_def perFieldQueryLimit_def

text \<open>\<open>int(sampleWindow.Seconds())\<close>; the window is a whole number of seconds.\<close>

definition window_seconds :: int where
  "window_seconds = sampleWindow div Second"

definition grounding_quoteLiteral :: "string \<Rightarrow> string" where
  "grounding_quoteLiteral s = (let sb = [quote];
     sb = foldl (\<lambda>sb r. if r = backslash then sb @ [backslash, backslash]
            else if r = quote then sb @ [backslash, quote] else sb @ [r]) sb s
   in sb @ [quote])"

definition firstColumnStrings :: "sample_result \<Rightarrow> string list" where
  "firstColumnStrings res = (case res of None \<Rightarrow> []
   | Some r \<Rightarrow> if length (Columns r) = 0 then []
     else foldl (\<lambda>out row. case row of [] \<Rightarrow> out
        | v # _ \<Rightarrow> (case v of AnyString s \<Rightarrow> if s \<noteq> [] then out @ [s] else out | AnyOther \<Rightarrow> out)) [] (Rows r))"

definition servicesSQL :: string where
  "servicesSQL = ''SELECT service FROM logs WHERE timestamp > now() - INTERVAL '' @ itoa_int window_seconds
     @ '' SECOND GROUP BY service ORDER BY count() DESC LIMIT '' @ itoa maxServices"

definition sampleServices :: "(string \<Rightarrow> ('e, sample_result) result) \<Rightarrow> ('e, string list) result" where
  "sampleServices run = bindE (run servicesSQL) (\<lambda>res. Inr (firstColumnStrings res))"

definition attributeKeysSQL :: string where
  "attributeKeysSQL = ''SELECT arrayJoin(mapKeys(attributes)) AS attr_key FROM logs WHERE timestamp > now() - INTERVAL ''
     @ itoa_int window_seconds @ '' SECOND GROUP BY attr_key ORDER BY count() DESC LIMIT '' @ itoa maxAttributeKeys"

definition sampleAttributeKeys :: "(string \<Rightarrow> ('e, sample_result) result) \<Rightarrow> ('e, string list) result" where
  "sampleAttributeKeys run = bindE (run attributeKeysSQL) (\<lambda>res. Inr (firstColumnStrings res))"

definition sample_column :: "string \<Rightarrow> bool \<Rightarrow> string" where
  "sample_column field isStructuredColumn = (if isStructuredColumn then [backtick] @ field @ [backtick]
     else ''attributes['' @ grounding_quoteLiteral field @ '']'')"

definition fieldExamplesSQL :: "string \<Rightarrow> bool \<Rightarrow> string" where
  "fieldExamplesSQL field isStructuredColumn = (let col = sample_column field isStructuredColumn in
     ''SELECT DISTINCT '' @ col @ '' AS v FROM logs WHERE timestamp > now() - INTERVAL '' @ itoa_int window_seconds
     @ '' SECOND AND '' @ col @ '' != '' @ [quote, quote] @ '' LIMIT '' @ itoa perFieldQueryLimit)"

definition sampleFieldExamples :: "(string \<Rightarrow> ('e, sample_result) result) \<Rightarrow> string \<Rightarrow> bool \<Rightarrow> string list \<times> bool" where
  "sampleFieldExamples run field isStructuredColumn = (case run (fieldExamplesSQL field isStructuredColumn) of
     Inl _ \<Rightarrow> ([], False)
   | Inr res \<Rightarrow> (let values = firstColumnStrings res in
       if length values = 0 \<or> length values > maxExamplesPerField then ([], False) else (values, True)))"

datatype 'e refresh_error = SamplingServices 'e | SamplingAttributeKeys 'e

text \<open>The map \<open>enumExamples\<close>; a missing key reads as the nil slice.\<close>

definition enumExamples :: "(string \<Rightarrow> ('e, sample_result) result) \<Rightarrow> string list \<Rightarrow> string \<rightharpoonup> string list" where
  "enumExamples run keys = foldl (\<lambda>m key. case sampleFieldExamples run key False of (examples, ok) \<Rightarrow>
     if ok then m(key \<mapsto> examples) else m) Map.empty keys"

definition Refresh :: "(string \<Rightarrow> ('e, sample_result) result) \<Rightarrow> schema_context \<Rightarrow> 'e refresh_error option \<times> schema_context" where
  "Refresh run snapshot = (case sampleServices run of
     Inl e \<Rightarrow> (Some (SamplingServices e), snapshot)
   | Inr services \<Rightarrow>
     (case sampleAttributeKeys run of
        Inl e \<Rightarrow> (Some (SamplingAttributeKeys e), snapshot)
      | Inr attrKeys \<Rightarrow>
        (let fields = map (\<lambda>name. \<lparr>fi_Name = name, fi_Examples = fst (sampleFieldExamples run name (name = ''severity''))\<rparr>)
               staticFields;
           candidateKeys = (if length attrKeys > maxEnumCandidateKeys then take maxEnumCandidateKeys attrKeys else attrKeys);
           examples = enumExamples run candidateKeys;
           fields = fields @ map (\<lambda>key. \<lparr>fi_Name = key,
             fi_Examples = (case examples key of None \<Rightarrow> [] | Some es \<Rightarrow> es)\<rparr>) attrKeys
         in (None, \<lparr>sc_Services = services, sc_Fields = fields\<rparr>))))"

section \<open>The registry of tenants\<close>

type_synonym ground_registry = "string \<rightharpoonup> schema_context"

definition SchemaContextFor :: "ground_registry \<Rightarrow> string \<Rightarrow> schema_context" where
  "SchemaContextFor reg tenantID = (case reg tenantID of None \<Rightarrow> zero_schema | Some snapshot \<Rightarrow> snapshot)"

definition registry_SchemaContext :: "ground_registry \<Rightarrow> identity option \<Rightarrow> schema_context" where
  "registry_SchemaContext reg ctx = (case ctx of None \<Rightarrow> zero_schema
   | Some i \<Rightarrow> if id_TenantID i = [] then zero_schema else SchemaContextFor reg (id_TenantID i))"

definition serviceFor :: "ground_registry \<Rightarrow> string \<Rightarrow> ground_registry \<times> schema_context" where
  "serviceFor reg tenantID = (case reg tenantID of Some svc \<Rightarrow> (reg, svc)
   | None \<Rightarrow> (reg(tenantID \<mapsto> zero_schema), zero_schema))"

definition tenantCtx :: "string \<Rightarrow> identity option" where
  "tenantCtx tenantID = Some \<lparr>id_TenantID = tenantID, id_UserID = [], id_Role = RoleService\<rparr>"

fun refreshTenants :: "(identity option \<Rightarrow> string \<Rightarrow> ('e, sample_result) result) \<Rightarrow> ground_registry \<Rightarrow> string list \<Rightarrow> ground_registry" where
  "refreshTenants runner reg [] = reg"
| "refreshTenants runner reg (tenantID # tenantIDs) = (case serviceFor reg tenantID of (reg, svc) \<Rightarrow>
     refreshTenants runner (reg(tenantID \<mapsto> snd (Refresh (runner (tenantCtx tenantID)) svc))) tenantIDs)"

text \<open>\<open>listed\<close> is the answer of the lister, \<open>None\<close> if it fails.\<close>

definition refreshAll :: "(identity option \<Rightarrow> string \<Rightarrow> ('e, sample_result) result) \<Rightarrow> string list option \<Rightarrow> ground_registry \<Rightarrow> ground_registry" where
  "refreshAll runner listed reg = (case listed of None \<Rightarrow> reg | Some tenantIDs \<Rightarrow> refreshTenants runner reg tenantIDs)"

text \<open>The runner every service shares is \<open>chrunner\<close>; \<open>run t\<close> is the connection of tenant \<open>t\<close>.\<close>

definition tenant_runner :: "string list \<Rightarrow> (string \<Rightarrow> string \<Rightarrow> ('e, sample_result) result) \<Rightarrow> identity option \<Rightarrow> string
    \<Rightarrow> (runner_error + 'e, sample_result) result" where
  "tenant_runner runners run ctx sql = (case chrunner_RunSQL runners run ctx sql of
     Inl e \<Rightarrow> Inl (Inl e)
   | Inr (Inl e) \<Rightarrow> Inl (Inr e)
   | Inr (Inr res) \<Rightarrow> Inr res)"

text \<open>\<open>StartRefreshing\<close>: the first round and one per tick, each with the data of its time and the
  tenants listed then.\<close>

type_synonym 'e ground_round = "(string \<Rightarrow> string \<Rightarrow> ('e, sample_result) result) \<times> string list option"

fun StartRefreshing :: "string list \<Rightarrow> ground_registry \<Rightarrow> 'e ground_round list \<Rightarrow> ground_registry" where
  "StartRefreshing runners reg [] = reg"
| "StartRefreshing runners reg ((run, listed) # rounds) =
     StartRefreshing runners (refreshAll (tenant_runner runners run) listed reg) rounds"

section \<open>The statements\<close>

text \<open>The copy of \<open>quoteLiteral\<close> in this package is in step with the one of the query executor.\<close>

lemma grounding_quoteLiteral_eq: "grounding_quoteLiteral s = quoteLiteral s"
proof -
  have "foldl (\<lambda>sb r. if r = backslash then sb @ [backslash, backslash]
            else if r = quote then sb @ [backslash, quote] else sb @ [r]) sb s
     = sb @ concat (map (\<lambda>r. if r = backslash then [backslash, backslash]
     else if r = quote then [backslash, quote] else [r]) s)" for sb
    by (induction s arbitrary: sb) simp_all
  then show ?thesis by (simp add: grounding_quoteLiteral_def quoteLiteral_def Let_def)
qed

definition attribute_toks :: "string \<Rightarrow> sql_tok list" where
  "attribute_toks f = plain ''attributes['' @ [Lit f] @ plain '']''"

definition examples_toks :: "sql_tok list \<Rightarrow> sql_tok list" where
  "examples_toks col = plain ''SELECT DISTINCT '' @ col
     @ plain ('' AS v FROM logs WHERE timestamp > now() - INTERVAL '' @ itoa_int window_seconds @ '' SECOND AND '')
     @ col @ plain '' != '' @ [Lit []] @ plain ('' LIMIT '' @ itoa perFieldQueryLimit)"

lemma safe_itoa_nat [simp]: "safe (itoa n)"
  using safe_itoa [of "int n"] by (simp add: itoa_int_def del: safe_itoa)

text \<open>Whatever characters an ingested attribute name contains, the statement that samples it reads
  back as the fixed text with that name as one string literal, twice.\<close>

lemma fieldExamplesSQL_tokens:
  "scan_sql InPlain (fieldExamplesSQL field False) = examples_toks (attribute_toks field)"
proof -
  have "unparse (examples_toks (attribute_toks field)) = fieldExamplesSQL field False"
    by (simp add: examples_toks_def attribute_toks_def fieldExamplesSQL_def sample_column_def grounding_quoteLiteral_eq Let_def
        quoteLiteral_def [of "[]"])
  moreover have "separated (examples_toks (attribute_toks field))"
    by (simp add: examples_toks_def attribute_toks_def quote_def backtick_def)
  ultimately show ?thesis using scan_unparse by metis
qed

section \<open>Snapshots\<close>

text \<open>Services and examples are non-empty names and no field has more than twenty examples.\<close>

definition schema_ok :: "schema_context \<Rightarrow> bool" where
  "schema_ok sc = ([] \<notin> set (sc_Services sc)
     \<and> list_all (\<lambda>f. length (fi_Examples f) \<le> maxExamplesPerField \<and> [] \<notin> set (fi_Examples f)) (sc_Fields sc))"

lemma firstColumnStrings_nonempty: "[] \<notin> set (firstColumnStrings res)"
proof -
  have "[] \<notin> set out \<Longrightarrow> [] \<notin> set (foldl (\<lambda>out row. case row of [] \<Rightarrow> out
        | v # _ \<Rightarrow> (case v of AnyString s \<Rightarrow> if s \<noteq> [] then out @ [s] else out | AnyOther \<Rightarrow> out)) out rows)" for out and rows :: "any_value list list"
    by (induction rows arbitrary: out) (auto split: list.split any_value.split)
  then show ?thesis by (auto simp: firstColumnStrings_def split: option.split)
qed

lemma sampleFieldExamples_ok:
  assumes "sampleFieldExamples run field b = (es, ok)"
  shows "length es \<le> maxExamplesPerField \<and> [] \<notin> set es \<and> (ok \<longleftrightarrow> es \<noteq> [])"
  using assms firstColumnStrings_nonempty
  by (auto simp: sampleFieldExamples_def Let_def split: sum.splits if_splits)

lemma enumExamples_dom:
  assumes "enumExamples run keys key = Some es"
  shows "key \<in> set keys \<and> length es \<le> maxExamplesPerField \<and> [] \<notin> set es"
proof -
  have "foldl (\<lambda>m key. case sampleFieldExamples run key False of (examples, ok) \<Rightarrow>
     if ok then m(key \<mapsto> examples) else m) m keys key = Some es \<Longrightarrow> m key \<noteq> Some es \<Longrightarrow>
     key \<in> set keys \<and> length es \<le> maxExamplesPerField \<and> [] \<notin> set es" for m
  proof (induction keys arbitrary: m)
    case (Cons k keys)
    obtain ex ok where ex: "sampleFieldExamples run k False = (ex, ok)" by fastforce
    show ?case
    proof (cases "(if ok then m(k \<mapsto> ex) else m) key = Some es")
      case True
      then have "k = key" "ex = es" using Cons.prems(2) by (auto split: if_splits)
      with sampleFieldExamples_ok [OF ex] show ?thesis by simp
    next
      case False
      with Cons.IH [of "if ok then m(k \<mapsto> ex) else m"] Cons.prems(1) ex show ?thesis by simp
    qed
  qed simp
  from this [of Map.empty] assms show ?thesis by (simp add: enumExamples_def)
qed

lemma Refresh_error: "fst (Refresh run snapshot) = Some e \<Longrightarrow> snd (Refresh run snapshot) = snapshot"
  by (auto simp: Refresh_def Let_def split: sum.splits)

text \<open>A snapshot lists the six fixed columns, then the sampled attribute keys in their order, and only
  fixed columns and the first fifteen keys carry examples.\<close>

lemma Refresh_fields:
  assumes "fst (Refresh run snapshot) = None"
  shows "\<exists>keys. sampleAttributeKeys run = Inr keys
    \<and> map fi_Name (sc_Fields (snd (Refresh run snapshot))) = staticFields @ keys
    \<and> list_all (\<lambda>f. fi_Examples f \<noteq> [] \<longrightarrow> fi_Name f \<in> set staticFields \<union> set (take maxEnumCandidateKeys keys))
        (sc_Fields (snd (Refresh run snapshot)))"
proof -
  from assms obtain services keys where sk: "sampleServices run = Inr services" "sampleAttributeKeys run = Inr keys"
    by (auto simp: Refresh_def Let_def split: sum.splits)
  have "(if length keys > maxEnumCandidateKeys then take maxEnumCandidateKeys keys else keys) = take maxEnumCandidateKeys keys" by simp
  then show ?thesis
    using sk enumExamples_dom [of run "take maxEnumCandidateKeys keys"]
    by (auto simp: Refresh_def Let_def list_all_iff comp_def split: option.splits)
qed

lemma Refresh_ok:
  assumes "schema_ok snapshot"
  shows "schema_ok (snd (Refresh run snapshot))"
proof (cases "fst (Refresh run snapshot)")
  case (Some e)
  then show ?thesis using Refresh_error assms by metis
next
  case None
  then obtain services keys where sk: "sampleServices run = Inr services" "sampleAttributeKeys run = Inr keys"
    by (auto simp: Refresh_def Let_def split: sum.splits)
  then have "[] \<notin> set services" using firstColumnStrings_nonempty by (auto simp: sampleServices_def result_simps)
  with sk show ?thesis
    using sampleFieldExamples_ok [OF prod.collapse [symmetric], of run]
    by (auto simp: Refresh_def Let_def schema_ok_def list_all_iff split: option.splits dest: enumExamples_dom enumExamples_dom [OF sym])
qed

section \<open>One tenant's view\<close>

text \<open>One refresh of a tenant, on its own snapshot and its own data.\<close>

definition own_refresh :: "(string \<Rightarrow> ('e, sample_result) result) \<Rightarrow> schema_context option \<Rightarrow> schema_context option" where
  "own_refresh run snapshot = Some (snd (Refresh run (case snapshot of None \<Rightarrow> zero_schema | Some s \<Rightarrow> s)))"

lemma refreshTenants_own:
  "refreshTenants runner reg ts T = (own_refresh (runner (tenantCtx T)) ^^ count_list ts T) (reg T)"
proof (induction ts arbitrary: reg)
  case (Cons t ts)
  obtain reg' svc where s: "serviceFor reg t = (reg', svc)" by fastforce
  then have svc: "svc = (case reg t of None \<Rightarrow> zero_schema | Some s \<Rightarrow> s)" "reg' T = (if t = T then Some svc else reg T)"
    by (auto simp: serviceFor_def split: option.splits)
  note IH = Cons.IH [of "reg'(t \<mapsto> snd (Refresh (runner (tenantCtx t)) svc))"]
  show ?case
  proof (cases "t = T")
    case True
    then have "(reg'(t \<mapsto> snd (Refresh (runner (tenantCtx t)) svc))) T = own_refresh (runner (tenantCtx T)) (reg T)"
      using svc by (simp add: own_refresh_def)
    with IH True s show ?thesis by (simp add: funpow_swap1 del: fun_upd_apply)
  next
    case False
    then have "(reg'(t \<mapsto> snd (Refresh (runner (tenantCtx t)) svc))) T = reg T" using svc(2) by simp
    with IH False s show ?thesis by (simp del: fun_upd_apply)
  qed
qed simp

text \<open>What a round holds for tenant \<open>T\<close>: its own data and how often it was listed.\<close>

definition round_view :: "string \<Rightarrow> 'e ground_round \<Rightarrow> (string \<Rightarrow> ('e, sample_result) result) \<times> nat" where
  "round_view T = (\<lambda>(run, listed). (run T, case listed of None \<Rightarrow> 0 | Some ts \<Rightarrow> count_list ts T))"

lemma tenant_runner_own:
  assumes "run T = run' T" "T \<in> set runners \<longleftrightarrow> T \<in> set runners'"
  shows "tenant_runner runners run (tenantCtx T) = tenant_runner runners' run' (tenantCtx T)"
  using assms by (auto simp: fun_eq_iff tenant_runner_def chrunner_RunSQL_def tenantCtx_def)

lemma StartRefreshing_own:
  assumes "map (round_view T) rounds = map (round_view T) rounds'" "reg T = reg' T"
    and "T \<in> set runners \<longleftrightarrow> T \<in> set runners'"
  shows "StartRefreshing runners reg rounds T = StartRefreshing runners' reg' rounds' T"
  using assms(1,2)
proof (induction rounds arbitrary: rounds' reg reg')
  case (Cons rd rounds)
  from Cons.prems(1) obtain rd' rest' where r': "rounds' = rd' # rest'" "round_view T rd = round_view T rd'"
      "map (round_view T) rounds = map (round_view T) rest'"
    by (auto simp: Cons_eq_map_conv)
  obtain run listed run' listed' where rd: "rd = (run, listed)" "rd' = (run', listed')" by fastforce
  have own: "tenant_runner runners run (tenantCtx T) = tenant_runner runners' run' (tenantCtx T)"
    by (rule tenant_runner_own [OF _ assms(3)]) (use r'(2) rd in \<open>simp add: round_view_def\<close>)
  have "refreshAll (tenant_runner runners run) listed reg T = refreshAll (tenant_runner runners' run') listed' reg' T"
    using r'(2) rd Cons.prems(2) own
    by (cases listed; cases listed') (simp_all add: round_view_def refreshAll_def refreshTenants_own)
  with Cons.IH [of rest' "refreshAll (tenant_runner runners run) listed reg"] r'(3) show ?case by (simp add: rd r'(1))
qed simp

text \<open>Of the six fixed columns only \<open>severity\<close> is sampled as a column: the examples listed for \<open>host\<close> or \<open>service\<close>
  are those of the attribute of that name, while a query on the field reads the column.\<close>

lemma static_field_sampled_as_attribute:
  assumes "name \<in> set staticFields" "name \<noteq> ''severity''"
  shows "sample_column name (name = ''severity'') = ''attributes['' @ quoteLiteral name @ '']'' \<and> columnExpr name = quoteIdent name"
  using assms by (auto simp: staticFields_def sample_column_def grounding_quoteLiteral_eq columnExpr_def is_top_def topLevelFields_def)

end
