(* ===== verification/Ai_Provider.thy ===== *)
theory Ai_Provider
  imports Ai_Grounding
begin

text \<open>
  The provider interface of \<open>api/ai/provider\<close>, the dispatch of \<open>api/ai/router\<close> and the Ollama client of
  \<open>api/ai/provider/ollama\<close> with its prompts. A provider is a record of its four operations. The client's HTTP
  exchange is the argument \<open>post\<close>, from the URL and the request body to what came back, and
  \<open>json.Unmarshal\<close> is \<open>unmarshal\<close>, from the string fields of the target and the text to the fields'
  values, empty where the object has none, or \<open>None\<close> if it fails. Letter case is folded for ASCII letters.
\<close>

section \<open>The interface\<close>

type_synonym confidence = string

definition ConfidenceHigh :: confidence where "ConfidenceHigh = ''high''"
definition ConfidenceMedium :: confidence where "ConfidenceMedium = ''medium''"
definition ConfidenceLow :: confidence where "ConfidenceLow = ''low''"

record translate_request =
  tr_NLQuery :: string
  tr_Schema :: schema_context

record translate_result =
  tl_Query :: string
  tl_Confidence :: confidence
  tl_LowConfidenceReason :: string

record complete_request =
  co_QueryPrefix :: string
  co_Language :: string
  co_Schema :: schema_context

record complete_result =
  cp_Suggestion :: string

record explain_request =
  ex_Query :: string
  ex_Language :: string
  ex_OriginalIntent :: string
  ex_RuleFindings :: "string list"

record explain_result =
  el_Explanation :: string

record fix_request =
  fx_Query :: string
  fx_Language :: string
  fx_ParseError :: string
  fx_ExecutionError :: string
  fx_Schema :: schema_context

record fix_result =
  fr_SuggestedQuery :: string
  fr_Explanation :: string
  fr_Confidence :: confidence

record 'e provider =
  pv_Translate :: "translate_request \<Rightarrow> ('e, translate_result) result"
  pv_Complete :: "complete_request \<Rightarrow> ('e, complete_result) result"
  pv_Explain :: "explain_request \<Rightarrow> ('e, explain_result) result"
  pv_Fix :: "fix_request \<Rightarrow> ('e, fix_result) result"

section \<open>The router\<close>

datatype ai_operation = OpTranslate | OpComplete | OpExplain | OpFix

record 'p router =
  rt_byOp :: "ai_operation \<rightharpoonup> 'p"
  rt_fallback :: 'p

definition router_New :: "'p \<Rightarrow> 'p router" where
  "router_New fallback = \<lparr>rt_byOp = Map.empty, rt_fallback = fallback\<rparr>"

definition SetOperation :: "'p router \<Rightarrow> ai_operation \<Rightarrow> 'p \<Rightarrow> 'p router" where
  "SetOperation r op p = r\<lparr>rt_byOp := (rt_byOp r)(op \<mapsto> p)\<rparr>"

definition router_For :: "'p router \<Rightarrow> ai_operation \<Rightarrow> 'p" where
  "router_For r op = (case rt_byOp r op of Some p \<Rightarrow> p | None \<Rightarrow> rt_fallback r)"

section \<open>Prompts\<close>

definition newline :: string where "newline = [CHR 0x0A]"

definition text_lines :: "string list \<Rightarrow> string" where
  "text_lines = join newline"

definition renderField :: "field_info \<Rightarrow> string" where
  "renderField f = (if length (fi_Examples f) > 0
     then ''  - '' @ fi_Name f @ '' (examples: '' @ join '', '' (fi_Examples f) @ '')'' @ newline
     else ''  - '' @ fi_Name f @ newline)"

definition renderSchema :: "schema_context \<Rightarrow> string" where
  "renderSchema s = (if length (sc_Services s) = 0 \<and> length (sc_Fields s) = 0
     then ''(no schema grounding data available yet)''
     else (if length (sc_Services s) > 0 then ''Known services: '' @ join '', '' (sc_Services s) @ newline else [])
       @ (if length (sc_Fields s) > 0 then ''Known fields:'' @ newline @ concat (map renderField (sc_Fields s)) else []))"

definition grammarReference :: string where
  \<open>grammarReference = text_lines [
    ''Cairn OBS query language (pipe syntax):'',
    [],
    ''<base search> | <stage> | <stage> | ...'',
    [],
    ''Base search: filter terms and/or free-text search, combined with implicit "and".'',
    ''  field=value, field!=value, field>value, field>=value, field<value, field<=value'',
    ''  bare word or "quoted phrase" -- free-text search on the message field'',
    ''  message:"phrase" -- explicit free-text search'',
    ''  earliest=-1h, latest=-5m -- relative time (s/m/h/d/w units), or earliest="2026-08-14T00:00:00Z" (RFC 3339 absolute)'',
    ''  "or" only works between free-text terms, never between structured filters'',
    [],
    ''Pipe stages, in the order they may appear:'',
    ''  | where <filter terms>              additional filtering, same syntax as base search filters'',
    ''  | stats <func>(<field>) as <alias>, ... by <field>, ...'',
    ''        functions: count (no field needed), sum, avg, min, max (all need a field)'',
    ''  | sort -field, +field, ...          "-" descending (default if no sign), "+" ascending'',
    ''  | fields field, field, ...          choose output columns'',
    ''  | head N                            first N results (default 100)'',
    ''  | tail N                            last N results, chronologically'',
    [],
    ''Structured columns: timestamp, host, service, severity, message, record_id.'',
    ''Anything else is looked up in per-record attributes (always text; compared'',
    ''numerically when the right-hand side looks like a number).'',
    [],
    ''Raw SQL (SELECT ...) is also accepted but pipe syntax is strongly preferred'',
    ''for anything generated rather than hand-written -- narrower, safer surface.'']\<close>

definition translateSystemPrompt :: "schema_context \<Rightarrow> string" where
  \<open>translateSystemPrompt schema = text_lines ([
    ''You translate a plain-English question into a Cairn OBS pipe-syntax query. You never explain, never execute anything, never write raw SQL unless the pipe syntax genuinely cannot express the request.'',
    [],
    grammarReference, [], renderSchema schema, [],
    ''Respond with ONLY a JSON object, no other text, no markdown fences:'',
    ''{"query": "<the pipe-syntax query>", "confidence": "high"|"medium"|"low", "reason": "<empty unless confidence is low, in which case explain what's ambiguous or unsupported>"}'',
    [],
    ''If you cannot produce a query you're reasonably confident in, set confidence to "low", leave query empty, and explain why in reason. Never guess with false confidence.''])\<close>

definition completeSystemPrompt :: "schema_context \<Rightarrow> string" where
  \<open>completeSystemPrompt schema = text_lines ([
    ''You suggest how to continue a partially-typed Cairn OBS query. You are given everything typed so far; respond with ONLY the suggested continuation text (what should appear after the cursor), not the text already typed, not an explanation.'',
    [],
    grammarReference, [], renderSchema schema, [],
    ''Respond with ONLY a JSON object, no other text, no markdown fences:'',
    ''{"suggestion": "<continuation text, or empty string if you have no good suggestion>"}''])\<close>

definition fixSystemPrompt :: "schema_context \<Rightarrow> string" where
  \<open>fixSystemPrompt schema = text_lines ([
    ''You fix a broken Cairn OBS query given its error message. Produce a corrected query and a short explanation of what was wrong.'',
    [],
    grammarReference, [], renderSchema schema, [],
    ''Respond with ONLY a JSON object, no other text, no markdown fences:'',
    ''{"suggested_query": "<corrected query>", "explanation": "<short explanation of what was wrong and what changed>", "confidence": "high"|"medium"|"low"}'',
    [],
    ''If you cannot determine a fix, set confidence to "low" and suggested_query to an empty string.''])\<close>

definition explainSystemPrompt :: "bool \<Rightarrow> bool \<Rightarrow> string" where
  \<open>explainSystemPrompt hasIntent hasFindings = (if hasFindings then text_lines [
    ''A rule-based check already found one or more real issues with a Cairn OBS query's efficiency (e.g. a missing time range). Your only job is to phrase those findings as a short, clear, actionable suggestion for the person who wrote the query -- do not invent additional issues, do not restate the query's own syntax back at them, do not hedge with "might" or "could" about something the check already confirmed. One or two sentences.'', [], grammarReference]
   else let base = text_lines [
    ''You explain what a Cairn OBS query does in plain English, for someone who may not know the query language. Be concise -- two or three sentences, not a line-by-line breakdown unless the query is unusually complex.'', [], grammarReference]
   in if hasIntent then base @ text_lines [[], [],
    ''You are explaining a query that was just generated from a natural-language request. Focus on how the request became this query -- call out any interpretation choices (e.g. how a vague time phrase or field reference was resolved), not just what the query does in isolation.'']
   else base)\<close>

section \<open>The Ollama client\<close>

record ollama_client =
  oc_baseURL :: string
  oc_model :: string

definition ollama_New :: "string \<Rightarrow> string \<Rightarrow> ollama_client" where
  "ollama_New baseURL model = (let baseURL = (if baseURL = [] then ''http://localhost:11434'' else baseURL) in
     \<lparr>oc_baseURL = TrimSuffix baseURL ''/'', oc_model = model\<rparr>)"

record chat_message =
  cm_Role :: string
  cm_Content :: string

record chat_request =
  cr_Model :: string
  cr_Messages :: "chat_message list"
  cr_Stream :: bool
  cr_Format :: string

text \<open>An answer carries its status, the \<open>error\<close> field of its body, empty if there is none, and the message
  content, \<open>None\<close> if the body does not decode.\<close>

datatype chat_outcome = BuildFails | CallFails | Answer int string "string option"

datatype ollama_error = BuildingRequest | Calling | RequestFailed int string | RequestStatus int | DecodingResponse
  | ParsingTranslate | ParsingComplete | ParsingFix

definition chat :: "(string \<Rightarrow> chat_request \<Rightarrow> chat_outcome) \<Rightarrow> ollama_client \<Rightarrow> string \<Rightarrow> string \<Rightarrow> bool \<Rightarrow> (ollama_error, string) result" where
  "chat post c system user jsonMode =
    (let req = \<lparr>cr_Model = oc_model c, cr_Messages = [\<lparr>cm_Role = ''system'', cm_Content = system\<rparr>,
           \<lparr>cm_Role = ''user'', cm_Content = user\<rparr>], cr_Stream = False, cr_Format = []\<rparr>;
       req = (if jsonMode then req\<lparr>cr_Format := ''json''\<rparr> else req) in
     case post (oc_baseURL c @ ''/api/chat'') req of
       BuildFails \<Rightarrow> Inl BuildingRequest
     | CallFails \<Rightarrow> Inl Calling
     | Answer status err content \<Rightarrow>
       if status \<noteq> 200 then (if err \<noteq> [] then Inl (RequestFailed status err) else Inl (RequestStatus status))
       else (case content of None \<Rightarrow> Inl DecodingResponse | Some s \<Rightarrow> Inr s))"

definition TrimPrefix :: "string \<Rightarrow> string \<Rightarrow> string" where
  "TrimPrefix s pre = (if take (length pre) s = pre then drop (length pre) s else s)"

definition fence :: string where "fence = [backtick, backtick, backtick]"

definition stripCodeFence :: "string \<Rightarrow> string" where
  "stripCodeFence s = (let s = TrimSpace s in
     if take (length fence) s \<noteq> fence then s
     else let s = TrimPrefix s (fence @ ''json''); s = TrimPrefix s fence; s = TrimSuffix s fence in TrimSpace s)"

definition parseConfidence :: "string \<Rightarrow> confidence" where
  "parseConfidence s = (let s = map to_lower (TrimSpace s) in
     if s = ''high'' then ConfidenceHigh else if s = ''medium'' then ConfidenceMedium else ConfidenceLow)"

type_synonym unmarshal = "string list \<Rightarrow> string \<Rightarrow> (string \<Rightarrow> string) option"

definition Translate :: "(string \<Rightarrow> chat_request \<Rightarrow> chat_outcome) \<Rightarrow> unmarshal \<Rightarrow> ollama_client \<Rightarrow> translate_request
    \<Rightarrow> (ollama_error, translate_result) result" where
  "Translate post unmarshal c req = bindE (chat post c (translateSystemPrompt (tr_Schema req)) (tr_NLQuery req) True) (\<lambda>raw.
     case unmarshal [''query'', ''confidence'', ''reason''] (stripCodeFence raw) of None \<Rightarrow> Inl ParsingTranslate
     | Some parsed \<Rightarrow> Inr \<lparr>tl_Query = parsed ''query'', tl_Confidence = parseConfidence (parsed ''confidence''),
         tl_LowConfidenceReason = parsed ''reason''\<rparr>)"

definition Complete :: "(string \<Rightarrow> chat_request \<Rightarrow> chat_outcome) \<Rightarrow> unmarshal \<Rightarrow> ollama_client \<Rightarrow> complete_request
    \<Rightarrow> (ollama_error, complete_result) result" where
  "Complete post unmarshal c req = bindE (chat post c (completeSystemPrompt (co_Schema req)) (co_QueryPrefix req) True) (\<lambda>raw.
     case unmarshal [''suggestion''] (stripCodeFence raw) of None \<Rightarrow> Inl ParsingComplete
     | Some parsed \<Rightarrow> Inr \<lparr>cp_Suggestion = parsed ''suggestion''\<rparr>)"

definition Explain :: "(string \<Rightarrow> chat_request \<Rightarrow> chat_outcome) \<Rightarrow> ollama_client \<Rightarrow> explain_request
    \<Rightarrow> (ollama_error, explain_result) result" where
  "Explain post c req =
    (let user = (if length (ex_RuleFindings req) > 0
         then ''Query: '' @ ex_Query req @ newline @ ''Findings: '' @ join ''; '' (ex_RuleFindings req)
       else if ex_OriginalIntent req \<noteq> []
         then ''Original request: '' @ go_quote (ex_OriginalIntent req) @ newline @ ''Generated query: '' @ ex_Query req
       else ex_Query req) in
     bindE (chat post c (explainSystemPrompt (ex_OriginalIntent req \<noteq> []) (length (ex_RuleFindings req) > 0)) user False) (\<lambda>raw.
       Inr \<lparr>el_Explanation = TrimSpace raw\<rparr>))"

definition Fix :: "(string \<Rightarrow> chat_request \<Rightarrow> chat_outcome) \<Rightarrow> unmarshal \<Rightarrow> ollama_client \<Rightarrow> fix_request
    \<Rightarrow> (ollama_error, fix_result) result" where
  "Fix post unmarshal c req =
    (let errText = (if fx_ParseError req = [] then fx_ExecutionError req else fx_ParseError req);
       user = ''Query: '' @ fx_Query req @ newline @ ''Error: '' @ errText in
     bindE (chat post c (fixSystemPrompt (fx_Schema req)) user True) (\<lambda>raw.
       case unmarshal [''suggested_query'', ''explanation'', ''confidence''] (stripCodeFence raw) of None \<Rightarrow> Inl ParsingFix
       | Some parsed \<Rightarrow> Inr \<lparr>fr_SuggestedQuery = parsed ''suggested_query'', fr_Explanation = parsed ''explanation'',
           fr_Confidence = parseConfidence (parsed ''confidence'')\<rparr>))"

definition ollama_provider :: "(string \<Rightarrow> chat_request \<Rightarrow> chat_outcome) \<Rightarrow> unmarshal \<Rightarrow> ollama_client \<Rightarrow> ollama_error provider" where
  "ollama_provider post unmarshal c = \<lparr>pv_Translate = Translate post unmarshal c, pv_Complete = Complete post unmarshal c,
     pv_Explain = Explain post c, pv_Fix = Fix post unmarshal c\<rparr>"

section \<open>Lemmas\<close>

lemma router_For_set: "router_For (SetOperation r op p) op' = (if op' = op then p else router_For r op')"
  by (simp add: router_For_def SetOperation_def split: option.split)

text \<open>An answer without a recognised confidence counts as low, and no other value leaves the client.\<close>

lemma confidence_cautious:
  "fr_Confidence (projr (Fix post unmarshal c req)) \<in> {ConfidenceHigh, ConfidenceMedium, ConfidenceLow}" if "is_ok (Fix post unmarshal c req)"
  using that by (auto simp: Fix_def Let_def parseConfidence_def is_ok_def result_simps split: sum.splits option.splits)

end
