(* ===== verification/Token_Stream.thy ===== *)
theory Token_Stream
  imports Query_Meaning
begin

text \<open>
  The parser reads nothing but its tokens: two states that show the same kinds and values, wherever in
  their inputs they stand, give the same tree or both fail, and leave states that show the same again.
  With it, text put in front of a query can be followed through the parser: the time bound that
  \<open>aiapi\<close> prepends becomes one more term of the base search.
\<close>

declare advance_sel [simp del]

section \<open>Agreement\<close>

definition agree :: "'a parse \<Rightarrow> 'a parse \<Rightarrow> bool" where
  "agree r r' = (case r of Inl _ \<Rightarrow> \<not> is_ok r' | Inr (x, q) \<Rightarrow> (\<exists>q'. r' = Inr (x, q') \<and> p_toks q' = p_toks q))"

text \<open>\<open>follows f\<close>: the method \<open>f\<close> depends on the tokens only.\<close>

definition follows :: "(parser \<Rightarrow> 'a parse) \<Rightarrow> bool" where
  "follows f = (\<forall>p p'. p_toks p' = p_toks p \<longrightarrow> agree (f p) (f p'))"

lemma agree_simps [simp]:
  "agree (Inl e) (Inl e')"
  "agree (Inr (x, q)) (Inr (x', q')) \<longleftrightarrow> x = x' \<and> p_toks q' = p_toks q"
  by (auto simp: agree_def is_ok_def)

lemma followsD: "follows f \<Longrightarrow> p_toks p' = p_toks p \<Longrightarrow> agree (f p) (f p')"
  by (simp add: follows_def)

lemma agree_bind:
  assumes "agree r r'" "\<And>x q q'. r = Inr (x, q) \<Longrightarrow> p_toks q' = p_toks q \<Longrightarrow> agree (g x q) (g x q')"
  shows "agree (bindE r (\<lambda>(x, p). g x p)) (bindE r' (\<lambda>(x, p). g x p))"
proof (cases r)
  case (Inl e)
  with assms(1) show ?thesis by (cases r') (auto simp: agree_def is_ok_def)
next
  case (Inr y)
  with assms show ?thesis by (cases y) (auto simp: agree_def [of "Inr _" r'])
qed

lemma follows_bind:
  assumes "follows f" "\<And>x. follows (g x)"
  shows "follows (\<lambda>p. bindE (f p) (\<lambda>(x, p). g x p))"
  using assms by (auto simp: follows_def intro!: agree_bind)

lemma follows_pure: "follows (\<lambda>p. Inr (x, p))"
  by (simp add: follows_def)

lemma same_kind: "p_toks p' = p_toks p \<Longrightarrow> Kind (p_cur p') = Kind (p_cur p)"
  by (simp add: p_toks_view(1))

lemma same_view:
  assumes "p_toks p' = p_toks p" "Kind (p_cur p) \<noteq> EOF"
  shows "Value (p_cur p') = Value (p_cur p)" "p_toks (advance p') = p_toks (advance p)"
    "Kind (p_next p') = Kind (p_next p)"
proof -
  have "p_toks p \<noteq> []" using assms(2) by (auto simp: p_toks_view(1))
  with assms(1) show "Value (p_cur p') = Value (p_cur p)" "p_toks (advance p') = p_toks (advance p)"
    "Kind (p_next p') = Kind (p_next p)"
    by (simp_all add: p_toks_view)
qed

lemma agree_expect:
  assumes "p_toks p' = p_toks p" "k \<noteq> EOF"
    and "\<And>q q'. p_toks q' = p_toks q \<Longrightarrow> agree (g q) (g q')"
  shows "agree (bindE (expect k p) g) (bindE (expect k p') g)"
  using assms same_view [OF assms(1)] by (auto simp: expect_def same_kind [OF assms(1)])

section \<open>The methods of the parser\<close>

text \<open>The time expression after its sign.\<close>

definition time_number :: "int \<Rightarrow> parser \<Rightarrow> time_expr parse" where
  "time_number sg p = (if Kind (p_cur p) \<noteq> Number then Inl (errorf p (ExpectedTime (p_cur p)))
       else case atoi (Value (p_cur p)) of
         None \<Rightarrow> Inl (errorf p (InvalidTimeNumber (Value (p_cur p))))
       | Some n \<Rightarrow> (let p = advance p in
           if Kind (p_cur p) \<noteq> Ident \<or> \<not> isValidTimeUnit (Value (p_cur p))
           then Inl (errorf p (ExpectedTimeUnit n (p_cur p)))
           else Inr (relative_time sg (int n) (Value (p_cur p)), advance p)))"

lemma parseTimeExpr_alt:
  "parseTimeExpr p = (if Kind (p_cur p) = String then Inr (absolute_time (Value (p_cur p)), advance p)
     else if Kind (p_cur p) = Minus then time_number (-1) (advance p)
     else if Kind (p_cur p) = Plus then time_number 1 (advance p) else time_number 1 p)"
  by (simp add: parseTimeExpr_def time_number_def)

lemma time_number_follows: "follows (time_number sg)"
  unfolding follows_def
proof (intro allI impI)
  fix p p' assume p: "p_toks p' = p_toks p"
  show "agree (time_number sg p) (time_number sg p')"
  proof (cases "Kind (p_cur p) = Number")
    case True
    note v = same_view [OF p, unfolded True, simplified]
    note k = same_kind [OF v(2)]
    show ?thesis
    proof (cases "Kind (p_cur (advance p)) = Ident")
      case Id: True
      note u = same_view [OF v(2), unfolded Id, simplified]
      show ?thesis by (cases "atoi (Value (p_cur p))") (simp_all add: time_number_def True same_kind [OF p] Let_def v u k Id)
    next
      case False
      then show ?thesis by (cases "atoi (Value (p_cur p))") (simp_all add: time_number_def True same_kind [OF p] Let_def v k)
    qed
  next
    case False
    then show ?thesis by (simp add: time_number_def same_kind [OF p])
  qed
qed

lemma parseTimeExpr_follows: "follows parseTimeExpr"
  unfolding follows_def
proof (intro allI impI)
  fix p p' assume p: "p_toks p' = p_toks p"
  show "agree (parseTimeExpr p) (parseTimeExpr p')"
    using same_view [OF p] followsD [OF time_number_follows, of p' p] followsD [OF time_number_follows, of "advance p'" "advance p"] p
    by (simp add: parseTimeExpr_alt same_kind [OF p])
qed

lemma parseTerm_follows: "follows parseTerm"
  unfolding follows_def
proof (intro allI impI)
  fix p p' assume p: "p_toks p' = p_toks p"
  have val: "agree (bindE (parseValue q) (\<lambda>(v, p). Inr (Comparison f op v, p))) (bindE (parseValue q') (\<lambda>(v, p). Inr (Comparison f op v, p)))"
    if "p_toks q' = p_toks q" for q q' f op
    using same_view [OF that] by (auto simp: parseValue_def same_kind [OF that])
  show "agree (parseTerm p) (parseTerm p')"
  proof (cases "Kind (p_cur p) = Ident")
    case True
    note v = same_view [OF p, unfolded True, simplified]
    have "agree (parseTimeBound p) (parseTimeBound p')"
      unfolding parseTimeBound_def Let_def v(1)
      by (rule agree_expect [OF v(2)], simp, rule agree_bind [OF followsD [OF parseTimeExpr_follows]]) simp_all
    moreover have "agree (parseExplicitFreeText p) (parseExplicitFreeText p')"
      unfolding parseExplicitFreeText_def
    proof (rule agree_expect [OF v(2)], simp)
      fix q q' assume q: "p_toks q' = p_toks q"
      show "agree (if Kind (p_cur q) \<noteq> String then Inl (errorf q (ExpectedQuoted (p_cur q))) else Inr (FreeText (Value (p_cur q)), advance q))
        (if Kind (p_cur q') \<noteq> String then Inl (errorf q' (ExpectedQuoted (p_cur q'))) else Inr (FreeText (Value (p_cur q')), advance q'))"
        using same_view [OF q] by (simp add: same_kind [OF q])
    qed
    moreover have "agree (parseComparison p) (parseComparison p')"
      unfolding parseComparison_def Let_def v(1)
    proof (rule agree_bind)
      show "agree (parseComparator (advance p)) (parseComparator (advance p'))"
        using same_view [OF v(2)] by (auto simp: parseComparator_def isComparatorStart_def same_kind [OF v(2)])
    qed (rule val)
    ultimately show ?thesis using True v same_kind [OF p] by (simp add: parseTerm_def)
  next
    case False
    then show ?thesis using same_view [OF p] by (auto simp: parseTerm_def same_kind [OF p] split: kind.splits)
  qed
qed

lemma parseBoolExpr_loop_follows: "follows (parseBoolExpr_loop e)"
proof -
  have "p_toks p' = p_toks p \<Longrightarrow> agree (parseBoolExpr_loop e p) (parseBoolExpr_loop e p')" for p p'
  proof (induction e p arbitrary: p' rule: parseBoolExpr_loop.induct)
    case (1 e p)
    note k = same_kind [OF 1(3)]
    note v = same_view [OF 1(3)]
    let ?conj = "Kind (p_cur p) = Ident \<and> (Value (p_cur p) = ''and'' \<or> Value (p_cur p) = ''or'')"
    have c: "(Kind (p_cur p') = Ident \<and> (Value (p_cur p') = ''and'' \<or> Value (p_cur p') = ''or'')) = ?conj"
      "canStartTerm p' = canStartTerm p"
      using v(1) by (auto simp: k canStartTerm_def)
    show ?case
    proof (cases ?conj)
      case True
      then have "agree (parseTerm (advance p)) (parseTerm (advance p'))"
        using v(2) by (intro followsD [OF parseTerm_follows]) simp
      from agree_bind [OF this 1(1) [OF True refl _ refl]] show ?thesis
        using c True v(1) by (simp add: parseBoolExpr_loop.simps [of _ p] parseBoolExpr_loop.simps [of _ p'] Let_def)
    next
      case False
      show ?thesis
      proof (cases "canStartTerm p")
        case start: True
        from agree_bind [OF followsD [OF parseTerm_follows 1(3)] 1(2) [OF False start _ refl]] show ?thesis
          using c False start by (simp only: parseBoolExpr_loop.simps [of _ p] parseBoolExpr_loop.simps [of _ p'] if_False if_True)
      next
        case stop: False
        then show ?thesis using c False 1(3)
          by (simp only: parseBoolExpr_loop.simps [of _ p] parseBoolExpr_loop.simps [of _ p'] if_False agree_simps)
      qed
    qed
  qed
  then show ?thesis by (simp add: follows_def)
qed

lemma parseBoolExpr_follows: "follows parseBoolExpr"
  unfolding parseBoolExpr_def by (intro follows_bind parseTerm_follows parseBoolExpr_loop_follows)

text \<open>A method that starts by moving past a token follows the tokens where there is one to move past.\<close>

definition follows_after :: "(parser \<Rightarrow> 'a parse) \<Rightarrow> bool" where
  "follows_after f = (\<forall>p p'. p_toks p' = p_toks p \<longrightarrow> Kind (p_cur p) \<noteq> EOF \<longrightarrow> agree (f p) (f p'))"

lemma follows_afterI: "follows f \<Longrightarrow> follows_after (\<lambda>p. f (advance p))"
  unfolding follows_after_def by (intro allI impI, rule followsD, assumption, rule same_view(2))

lemma follows_afterD: "follows_after f \<Longrightarrow> p_toks p' = p_toks p \<Longrightarrow> Kind (p_cur p) \<noteq> EOF \<Longrightarrow> agree (f p) (f p')"
  by (simp add: follows_after_def)

lemma follows_after_bind:
  assumes "follows_after f" "\<And>x. follows (g x)"
  shows "follows_after (\<lambda>p. bindE (f p) (\<lambda>(x, p). g x p))"
  using assms by (auto simp: follows_after_def followsD intro!: agree_bind)

lemma parseFieldIdent_follows: "follows parseFieldIdent"
  unfolding follows_def
proof (intro allI impI)
  fix p p' assume p: "p_toks p' = p_toks p"
  from same_view [OF p] show "agree (parseFieldIdent p) (parseFieldIdent p')"
    by (cases "Kind (p_cur p) = Ident") (simp_all add: parseFieldIdent_def same_kind [OF p])
qed

definition sort_name :: "bool \<Rightarrow> parser \<Rightarrow> sort_field parse" where
  "sort_name d p = (if Kind (p_cur p) \<noteq> Ident then Inl (errorf p (ExpectedSortField (p_cur p)))
      else Inr (\<lparr>sf_Field = Value (p_cur p), Desc = d\<rparr>, advance p))"

lemma parseSortField_alt:
  "parseSortField p = (if Kind (p_cur p) = Minus then sort_name True (advance p)
     else if Kind (p_cur p) = Plus then sort_name False (advance p) else sort_name True p)"
  by (simp add: parseSortField_def sort_name_def)

lemma parseSortField_follows: "follows parseSortField"
  unfolding follows_def
proof (intro allI impI)
  fix p p' assume p: "p_toks p' = p_toks p"
  have name: "agree (sort_name d q) (sort_name d q')" if "p_toks q' = p_toks q" for q q' d
    using same_view [OF that]
    by (cases "Kind (p_cur q) = Ident") (simp_all add: sort_name_def same_kind [OF that])
  note v = same_view(2) [OF p]
  consider "Kind (p_cur p) = Minus" | "Kind (p_cur p) = Plus" | "Kind (p_cur p) \<noteq> Minus" "Kind (p_cur p) \<noteq> Plus" by blast
  then show "agree (parseSortField p) (parseSortField p')"
  proof cases
    case 1
    then show ?thesis using name [OF v] by (simp add: parseSortField_alt same_kind [OF p])
  next
    case 2
    then show ?thesis using name [OF v] by (simp add: parseSortField_alt same_kind [OF p])
  next
    case 3
    then show ?thesis using name [OF p] by (simp add: parseSortField_alt same_kind [OF p])
  qed
qed

lemma parseAggArg_follows: "follows parseAggArg"
  unfolding follows_def
proof (intro allI impI)
  fix p p' assume p: "p_toks p' = p_toks p"
  show "agree (parseAggArg p) (parseAggArg p')"
  proof (cases "Kind (p_cur p) = LParen")
    case True
    note v = same_view(2) [OF p, unfolded True, simplified]
    note w = same_view [OF v]
    have close: "agree (bindE (expect RParen q) (\<lambda>p. Inr (field, p))) (bindE (expect RParen q') (\<lambda>p. Inr (field, p)))"
      if "p_toks q' = p_toks q" for q q' field
      by (rule agree_expect [OF that]) simp_all
    show ?thesis
      using True w close [OF v, of "[]"] close [OF w(2)]
      by (cases "Kind (p_cur (advance p))") (simp_all add: parseAggArg_def Let_def same_kind [OF p] same_kind [OF v])
  next
    case False
    then show ?thesis using p by (simp add: parseAggArg_def same_kind [OF p])
  qed
qed

lemma parseAlias_follows: "follows parseAlias"
  unfolding follows_def
proof (intro allI impI)
  fix p p' assume p: "p_toks p' = p_toks p"
  show "agree (parseAlias p) (parseAlias p')"
  proof (cases "Kind (p_cur p) = Ident")
    case True
    note v = same_view [OF p, unfolded True, simplified]
    from same_view [OF v(2)] True v show ?thesis
      by (auto simp: parseAlias_def Let_def same_kind [OF p] same_kind [OF v(2)] p)
  next
    case False
    then show ?thesis using p by (simp add: parseAlias_def same_kind [OF p])
  qed
qed

lemma parseAggCall_follows: "follows parseAggCall"
  unfolding follows_def
proof (intro allI impI)
  fix p p' assume p: "p_toks p' = p_toks p"
  have "follows (\<lambda>p. bindE (parseAggArg p) (\<lambda>(field, p).
           bindE (parseAlias p) (\<lambda>(alias, p). Inr (\<lparr>Func = fn, Field = field, Alias = alias\<rparr>, p))))" for fn
    by (intro follows_bind parseAggArg_follows parseAlias_follows follows_pure)
  from follows_afterD [OF follows_afterI [OF this] p] same_view(1) [OF p]
  show "agree (parseAggCall p) (parseAggCall p')"
    by (simp add: parseAggCall_def Let_def same_kind [OF p])
qed

context comma_loop
begin

lemma loop_follows:
  assumes "follows item"
  shows "follows (loop xs)"
proof -
  have "p_toks p' = p_toks p \<Longrightarrow> agree (loop xs p) (loop xs p')" for p p'
  proof (induction "p_size p" arbitrary: p p' xs rule: less_induct)
    case less
    show ?case
    proof (cases "Kind (p_cur p) = Comma")
      case True
      note v = same_view(2) [OF less(2), unfolded True, simplified]
      have "agree (bindE (item (advance p)) (\<lambda>(x, p). loop (xs @ [x]) p)) (bindE (item (advance p')) (\<lambda>(x, p). loop (xs @ [x]) p))"
      proof (rule agree_bind [OF followsD [OF assms v]])
        fix x q q' assume x: "item (advance p) = Inr (x, q)" and q: "p_toks q' = p_toks q"
        have "p_size q < p_size p"
          using item_shrinks [OF x] advance_less [of p] True by simp
        from less(1) [OF this q] show "agree (loop (xs @ [x]) q) (loop (xs @ [x]) q')" .
      qed
      then show ?thesis
        by (subst loop_unfold, subst loop_unfold [of xs p']) (simp add: True same_kind [OF less(2)])
    next
      case False
      then show ?thesis
        by (subst loop_unfold, subst loop_unfold [of xs p']) (simp add: same_kind [OF less(2)] less(2))
    qed
  qed
  then show ?thesis by (simp add: follows_def)
qed

end

lemma parseBy_follows: "follows parseBy"
  unfolding follows_def
proof (intro allI impI)
  fix p p' assume p: "p_toks p' = p_toks p"
  have "follows (\<lambda>p. bindE (parseFieldIdent p) (\<lambda>(f, p). fieldIdents_loop [f] p))"
    by (intro follows_bind parseFieldIdent_follows field_list.loop_follows)
  from follows_afterD [OF follows_afterI [OF this] p] same_view(1) [OF p]
  show "agree (parseBy p) (parseBy p')"
    by (cases "Kind (p_cur p) = Ident") (simp_all add: parseBy_def same_kind [OF p] p)
qed

lemma head_tail_follows: "follows_after (parseHeadTailStage b)"
  unfolding follows_after_def
proof (intro allI impI)
  fix p p' assume p: "p_toks p' = p_toks p" "Kind (p_cur p) \<noteq> EOF"
  note v = same_view(2) [OF p]
  show "agree (parseHeadTailStage b p) (parseHeadTailStage b p')"
  proof (cases "Kind (p_cur (advance p)) = Number")
    case True
    note u = same_view [OF v, unfolded True, simplified]
    show ?thesis
      by (cases "atoi (Value (p_cur (advance p)))") (simp_all add: parseHeadTailStage_def Let_def True same_kind [OF v] u)
  next
    case False
    then show ?thesis by (simp add: parseHeadTailStage_def Let_def same_kind [OF v] v)
  qed
qed

lemma parsePipeStage_follows: "follows parsePipeStage"
  unfolding follows_def
proof (intro allI impI)
  fix p p' assume p: "p_toks p' = p_toks p"
  show "agree (parsePipeStage p) (parsePipeStage p')"
  proof (cases "Kind (p_cur p) = Ident")
    case True
    have k: "Kind (p_cur p) \<noteq> EOF" by (simp add: True)
    have "follows_after parseStatsStage"
      unfolding parseStatsStage_def
      by (intro follows_after_bind follows_afterI follows_bind follows_pure agg_list.loop_follows parseAggCall_follows parseBy_follows)
    moreover have "follows_after parseSortStage"
      unfolding parseSortStage_def
      by (intro follows_after_bind follows_afterI follows_bind follows_pure sort_list.loop_follows parseSortField_follows)
    moreover have "follows_after parseFieldsStage"
      unfolding parseFieldsStage_def
      by (intro follows_after_bind follows_afterI follows_bind follows_pure field_list.loop_follows parseFieldIdent_follows)
    moreover have "follows_after (\<lambda>p. bindE (parseBoolExpr (advance p)) (\<lambda>(e, p). Inr (WhereStage e, p)))"
      by (intro follows_after_bind follows_afterI follows_pure parseBoolExpr_follows)
    ultimately have "agree (parseStatsStage p) (parseStatsStage p')" "agree (parseSortStage p) (parseSortStage p')"
      "agree (parseFieldsStage p) (parseFieldsStage p')" "agree (parseHeadTailStage b p) (parseHeadTailStage b p')"
      "agree (bindE (parseBoolExpr (advance p)) (\<lambda>(e, p). Inr (WhereStage e, p)))
         (bindE (parseBoolExpr (advance p')) (\<lambda>(e, p). Inr (WhereStage e, p)))" for b
      using follows_afterD [OF _ p k] head_tail_follows by fast+
    with same_view(1) [OF p k] True show ?thesis
      by (simp add: parsePipeStage_def same_kind [OF p])
  next
    case False
    then show ?thesis by (simp add: parsePipeStage_def same_kind [OF p])
  qed
qed

lemma pipes_loop_follows: "follows (pipes_loop xs)"
proof -
  have "p_toks p' = p_toks p \<Longrightarrow> agree (pipes_loop xs p) (pipes_loop xs p')" for p p'
  proof (induction xs p arbitrary: p' rule: pipes_loop.induct)
    case (1 xs p)
    show ?case
    proof (cases "Kind (p_cur p) = Pipe")
      case True
      note v = same_view(2) [OF 1(2), unfolded True, simplified]
      have "agree (bindE (parsePipeStage (advance p)) (\<lambda>(x, p). pipes_loop (xs @ [x]) p))
          (bindE (parsePipeStage (advance p')) (\<lambda>(x, p). pipes_loop (xs @ [x]) p))"
        by (rule agree_bind [OF followsD [OF parsePipeStage_follows v]]) (rule 1(1) [OF True _ refl])
      then show ?thesis
        by (simp add: pipes_loop.simps [of _ p] pipes_loop.simps [of _ p'] same_kind [OF 1(2)] True)
    next
      case False
      then show ?thesis using 1(2)
        by (simp only: pipes_loop.simps [of _ p] pipes_loop.simps [of _ p'] same_kind [OF 1(2)] if_False agree_simps)
    qed
  qed
  then show ?thesis by (simp add: follows_def)
qed

section \<open>A term in front of the base search\<close>

definition put_first :: "search_term \<Rightarrow> bool_expr \<Rightarrow> bool_expr" where
  "put_first t e = \<lparr>Terms = t # Terms e, Conjs = ''and'' # Conjs e\<rparr>"

lemma parseBoolExpr_loop_put_first:
  "parseBoolExpr_loop e p = Inr (e', p') \<Longrightarrow> parseBoolExpr_loop (put_first t e) p = Inr (put_first t e', p')"
proof (induction e p rule: parseBoolExpr_loop.induct)
  case (1 e p)
  have put: "put_first t (e\<lparr>Terms := Terms e @ [x], Conjs := Conjs e @ [c]\<rparr>)
    = (put_first t e)\<lparr>Terms := Terms (put_first t e) @ [x], Conjs := Conjs (put_first t e) @ [c]\<rparr>" for x c
    by (simp add: put_first_def)
  let ?conj = "Kind (p_cur p) = Ident \<and> (Value (p_cur p) = ''and'' \<or> Value (p_cur p) = ''or'')"
  show ?case
  proof (cases ?conj)
    case True
    with 1(3) obtain x q where x: "parseTerm (advance p) = Inr (x, q)"
      and l: "parseBoolExpr_loop (e\<lparr>Terms := Terms e @ [x], Conjs := Conjs e @ [Value (p_cur p)]\<rparr>) q = Inr (e', p')"
      by (subst (asm) parseBoolExpr_loop.simps) (auto simp: Let_def result_simps)
    from 1(1) [OF True refl x refl l] True x show ?thesis
      by (simp add: parseBoolExpr_loop.simps [of _ p] put [symmetric] Let_def)
  next
    case False
    show ?thesis
    proof (cases "canStartTerm p")
      case start: True
      with 1(3) False obtain x q where x: "parseTerm p = Inr (x, q)"
        and l: "parseBoolExpr_loop (e\<lparr>Terms := Terms e @ [x], Conjs := Conjs e @ [''and'']\<rparr>) q = Inr (e', p')"
        by (subst (asm) parseBoolExpr_loop.simps) (auto simp: Let_def result_simps)
      from 1(2) [OF False start x refl l] False start x show ?thesis
        by (simp only: parseBoolExpr_loop.simps [of _ p] put Let_def if_True if_False bindE.simps prod.case)
    next
      case stop: False
      with 1(3) False have "e' = e" "p' = p"
        by (simp_all only: parseBoolExpr_loop.simps [of _ p] if_False sum.inject prod.inject)
      with stop False show ?thesis by (simp only: parseBoolExpr_loop.simps [of _ p] if_False)
    qed
  qed
qed

section \<open>Text in front of the query\<close>

definition shift :: "string \<Rightarrow> lexer \<Rightarrow> lexer" where
  "shift pre l = \<lparr>l_input = pre @ l_input l, l_pos = length pre + l_pos l\<rparr>"

lemma shift_scan [simp]: "scanWhile P (pre @ s) (length pre + p) = length pre + scanWhile P s p"
  by (simp add: scanWhile_takeWhile)

lemma shift_slice [simp]: "slice (pre @ s) (length pre + a) (length pre + b) = slice s a b"
  by (simp add: slice_def)

lemma shift_string:
  "lexString_loop (pre @ s) (length pre + p) sb = map_prod id (map_prod id ((+) (length pre))) (lexString_loop s p sb)"
proof (induction s p sb rule: lexString_loop.induct)
  case (1 s p sb)
  have n: "(pre @ s) ! Suc (length pre + p) = s ! Suc p"
    using nth_append_length_plus [of pre s "Suc p"] by simp
  show ?case
    by (subst lexString_loop.simps, subst (3) lexString_loop.simps) (use 1 n in \<open>auto simp: Let_def id_def\<close>)
qed

lemma shift_emit: "emit (shift pre l) k v = (Token k v (length pre + l_pos l), shift pre (snd (emit l k v)))"
  by (simp add: emit_def shift_def add.assoc)

lemma Next_shift:
  "Kind (fst (Next (shift pre l))) = Kind (fst (Next l)) \<and> Value (fst (Next (shift pre l))) = Value (fst (Next l))
   \<and> snd (Next (shift pre l)) = shift pre (snd (Next l))"
proof -
  let ?m = "skipWhitespace l"
  have m: "skipWhitespace (shift pre l) = shift pre ?m"
    by (simp add: skipWhitespace_def shift_def)
  have at: "l_input (shift pre ?m) ! l_pos (shift pre ?m) = l_input ?m ! l_pos ?m"
    "length (l_input (shift pre ?m)) \<le> l_pos (shift pre ?m) \<longleftrightarrow> length (l_input ?m) \<le> l_pos ?m"
    "peek (shift pre ?m) 1 = peek ?m 1"
    by (simp_all add: shift_def peek_def Let_def nth_append_length_plus [of pre _ "Suc _", simplified])
  have str: "lexString (shift pre ?m) = map_prod (\<lambda>t. t\<lparr>Pos := length pre + Pos t\<rparr>) (shift pre) (lexString ?m)"
    using shift_string [of pre "l_input ?m" "Suc (l_pos ?m)" "[]"]
    by (auto simp: lexString_def Let_def shift_def Token_def split: prod.splits)
  have num: "lexNumber (shift pre ?m) = map_prod (\<lambda>t. t\<lparr>Pos := length pre + Pos t\<rparr>) (shift pre) (lexNumber ?m)"
    using shift_scan [of isDigit pre "l_input ?m" "Suc (scanWhile isDigit (l_input ?m) (l_pos ?m))"]
      nth_append_length_plus [of pre "l_input ?m" "Suc (scanWhile isDigit (l_input ?m) (l_pos ?m))"]
    by (simp add: lexNumber_def Let_def shift_def Token_def)
  have ident: "lexIdent (shift pre ?m) = map_prod (\<lambda>t. t\<lparr>Pos := length pre + Pos t\<rparr>) (shift pre) (lexIdent ?m)"
    by (simp add: lexIdent_def Let_def shift_def Token_def)
  have "Next (shift pre l) = map_prod (\<lambda>t. t\<lparr>Pos := length pre + Pos t\<rparr>) (shift pre) (Next l)"
    unfolding Next_def Let_def m at str num ident
    by (simp add: shift_emit) (simp add: emit_def Token_def shift_def)
  then show ?thesis by simp
qed

lemma tokens_shift: "tokens (shift pre l) = tokens l"
proof (induction l rule: tokens.induct)
  case (1 l)
  show ?case
    using 1 [OF refl] Next_shift [of pre l] by (simp add: tokens.simps [of "shift pre l"] tokens.simps [of l] Let_def)
qed

definition hour_bound :: "(kind \<times> string) list" where
  "hour_bound = [(Ident, ''earliest''), (Eq, ''=''), (Minus, ''-''), (Number, ''1''), (Ident, ''h'')]"

lemma tokens_hour_bound: "tokens (New (''earliest=-1h '' @ s)) = hour_bound @ tokens (New s)"
proof -
  define at where "at = (\<lambda>n. \<lparr>l_input = ''earliest=-1h '' @ s, l_pos = n\<rparr>)"
  note ev = Next_def skipWhitespace_def at_def scanWhile_takeWhile isSpace_def isIdentPart_def isIdentStart_def isDigit_def
    emit_def lexIdent_def lexNumber_def slice_def Token_def Let_def
  have "Next (at 0) = (Token Ident ''earliest'' 0, at 8)" by (simp add: ev)
  moreover have "Next (at 8) = (Token Eq ''='' 8, at 9)" by (simp add: ev)
  moreover have "Next (at 9) = (Token Minus ''-'' 9, at 10)" by (simp add: ev)
  moreover have "Next (at 10) = (Token Number ''1'' 10, at 11)" by (simp add: ev)
  moreover have "Next (at 11) = (Token Ident ''h'' 11, at 12)" by (simp add: ev)
  moreover have "Next (at 12) = Next (at 13)"
    by (simp add: at_def Next_def skipWhitespace_def scanWhile.simps [of _ _ 12] isSpace_def)
  ultimately have t: "tokens (at 0) = hour_bound @ tokens (at 13)"
    by (simp add: tokens_unfold [of "at 0"] tokens_unfold [of "at 8"] tokens_unfold [of "at 9"] tokens_unfold [of "at 10"]
      tokens_unfold [of "at 11"] tokens_unfold [of "at 12"] tokens_unfold [of "at 13"] hour_bound_def)
  have "at 13 = shift ''earliest=-1h '' (New s)" "at 0 = New (''earliest=-1h '' @ s)"
    by (simp_all add: at_def shift_def New_def)
  with t tokens_shift show ?thesis by metis
qed

text \<open>Queries whose text starts with the word \<open>and\<close> or \<open>or\<close>, which the parser reads as a search term there
  and nowhere else.\<close>

definition starts_with_conj :: "string \<Rightarrow> bool" where
  "starts_with_conj s = (case tokens (New s) of [] \<Rightarrow> False | (k, v) # _ \<Rightarrow> k = Ident \<and> (v = ''and'' \<or> v = ''or''))"

definition last_hour :: search_term where
  "last_hour = TimeBound ''earliest'' (relative_time (-1) 1 ''h'')"

lemma last_hour_read: "reads parseTerm hour_bound last_hour"
proof -
  have "wf_term last_hour" by code_simp
  moreover have "toks_term last_hour = hour_bound" by code_simp
  ultimately show ?thesis using parseTerm_reads [of last_hour] by simp
qed

text \<open>The parser reads the prepended time bound as one more term of the base search.\<close>

lemma Parse_hour_bound:
  assumes q: "Parse s = Inr q" and base: "Terms (Base q) \<noteq> []" and conj: "\<not> starts_with_conj s"
  shows "Parse (''earliest=-1h '' @ s) = Inr (q\<lparr>Base := put_first last_hour (Base q)\<rparr>)"
proof -
  let ?p = "newParser s" and ?P = "newParser (''earliest=-1h '' @ s)"
  have nk: "\<not> atPipeStageKeyword ?p"
    using q base by (auto simp: Parse_def parseQuery_def result_simps zero_expr_def split: if_splits)
  with q obtain t p0 p1 p2 where t: "parseTerm ?p = Inr (t, p0)"
    and l: "parseBoolExpr_loop \<lparr>Terms = [t], Conjs = []\<rparr> p0 = Inr (Base q, p1)"
    and st: "pipes_loop [] p1 = Inr (Pipes q, p2)" and e: "Kind (p_cur p2) = EOF"
    by (auto simp: Parse_def parseQuery_def parseBoolExpr_def result_simps split: if_splits)
  have P: "p_toks ?P = hour_bound @ p_toks ?p"
    by (simp only: p_toks_newParser tokens_hour_bound)
  then have "Value (p_cur ?P) = ''earliest''" by (simp only: hour_bound_def append_Cons p_toks_Cons(2))
  then have nK: "\<not> atPipeStageKeyword ?P" by (simp add: atPipeStageKeyword_def)
  obtain P1 where P1: "parseTerm ?P = Inr (last_hour, P1)" "p_toks P1 = p_toks ?p"
    using readsD [OF last_hour_read P] by auto
  have "\<not> (Kind (p_cur ?p) = Ident \<and> (Value (p_cur ?p) = ''and'' \<or> Value (p_cur ?p) = ''or''))"
    using conj by (auto simp: starts_with_conj_def p_toks_newParser [symmetric] p_toks_def split: if_splits)
  moreover have "canStartTerm ?p"
    using t by (auto simp: parseTerm_def canStartTerm_def split: kind.splits)
  moreover note same_kind [OF P1(2)] same_view(1) [OF P1(2)]
  ultimately have go: "\<not> (Kind (p_cur P1) = Ident \<and> (Value (p_cur P1) = ''and'' \<or> Value (p_cur P1) = ''or''))" "canStartTerm P1"
    by (auto simp: canStartTerm_def)
  obtain P2 where P2: "parseTerm P1 = Inr (t, P2)" "p_toks P2 = p_toks p0"
    using followsD [OF parseTerm_follows P1(2)] t by (auto simp: agree_def)
  obtain P3 where P3: "parseBoolExpr_loop (put_first last_hour \<lparr>Terms = [t], Conjs = []\<rparr>) P2 = Inr (put_first last_hour (Base q), P3)"
    "p_toks P3 = p_toks p1"
    using followsD [OF parseBoolExpr_loop_follows P2(2), of "put_first last_hour \<lparr>Terms = [t], Conjs = []\<rparr>"]
      parseBoolExpr_loop_put_first [OF l, of last_hour] by (auto simp: agree_def)
  obtain P4 where P4: "pipes_loop [] P3 = Inr (Pipes q, P4)" "p_toks P4 = p_toks p2"
    using followsD [OF pipes_loop_follows P3(2), of "[]"] st by (auto simp: agree_def)
  have "parseBoolExpr_loop \<lparr>Terms = [last_hour], Conjs = []\<rparr> P1 = Inr (put_first last_hour (Base q), P3)"
    using go P2(1) P3(1) by (subst parseBoolExpr_loop.simps) (auto simp: put_first_def)
  with P1(1) nK P4(1) same_kind [OF P4(2)] e show ?thesis
    by (simp add: Parse_def parseQuery_def parseBoolExpr_def)
qed

section \<open>The plan of the longer query\<close>

lemma pairs_put_first:
  assumes "Terms e = u # us"
  shows "pairs (put_first t e) = ([], t) # (''and'', u) # zip (Conjs e) us"
    "pairs e = ([], u) # zip (Conjs e) us"
  using assms by (simp_all add: pairs_def put_first_def)

lemma first_conj:
  "term_ok pt now (''and'', u) = term_ok pt now ([], u)" "bound_kind_ok (''and'', u) = bound_kind_ok ([], u)"
  "filters_of ((''and'', u) # ps) = filters_of (([], u) # ps)"
  "has_bound ((''and'', u) # ps) = has_bound (([], u) # ps)"
  "text_pieces b ((''and'', u) # ps) = text_pieces b (([], u) # ps)"
  by (cases u; simp add: term_ok_def bound_kind_ok_def)+

lemma last_hour_resolves: "resolveTimeExpr pt (relative_time (-1) 1 ''h'') now = Inr (now - Hour)"
  by (simp add: resolveTimeExpr_def relative_time_def dur_mul_def wrap64_def Hour_def Minute_def Second_def)

lemma last_hour_range:
  assumes "\<not> has_bound ps"
  shows "range_of pt now None ((c, last_hour) # ps) = Some \<lparr>From = now - Hour, To = 0\<rparr>"
  using assms by (simp add: last_hour_def range_of_def range_or_zero_def bounds_of_none last_hour_resolves)

text \<open>One more term, the bound of the last hour, in front of a base search that has none: the plan is the
  same but for its time range.\<close>

lemma plan_put_first:
  assumes "Terms (Base q) = u # us" and none: "TimeRange (plan_of pt now q) = None"
  shows "plan_of pt now (q\<lparr>Base := put_first last_hour (Base q)\<rparr>) =
      (plan_of pt now q)\<lparr>TimeRange := Some \<lparr>From = now - Hour, To = 0\<rparr>\<rparr>"
    and "compilable pt now (q\<lparr>Base := put_first last_hour (Base q)\<rparr>) = compilable pt now q"
proof -
  note pr = pairs_put_first [OF assms(1)]
  let ?ps = "concat (map stage_pairs (Pipes q))"
  have nb: "\<not> has_bound (pairs (Base q) @ ?ps)"
    using none by (auto simp: plan_of_def add_stages_def Let_def zero_plan_def range_of_def stage_pairs_def split: if_splits)
  have "range_of pt now None (pairs (put_first last_hour (Base q)) @ ?ps) = Some \<lparr>From = now - Hour, To = 0\<rparr>"
    unfolding pr(1) append_Cons by (rule last_hour_range) (use nb in \<open>simp add: pr(2) first_conj(4)\<close>)
  moreover have "filters_of (pairs (put_first last_hour (Base q))) = filters_of (pairs (Base q))"
    "text_pieces False (pairs (put_first last_hour (Base q))) = text_pieces False (pairs (Base q))"
    by (simp_all add: pr last_hour_def first_conj)
  moreover have "stage_agg (WhereStage e) = []" "stage_sort (WhereStage e) = []" "stage_fields (WhereStage e) = []"
    "stage_limit (WhereStage e) = []" "stage_pairs (WhereStage e) = pairs e" for e
    by (simp_all add: stage_agg_def stage_sort_def stage_fields_def stage_limit_def stage_pairs_def)
  ultimately show "plan_of pt now (q\<lparr>Base := put_first last_hour (Base q)\<rparr>) =
      (plan_of pt now q)\<lparr>TimeRange := Some \<lparr>From = now - Hour, To = 0\<rparr>\<rparr>"
    by (simp add: plan_of_def add_stages_def Let_def query_text_def zero_plan_def)
  show "compilable pt now (q\<lparr>Base := put_first last_hour (Base q)\<rparr>) = compilable pt now q"
    by (simp add: compilable_def pr first_conj(1) last_hour_def) (simp add: term_ok_def is_ok_def last_hour_resolves)
qed

lemma Compile_hour_bound:
  assumes c: "Compile pt s SPL now = Inr pl" and none: "TimeRange pl = None"
    and base: "Parse s = Inr q" "Terms (Base q) \<noteq> []" and conj: "\<not> starts_with_conj s"
  shows "Compile pt (''earliest=-1h '' @ s) SPL now = Inr (pl\<lparr>TimeRange := Some \<lparr>From = now - Hour, To = 0\<rparr>\<rparr>)"
proof -
  let ?q = "q\<lparr>Base := put_first last_hour (Base q)\<rparr>"
  note P = Parse_hour_bound [OF base conj]
  from Compile_SPL_plan [OF c] base(1) have w: "wf_query q" and pl: "pl = plan_of pt now q" by auto
  have "compilable pt now q"
    using compileQuery_err [OF wf_query_shape [OF w], of pt now] c base(1) by (auto simp: Compile_def Let_def)
  obtain u us where u: "Terms (Base q) = u # us" using base(2) by (cases "Terms (Base q)") auto
  from plan_put_first [OF u none [unfolded pl]] \<open>compilable pt now q\<close>
  have k: "compilable pt now ?q" and pl': "plan_of pt now ?q = pl\<lparr>TimeRange := Some \<lparr>From = now - Hour, To = 0\<rparr>\<rparr>"
    by (simp_all add: pl)
  have "Compile pt (''earliest=-1h '' @ s) SPL now = compileQuery pt ?q now"
    unfolding Compile_def Let_def P by simp
  with compileQuery_ok [OF wf_query_shape [OF Parse_wf [OF P]] k] pl' show ?thesis by simp
qed

end
