(* ===== verification/Ai_Api.thy ===== *)
theory Ai_Api
  imports Ai_Provider Token_Stream Audit_Log
begin

text \<open>
  The AI endpoints of \<open>api/ai/aiapi/handler.go\<close>. A body is the decoded request, \<open>None\<close> when it does not decode;
  the deadline of a provider call is part of the provider's answer. Error texts are constructors and the
  reasons of the cost guard keep theirs until a prompt needs the text. The interaction logger is an
  optional operation on the state, for which the enterprise build supplies the audit log.
\<close>

section \<open>Requests and replies\<close>

record complete_body =
  cb_QueryPrefix :: string
  cb_Language :: string

record explain_body =
  eb_Query :: string
  eb_Language :: string
  eb_OriginalIntent :: string

record fix_body =
  fb_Query :: string
  fb_Language :: string
  fb_ParseError :: string
  fb_ExecutionError :: string

record fix_response =
  fp_SuggestedQuery :: string
  fp_Explanation :: string
  fp_Confidence :: string
  fp_Blocked :: bool
  fp_CostWarnings :: "cost_reason list"

record optimize_body =
  ob_Query :: string
  ob_Language :: string

record optimize_response =
  op_Findings :: "cost_reason list"
  op_Phrased :: string
  op_SuggestedQuery :: string

record translate_body =
  tb_NLQuery :: string

record translate_response =
  tp_Query :: string
  tp_Confidence :: string
  tp_LowConfidenceReason :: string
  tp_Compiles :: bool
  tp_CompileError :: "plan_error option"
  tp_Blocked :: bool
  tp_CostWarnings :: "cost_reason list"

datatype 'e ai_failure = InvalidBody | QueryEmpty | NLQueryEmpty | NoErrorText | DoesNotCompile plan_error
  | ExplainFailed 'e | FixFailed 'e | TranslationFailed 'e | BadOperation

datatype 'e ai_reply = AiError nat "'e ai_failure" | CompleteReply string | ExplainReply string | FixReply fix_response
  | OptimizeReply optimize_response | TranslateReply translate_response | NoContent

record 'e ai_env =
  ai_parse_time :: "string \<Rightarrow> gotime option"
  ai_now :: gotime
  ai_router :: "'e provider router"
  ai_schema :: "identity option \<Rightarrow> schema_context"

section \<open>Helpers\<close>

definition orDefault :: "string \<Rightarrow> string \<Rightarrow> string" where
  "orDefault s def = (if s = [] then def else s)"

text \<open>The conversion \<open>planner.Language(lang)\<close> of a string: \<open>Compile\<close> tests it against the empty string and
  \<open>sql\<close> only, so every other value takes the branch of \<open>spl\<close>.\<close>

definition planner_Language :: "string \<Rightarrow> language" where
  "planner_Language s = (if s = [] then Auto else if s = ''sql'' then SQL else SPL)"

definition suggestMechanicalFix :: "string \<Rightarrow> plan \<Rightarrow> string" where
  "suggestMechanicalFix originalQuery pl =
    (if RawSQL pl \<noteq> [] then []
     else let hasTimeBound = (case TimeRange pl of None \<Rightarrow> False | Some r \<Rightarrow> From r \<noteq> 0 \<or> To r \<noteq> 0) in
     if hasTimeBound then [] else ''earliest=-1h '' @ originalQuery)"

text \<open>The texts that \<open>costguard\<close> appends to its reasons.\<close>

fun reason_text :: "cost_reason \<Rightarrow> string" where
  "reason_text RawNoTimestamp = ''no obvious timestamp filter found in this raw SQL -- this is a best-effort text check, not a real parse, so it may be wrong in either direction, but if this query has no time bound it could scan the full table'' @ [quote] @ ''s history''"
| "reason_text UnboundedAggregation = ''no time range filter, and this query aggregates -- every matching row across the table'' @ [quote] @ ''s entire history must be scanned to compute the aggregate, regardless of how small the output is''"
| "reason_text UnboundedScan = ''no time range filter -- results are capped (explicitly, or by the default 100-row limit), but ClickHouse may still need to scan well beyond that many rows to find them without a time bound to narrow the search''"
| "reason_text TextSearchCap = ''the free-text search stage is bounded by the existing 5,000-record Tantivy prefilter cap regardless of time range, which partially limits how bad this is, but doesn'' @ [quote] @ ''t remove the underlying ClickHouse-side cost''"
| "reason_text SpanOver90Days = ''time range spans more than 90 days -- this may be slow depending on data volume''"

section \<open>Handlers\<close>

definition handleComplete :: "'e ai_env \<Rightarrow> identity option \<Rightarrow> complete_body option \<Rightarrow> 'e ai_reply" where
  "handleComplete env ctx body = (case body of
     None \<Rightarrow> AiError 400 InvalidBody
   | Some req \<Rightarrow>
     if TrimSpace (cb_QueryPrefix req) = [] then CompleteReply []
     else (case pv_Complete (router_For (ai_router env) OpComplete)
         \<lparr>co_QueryPrefix = cb_QueryPrefix req, co_Language = orDefault (cb_Language req) ''spl'', co_Schema = ai_schema env ctx\<rparr> of
         Inl _ \<Rightarrow> CompleteReply []
       | Inr result \<Rightarrow> CompleteReply (cp_Suggestion result)))"

definition handleExplain :: "'e ai_env \<Rightarrow> explain_body option \<Rightarrow> 'e ai_reply" where
  "handleExplain env body = (case body of
     None \<Rightarrow> AiError 400 InvalidBody
   | Some req \<Rightarrow>
     if TrimSpace (eb_Query req) = [] then AiError 400 QueryEmpty
     else (case pv_Explain (router_For (ai_router env) OpExplain)
         \<lparr>ex_Query = eb_Query req, ex_Language = orDefault (eb_Language req) ''spl'', ex_OriginalIntent = eb_OriginalIntent req,
          ex_RuleFindings = []\<rparr> of
         Inl e \<Rightarrow> AiError 502 (ExplainFailed e)
       | Inr result \<Rightarrow> ExplainReply (el_Explanation result)))"

definition handleFix :: "'e ai_env \<Rightarrow> identity option \<Rightarrow> fix_body option \<Rightarrow> 'e ai_reply" where
  "handleFix env ctx body = (case body of
     None \<Rightarrow> AiError 400 InvalidBody
   | Some req \<Rightarrow>
     if TrimSpace (fb_Query req) = [] then AiError 400 QueryEmpty
     else if fb_ParseError req = [] \<and> fb_ExecutionError req = [] then AiError 400 NoErrorText
     else let lang = orDefault (fb_Language req) ''spl'' in
       (case pv_Fix (router_For (ai_router env) OpFix)
         \<lparr>fx_Query = fb_Query req, fx_Language = lang, fx_ParseError = fb_ParseError req,
          fx_ExecutionError = fb_ExecutionError req, fx_Schema = ai_schema env ctx\<rparr> of
         Inl e \<Rightarrow> AiError 502 (FixFailed e)
       | Inr result \<Rightarrow>
         let resp = \<lparr>fp_SuggestedQuery = fr_SuggestedQuery result, fp_Explanation = fr_Explanation result,
               fp_Confidence = fr_Confidence result, fp_Blocked = False, fp_CostWarnings = []\<rparr> in
         FixReply (if fp_SuggestedQuery resp \<noteq> [] then
             (case Compile (ai_parse_time env) (fp_SuggestedQuery resp) (planner_Language lang) (ai_now env) of
                Inl _ \<Rightarrow> resp
              | Inr pl \<Rightarrow> let assessment = Assess pl in
                  if Level assessment \<noteq> LevelOK
                  then resp\<lparr>fp_CostWarnings := Reasons assessment, fp_Blocked := (Level assessment = LevelReject)\<rparr>
                  else resp)
           else resp)))"

definition handleOptimize :: "'e ai_env \<Rightarrow> optimize_body option \<Rightarrow> 'e ai_reply" where
  "handleOptimize env body = (case body of
     None \<Rightarrow> AiError 400 InvalidBody
   | Some req \<Rightarrow>
     if TrimSpace (ob_Query req) = [] then AiError 400 QueryEmpty
     else let lang = orDefault (ob_Language req) ''spl'' in
       (case Compile (ai_parse_time env) (ob_Query req) (planner_Language lang) (ai_now env) of
          Inl e \<Rightarrow> AiError 400 (DoesNotCompile e)
        | Inr pl \<Rightarrow>
          let assessment = Assess pl;
            resp = \<lparr>op_Findings = Reasons assessment, op_Phrased = [], op_SuggestedQuery = []\<rparr> in
          if Level assessment = LevelOK then OptimizeReply resp
          else let resp = resp\<lparr>op_SuggestedQuery := suggestMechanicalFix (ob_Query req) pl\<rparr> in
            OptimizeReply (case pv_Explain (router_For (ai_router env) OpExplain)
              \<lparr>ex_Query = ob_Query req, ex_Language = lang, ex_OriginalIntent = [],
               ex_RuleFindings = map reason_text (Reasons assessment)\<rparr> of
                Inl _ \<Rightarrow> resp
              | Inr result \<Rightarrow> resp\<lparr>op_Phrased := el_Explanation result\<rparr>)))"

definition handleTranslate :: "'e ai_env \<Rightarrow> identity option \<Rightarrow> translate_body option \<Rightarrow> 'e ai_reply" where
  "handleTranslate env ctx body = (case body of
     None \<Rightarrow> AiError 400 InvalidBody
   | Some req \<Rightarrow>
     if TrimSpace (tb_NLQuery req) = [] then AiError 400 NLQueryEmpty
     else (case pv_Translate (router_For (ai_router env) OpTranslate)
         \<lparr>tr_NLQuery = tb_NLQuery req, tr_Schema = ai_schema env ctx\<rparr> of
         Inl e \<Rightarrow> AiError 502 (TranslationFailed e)
       | Inr result \<Rightarrow>
         let resp = \<lparr>tp_Query = tl_Query result, tp_Confidence = tl_Confidence result,
               tp_LowConfidenceReason = tl_LowConfidenceReason result, tp_Compiles = False, tp_CompileError = None,
               tp_Blocked = False, tp_CostWarnings = []\<rparr> in
         TranslateReply (if tp_Query resp \<noteq> [] then
             (case Compile (ai_parse_time env) (tp_Query resp) SPL (ai_now env) of
                Inl compileErr \<Rightarrow> resp\<lparr>tp_Compiles := False, tp_CompileError := Some compileErr\<rparr>
              | Inr pl \<Rightarrow> let resp = resp\<lparr>tp_Compiles := True\<rparr>; assessment = Assess pl in
                  if Level assessment \<noteq> LevelOK
                  then resp\<lparr>tp_CostWarnings := Reasons assessment, tp_Blocked := (Level assessment = LevelReject)\<rparr>
                  else resp)
           else resp)))"

definition validInteractionOps :: "string list" where
  "validInteractionOps = [''translate'', ''fix'', ''optimize'']"

text \<open>The body has the fields of the entry; the logger answers whether the write succeeded, which is only
  logged.\<close>

definition handleLogInteraction :: "(identity option \<Rightarrow> interaction_entry \<Rightarrow> 's \<Rightarrow> bool \<times> 's) option \<Rightarrow> identity option
    \<Rightarrow> interaction_entry option \<Rightarrow> 's \<Rightarrow> 'e ai_reply \<times> 's" where
  "handleLogInteraction interactions ctx body s = (case body of
     None \<Rightarrow> (AiError 400 InvalidBody, s)
   | Some req \<Rightarrow>
     if ie_Operation req \<notin> set validInteractionOps then (AiError 400 BadOperation, s)
     else (case interactions of None \<Rightarrow> (NoContent, s)
       | Some log_entry \<Rightarrow> (NoContent, snd (log_entry ctx
           \<lparr>ie_Operation = ie_Operation req, ie_Input = ie_Input req, ie_Output = ie_Output req,
            ie_Confidence = ie_Confidence req, ie_Accepted = ie_Accepted req, ie_Edited = ie_Edited req,
            ie_FinalQuery = ie_FinalQuery req\<rparr> s))))"

section \<open>Routes\<close>

datatype ai_route = PostComplete "complete_body option" | PostExplain "explain_body option" | PostFix "fix_body option"
  | PostOptimize "optimize_body option" | PostTranslate "translate_body option" | PostLogInteraction "interaction_entry option"

definition ai_handle :: "'e ai_env \<Rightarrow> (identity option \<Rightarrow> interaction_entry \<Rightarrow> 's \<Rightarrow> bool \<times> 's) option \<Rightarrow> ai_route
    \<Rightarrow> ('s, 'e ai_reply) ctx_handler" where
  "ai_handle env interactions route ctx s = (case route of
     PostComplete b \<Rightarrow> (handleComplete env ctx b, s)
   | PostExplain b \<Rightarrow> (handleExplain env b, s)
   | PostFix b \<Rightarrow> (handleFix env ctx b, s)
   | PostOptimize b \<Rightarrow> (handleOptimize env b, s)
   | PostTranslate b \<Rightarrow> (handleTranslate env ctx b, s)
   | PostLogInteraction b \<Rightarrow> handleLogInteraction interactions ctx b s)"

definition ai_serve :: "(http_request \<Rightarrow> 's \<Rightarrow> ('a, identity) result) option \<Rightarrow> 'e ai_env
    \<Rightarrow> (identity option \<Rightarrow> interaction_entry \<Rightarrow> 's \<Rightarrow> bool \<times> 's) option \<Rightarrow> ai_route \<Rightarrow> http_request \<Rightarrow> 's \<Rightarrow> 'e ai_reply guarded \<times> 's" where
  "ai_serve authorizer env interactions route = RequireRoleOrService authorizer RoleViewer (ai_handle env interactions route)"

section \<open>Grounding stays with the tenant\<close>

text \<open>The handlers read the schema context of the caller only.\<close>

lemma ai_handle_schema:
  assumes "sch ctx = sch' ctx"
  shows "ai_handle (env\<lparr>ai_schema := sch\<rparr>) interactions route ctx s = ai_handle (env\<lparr>ai_schema := sch'\<rparr>) interactions route ctx s"
  using assms by (cases route)
    (simp_all add: ai_handle_def handleComplete_def handleExplain_def handleFix_def handleOptimize_def handleTranslate_def
      cong: option.case_cong sum.case_cong if_cong)

text \<open>What the endpoints rely on in a \<open>SchemaContextSource\<close>: the context of a caller is a function of what the
  source's history holds for the caller's tenant. The per-tenant registry of the enterprise build provides it; the
  single service of the core does with one view for everybody.\<close>

locale schema_source =
  fixes SchemaContext :: "'h \<Rightarrow> identity option \<Rightarrow> schema_context"
    and view :: "string \<Rightarrow> 'h \<Rightarrow> 'v"
  assumes scoped: "view (id_TenantID i) h = view (id_TenantID i) h' \<Longrightarrow> SchemaContext h (Some i) = SchemaContext h' (Some i)"
begin

lemma handled_on_view:
  assumes "view (id_TenantID i) h = view (id_TenantID i) h'"
  shows "ai_handle (env\<lparr>ai_schema := SchemaContext h\<rparr>) interactions route (Some i) s
    = ai_handle (env\<lparr>ai_schema := SchemaContext h'\<rparr>) interactions route (Some i) s"
  by (rule ai_handle_schema) (rule scoped [OF assms])

end

definition registry_view :: "string \<Rightarrow> string list \<times> 'e ground_round list \<Rightarrow> bool \<times> ((string \<Rightarrow> ('e, sample_result) result) \<times> nat) list" where
  "registry_view T = (\<lambda>(runners, rounds). (T \<in> set runners, map (round_view T) rounds))"

interpretation tenant_source: schema_source
  "\<lambda>(runners, rounds). registry_SchemaContext (StartRefreshing runners Map.empty rounds)" registry_view
proof (unfold_locales, clarsimp simp: registry_view_def)
  fix i :: identity and runners runners' and rounds rounds' :: "'e ground_round list"
  assume "(id_TenantID i \<in> set runners) = (id_TenantID i \<in> set runners')"
    "map (round_view (id_TenantID i)) rounds = map (round_view (id_TenantID i)) rounds'"
  from StartRefreshing_own [OF this(2) _ this(1), of Map.empty Map.empty]
  show "registry_SchemaContext (StartRefreshing runners Map.empty rounds) (Some i)
      = registry_SchemaContext (StartRefreshing runners' Map.empty rounds') (Some i)"
    by (simp add: registry_SchemaContext_def SchemaContextFor_def)
qed

interpretation single_source: schema_source "\<lambda>snapshot ctx. snapshot" "\<lambda>T snapshot. snapshot"
  by unfold_locales

text \<open>C14: One tenant's AI requests cannot see another tenant's data. Take two deployments, or two histories of
  one, in which tenant \<open>T\<close> has the same data at every sampling round and is listed as often, while the other
  tenants, their data and their connections are arbitrary. Then every AI request of a user of \<open>T\<close> has the
  same reply and the same effect in both, whatever language model answers: what the model is told about
  the data is a function of \<open>T\<close>'s own data.\<close>

theorem grounding_isolated:
  assumes "map (round_view T) rounds = map (round_view T) rounds'" "T \<in> set runners \<longleftrightarrow> T \<in> set runners'"
    and "id_TenantID i = T"
  shows "ai_handle (env\<lparr>ai_schema := registry_SchemaContext (StartRefreshing runners Map.empty rounds)\<rparr>) interactions route (Some i) s
    = ai_handle (env\<lparr>ai_schema := registry_SchemaContext (StartRefreshing runners' Map.empty rounds')\<rparr>) interactions route (Some i) s"
  using tenant_source.handled_on_view [of i "(runners, rounds)" "(runners', rounds')"] assms
  by (simp add: registry_view_def)

section \<open>Translations and the query endpoint\<close>

lemma blank_all:
  assumes "TrimSpace s = []"
  shows "list_all isUniSpace s"
proof -
  have "\<forall>c \<in> set (dropWhile isUniSpace s). isUniSpace c"
    using assms by (simp add: TrimSpace_def dropWhile_eq_Nil_conv)
  then have "dropWhile isUniSpace s = []"
    using hd_dropWhile [of isUniSpace s] by (metis list.set_sel(1))
  then show ?thesis by (simp add: dropWhile_eq_Nil_conv list_all_iff)
qed

lemma blank_chars:
  assumes "isUniSpace c" "\<not> isSpace c"
  shows "c \<in> {CHR 0x0B, CHR 0x0C, CHR 0x85, CHR 0xA0}"
proof -
  define n where "n = (of_char c :: nat)"
  have c: "c = char_of n" by (simp add: n_def)
  have "n \<in> {9, 10, 11, 12, 13, 32, 133, 160}"
    using assms(1) by (auto simp: isUniSpace_def Let_def n_def)
  moreover have "char_of (9::nat) = CHR 0x09" "char_of (10::nat) = CHR 0x0A" "char_of (11::nat) = CHR 0x0B"
    "char_of (12::nat) = CHR 0x0C" "char_of (13::nat) = CHR 0x0D" "char_of (32::nat) = CHR 0x20"
    "char_of (133::nat) = CHR 0x85" "char_of (160::nat) = CHR 0xA0"
    by code_simp+
  ultimately show ?thesis using assms(2) by (auto simp: c isSpace_def)
qed

text \<open>A query of blanks does not compile: its first token is the end of the input or a character the lexer
  does not know.\<close>

lemma blank_does_not_compile:
  assumes "TrimSpace s = []"
  shows "\<exists>e. Compile pt s SPL now = Inl e"
proof -
  have "Kind (fst (Next (New s))) \<in> {EOF, Illegal}"
  proof (cases "rest (skipWhitespace (New s))")
    case Nil
    then show ?thesis by (simp add: Next_def Let_def rest_def Token_def)
  next
    case (Cons c xs)
    note at = Next_nonempty [OF Cons]
    have "c \<in> set s" using Cons set_dropWhileD [of c isSpace s] by (simp add: rest_skipWhitespace)
    then have "isUniSpace c" using blank_all [OF assms] by (simp add: list_all_iff)
    moreover have "\<not> isSpace c" using Cons hd_dropWhile [of isSpace s] by (simp add: rest_skipWhitespace)
    ultimately have "c \<in> {CHR 0x0B, CHR 0x0C, CHR 0x85, CHR 0xA0}" by (rule blank_chars)
    then have "c \<noteq> CHR 0x22" "\<not> isDigit c" "\<not> isIdentStart c"
      "c \<notin> {CHR ''|'', CHR ''='', CHR ''!'', CHR ''>'', CHR ''<'', CHR '':'', CHR '','', CHR ''('', CHR '')'', CHR ''-'', CHR ''+'', CHR ''*''}"
      by (auto simp: isDigit_def isIdentStart_def)
    with at show ?thesis by (simp add: Next_def Let_def emit_def Token_def)
  qed
  moreover have "Kind (p_cur (newParser s)) = Kind (fst (Next (New s)))"
    by (simp add: newParser_def advance_def Let_def split: prod.split)
  ultimately have "\<exists>e. Parse s = Inl e"
    by (auto simp: Parse_def parseQuery_def parseBoolExpr_def parseTerm_def atPipeStageKeyword_def)
  then show ?thesis by (auto simp: Compile_def Let_def)
qed

lemma Compile_SPL_no_sql: "Compile pt s SPL now = Inr pl \<Longrightarrow> RawSQL pl = []"
  by (drule Compile_SPL_plan) (auto simp: plan_of_def add_stages_def Let_def zero_plan_def)

text \<open>What \<open>/ai/translate\<close> says about a query is what \<open>/query\<close> does with it. Posted as pipe syntax at the
  same time of day, the returned query is refused by \<open>/query\<close> exactly when it was reported not to compile; when it
  runs, the warnings are the reported ones; and it was reported as blocked exactly when it compiles to an
  aggregation without any time bound.\<close>

theorem translate_agrees_with_query:
  "case handleTranslate env ctx body of TranslateReply r \<Rightarrow>
     let res = fst (handleQuery (qenv\<lparr>env_parse_time := ai_parse_time env, env_now := ai_now env\<rparr>)
       (Some \<lparr>req_Query = tp_Query r, req_Language = ''spl''\<rparr>)) in
     (case res of Reply400 _ \<Rightarrow> \<not> tp_Compiles r | Reply502 _ \<Rightarrow> tp_Compiles r
       | Reply200 _ warnings \<Rightarrow> tp_Compiles r \<and> concat warnings = tp_CostWarnings r)
     \<and> (tp_Blocked r \<longleftrightarrow> (case Compile (ai_parse_time env) (tp_Query r) SPL (ai_now env) of Inl _ \<Rightarrow> False
         | Inr pl \<Rightarrow> tp_Query r \<noteq> [] \<and> Aggregation pl \<noteq> None
             \<and> (case TimeRange pl of None \<Rightarrow> True | Some tr \<Rightarrow> From tr = 0 \<and> To tr = 0)))
   | _ \<Rightarrow> True"
proof (cases "handleTranslate env ctx body")
  case (TranslateReply r)
  let ?c = "Compile (ai_parse_time env) (tp_Query r) SPL (ai_now env)"
  have empty: "tp_Query r = [] \<longrightarrow> \<not> tp_Compiles r \<and> \<not> tp_Blocked r"
    using TranslateReply by (auto simp: handleTranslate_def Let_def split: option.splits if_splits sum.splits)
  have no: "?c = Inl e \<longrightarrow> \<not> tp_Compiles r \<and> \<not> tp_Blocked r" for e
    using TranslateReply by (auto simp: handleTranslate_def Let_def split: option.splits if_splits sum.splits)
  have yes: "?c = Inr pl \<longrightarrow> tp_Query r \<noteq> [] \<longrightarrow> tp_Compiles r \<and> (tp_Blocked r \<longleftrightarrow> Level (Assess pl) = LevelReject)
      \<and> tp_CostWarnings r = (if Level (Assess pl) = LevelOK then [] else Reasons (Assess pl))" for pl
    using TranslateReply by (auto simp: handleTranslate_def Let_def split: option.splits if_splits sum.splits)
  show ?thesis
  proof (cases "tp_Query r = [] \<or> (\<exists>e. ?c = Inl e)")
    case True
    with empty no blank_does_not_compile show ?thesis
      by (auto simp: TranslateReply handleQuery_def Let_def TrimSpace_def split: sum.splits)
  next
    case False
    then obtain pl where pl: "?c = Inr pl" and ne: "tp_Query r \<noteq> []" by (cases ?c) auto
    have nb: "TrimSpace (tp_Query r) \<noteq> []" using blank_does_not_compile [of "tp_Query r" "ai_parse_time env" "ai_now env"] pl by auto
    have "tp_Blocked r \<longleftrightarrow> Aggregation pl \<noteq> None \<and> (case TimeRange pl of None \<Rightarrow> True | Some tr \<Rightarrow> From tr = 0 \<and> To tr = 0)"
      using yes pl ne Assess_verdict [of pl] Compile_SPL_no_sql [OF pl] by simp
    moreover have "Summary (Assess pl) = (if Level (Assess pl) = LevelOK then [] else Reasons (Assess pl))"
      by (simp add: Summary_def)
    ultimately show ?thesis
      using yes pl ne nb by (simp add: TranslateReply handleQuery_def Let_def split: sum.split)
  qed
qed simp_all

section \<open>The rewrite that \<open>/ai/optimize\<close> suggests\<close>

lemma handleOptimize_suggestion:
  assumes "handleOptimize env (Some req) = OptimizeReply resp" "op_SuggestedQuery resp \<noteq> []"
  shows "\<exists>pl. Compile (ai_parse_time env) (ob_Query req) SPL (ai_now env) = Inr pl
    \<and> op_SuggestedQuery resp = ''earliest=-1h '' @ ob_Query req \<and> Level (Assess pl) \<noteq> LevelOK
    \<and> (case TimeRange pl of None \<Rightarrow> True | Some r \<Rightarrow> From r = 0 \<and> To r = 0)"
proof -
  let ?lang = "planner_Language (orDefault (ob_Language req) ''spl'')"
  obtain pl where pl: "Compile (ai_parse_time env) (ob_Query req) ?lang (ai_now env) = Inr pl" "Level (Assess pl) \<noteq> LevelOK"
    "op_SuggestedQuery resp = suggestMechanicalFix (ob_Query req) pl"
    using assms by (auto simp: handleOptimize_def Let_def split: if_splits sum.splits)
  have "?lang \<noteq> Auto" by (simp add: planner_Language_def orDefault_def)
  moreover have "?lang \<noteq> SQL"
  proof
    assume "?lang = SQL"
    with pl(1) have "RawSQL pl \<noteq> []" by (auto simp: Compile_def Let_def result_simps validateSelectOnly_def zero_plan_def split: if_splits)
    with pl(3) assms(2) show False by (simp add: suggestMechanicalFix_def)
  qed
  ultimately have "?lang = SPL" by (cases ?lang) simp_all
  with pl assms(2) show ?thesis
    by (auto simp: suggestMechanicalFix_def Let_def split: if_splits option.splits)
qed


text \<open>A query that starts with a stage keyword has no base search to extend. The rewrite of
  \<open>stats count by host\<close> still compiles, but the words of its stage have become a text search: the
  aggregation is gone.\<close>

theorem optimize_loses_leading_stage:
  "case Compile (\<lambda>_. None) ''stats count by host'' SPL (2 * Hour) of Inl _ \<Rightarrow> False
   | Inr pl \<Rightarrow> Aggregation pl \<noteq> None \<and> Level (Assess pl) = LevelReject
     \<and> (case Compile (\<lambda>_. None) (suggestMechanicalFix ''stats count by host'' pl) SPL (2 * Hour) of Inl _ \<Rightarrow> False
        | Inr pl' \<Rightarrow> Aggregation pl' = None \<and> TextSearch pl' = [''stats AND count AND by AND host''])"
  by code_simp

text \<open>Before a query that begins with \<open>or\<close>, which alone is a search for that word, the rewrite turns the word
  into the operator and the result does not compile.\<close>

theorem optimize_breaks_leading_or:
  "case Compile (\<lambda>_. None) ''or host=web'' SPL (2 * Hour) of Inl _ \<Rightarrow> False
   | Inr pl \<Rightarrow> Compile (\<lambda>_. None) (suggestMechanicalFix ''or host=web'' pl) SPL (2 * Hour) = Inl (OrOnFilter ''host'')"
  by code_simp

section \<open>Witnesses\<close>

definition w_cells :: "string \<Rightarrow> sample_result" where
  "w_cells s = Some \<lparr>Columns = [''v''], Rows = [[AnyString s]]\<rparr>"

definition w_run :: "string \<Rightarrow> string \<Rightarrow> string \<Rightarrow> (unit, sample_result) result" where
  "w_run other t sql = Inr (w_cells (if t = ''acme'' then ''checkout'' else other))"

text \<open>A model that answers with what it was told about the data.\<close>

definition w_provider :: "unit provider" where
  "w_provider = \<lparr>pv_Translate = (\<lambda>r. Inr \<lparr>tl_Query = renderSchema (tr_Schema r), tl_Confidence = ConfidenceLow, tl_LowConfidenceReason = []\<rparr>),
     pv_Complete = (\<lambda>r. Inl ()), pv_Explain = (\<lambda>r. Inl ()), pv_Fix = (\<lambda>r. Inl ())\<rparr>"

definition w_ai_env :: "unit ai_env" where
  "w_ai_env = \<lparr>ai_parse_time = (\<lambda>_. None), ai_now = 2 * Hour, ai_router = router_New w_provider, ai_schema = (\<lambda>_. zero_schema)\<rparr>"

definition w_user :: identity where
  "w_user = \<lparr>id_TenantID = ''acme'', id_UserID = ''u1'', id_Role = RoleViewer\<rparr>"

definition w_translate :: "(string \<times> string list option) list \<Rightarrow> string list \<Rightarrow> unit ai_reply \<times> unit" where
  "w_translate rounds runners = ai_handle (w_ai_env\<lparr>ai_schema := registry_SchemaContext
       (StartRefreshing runners Map.empty (map (\<lambda>(other, listed). (w_run other, listed)) rounds))\<rparr>)
     None (PostTranslate (Some \<lparr>tb_NLQuery = ''errors today''\<rparr>)) (Some w_user) ()"

theorem grounding_isolated_witness:
  "w_translate [(''secret'', Some [''globex'', ''acme''])] [''acme'', ''globex''] = w_translate [(''other'', Some [''acme''])] [''acme'']
   \<and> sc_Services (registry_SchemaContext (StartRefreshing [''acme''] Map.empty [(w_run ''other'', Some [''acme''])]) (Some w_user)) = [''checkout'']"
proof
  show "w_translate [(''secret'', Some [''globex'', ''acme''])] [''acme'', ''globex''] = w_translate [(''other'', Some [''acme''])] [''acme'']"
    unfolding w_translate_def
    by (rule grounding_isolated [of "''acme''"]) (simp_all add: round_view_def w_run_def w_user_def fun_eq_iff)
  have "tenant_runner [''acme''] (w_run ''other'') (tenantCtx ''acme'') = (\<lambda>sql. Inr (w_cells ''checkout''))"
    by (simp add: fun_eq_iff tenant_runner_def chrunner_RunSQL_def tenantCtx_def w_run_def)
  then show "sc_Services (registry_SchemaContext (StartRefreshing [''acme''] Map.empty [(w_run ''other'', Some [''acme''])]) (Some w_user)) = [''checkout'']"
    by (simp add: registry_SchemaContext_def SchemaContextFor_def refreshAll_def serviceFor_def w_user_def Refresh_def
        sampleServices_def sampleAttributeKeys_def w_cells_def firstColumnStrings_def Let_def)
qed


end
