(* ===== verification/Configuration.thy ===== *)
theory Configuration
  imports Prelude
begin

text \<open>
  What each process reads from its environment: \<open>Load\<close> and \<open>DevCredentialWarnings\<close> of the six configuration
  packages. The environment is a function from names to values, empty where \<open>os.Getenv\<close> finds none; a
  warning is the name of the variable it is about. Structures that the packages repeat field by field
  are one record.
\<close>

section \<open>Reading variables\<close>

type_synonym environment = "string \<Rightarrow> string"

definition getenv :: "environment \<Rightarrow> string \<Rightarrow> string \<Rightarrow> string" where
  "getenv os key fallback = (let v = os key in if v \<noteq> [] then v else fallback)"

text \<open>\<open>strconv.Atoi\<close>: an optional sign and decimal digits within 64 bits; \<open>strconv.ParseBool\<close>.\<close>

definition Atoi :: "string \<Rightarrow> int option" where
  "Atoi s = (let (neg, ds) = (case s of [] \<Rightarrow> (False, [])
       | c # cs \<Rightarrow> if c = CHR ''-'' then (True, cs) else if c = CHR ''+'' then (False, cs) else (False, s));
     n = int (digits_val ds) in
     if ds = [] \<or> \<not> list_all isDigit ds then None
     else if neg then (if - n < min_int64 then None else Some (- n))
     else if n > max_int64 then None else Some n)"

definition ParseBool :: "string \<Rightarrow> bool option" where
  "ParseBool s = (if s \<in> {''1'', ''t'', ''T'', ''TRUE'', ''true'', ''True''} then Some True
     else if s \<in> {''0'', ''f'', ''F'', ''FALSE'', ''false'', ''False''} then Some False else None)"

fun split_comma :: "string \<Rightarrow> string list" where
  "split_comma [] = [[]]"
| "split_comma (c # cs) = (if c = CHR '','' then [] # split_comma cs
     else case split_comma cs of [] \<Rightarrow> [[c]] | p # ps \<Rightarrow> (c # p) # ps)"

datatype config_error = BadVariable string | ShortSigningKey nat

definition int_var :: "environment \<Rightarrow> string \<Rightarrow> string \<Rightarrow> (config_error, int) result" where
  "int_var os key fallback = (case Atoi (getenv os key fallback) of None \<Rightarrow> Inl (BadVariable key) | Some n \<Rightarrow> Inr n)"

definition bool_var :: "environment \<Rightarrow> string \<Rightarrow> string \<Rightarrow> (config_error, bool) result" where
  "bool_var os key fallback = (case ParseBool (getenv os key fallback) of None \<Rightarrow> Inl (BadVariable key) | Some b \<Rightarrow> Inr b)"

text \<open>\<open>time.Duration(n) * unit\<close>, which wraps.\<close>

definition duration :: "int \<Rightarrow> int \<Rightarrow> int" where
  "duration n unit = wrap64 (n * unit)"

section \<open>Shared structures\<close>

record server_config =
  sv_Addr :: string
  sv_Database :: string
  sv_Username :: string
  sv_Password :: string

record ai_config =
  OllamaBaseURL :: string
  OllamaModel :: string
  OllamaFastModel :: string

record redpanda_config =
  Brokers :: "string list"
  Topic :: string
  ConsumerGroup :: string

record batch_config =
  MaxSize :: int
  FlushIntervalMS :: int

definition devOnlyCredential :: string where "devOnlyCredential = ''cairnobs-dev-only''"

definition postgres_of :: "environment \<Rightarrow> server_config" where
  "postgres_of os = \<lparr>sv_Addr = getenv os ''POSTGRES_ADDR'' ''localhost:5432'', sv_Database = getenv os ''POSTGRES_DATABASE'' ''cairnobs_metadata'',
     sv_Username = getenv os ''POSTGRES_USERNAME'' ''cairnobs'', sv_Password = getenv os ''POSTGRES_PASSWORD'' []\<rparr>"

definition clickhouse_of :: "environment \<Rightarrow> server_config" where
  "clickhouse_of os = \<lparr>sv_Addr = getenv os ''CLICKHOUSE_ADDR'' ''localhost:9000'', sv_Database = getenv os ''CLICKHOUSE_DATABASE'' ''cairnobs'',
     sv_Username = getenv os ''CLICKHOUSE_USERNAME'' ''default'', sv_Password = getenv os ''CLICKHOUSE_PASSWORD'' []\<rparr>"

definition ai_of :: "environment \<Rightarrow> ai_config" where
  "ai_of os = \<lparr>OllamaBaseURL = getenv os ''OLLAMA_BASE_URL'' [], OllamaModel = getenv os ''OLLAMA_MODEL'' ''qwen2.5-coder:7b'',
     OllamaFastModel = getenv os ''OLLAMA_FAST_MODEL'' ''qwen2.5-coder:1.5b''\<rparr>"

definition batch_of :: "environment \<Rightarrow> (config_error, batch_config) result" where
  "batch_of os = bindE (int_var os ''CONSUMER_BATCH_MAX_SIZE'' ''500'') (\<lambda>maxSize.
     bindE (int_var os ''CONSUMER_BATCH_FLUSH_INTERVAL_MS'' ''2000'') (\<lambda>flushMS.
       Inr \<lparr>MaxSize = maxSize, FlushIntervalMS = flushMS\<rparr>))"

section \<open>The api\<close>

record local_auth_config =
  la_Enabled :: bool
  la_SessionTTL :: int
  la_CookieDomain :: string
  la_CookieSecure :: bool

record api_config =
  ac_HTTPListenAddr :: string
  ac_ClickHouse :: server_config
  ac_Postgres :: server_config
  ac_SearchGRPCAddr :: string
  ac_QueryTimeout :: int
  ac_CORSAllowedOrigin :: string
  ac_EnterpriseAuthURL :: string
  ac_AI :: ai_config
  ac_LocalAuth :: local_auth_config

definition api_Load :: "environment \<Rightarrow> (config_error, api_config) result" where
  "api_Load os =
     bindE (int_var os ''QUERY_TIMEOUT_SECONDS'' ''30'') (\<lambda>timeoutSec.
     bindE (bool_var os ''LOCAL_AUTH_ENABLED'' ''false'') (\<lambda>localAuthEnabled.
     bindE (int_var os ''LOCAL_SESSION_TTL_HOURS'' ''720'') (\<lambda>sessionTTLHours.
     bindE (bool_var os ''LOCAL_AUTH_COOKIE_SECURE'' ''true'') (\<lambda>cookieSecure.
       Inr \<lparr>ac_HTTPListenAddr = getenv os ''HTTP_LISTEN_ADDR'' '':8080'', ac_ClickHouse = clickhouse_of os,
         ac_Postgres = postgres_of os, ac_SearchGRPCAddr = getenv os ''SEARCH_GRPC_ADDR'' ''localhost:50052'',
         ac_QueryTimeout = duration timeoutSec Second, ac_CORSAllowedOrigin = getenv os ''CORS_ALLOWED_ORIGIN'' ''*'',
         ac_EnterpriseAuthURL = getenv os ''ENTERPRISE_AUTH_URL'' [], ac_AI = ai_of os,
         ac_LocalAuth = \<lparr>la_Enabled = localAuthEnabled, la_SessionTTL = duration sessionTTLHours Hour,
           la_CookieDomain = getenv os ''SESSION_COOKIE_DOMAIN'' [], la_CookieSecure = cookieSecure\<rparr>\<rparr>))))"

definition api_DevCredentialWarnings :: "api_config \<Rightarrow> string list" where
  "api_DevCredentialWarnings c = (if sv_Password (ac_ClickHouse c) = devOnlyCredential then [''CLICKHOUSE_PASSWORD''] else [])
     @ (if sv_Password (ac_Postgres c) = devOnlyCredential then [''POSTGRES_PASSWORD''] else [])"

section \<open>Alerting\<close>

record evaluator_config =
  ev_TickInterval :: int
  ev_ClaimBatchSize :: int
  ev_WorkerPoolSize :: int
  ev_QueryTimeout :: int

record alerting_config =
  al_HTTPListenAddr :: string
  al_Postgres :: server_config
  al_APIQueryURL :: string
  al_APIServiceToken :: string
  al_CORSAllowedOrigin :: string
  al_Evaluator :: evaluator_config
  al_LocalAuthEnabled :: bool

definition alerting_Load :: "environment \<Rightarrow> (config_error, alerting_config) result" where
  "alerting_Load os =
     bindE (int_var os ''EVALUATOR_TICK_SECONDS'' ''5'') (\<lambda>tickSec.
     bindE (int_var os ''EVALUATOR_WORKER_POOL_SIZE'' ''20'') (\<lambda>poolSize.
     bindE (int_var os ''EVALUATOR_CLAIM_BATCH_SIZE'' ''1000'') (\<lambda>claimBatchSize.
     bindE (int_var os ''EVALUATOR_QUERY_TIMEOUT_SECONDS'' ''30'') (\<lambda>queryTimeoutSec.
     bindE (bool_var os ''LOCAL_AUTH_ENABLED'' ''false'') (\<lambda>localAuthEnabled.
       Inr \<lparr>al_HTTPListenAddr = getenv os ''HTTP_LISTEN_ADDR'' '':8081'', al_Postgres = postgres_of os,
         al_APIQueryURL = getenv os ''API_QUERY_URL'' ''http://localhost:8080'', al_APIServiceToken = getenv os ''API_SERVICE_TOKEN'' [],
         al_CORSAllowedOrigin = getenv os ''CORS_ALLOWED_ORIGIN'' ''*'',
         al_Evaluator = \<lparr>ev_TickInterval = duration tickSec Second, ev_ClaimBatchSize = claimBatchSize,
           ev_WorkerPoolSize = poolSize, ev_QueryTimeout = duration queryTimeoutSec Second\<rparr>,
         al_LocalAuthEnabled = localAuthEnabled\<rparr>)))))"

definition alerting_DevCredentialWarnings :: "alerting_config \<Rightarrow> string list" where
  "alerting_DevCredentialWarnings c = (if sv_Password (al_Postgres c) = devOnlyCredential then [''POSTGRES_PASSWORD''] else [])"

section \<open>Ingest\<close>

record tls_config =
  CertFile :: string
  KeyFile :: string
  ClientCAFile :: string

record ingest_config =
  ig_ListenAddr :: string
  ig_TLS :: tls_config
  ig_Redpanda :: redpanda_config
  ig_ClickHouse :: server_config
  ig_Batch :: batch_config
  ig_EnterpriseAuthURL :: string
  ig_AgentRegistry :: server_config

definition ingest_Load :: "environment \<Rightarrow> (config_error, ingest_config) result" where
  "ingest_Load os = bindE (batch_of os) (\<lambda>batch.
     Inr \<lparr>ig_ListenAddr = getenv os ''GRPC_LISTEN_ADDR'' '':4317'',
       ig_TLS = \<lparr>CertFile = getenv os ''TLS_CERT_FILE'' ''/etc/cairnobs-ingest/server.pem'',
         KeyFile = getenv os ''TLS_KEY_FILE'' ''/etc/cairnobs-ingest/server-key.pem'',
         ClientCAFile = getenv os ''TLS_CLIENT_CA_FILE'' ''/etc/cairnobs-ingest/ca.pem''\<rparr>,
       ig_Redpanda = \<lparr>Brokers = split_comma (getenv os ''REDPANDA_BROKERS'' ''localhost:9092''),
         Topic = getenv os ''REDPANDA_TOPIC'' ''cairnobs.logs.raw'',
         ConsumerGroup = getenv os ''REDPANDA_CONSUMER_GROUP'' ''cairnobs-ingest''\<rparr>,
       ig_ClickHouse = clickhouse_of os, ig_Batch = batch, ig_EnterpriseAuthURL = getenv os ''ENTERPRISE_AUTH_URL'' [],
       ig_AgentRegistry = \<lparr>sv_Addr = getenv os ''AGENT_REGISTRY_POSTGRES_ADDR'' [],
         sv_Database = getenv os ''AGENT_REGISTRY_POSTGRES_DATABASE'' ''cairnobs_metadata'',
         sv_Username = getenv os ''AGENT_REGISTRY_POSTGRES_USERNAME'' ''cairnobs'',
         sv_Password = getenv os ''AGENT_REGISTRY_POSTGRES_PASSWORD'' []\<rparr>\<rparr>)"

definition ingest_DevCredentialWarnings :: "ingest_config \<Rightarrow> string list" where
  "ingest_DevCredentialWarnings c = (if sv_Password (ig_ClickHouse c) = devOnlyCredential then [''CLICKHOUSE_PASSWORD''] else [])
     @ (if sv_Password (ig_AgentRegistry c) = devOnlyCredential then [''AGENT_REGISTRY_POSTGRES_PASSWORD''] else [])"

record eingest_config =
  ei_HTTPListenAddr :: string
  ei_ClickHouseAddr :: string
  ei_Postgres :: server_config
  ei_Redpanda :: redpanda_config
  ei_Batch :: batch_config

definition eingest_Load :: "environment \<Rightarrow> (config_error, eingest_config) result" where
  "eingest_Load os = bindE (batch_of os) (\<lambda>batch.
     Inr \<lparr>ei_HTTPListenAddr = getenv os ''HTTP_LISTEN_ADDR'' '':8084'', ei_ClickHouseAddr = getenv os ''CLICKHOUSE_ADDR'' ''localhost:9000'',
       ei_Postgres = postgres_of os,
       ei_Redpanda = \<lparr>Brokers = split_comma (getenv os ''REDPANDA_BROKERS'' ''localhost:9092''),
         Topic = getenv os ''REDPANDA_TOPIC'' ''cairnobs.logs.raw'',
         ConsumerGroup = getenv os ''REDPANDA_CONSUMER_GROUP'' ''cairnobs-enterprise-ingest''\<rparr>,
       ei_Batch = batch\<rparr>)"

definition eingest_DevCredentialWarnings :: "eingest_config \<Rightarrow> string list" where
  "eingest_DevCredentialWarnings c = (if sv_Password (ei_Postgres c) = devOnlyCredential then [''POSTGRES_PASSWORD''] else [])"

section \<open>Enterprise\<close>

record oidc_config =
  oi_IssuerURL :: string
  oi_ClientID :: string
  oi_ClientSecret :: string
  oi_RedirectURL :: string

record saml_config =
  sm_EntityID :: string
  sm_ACSURL :: string
  sm_IDPMetadataURL :: string

record eauth_config =
  ea_HTTPListenAddr :: string
  ea_Postgres :: server_config
  ea_OIDC :: oidc_config
  ea_SAML :: saml_config
  ea_SessionSigningKey :: string
  ea_PostLoginRedirectURL :: string
  ea_SelectTenantRedirectURL :: string
  ea_CORSAllowedOrigin :: string

definition devOnlySigningKey :: string where
  "devOnlySigningKey = ''cairnobs-dev-only-session-signing-key-32bytes+''"

definition eauth_Load :: "environment \<Rightarrow> (config_error, eauth_config) result" where
  "eauth_Load os =
    (let post = getenv os ''POST_LOGIN_REDIRECT_URL'' ''http://localhost:3000'';
       signingKey = getenv os ''ENTERPRISE_SESSION_SIGNING_KEY'' [] in
     if length signingKey < 32 then Inl (ShortSigningKey (length signingKey))
     else Inr \<lparr>ea_HTTPListenAddr = getenv os ''HTTP_LISTEN_ADDR'' '':8082'', ea_Postgres = postgres_of os,
       ea_OIDC = \<lparr>oi_IssuerURL = getenv os ''OIDC_ISSUER_URL'' [], oi_ClientID = getenv os ''OIDC_CLIENT_ID'' [],
         oi_ClientSecret = getenv os ''OIDC_CLIENT_SECRET'' [], oi_RedirectURL = getenv os ''OIDC_REDIRECT_URL'' []\<rparr>,
       ea_SAML = \<lparr>sm_EntityID = getenv os ''SAML_ENTITY_ID'' [], sm_ACSURL = getenv os ''SAML_ACS_URL'' [],
         sm_IDPMetadataURL = getenv os ''SAML_IDP_METADATA_URL'' []\<rparr>,
       ea_SessionSigningKey = signingKey, ea_PostLoginRedirectURL = post,
       ea_SelectTenantRedirectURL = getenv os ''SELECT_TENANT_REDIRECT_URL'' (post @ ''/select-tenant''),
       ea_CORSAllowedOrigin = getenv os ''CORS_ALLOWED_ORIGIN'' post\<rparr>)"

definition eauth_DevCredentialWarnings :: "eauth_config \<Rightarrow> string list" where
  "eauth_DevCredentialWarnings c = (if sv_Password (ea_Postgres c) = devOnlyCredential then [''POSTGRES_PASSWORD''] else [])
     @ (if ea_SessionSigningKey c = devOnlySigningKey then [''ENTERPRISE_SESSION_SIGNING_KEY''] else [])"

record eapi_config =
  ep_HTTPListenAddr :: string
  ep_ClickHouseAddr :: string
  ep_ClickHouseAdmin :: "string \<times> string"
  ep_Postgres :: server_config
  ep_AuditWriter :: "string \<times> string"
  ep_SearchGRPCAddr :: string
  ep_QueryTimeout :: int
  ep_CORSAllowedOrigin :: string
  ep_EnterpriseAuthURL :: string
  ep_TenantCRDNamespace :: string
  ep_AI :: ai_config

definition devOnlyAuditWriterCredential :: string where "devOnlyAuditWriterCredential = ''audit-writer-dev-only''"

definition eapi_Load :: "environment \<Rightarrow> (config_error, eapi_config) result" where
  "eapi_Load os = bindE (int_var os ''QUERY_TIMEOUT_SECONDS'' ''30'') (\<lambda>timeoutSec.
     Inr \<lparr>ep_HTTPListenAddr = getenv os ''HTTP_LISTEN_ADDR'' '':8083'', ep_ClickHouseAddr = getenv os ''CLICKHOUSE_ADDR'' ''localhost:9000'',
       ep_ClickHouseAdmin = (getenv os ''CLICKHOUSE_ADMIN_USERNAME'' ''default'', getenv os ''CLICKHOUSE_ADMIN_PASSWORD'' []),
       ep_Postgres = postgres_of os,
       ep_AuditWriter = (getenv os ''AUDIT_WRITER_USERNAME'' ''audit_writer'', getenv os ''AUDIT_WRITER_PASSWORD'' []),
       ep_SearchGRPCAddr = getenv os ''SEARCH_GRPC_ADDR'' ''localhost:50052'', ep_QueryTimeout = duration timeoutSec Second,
       ep_CORSAllowedOrigin = getenv os ''CORS_ALLOWED_ORIGIN'' ''*'', ep_EnterpriseAuthURL = getenv os ''ENTERPRISE_AUTH_URL'' [],
       ep_TenantCRDNamespace = getenv os ''TENANT_CRD_NAMESPACE'' [], ep_AI = ai_of os\<rparr>)"

definition eapi_DevCredentialWarnings :: "eapi_config \<Rightarrow> string list" where
  "eapi_DevCredentialWarnings c = (if snd (ep_ClickHouseAdmin c) = devOnlyCredential then [''CLICKHOUSE_ADMIN_PASSWORD''] else [])
     @ (if sv_Password (ep_Postgres c) = devOnlyCredential then [''POSTGRES_PASSWORD''] else [])
     @ (if snd (ep_AuditWriter c) = devOnlyAuditWriterCredential then [''AUDIT_WRITER_PASSWORD''] else [])"

section \<open>Lemmas\<close>

lemma int_var_unset: "os key = [] \<Longrightarrow> Atoi fallback = Some n \<Longrightarrow> int_var os key fallback = Inr n"
  by (simp add: int_var_def getenv_def)

lemma bool_var_set:
  "bool_var os ''LOCAL_AUTH_ENABLED'' ''false'' = Inr b \<longleftrightarrow>
     (if os ''LOCAL_AUTH_ENABLED'' = [] then \<not> b else ParseBool (os ''LOCAL_AUTH_ENABLED'') = Some b)"
  by (auto simp: bool_var_def getenv_def ParseBool_def split: option.split)

text \<open>The signing key of an enterprise deployment has at least 32 bytes; the configured redirect is the default
  of the two values derived from it.\<close>

lemma eauth_Load_key:
  assumes "eauth_Load os = Inr c"
  shows "32 \<le> length (ea_SessionSigningKey c)"
    and "os ''CORS_ALLOWED_ORIGIN'' = [] \<Longrightarrow> ea_CORSAllowedOrigin c = ea_PostLoginRedirectURL c"
proof -
  have "\<not> length (getenv os ''ENTERPRISE_SESSION_SIGNING_KEY'' []) < 32" using assms unfolding eauth_Load_def Let_def by fastforce
  moreover from this assms have "ea_SessionSigningKey c = getenv os ''ENTERPRISE_SESSION_SIGNING_KEY'' []"
    "ea_CORSAllowedOrigin c = getenv os ''CORS_ALLOWED_ORIGIN'' (ea_PostLoginRedirectURL c)"
    unfolding eauth_Load_def Let_def by (simp_all only: if_False sum.inject) (hypsubst, simp only: eauth_config.simps)+
  ultimately show "32 \<le> length (ea_SessionSigningKey c)"
    "os ''CORS_ALLOWED_ORIGIN'' = [] \<Longrightarrow> ea_CORSAllowedOrigin c = ea_PostLoginRedirectURL c"
    by (simp_all add: getenv_def)
qed

text \<open>Whether local login is on is read the same way by both services that act on it.\<close>

lemma local_auth_var:
  "api_Load os = Inr c \<Longrightarrow> bool_var os ''LOCAL_AUTH_ENABLED'' ''false'' = Inr (la_Enabled (ac_LocalAuth c))"
  "api_Load os = Inr c \<Longrightarrow> ac_EnterpriseAuthURL c = getenv os ''ENTERPRISE_AUTH_URL'' []"
  "alerting_Load os = Inr d \<Longrightarrow> bool_var os ''LOCAL_AUTH_ENABLED'' ''false'' = Inr (al_LocalAuthEnabled d)"
  unfolding api_Load_def alerting_Load_def bindE_eq_Inr sum.inject
  by (elim exE conjE, hypsubst, simp only: api_config.simps local_auth_config.simps alerting_config.simps)+

lemma local_auth_same:
  assumes "api_Load os = Inr c" "alerting_Load os = Inr d"
  shows "la_Enabled (ac_LocalAuth c) = al_LocalAuthEnabled d"
  using local_auth_var(1) [OF assms(1)] local_auth_var(3) [OF assms(2)] by simp

text \<open>Every decimal number is accepted as an interval, zero and values that wrap included. The
  evaluator and the delivery worker hand it to \<open>time.NewTicker\<close>, which panics unless it is positive.\<close>

lemma Atoi_values:
  "Atoi ''0'' = Some 0" "Atoi ''20'' = Some 20" "Atoi ''1000'' = Some 1000" "Atoi ''30'' = Some 30"
  by code_simp+

lemma Atoi_large: "Atoi ''9300000000'' = Some 9300000000"
  by (simp add: Atoi_def digits_val_def digit_val_def isDigit_def max_int64_def Let_def)

theorem tick_interval_unchecked:
  assumes "os ''EVALUATOR_TICK_SECONDS'' = t" "t = ''0'' \<or> t = ''9300000000''"
    and unset: "os ''EVALUATOR_WORKER_POOL_SIZE'' = []" "os ''EVALUATOR_CLAIM_BATCH_SIZE'' = []"
    "os ''EVALUATOR_QUERY_TIMEOUT_SECONDS'' = []" "os ''LOCAL_AUTH_ENABLED'' = []"
  shows "\<exists>c. alerting_Load os = Inr c \<and> ev_TickInterval (al_Evaluator c) \<le> 0"
proof -
  have "bool_var os ''LOCAL_AUTH_ENABLED'' ''false'' = Inr False" using unset(4) by (simp only: bool_var_set) simp
  moreover obtain n where "int_var os ''EVALUATOR_TICK_SECONDS'' ''5'' = Inr n" "duration n Second \<le> 0"
    using assms(1,2) Atoi_values(1) Atoi_large by (auto simp: int_var_def getenv_def duration_def wrap64_def Second_def)
  ultimately show ?thesis
    unfolding alerting_Load_def
    by (simp only: int_var_unset [of os "''EVALUATOR_WORKER_POOL_SIZE''", OF unset(1) Atoi_values(2)] int_var_unset [of os "''EVALUATOR_CLAIM_BATCH_SIZE''", OF unset(2) Atoi_values(3)]
      int_var_unset [of os "''EVALUATOR_QUERY_TIMEOUT_SECONDS''", OF unset(3) Atoi_values(4)] bindE.simps sum.inject ex_simps simp_thms alerting_config.simps evaluator_config.simps)
qed

end
