(* ===== verification/Deployment.thy ===== *)
theory Deployment
  imports Configuration Session_Check Dashboards Log_Retention Ai_Api Delivery
begin

text \<open>
  The processes as their \<open>main\<close> functions put them together: \<open>api/cmd/api\<close> with every handler behind the authorizer
  that the environment selects, \<open>alerting/cmd/alerting\<close> behind its session check, and the CORS wrappers around
  both. A route is the pattern that the request's method and path match, with the decoded body. The
  enterprise authorizer's HTTP call, the model server and the backends are arguments.
\<close>

section \<open>CORS\<close>

type_synonym headers = "(string \<times> string) list"

datatype 'r cors_reply = NoContentReply headers | Passed headers 'r

definition WithCORS :: "(http_request \<Rightarrow> 's \<Rightarrow> 'r \<times> 's) \<Rightarrow> string \<Rightarrow> http_request \<Rightarrow> 's \<Rightarrow> 'r cors_reply \<times> 's" where
  "WithCORS next allowedOrigin r s =
    (let h = [(''Access-Control-Allow-Origin'', allowedOrigin),
         (''Access-Control-Allow-Methods'', ''GET, POST, PUT, DELETE, OPTIONS''), (''Access-Control-Allow-Headers'', ''Content-Type'')] in
     if rq_Method r = ''OPTIONS'' then (NoContentReply h, s) else map_prod (Passed h) id (next r s))"

definition WithCredentialedCORS :: "(http_request \<Rightarrow> 's \<Rightarrow> 'r \<times> 's) \<Rightarrow> string \<Rightarrow> http_request \<Rightarrow> 's \<Rightarrow> 'r cors_reply \<times> 's" where
  "WithCredentialedCORS next allowedOrigin r s =
    (let h = [(''Access-Control-Allow-Origin'', allowedOrigin), (''Access-Control-Allow-Credentials'', ''true''),
         (''Access-Control-Allow-Methods'', ''GET, POST, PUT, DELETE, OPTIONS''), (''Access-Control-Allow-Headers'', ''Content-Type'')] in
     if rq_Method r = ''OPTIONS'' then (NoContentReply h, s) else map_prod (Passed h) id (next r s))"

section \<open>The api process\<close>

record api_state =
  st_auth :: auth_state
  st_boards :: dash_db
  st_agents :: agents_db
  st_logs :: "log_row list"

record ('e, 'v) api_deps =
  dp_auth :: auth_env
  dp_enterprise :: "string \<Rightarrow> string \<Rightarrow> string \<Rightarrow> (int \<times> identity option) option"
  dp_query :: "('e, 'v) query_env"
  dp_dash :: dash_env
  dp_agents :: agents_env
  dp_retention :: retention_env
  dp_post :: "string \<Rightarrow> chat_request \<Rightarrow> chat_outcome"
  dp_unmarshal :: unmarshal
  dp_snapshot :: schema_context

datatype api_route = ApiHealthz | ApiQuery "query_request option" | ApiDash dash_route | ApiAgents agents_route
  | ApiRetention retention_route | ApiAuth auth_route | ApiAI ai_route

datatype ('e, 'v) api_reply = NotRegistered | HealthOK | QueryAnswer "('e, 'v) query_reply guarded" | DashAnswer "dash_reply guarded"
  | AgentsAnswer "agents_reply guarded" | RetentionAnswer "retention_reply guarded" | AuthAnswer "auth_reply guarded"
  | AIAnswer "ollama_error ai_reply guarded"

definition local_env :: "api_config \<Rightarrow> ('e, 'v) api_deps \<Rightarrow> auth_env" where
  "local_env cfg deps = (dp_auth deps)\<lparr>le_ttl := la_SessionTTL (ac_LocalAuth cfg)\<rparr>"

definition api_authorizer :: "api_config \<Rightarrow> ('e, 'v) api_deps \<Rightarrow> auth_db \<Rightarrow> (http_request \<Rightarrow> (authz_error + authorize_error, identity) result) option" where
  "api_authorizer cfg deps db =
    (if ac_EnterpriseAuthURL cfg \<noteq> []
     then Some (\<lambda>r. map_sum Inl id (HTTPAuthorizer_Authorize (dp_enterprise deps (ac_EnterpriseAuthURL cfg)) r))
     else if la_Enabled (ac_LocalAuth cfg) then Some (\<lambda>r. map_sum Inr id (Authorize (local_env cfg deps) r db))
     else None)"

definition ai_router_of :: "(string \<Rightarrow> chat_request \<Rightarrow> chat_outcome) \<Rightarrow> unmarshal \<Rightarrow> ai_config \<Rightarrow> ollama_error provider router" where
  "ai_router_of post unmarshal ai =
    (let aiRouter = router_New (ollama_provider post unmarshal (ollama_New (OllamaBaseURL ai) (OllamaModel ai))) in
     if OllamaFastModel ai \<noteq> [] \<and> OllamaFastModel ai \<noteq> OllamaModel ai
     then SetOperation aiRouter OpComplete (ollama_provider post unmarshal (ollama_New (OllamaBaseURL ai) (OllamaFastModel ai)))
     else aiRouter)"

definition api_mux :: "api_config \<Rightarrow> ('e, 'v) api_deps \<Rightarrow> api_route \<Rightarrow> http_request \<Rightarrow> api_state \<Rightarrow> ('e, 'v) api_reply \<times> api_state" where
  "api_mux cfg deps route r st =
    (let au = api_authorizer cfg deps (as_db (st_auth st)) in
     case route of
       ApiHealthz \<Rightarrow> (HealthOK, st)
     | ApiQuery b \<Rightarrow> (QueryAnswer (fst (RequireRoleOrService (map_option (\<lambda>f r s. f r) au) RoleViewer
         (\<lambda>ctx s. (fst (handleQuery ((dp_query deps)\<lparr>env_audit := False\<rparr>) b), s)) r ())), st)
     | ApiDash x \<Rightarrow> (case dash_serve (dp_dash deps) False au r x (st_boards st) of (rep, db) \<Rightarrow> (DashAnswer rep, st\<lparr>st_boards := db\<rparr>))
     | ApiAgents x \<Rightarrow> (case agents_serve (dp_agents deps) None au r x (st_agents st, ()) of (rep, (db, _)) \<Rightarrow> (AgentsAnswer rep, st\<lparr>st_agents := db\<rparr>))
     | ApiRetention x \<Rightarrow> (case retention_serve (dp_retention deps) au r x (st_agents st, st_logs st) of (rep, (db, logs)) \<Rightarrow>
         (RetentionAnswer rep, st\<lparr>st_agents := db, st_logs := logs\<rparr>))
     | ApiAuth x \<Rightarrow>
         if ac_EnterpriseAuthURL cfg = [] \<and> la_Enabled (ac_LocalAuth cfg)
         then (case serve (local_env cfg deps) r x (st_auth st) of (rep, a) \<Rightarrow> (AuthAnswer rep, st\<lparr>st_auth := a\<rparr>))
         else (NotRegistered, st)
     | ApiAI x \<Rightarrow>
         if OllamaBaseURL (ac_AI cfg) \<noteq> []
         then (AIAnswer (fst (ai_serve (map_option (\<lambda>f r s. f r) au)
             \<lparr>ai_parse_time = env_parse_time (dp_query deps), ai_now = env_now (dp_query deps),
              ai_router = ai_router_of (dp_post deps) (dp_unmarshal deps) (ac_AI cfg), ai_schema = (\<lambda>_. dp_snapshot deps)\<rparr>
             None x r ())), st)
         else (NotRegistered, st))"

definition api_serve :: "api_config \<Rightarrow> ('e, 'v) api_deps \<Rightarrow> api_route \<Rightarrow> http_request \<Rightarrow> api_state \<Rightarrow> ('e, 'v) api_reply cors_reply \<times> api_state" where
  "api_serve cfg deps route r st = (if api_authorizer cfg deps (as_db (st_auth st)) \<noteq> None
     then WithCredentialedCORS (api_mux cfg deps route) (ac_CORSAllowedOrigin cfg) r st
     else WithCORS (api_mux cfg deps route) (ac_CORSAllowedOrigin cfg) r st)"

section \<open>The alerting process\<close>

definition alerting_serve :: "alerting_config \<Rightarrow> auth_env \<Rightarrow> auth_db \<Rightarrow> net_env \<Rightarrow> string \<Rightarrow> 'f alerting_route \<Rightarrow> http_request \<Rightarrow> 'f alert_db
    \<Rightarrow> 'f alert_reply guarded cors_reply \<times> 'f alert_db" where
  "alerting_serve cfg env sessions net uuid route r db =
    (let mux = alerting_handler net uuid (le_now env) route in
     if al_LocalAuthEnabled cfg then WithCredentialedCORS (RequireSession env sessions mux) (al_CORSAllowedOrigin cfg) r db
     else WithCORS (\<lambda>r s. map_prod Served id (mux s)) (al_CORSAllowedOrigin cfg) r db)"

section \<open>What a configured deployment lets through\<close>

text \<open>The floor of every route of the api, \<open>None\<close> for the three that are open by design, and the routes
  that the service credential of the alerting evaluator may call.\<close>

fun auth_floor :: "auth_route \<Rightarrow> role option" where
  "auth_floor (RLogin b) = None"
| "auth_floor RLogout = None"
| "auth_floor RSession = Some RoleViewer"
| "auth_floor (RPassword b) = Some RoleViewer"
| "auth_floor (RTimezone b) = Some RoleViewer"
| "auth_floor (RSetRole i b) = Some RoleOwner"
| "auth_floor x = Some RoleAdmin"

fun api_floor :: "api_route \<Rightarrow> role option" where
  "api_floor ApiHealthz = None"
| "api_floor (ApiQuery b) = Some RoleViewer"
| "api_floor (ApiDash x) = Some (dash_floor x)"
| "api_floor (ApiAgents x) = Some (agents_floor x)"
| "api_floor (ApiRetention x) = Some RoleAdmin"
| "api_floor (ApiAuth x) = auth_floor x"
| "api_floor (ApiAI x) = Some RoleViewer"

fun takes_service :: "api_route \<Rightarrow> bool" where
  "takes_service (ApiQuery b) = True"
| "takes_service (ApiAI x) = True"
| "takes_service x = False"

fun is_served :: "'r guarded \<Rightarrow> bool" where
  "is_served (Served x) = True"
| "is_served g = False"

fun api_answered :: "('e, 'v) api_reply cors_reply \<Rightarrow> bool" where
  "api_answered (NoContentReply h) = False"
| "api_answered (Passed h NotRegistered) = False"
| "api_answered (Passed h HealthOK) = True"
| "api_answered (Passed h (QueryAnswer g)) = is_served g"
| "api_answered (Passed h (DashAnswer g)) = is_served g"
| "api_answered (Passed h (AgentsAnswer g)) = is_served g"
| "api_answered (Passed h (RetentionAnswer g)) = is_served g"
| "api_answered (Passed h (AuthAnswer g)) = is_served g"
| "api_answered (Passed h (AIAnswer g)) = is_served g"

definition admits :: "role \<Rightarrow> bool \<Rightarrow> ('e, identity) result \<Rightarrow> bool" where
  "admits floor svc res = (case res of Inl _ \<Rightarrow> False | Inr i \<Rightarrow> Satisfies (id_Role i) floor \<or> svc \<and> id_Role i = RoleService)"

text \<open>A request that is not admitted passes neither guard.\<close>

lemma RequireRole_denied:
  assumes "\<not> admits floor False (au r s)"
  shows "snd (RequireRole (Some au) floor h r s) = s" "\<not> is_served (fst (RequireRole (Some au) floor h r s))"
  using assms by (auto simp: admits_def RequireRole_def split: sum.splits)

lemma RequireRoleOrService_denied:
  assumes "\<not> admits floor True (au r s)"
  shows "snd (RequireRoleOrService (Some au) floor h r s) = s" "\<not> is_served (fst (RequireRoleOrService (Some au) floor h r s))"
  using assms by (auto simp: admits_def RequireRoleOrService_def split: sum.splits)

lemma guard_db_denied:
  assumes "\<not> admits floor False (Authorize env r (as_db st))"
  shows "snd (guard_db env floor h r st) = st" "\<not> is_served (fst (guard_db env floor h r st))"
  using RequireRole_denied [of floor "Authorize env" r "as_db st" h] assms by (simp_all add: guard_db_def on_db_def)

lemma serve_denied:
  assumes "auth_floor route = Some floor" "\<not> admits floor False (Authorize env r (as_db st))"
  shows "snd (serve env r route st) = st" "\<not> is_served (fst (serve env r route st))"
  using assms(1) guard_db_denied [OF assms(2)] by (cases route; simp add: serve_def)+

text \<open>The mux keeps its state and answers nothing.\<close>

lemma admits_map [simp]: "admits floor svc (map_sum f id res) = admits floor svc res"
  by (cases res) (simp_all add: admits_def)

lemma api_mux_denied:
  assumes "api_authorizer cfg deps (as_db (st_auth st)) = Some au" "api_floor route = Some floor"
    "\<not> admits floor (takes_service route) (au r)"
  shows "snd (api_mux cfg deps route r st) = st \<and> \<not> api_answered (Passed h (fst (api_mux cfg deps route r st)))"
proof (cases route)
  case (ApiAuth x)
  have "\<not> admits floor False (Authorize (local_env cfg deps) r (as_db (st_auth st)))"
    if "ac_EnterpriseAuthURL cfg = []" "la_Enabled (ac_LocalAuth cfg)"
    using assms(1,3) ApiAuth that by (auto simp: api_authorizer_def)
  then show ?thesis
    using assms(2) ApiAuth serve_denied [of x floor "local_env cfg deps" r "st_auth st"]
    by (auto simp: api_mux_def split: prod.split)
next
  case (ApiDash x)
  then show ?thesis using assms RequireRole_denied [of floor "\<lambda>r s. au r" r "st_boards st" "dash_handler (dp_dash deps) \<lparr>authOn = True, permOn = False\<rparr> x"]
    by (auto simp: api_mux_def dash_serve_def split: prod.split)
next
  case (ApiAgents x)
  then show ?thesis using assms RequireRole_denied [of floor "\<lambda>r s. au r" r "(st_agents st, ())" "agents_handler (dp_agents deps) None x"]
    by (auto simp: api_mux_def agents_serve_def split: prod.split)
next
  case (ApiRetention x)
  then show ?thesis using assms RequireRole_denied [of floor "\<lambda>r s. au r" r "(st_agents st, st_logs st)" "retention_handler (dp_retention deps) x"]
    by (auto simp: api_mux_def retention_serve_def split: prod.split)
next
  case (ApiQuery b)
  then show ?thesis using assms by (simp add: api_mux_def RequireRoleOrService_denied(2))
next
  case (ApiAI x)
  then show ?thesis using assms by (simp add: api_mux_def ai_serve_def RequireRoleOrService_denied(2))
qed (use assms(2) in simp)

lemma api_serve_denied:
  assumes "api_authorizer cfg deps (as_db (st_auth st)) = Some au" "api_floor route = Some floor"
    "\<not> admits floor (takes_service route) (au r)"
  shows "snd (api_serve cfg deps route r st) = st \<and> \<not> api_answered (fst (api_serve cfg deps route r st))"
  using api_mux_denied [OF assms] assms(1)
  by (simp add: api_serve_def WithCredentialedCORS_def Let_def del: api_answered.simps(2-9))

text \<open>Either variable configures an authorizer, and what it resolves comes from where it says.\<close>

lemma api_Load_authorizer:
  assumes "api_Load os = Inr cfg" "os ''ENTERPRISE_AUTH_URL'' \<noteq> [] \<or> ParseBool (os ''LOCAL_AUTH_ENABLED'') = Some True"
  shows "ac_EnterpriseAuthURL cfg = os ''ENTERPRISE_AUTH_URL''"
    and "ac_EnterpriseAuthURL cfg \<noteq> [] \<or> la_Enabled (ac_LocalAuth cfg)"
proof -
  show url: "ac_EnterpriseAuthURL cfg = os ''ENTERPRISE_AUTH_URL''" using local_auth_var(2) [OF assms(1)] by (simp add: getenv_def Let_def)
  have "la_Enabled (ac_LocalAuth cfg)" if "ParseBool (os ''LOCAL_AUTH_ENABLED'') = Some True"
    using local_auth_var(1) [OF assms(1)] that unfolding bool_var_set by (auto simp: ParseBool_def split: if_splits)
  then show "ac_EnterpriseAuthURL cfg \<noteq> [] \<or> la_Enabled (ac_LocalAuth cfg)" using assms(2) url by auto
qed

lemma HTTPAuthorizer_Inr:
  "HTTPAuthorizer_Authorize call r = Inr i \<longleftrightarrow> call (rq_CookieHeader r) (rq_Authorization r) = Some (200, Some i)"
  by (auto simp: HTTPAuthorizer_Authorize_def split: option.split)

lemma api_authorizer_Inr:
  assumes "auth_inv db" "api_authorizer cfg deps db = Some au" "au r = Inr i"
  shows "if ac_EnterpriseAuthURL cfg \<noteq> []
     then dp_enterprise deps (ac_EnterpriseAuthURL cfg) (rq_CookieHeader r) (rq_Authorization r) = Some (200, Some i)
     else Authorize (local_env cfg deps) r db = Inr i \<and> holds_role db (id_UserID i) (id_Role i)"
proof (cases "ac_EnterpriseAuthURL cfg = []")
  case True
  then have "Authorize (local_env cfg deps) r db = Inr i"
    using assms(2,3) by (cases "Authorize (local_env cfg deps) r db") (auto simp: api_authorizer_def split: if_splits)
  then show ?thesis using True Authorize_Inr [OF assms(1)] by simp
next
  case False
  then have "HTTPAuthorizer_Authorize (dp_enterprise deps (ac_EnterpriseAuthURL cfg)) r = Inr i"
    using assms(2,3) by (cases "HTTPAuthorizer_Authorize (dp_enterprise deps (ac_EnterpriseAuthURL cfg)) r") (auto simp: api_authorizer_def)
  then show ?thesis using False by (simp add: HTTPAuthorizer_Inr)
qed

definition login_on :: environment where
  "login_on = (\<lambda>k. if k = ''LOCAL_AUTH_ENABLED'' then ''true'' else [])"

definition demo_deps :: "(unit, unit) api_deps" where
  "demo_deps = \<lparr>dp_auth = demo_env, dp_enterprise = (\<lambda>_ _ _. None),
     dp_query = \<lparr>env_parse_time = (\<lambda>_. None), env_runSQL = (\<lambda>_. Inl ()), env_search = (\<lambda>_ _. Inl ()), env_now = 5, env_start = 5, env_end = 5,
       env_audit = False\<rparr>,
     dp_dash = \<lparr>de_now = 5, de_uuid = (\<lambda>n. [CHR ''d'']), de_jsonb = Some\<rparr>,
     dp_agents = \<lparr>ge_now = 5, ge_uuid = ''u'', ge_newVersion = ''v'', ge_jsonb = (\<lambda>_. True), ge_collation = (\<lambda>_. 0)\<rparr>,
     dp_retention = \<lparr>re_now = 5, re_now2 = 5, re_collation = (\<lambda>_. 0), re_listFails = False, re_floorsFail = False, re_countFails = False,
       re_deleteFails = False, re_deleteApplied = True\<rparr>,
     dp_post = (\<lambda>_ _. CallFails), dp_unmarshal = (\<lambda>_ _. None), dp_snapshot = zero_schema\<rparr>"

definition demo_api_state :: api_state where
  "demo_api_state = \<lparr>st_auth = demo_state, st_boards = \<lparr>dt_boards = [], dt_panels = [], dt_grants = [], dt_tenants = [], dt_users = []\<rparr>,
     st_agents = \<lparr>ag_rows = [], ag_tenants = []\<rparr>, st_logs = []\<rparr>"

lemma login_on_loads:
  obtains cfg where "api_Load login_on = Inr cfg" "ac_EnterpriseAuthURL cfg = []" "la_Enabled (ac_LocalAuth cfg)"
proof -
  have "int_var login_on ''QUERY_TIMEOUT_SECONDS'' ''30'' = Inr 30" "bool_var login_on ''LOCAL_AUTH_ENABLED'' ''false'' = Inr True"
    "int_var login_on ''LOCAL_SESSION_TTL_HOURS'' ''720'' = Inr 720" "bool_var login_on ''LOCAL_AUTH_COOKIE_SECURE'' ''true'' = Inr True"
    "getenv login_on ''ENTERPRISE_AUTH_URL'' [] = []"
    by code_simp+
  then show ?thesis
    using that unfolding api_Load_def by (simp only: bindE.simps sum.inject api_config.simps local_auth_config.simps simp_thms)
qed

text \<open>C17: A configured api process is closed. If the configuration loads and either \<open>ENTERPRISE_AUTH_URL\<close> is set or
  \<open>LOCAL_AUTH_ENABLED\<close> is true, then a request to any route but \<open>/healthz\<close>, login and logout that changes
  any table or gets an answer other than a preflight, 401, 403 or 404 carries a credential that resolves
  to an identity of at least the route's role, or, on the query and AI routes only, to the service role:
  with an enterprise deployment enterprise-auth answered the forwarded headers with status 200 and
  that identity, and otherwise the credential's hash is that of an unexpired session whose user
  holds exactly that role in the account tables now.\<close>

theorem api_gated:
  assumes load: "api_Load os = Inr cfg"
    and on: "os ''ENTERPRISE_AUTH_URL'' \<noteq> [] \<or> ParseBool (os ''LOCAL_AUTH_ENABLED'') = Some True"
    and inv: "auth_inv (as_db (st_auth st))"
    and floor: "api_floor route = Some floor"
    and eff: "snd (api_serve cfg deps route r st) \<noteq> st \<or> api_answered (fst (api_serve cfg deps route r st))"
  shows "\<exists>i. (Satisfies (id_Role i) floor \<or> takes_service route \<and> id_Role i = RoleService)
    \<and> (if os ''ENTERPRISE_AUTH_URL'' \<noteq> []
       then dp_enterprise deps (os ''ENTERPRISE_AUTH_URL'') (rq_CookieHeader r) (rq_Authorization r) = Some (200, Some i)
       else Authorize (local_env cfg deps) r (as_db (st_auth st)) = Inr i
         \<and> holds_role (as_db (st_auth st)) (id_UserID i) (id_Role i))"
proof -
  let ?db = "as_db (st_auth st)"
  obtain au where au: "api_authorizer cfg deps ?db = Some au"
    using api_Load_authorizer(2) [OF load on] by (cases "api_authorizer cfg deps ?db") (auto simp: api_authorizer_def split: if_splits)
  have "admits floor (takes_service route) (au r)"
    using api_serve_denied [OF au floor, of r] eff by blast
  then obtain i where i: "au r = Inr i" "Satisfies (id_Role i) floor \<or> takes_service route \<and> id_Role i = RoleService"
    by (auto simp: admits_def split: sum.splits)
  show ?thesis
    using api_authorizer_Inr [OF inv au i(1)] i(2) unfolding api_Load_authorizer(1) [OF load on] by blast
qed

theorem api_gated_witness:
  "\<exists>cfg i. api_Load login_on = Inr cfg \<and> Satisfies (id_Role i) RoleViewer
     \<and> Authorize (local_env cfg demo_deps) (blank_request\<lparr>rq_Authorization := ''Bearer ta''\<rparr>) two_owners = Inr i"
proof -
  let ?r = "blank_request\<lparr>rq_Authorization := ''Bearer ta''\<rparr>"
  obtain cfg where cfg: "api_Load login_on = Inr cfg" "ac_EnterpriseAuthURL cfg = []" "la_Enabled (ac_LocalAuth cfg)"
    by (rule login_on_loads)
  have env: "local_env cfg demo_deps = demo_env\<lparr>le_ttl := la_SessionTTL (ac_LocalAuth cfg)\<rparr>" by (simp add: local_env_def demo_deps_def)
  have "is_served (fst (serve (local_env cfg demo_deps) ?r RSession demo_state))"
    unfolding env by code_simp
  then have "api_answered (fst (api_serve cfg demo_deps (ApiAuth RSession) ?r demo_api_state))"
    using cfg(2,3) by (auto simp: api_serve_def WithCredentialedCORS_def WithCORS_def api_mux_def demo_api_state_def blank_request_def split: prod.split)
  moreover have "ParseBool (login_on ''LOCAL_AUTH_ENABLED'') = Some True" "login_on ''ENTERPRISE_AUTH_URL'' = []"
    by (simp_all add: login_on_def ParseBool_def)
  moreover have "as_db (st_auth demo_api_state) = two_owners" by (simp add: demo_api_state_def demo_state_def)
  ultimately show ?thesis
    using api_gated [OF cfg(1), of demo_api_state "ApiAuth RSession" RoleViewer demo_deps ?r] two_owners_inv(1) cfg(1)
    by auto
qed

section \<open>Alerting beside the api\<close>

fun alerting_answered :: "'f alert_reply guarded cors_reply \<Rightarrow> bool" where
  "alerting_answered (NoContentReply h) = False"
| "alerting_answered (Passed h g) = is_served g"

text \<open>With local login on, the alerting service lets through what the api's middleware would: a session for
  reads, an editor for every other method.\<close>

lemma alerting_gated:
  assumes load: "alerting_Load os = Inr cfg" and on: "ParseBool (os ''LOCAL_AUTH_ENABLED'') = Some True"
    and inv: "auth_inv sessions" and path: "rq_Path r \<noteq> ''/healthz''"
    and eff: "snd (alerting_serve cfg env sessions net uuid route r db) \<noteq> db \<or> alerting_answered (fst (alerting_serve cfg env sessions net uuid route r db))"
  shows "\<exists>i. Authorize env r sessions = Inr i \<and> Satisfies (id_Role i) (if isReadOnly (rq_Method r) then RoleViewer else RoleEditor)
    \<and> holds_role sessions (id_UserID i) (id_Role i)"
proof -
  let ?floor = "if isReadOnly (rq_Method r) then RoleViewer else RoleEditor"
  have "al_LocalAuthEnabled cfg"
    using local_auth_var(3) [OF load] on unfolding bool_var_set by (auto simp: ParseBool_def split: if_splits)
  then have "admits ?floor False (Authorize env r sessions)"
    using eff RequireRole_denied [of ?floor "\<lambda>r s. Authorize env r sessions" r db "\<lambda>ctx s. alerting_handler net uuid (le_now env) route s"]
    by (auto simp: alerting_serve_def WithCredentialedCORS_def Let_def RequireSession_eq [OF inv path] split: if_splits)
  then obtain i where "Authorize env r sessions = Inr i" "Satisfies (id_Role i) ?floor"
    by (auto simp: admits_def split: sum.splits)
  then show ?thesis using Authorize_Inr [OF inv] by blast
qed

text \<open>Only local login closes the alerting service. In an enterprise deployment, where \<open>ENTERPRISE_AUTH_URL\<close> is
  set and \<open>LOCAL_AUTH_ENABLED\<close> is not, both configurations load, the api refuses a request without credentials on
  every guarded route, and the alerting service runs the handler of every request as it is, whatever
  credentials it carries.\<close>

theorem alerting_open_beside_enterprise:
  assumes "api_Load os = Inr acfg" "alerting_Load os = Inr cfg" "os ''ENTERPRISE_AUTH_URL'' \<noteq> []" "os ''LOCAL_AUTH_ENABLED'' = []"
    and "rq_Method r \<noteq> ''OPTIONS''"
  shows "alerting_serve cfg env sessions net uuid route r db =
      map_prod (\<lambda>x. Passed [(''Access-Control-Allow-Origin'', al_CORSAllowedOrigin cfg),
         (''Access-Control-Allow-Methods'', ''GET, POST, PUT, DELETE, OPTIONS''), (''Access-Control-Allow-Headers'', ''Content-Type'')] (Served x)) id
        (alerting_handler net uuid (le_now env) route db)
    \<and> (api_floor aroute \<noteq> None \<and> dp_enterprise deps (os ''ENTERPRISE_AUTH_URL'') (rq_CookieHeader r) (rq_Authorization r) = Some (401, None)
       \<longrightarrow> snd (api_serve acfg deps aroute r st) = st \<and> \<not> api_answered (fst (api_serve acfg deps aroute r st)))"
proof -
  have "\<not> al_LocalAuthEnabled cfg" using local_auth_var(3) [OF assms(2)] assms(4) unfolding bool_var_set by simp
  then have a: "alerting_serve cfg env sessions net uuid route r db =
      map_prod (\<lambda>x. Passed [(''Access-Control-Allow-Origin'', al_CORSAllowedOrigin cfg),
         (''Access-Control-Allow-Methods'', ''GET, POST, PUT, DELETE, OPTIONS''), (''Access-Control-Allow-Headers'', ''Content-Type'')] (Served x)) id
        (alerting_handler net uuid (le_now env) route db)"
    using assms(5) by (simp only: alerting_serve_def WithCORS_def Let_def if_False prod.map_comp o_def id_apply) (simp add: map_prod_def split_def)
  have url: "ac_EnterpriseAuthURL acfg = os ''ENTERPRISE_AUTH_URL''"
    using api_Load_authorizer(1) [OF assms(1)] assms(3) by simp
  let ?au = "\<lambda>r. map_sum Inl id (HTTPAuthorizer_Authorize (dp_enterprise deps (ac_EnterpriseAuthURL acfg)) r) :: (authz_error + authorize_error, identity) result"
  have "snd (api_serve acfg deps aroute r st) = st \<and> \<not> api_answered (fst (api_serve acfg deps aroute r st))"
    if "api_floor aroute = Some floor"
      and "dp_enterprise deps (os ''ENTERPRISE_AUTH_URL'') (rq_CookieHeader r) (rq_Authorization r) = Some (401, None)" for floor
    using that assms(3) url
    by (intro api_serve_denied [where au = ?au and floor = floor]) (auto simp: api_authorizer_def admits_def HTTPAuthorizer_Authorize_def)
  with a show ?thesis by blast
qed

end
