(* ===== verification/Terraform.thy ===== *)
theory Terraform
  imports Dashboards Delivery
begin

text \<open>
  The Terraform provider (\<open>terraform/internal/provider\<close>): its HTTP client, the conversions between API
  structures and Terraform models, the schemas, and the four operations of each resource. A model's attribute is null,
  unknown or a value. The HTTP exchange and JSON coding are arguments; \<open>js_compact\<close> is what \<open>json.Marshal\<close> makes of a
  \<open>json.RawMessage\<close>, \<open>None\<close> for text that \<open>json.Valid\<close> refuses. Reading a plan, state or
  configuration into its structure cannot fail for the provider's own schemas.
\<close>

section \<open>Values\<close>

datatype 'a tf_value = TfNull | TfUnknown | TfKnown 'a

fun value_or :: "'a \<Rightarrow> 'a tf_value \<Rightarrow> 'a" where
  "value_or z (TfKnown v) = v"
| "value_or z _ = z"

definition ValueString :: "string tf_value \<Rightarrow> string" where "ValueString = value_or []"
definition ValueInt64 :: "int tf_value \<Rightarrow> int" where "ValueInt64 = value_or 0"
definition ValueBool :: "bool tf_value \<Rightarrow> bool" where "ValueBool = value_or False"

text \<open>\<open>if !v.IsNull() { p = &v.Value() }\<close>; \<open>z\<close> is the zero value that an unknown reads as.\<close>

definition pointer_to :: "'a \<Rightarrow> 'a tf_value \<Rightarrow> 'a option" where
  "pointer_to z v = (if v = TfNull then None else Some (value_or z v))"

definition of_pointer :: "'a option \<Rightarrow> 'a tf_value" where
  "of_pointer p = (case p of None \<Rightarrow> TfNull | Some v \<Rightarrow> TfKnown v)"

section \<open>The client\<close>

record tf_panel =
  tp_ID :: string
  tp_DashboardID :: string
  tp_Title :: string
  tp_Query :: string
  tp_QueryLanguage :: string
  tp_VizType :: string
  tp_VizConfig :: string
  tp_PositionX :: int
  tp_PositionY :: int
  tp_Width :: int
  tp_Height :: int
  tp_EarliestOverride :: "string option"
  tp_LatestOverride :: "string option"
  tp_SortOrder :: int
  tp_CreatedAt :: string
  tp_UpdatedAt :: string

record tf_dashboard =
  td_ID :: string
  td_TenantID :: string
  td_Name :: string
  td_Description :: string
  td_DefaultEarliest :: string
  td_DefaultLatest :: string
  td_CreatedBy :: string
  td_CreatedAt :: string
  td_UpdatedAt :: string
  td_Panels :: "tf_panel list"

record 'f tf_rule =
  tr_ID :: string
  tr_TenantID :: string
  tr_Name :: string
  tr_Description :: string
  tr_Query :: string
  tr_QueryLanguage :: string
  tr_ConditionType :: string
  tr_Comparator :: "string option"
  tr_ThresholdValue :: "'f option"
  tr_EvalIntervalSeconds :: int
  tr_ForMinutes :: int
  tr_RenotifyIntervalMinutes :: "int option"
  tr_NotificationTargetID :: string
  tr_Enabled :: "bool option"
  tr_CreatedBy :: string

record tf_target =
  tt_ID :: string
  tt_TenantID :: string
  tt_Name :: string
  tt_Kind :: string
  tt_WebhookURL :: string
  tt_PayloadTemplate :: "string option"
  tt_Headers :: string
  tt_Secret :: "string option"
  tt_CreatedBy :: string

record tf_client =
  cl_baseURL :: string
  cl_token :: string

definition newClient :: "string \<Rightarrow> string \<Rightarrow> tf_client" where
  "newClient baseURL token = \<lparr>cl_baseURL = baseURL, cl_token = token\<rparr>"

datatype tf_error = TfEncoding | TfBuilding | TfSending | TfReading | apiError int string | TfDecoding | InvalidJSON string

fun isNotFound :: "tf_error \<Rightarrow> bool" where
  "isNotFound (apiError code _) = (code = 404)"
| "isNotFound _ = False"

text \<open>What comes of a request: a failure on the way, or the status with the body's text, the \<open>error\<close> member that it
  decodes to (empty if none) and the structure that it decodes to. A transport sees method, URL, \<open>Authorization\<close> header
  and encoded body.\<close>

datatype 'd exchange = Fails tf_error | Response int string string "'d option"

type_synonym ('d, 's) transport = "string \<Rightarrow> string \<Rightarrow> string \<Rightarrow> 'd option \<Rightarrow> 's \<Rightarrow> 'd exchange \<times> 's"

definition client_do :: "tf_client \<Rightarrow> ('d, 's) transport \<Rightarrow> string \<Rightarrow> string \<Rightarrow> 'd option \<Rightarrow> 'd \<Rightarrow> bool \<Rightarrow> 's \<Rightarrow> (tf_error, 'd) result \<times> 's" where
  "client_do c http method path body zero out s =
    (case http method (cl_baseURL c @ path) (if cl_token c \<noteq> [] then ''Bearer '' @ cl_token c else []) body s of
       (Fails e, s') \<Rightarrow> (Inl e, s')
     | (Response status raw err dec, s') \<Rightarrow>
       if status < 200 \<or> status \<ge> 300 then (Inl (apiError status (if err \<noteq> [] then err else raw)), s')
       else if \<not> out \<or> raw = [] then (Inr zero, s')
       else (case dec of None \<Rightarrow> Inl TfDecoding | Some d \<Rightarrow> Inr d, s'))"

text \<open>Zero values of the four structures.\<close>

definition zero_panel :: tf_panel where
  "zero_panel = \<lparr>tp_ID = [], tp_DashboardID = [], tp_Title = [], tp_Query = [], tp_QueryLanguage = [], tp_VizType = [], tp_VizConfig = [],
     tp_PositionX = 0, tp_PositionY = 0, tp_Width = 0, tp_Height = 0, tp_EarliestOverride = None, tp_LatestOverride = None, tp_SortOrder = 0,
     tp_CreatedAt = [], tp_UpdatedAt = []\<rparr>"

definition zero_dashboard :: tf_dashboard where
  "zero_dashboard = \<lparr>td_ID = [], td_TenantID = [], td_Name = [], td_Description = [], td_DefaultEarliest = [], td_DefaultLatest = [],
     td_CreatedBy = [], td_CreatedAt = [], td_UpdatedAt = [], td_Panels = []\<rparr>"

definition zero_rule :: "'f tf_rule" where
  "zero_rule = \<lparr>tr_ID = [], tr_TenantID = [], tr_Name = [], tr_Description = [], tr_Query = [], tr_QueryLanguage = [], tr_ConditionType = [],
     tr_Comparator = None, tr_ThresholdValue = None, tr_EvalIntervalSeconds = 0, tr_ForMinutes = 0, tr_RenotifyIntervalMinutes = None,
     tr_NotificationTargetID = [], tr_Enabled = None, tr_CreatedBy = []\<rparr>"

definition zero_target :: tf_target where
  "zero_target = \<lparr>tt_ID = [], tt_TenantID = [], tt_Name = [], tt_Kind = [], tt_WebhookURL = [], tt_PayloadTemplate = None, tt_Headers = [],
     tt_Secret = None, tt_CreatedBy = []\<rparr>"

definition createDashboard :: "tf_client \<Rightarrow> (tf_dashboard, 's) transport \<Rightarrow> tf_dashboard \<Rightarrow> 's \<Rightarrow> (tf_error, tf_dashboard) result \<times> 's" where
  "createDashboard c http d = client_do c http ''POST'' ''/dashboards'' (Some d) zero_dashboard True"

definition getDashboard :: "tf_client \<Rightarrow> (tf_dashboard, 's) transport \<Rightarrow> string \<Rightarrow> 's \<Rightarrow> (tf_error, tf_dashboard) result \<times> 's" where
  "getDashboard c http i = client_do c http ''GET'' (''/dashboards/'' @ i) None zero_dashboard True"

definition updateDashboard :: "tf_client \<Rightarrow> (tf_dashboard, 's) transport \<Rightarrow> string \<Rightarrow> tf_dashboard \<Rightarrow> 's \<Rightarrow> (tf_error, tf_dashboard) result \<times> 's" where
  "updateDashboard c http i d = client_do c http ''PUT'' (''/dashboards/'' @ i) (Some d) zero_dashboard True"

definition deleteDashboard :: "tf_client \<Rightarrow> (tf_dashboard, 's) transport \<Rightarrow> string \<Rightarrow> 's \<Rightarrow> (tf_error, tf_dashboard) result \<times> 's" where
  "deleteDashboard c http i = client_do c http ''DELETE'' (''/dashboards/'' @ i) None zero_dashboard False"

definition createRule :: "tf_client \<Rightarrow> ('f tf_rule, 's) transport \<Rightarrow> 'f tf_rule \<Rightarrow> 's \<Rightarrow> (tf_error, 'f tf_rule) result \<times> 's" where
  "createRule c http r = client_do c http ''POST'' ''/rules'' (Some r) zero_rule True"

definition getRule :: "tf_client \<Rightarrow> ('f tf_rule, 's) transport \<Rightarrow> string \<Rightarrow> 's \<Rightarrow> (tf_error, 'f tf_rule) result \<times> 's" where
  "getRule c http i = client_do c http ''GET'' (''/rules/'' @ i) None zero_rule True"

definition deleteRule :: "tf_client \<Rightarrow> ('f tf_rule, 's) transport \<Rightarrow> string \<Rightarrow> 's \<Rightarrow> (tf_error, 'f tf_rule) result \<times> 's" where
  "deleteRule c http i = client_do c http ''DELETE'' (''/rules/'' @ i) None zero_rule False"

definition createNotificationTarget :: "tf_client \<Rightarrow> (tf_target, 's) transport \<Rightarrow> tf_target \<Rightarrow> 's \<Rightarrow> (tf_error, tf_target) result \<times> 's" where
  "createNotificationTarget c http t = client_do c http ''POST'' ''/targets'' (Some t) zero_target True"

definition getNotificationTarget :: "tf_client \<Rightarrow> (tf_target, 's) transport \<Rightarrow> string \<Rightarrow> 's \<Rightarrow> (tf_error, tf_target) result \<times> 's" where
  "getNotificationTarget c http i = client_do c http ''GET'' (''/targets/'' @ i) None zero_target True"

definition deleteNotificationTarget :: "tf_client \<Rightarrow> (tf_target, 's) transport \<Rightarrow> string \<Rightarrow> 's \<Rightarrow> (tf_error, tf_target) result \<times> 's" where
  "deleteNotificationTarget c http i = client_do c http ''DELETE'' (''/targets/'' @ i) None zero_target False"

definition createPanel :: "tf_client \<Rightarrow> (tf_panel, 's) transport \<Rightarrow> string \<Rightarrow> tf_panel \<Rightarrow> 's \<Rightarrow> (tf_error, tf_panel) result \<times> 's" where
  "createPanel c http dashboardID p = client_do c http ''POST'' (''/dashboards/'' @ dashboardID @ ''/panels'') (Some p) zero_panel True"

definition updatePanel :: "tf_client \<Rightarrow> (tf_panel, 's) transport \<Rightarrow> string \<Rightarrow> string \<Rightarrow> tf_panel \<Rightarrow> 's \<Rightarrow> (tf_error, tf_panel) result \<times> 's" where
  "updatePanel c http dashboardID panelID p =
     client_do c http ''PUT'' (''/dashboards/'' @ dashboardID @ ''/panels/'' @ panelID) (Some p) zero_panel True"

definition deletePanel :: "tf_client \<Rightarrow> (tf_panel, 's) transport \<Rightarrow> string \<Rightarrow> string \<Rightarrow> 's \<Rightarrow> (tf_error, tf_panel) result \<times> 's" where
  "deletePanel c http dashboardID panelID =
     client_do c http ''DELETE'' (''/dashboards/'' @ dashboardID @ ''/panels/'' @ panelID) None zero_panel False"

definition getPanel :: "tf_client \<Rightarrow> (tf_dashboard, 's) transport \<Rightarrow> string \<Rightarrow> string \<Rightarrow> 's \<Rightarrow> (tf_error, tf_panel) result \<times> 's" where
  "getPanel c http dashboardID panelID s = (case getDashboard c http dashboardID s of
     (Inl e, s') \<Rightarrow> (Inl e, s')
   | (Inr d, s') \<Rightarrow> (case find (\<lambda>p. tp_ID p = panelID) (td_Panels d) of
       Some p \<Rightarrow> Inr p
     | None \<Rightarrow> Inl (apiError 404 (''panel '' @ panelID @ '' not found on dashboard '' @ dashboardID)), s'))"

section \<open>The provider\<close>

record tf_config =
  pc_Endpoint :: "string tf_value"
  pc_AlertingEndpoint :: "string tf_value"
  pc_Token :: "string tf_value"

record provider_data =
  pd_api :: tf_client
  pd_alerting :: tf_client

definition provider_Configure :: "(string \<Rightarrow> string) \<Rightarrow> tf_config \<Rightarrow> provider_data" where
  "provider_Configure os config =
    (let endpoint = ValueString (pc_Endpoint config);
       endpoint = (if endpoint = [] then os ''CAIRNOBS_API_ENDPOINT'' else endpoint);
       endpoint = (if endpoint = [] then ''http://localhost:8080'' else endpoint);
       alertingEndpoint = ValueString (pc_AlertingEndpoint config);
       alertingEndpoint = (if alertingEndpoint = [] then os ''CAIRNOBS_ALERTING_API_ENDPOINT'' else alertingEndpoint);
       alertingEndpoint = (if alertingEndpoint = [] then ''http://localhost:8081'' else alertingEndpoint);
       token = ValueString (pc_Token config);
       token = (if token = [] then os ''CAIRNOBS_API_TOKEN'' else token) in
     \<lparr>pd_api = newClient endpoint token, pd_alerting = newClient alertingEndpoint token\<rparr>)"

text \<open>What an operation leaves: the diagnostic it adds, if any, and the resource's state, \<open>None\<close> when it is not
  in the state.\<close>

type_synonym 'm tf_resp = "(string \<times> tf_error) option \<times> 'm option"

text \<open>The shared shapes of the operations' ends: set the state from what the API returned or add a diagnostic and keep the
  state the framework prepared; for \<open>Read\<close>, drop a resource that the API does not find; for \<open>Delete\<close>, ignore that.\<close>

definition set_from :: "string \<Rightarrow> 'm option \<Rightarrow> ('d \<Rightarrow> 'm) \<Rightarrow> (tf_error, 'd) result \<times> 's \<Rightarrow> 'm tf_resp \<times> 's" where
  "set_from title prior conv = map_prod (\<lambda>res. case res of Inl e \<Rightarrow> (Some (title, e), prior) | Inr out \<Rightarrow> (None, Some (conv out))) id"

definition read_from :: "string \<Rightarrow> 'm option \<Rightarrow> ('d \<Rightarrow> 'm) \<Rightarrow> (tf_error, 'd) result \<times> 's \<Rightarrow> 'm tf_resp \<times> 's" where
  "read_from title prior conv = map_prod (\<lambda>res. case res of
       Inl e \<Rightarrow> if isNotFound e then (None, None) else (Some (title, e), prior)
     | Inr out \<Rightarrow> (None, Some (conv out))) id"

definition delete_from :: "string \<Rightarrow> 'm option \<Rightarrow> (tf_error, 'd) result \<times> 's \<Rightarrow> 'm tf_resp \<times> 's" where
  "delete_from title prior = map_prod (\<lambda>res. case res of
       Inl e \<Rightarrow> if isNotFound e then (None, None) else (Some (title, e), prior)
     | Inr _ \<Rightarrow> (None, None)) id"

section \<open>Alert rules\<close>

record 'f rule_model =
  rm_ID :: "string tf_value"
  rm_TenantID :: "string tf_value"
  rm_Name :: "string tf_value"
  rm_Description :: "string tf_value"
  rm_Query :: "string tf_value"
  rm_QueryLanguage :: "string tf_value"
  rm_ConditionType :: "string tf_value"
  rm_Comparator :: "string tf_value"
  rm_ThresholdValue :: "'f tf_value"
  rm_EvalIntervalSeconds :: "int tf_value"
  rm_ForMinutes :: "int tf_value"
  rm_RenotifyIntervalMinutes :: "int tf_value"
  rm_NotificationTargetID :: "string tf_value"
  rm_Enabled :: "bool tf_value"
  rm_CreatedBy :: "string tf_value"

definition alertRuleModelFromAPI :: "'f tf_rule \<Rightarrow> 'f rule_model" where
  "alertRuleModelFromAPI rl = \<lparr>rm_ID = TfKnown (tr_ID rl), rm_TenantID = TfKnown (tr_TenantID rl), rm_Name = TfKnown (tr_Name rl),
     rm_Description = TfKnown (tr_Description rl), rm_Query = TfKnown (tr_Query rl), rm_QueryLanguage = TfKnown (tr_QueryLanguage rl),
     rm_ConditionType = TfKnown (tr_ConditionType rl), rm_Comparator = of_pointer (tr_Comparator rl),
     rm_ThresholdValue = of_pointer (tr_ThresholdValue rl), rm_EvalIntervalSeconds = TfKnown (tr_EvalIntervalSeconds rl),
     rm_ForMinutes = TfKnown (tr_ForMinutes rl), rm_RenotifyIntervalMinutes = of_pointer (tr_RenotifyIntervalMinutes rl),
     rm_NotificationTargetID = TfKnown (tr_NotificationTargetID rl),
     rm_Enabled = TfKnown (case tr_Enabled rl of None \<Rightarrow> True | Some b \<Rightarrow> b), rm_CreatedBy = TfKnown (tr_CreatedBy rl)\<rparr>"

text \<open>\<open>fz\<close> is the number 0.\<close>

definition alertRuleAPIFromModel :: "'f \<Rightarrow> 'f rule_model \<Rightarrow> 'f tf_rule" where
  "alertRuleAPIFromModel fz m = zero_rule\<lparr>tr_Name := ValueString (rm_Name m), tr_Description := ValueString (rm_Description m),
     tr_Query := ValueString (rm_Query m), tr_QueryLanguage := ValueString (rm_QueryLanguage m),
     tr_ConditionType := ValueString (rm_ConditionType m), tr_EvalIntervalSeconds := ValueInt64 (rm_EvalIntervalSeconds m),
     tr_ForMinutes := ValueInt64 (rm_ForMinutes m), tr_NotificationTargetID := ValueString (rm_NotificationTargetID m),
     tr_Comparator := pointer_to [] (rm_Comparator m), tr_ThresholdValue := pointer_to fz (rm_ThresholdValue m),
     tr_RenotifyIntervalMinutes := pointer_to 0 (rm_RenotifyIntervalMinutes m), tr_Enabled := pointer_to False (rm_Enabled m)\<rparr>"

definition alertRule_Create :: "'f \<Rightarrow> tf_client \<Rightarrow> ('f tf_rule, 's) transport \<Rightarrow> 'f rule_model \<Rightarrow> 's \<Rightarrow> 'f rule_model tf_resp \<times> 's" where
  "alertRule_Create fz c http plan s =
     set_from ''Creating Alert Rule'' None alertRuleModelFromAPI (createRule c http (alertRuleAPIFromModel fz plan) s)"

definition alertRule_Read :: "tf_client \<Rightarrow> ('f tf_rule, 's) transport \<Rightarrow> 'f rule_model \<Rightarrow> 's \<Rightarrow> 'f rule_model tf_resp \<times> 's" where
  "alertRule_Read c http state s =
     read_from ''Reading Alert Rule'' (Some state) alertRuleModelFromAPI (getRule c http (ValueString (rm_ID state)) s)"

definition alertRule_Update :: "tf_client \<Rightarrow> ('f tf_rule, 's) transport \<Rightarrow> 'f rule_model \<Rightarrow> 'f rule_model \<Rightarrow> 's \<Rightarrow> 'f rule_model tf_resp \<times> 's" where
  "alertRule_Update c http plan prior s =
     set_from ''Reading Alert Rule'' (Some prior) alertRuleModelFromAPI (getRule c http (ValueString (rm_ID plan)) s)"

definition alertRule_Delete :: "tf_client \<Rightarrow> ('f tf_rule, 's) transport \<Rightarrow> 'f rule_model \<Rightarrow> 's \<Rightarrow> 'f rule_model tf_resp \<times> 's" where
  "alertRule_Delete c http state s =
     delete_from ''Deleting Alert Rule'' (Some state) (deleteRule c http (ValueString (rm_ID state)) s)"

text \<open>A data source has no state of its own to keep: any error is a diagnostic.\<close>

definition alertRule_DataRead :: "tf_client \<Rightarrow> ('f tf_rule, 's) transport \<Rightarrow> 'f rule_model \<Rightarrow> 's \<Rightarrow> 'f rule_model tf_resp \<times> 's" where
  "alertRule_DataRead c http config s =
     set_from ''Reading Alert Rule'' None alertRuleModelFromAPI (getRule c http (ValueString (rm_ID config)) s)"

section \<open>Notification targets\<close>

record target_model =
  tm_ID :: "string tf_value"
  tm_TenantID :: "string tf_value"
  tm_Name :: "string tf_value"
  tm_Kind :: "string tf_value"
  tm_WebhookURL :: "string tf_value"
  tm_PayloadTemplate :: "string tf_value"
  tm_Headers :: "string tf_value"
  tm_Secret :: "string tf_value"
  tm_CreatedBy :: "string tf_value"

definition notificationTargetModelFromAPI :: "tf_target \<Rightarrow> target_model" where
  "notificationTargetModelFromAPI t = \<lparr>tm_ID = TfKnown (tt_ID t), tm_TenantID = TfKnown (tt_TenantID t), tm_Name = TfKnown (tt_Name t),
     tm_Kind = TfKnown (tt_Kind t), tm_WebhookURL = TfKnown (tt_WebhookURL t), tm_PayloadTemplate = of_pointer (tt_PayloadTemplate t),
     tm_Headers = (if length (tt_Headers t) > 0 then TfKnown (tt_Headers t) else TfNull), tm_Secret = of_pointer (tt_Secret t),
     tm_CreatedBy = TfKnown (tt_CreatedBy t)\<rparr>"

definition notificationTargetAPIFromModel :: "(string \<Rightarrow> string option) \<Rightarrow> target_model \<Rightarrow> (tf_error, tf_target) result" where
  "notificationTargetAPIFromModel js_compact m =
    (let t = zero_target\<lparr>tt_Name := ValueString (tm_Name m), tt_Kind := ValueString (tm_Kind m), tt_WebhookURL := ValueString (tm_WebhookURL m),
           tt_PayloadTemplate := pointer_to [] (tm_PayloadTemplate m), tt_Secret := pointer_to [] (tm_Secret m)\<rparr> in
     if tm_Headers m = TfNull then Inr t
     else let raw = ValueString (tm_Headers m) in
       if js_compact raw = None then Inl (InvalidJSON raw) else Inr (t\<lparr>tt_Headers := raw\<rparr>))"

definition notificationTarget_Create :: "(string \<Rightarrow> string option) \<Rightarrow> tf_client \<Rightarrow> (tf_target, 's) transport \<Rightarrow> target_model \<Rightarrow> 's
    \<Rightarrow> target_model tf_resp \<times> 's" where
  "notificationTarget_Create js_compact c http plan s = (case notificationTargetAPIFromModel js_compact plan of
     Inl e \<Rightarrow> ((Some (''Invalid Configuration'', e), None), s)
   | Inr t \<Rightarrow> set_from ''Creating Notification Target'' None notificationTargetModelFromAPI (createNotificationTarget c http t s))"

definition notificationTarget_Read :: "tf_client \<Rightarrow> (tf_target, 's) transport \<Rightarrow> target_model \<Rightarrow> 's \<Rightarrow> target_model tf_resp \<times> 's" where
  "notificationTarget_Read c http state s = read_from ''Reading Notification Target'' (Some state) notificationTargetModelFromAPI
     (getNotificationTarget c http (ValueString (tm_ID state)) s)"

definition notificationTarget_Update :: "tf_client \<Rightarrow> (tf_target, 's) transport \<Rightarrow> target_model \<Rightarrow> target_model \<Rightarrow> 's \<Rightarrow> target_model tf_resp \<times> 's" where
  "notificationTarget_Update c http plan prior s = set_from ''Reading Notification Target'' (Some prior) notificationTargetModelFromAPI
     (getNotificationTarget c http (ValueString (tm_ID plan)) s)"

definition notificationTarget_Delete :: "tf_client \<Rightarrow> (tf_target, 's) transport \<Rightarrow> target_model \<Rightarrow> 's \<Rightarrow> target_model tf_resp \<times> 's" where
  "notificationTarget_Delete c http state s = delete_from ''Deleting Notification Target'' (Some state)
     (deleteNotificationTarget c http (ValueString (tm_ID state)) s)"

definition notificationTarget_DataRead :: "tf_client \<Rightarrow> (tf_target, 's) transport \<Rightarrow> target_model \<Rightarrow> 's \<Rightarrow> target_model tf_resp \<times> 's" where
  "notificationTarget_DataRead c http config s = set_from ''Reading Notification Target'' None notificationTargetModelFromAPI
     (getNotificationTarget c http (ValueString (tm_ID config)) s)"

section \<open>Dashboards\<close>

record dashboard_model =
  dm_ID :: "string tf_value"
  dm_TenantID :: "string tf_value"
  dm_Name :: "string tf_value"
  dm_Description :: "string tf_value"
  dm_DefaultEarliest :: "string tf_value"
  dm_DefaultLatest :: "string tf_value"
  dm_CreatedBy :: "string tf_value"
  dm_CreatedAt :: "string tf_value"
  dm_UpdatedAt :: "string tf_value"

definition dashboardModelFromAPI :: "tf_dashboard \<Rightarrow> dashboard_model" where
  "dashboardModelFromAPI d = \<lparr>dm_ID = TfKnown (td_ID d), dm_TenantID = TfKnown (td_TenantID d), dm_Name = TfKnown (td_Name d),
     dm_Description = TfKnown (td_Description d), dm_DefaultEarliest = TfKnown (td_DefaultEarliest d),
     dm_DefaultLatest = TfKnown (td_DefaultLatest d), dm_CreatedBy = TfKnown (td_CreatedBy d), dm_CreatedAt = TfKnown (td_CreatedAt d),
     dm_UpdatedAt = TfKnown (td_UpdatedAt d)\<rparr>"

definition dashboard_in :: "dashboard_model \<Rightarrow> tf_dashboard" where
  "dashboard_in plan = zero_dashboard\<lparr>td_Name := ValueString (dm_Name plan), td_Description := ValueString (dm_Description plan),
     td_DefaultEarliest := ValueString (dm_DefaultEarliest plan), td_DefaultLatest := ValueString (dm_DefaultLatest plan)\<rparr>"

definition dashboard_Create :: "tf_client \<Rightarrow> (tf_dashboard, 's) transport \<Rightarrow> dashboard_model \<Rightarrow> 's \<Rightarrow> dashboard_model tf_resp \<times> 's" where
  "dashboard_Create c http plan s = set_from ''Creating Dashboard'' None dashboardModelFromAPI (createDashboard c http (dashboard_in plan) s)"

definition dashboard_Read :: "tf_client \<Rightarrow> (tf_dashboard, 's) transport \<Rightarrow> dashboard_model \<Rightarrow> 's \<Rightarrow> dashboard_model tf_resp \<times> 's" where
  "dashboard_Read c http state s = read_from ''Reading Dashboard'' (Some state) dashboardModelFromAPI
     (getDashboard c http (ValueString (dm_ID state)) s)"

definition dashboard_Update :: "tf_client \<Rightarrow> (tf_dashboard, 's) transport \<Rightarrow> dashboard_model \<Rightarrow> dashboard_model \<Rightarrow> 's \<Rightarrow> dashboard_model tf_resp \<times> 's" where
  "dashboard_Update c http plan prior s = set_from ''Updating Dashboard'' (Some prior) dashboardModelFromAPI
     (updateDashboard c http (ValueString (dm_ID plan)) (dashboard_in plan) s)"

definition dashboard_Delete :: "tf_client \<Rightarrow> (tf_dashboard, 's) transport \<Rightarrow> dashboard_model \<Rightarrow> 's \<Rightarrow> dashboard_model tf_resp \<times> 's" where
  "dashboard_Delete c http state s = delete_from ''Deleting Dashboard'' (Some state) (deleteDashboard c http (ValueString (dm_ID state)) s)"

definition dashboard_DataRead :: "tf_client \<Rightarrow> (tf_dashboard, 's) transport \<Rightarrow> dashboard_model \<Rightarrow> 's \<Rightarrow> dashboard_model tf_resp \<times> 's" where
  "dashboard_DataRead c http config s = set_from ''Reading Dashboard'' None dashboardModelFromAPI
     (getDashboard c http (ValueString (dm_ID config)) s)"

section \<open>Panels\<close>

record panel_model =
  pm_ID :: "string tf_value"
  pm_DashboardID :: "string tf_value"
  pm_Title :: "string tf_value"
  pm_Query :: "string tf_value"
  pm_QueryLanguage :: "string tf_value"
  pm_VizType :: "string tf_value"
  pm_VizConfig :: "string tf_value"
  pm_PositionX :: "int tf_value"
  pm_PositionY :: "int tf_value"
  pm_Width :: "int tf_value"
  pm_Height :: "int tf_value"
  pm_EarliestOverride :: "string tf_value"
  pm_LatestOverride :: "string tf_value"
  pm_SortOrder :: "int tf_value"
  pm_CreatedAt :: "string tf_value"
  pm_UpdatedAt :: "string tf_value"

definition dashboardPanelModelFromAPI :: "string \<Rightarrow> tf_panel \<Rightarrow> panel_model" where
  "dashboardPanelModelFromAPI dashboardID p = \<lparr>pm_ID = TfKnown (tp_ID p), pm_DashboardID = TfKnown dashboardID, pm_Title = TfKnown (tp_Title p),
     pm_Query = TfKnown (tp_Query p), pm_QueryLanguage = TfKnown (tp_QueryLanguage p), pm_VizType = TfKnown (tp_VizType p),
     pm_VizConfig = TfKnown (if length (tp_VizConfig p) > 0 then tp_VizConfig p else ''{}''),
     pm_PositionX = TfKnown (tp_PositionX p), pm_PositionY = TfKnown (tp_PositionY p), pm_Width = TfKnown (tp_Width p),
     pm_Height = TfKnown (tp_Height p), pm_EarliestOverride = of_pointer (tp_EarliestOverride p),
     pm_LatestOverride = of_pointer (tp_LatestOverride p), pm_SortOrder = TfKnown (tp_SortOrder p),
     pm_CreatedAt = TfKnown (tp_CreatedAt p), pm_UpdatedAt = TfKnown (tp_UpdatedAt p)\<rparr>"

definition dashboardPanelAPIFromModel :: "(string \<Rightarrow> string option) \<Rightarrow> panel_model \<Rightarrow> (tf_error, tf_panel) result" where
  "dashboardPanelAPIFromModel js_compact m =
    (let p = zero_panel\<lparr>tp_Title := ValueString (pm_Title m), tp_Query := ValueString (pm_Query m),
           tp_QueryLanguage := ValueString (pm_QueryLanguage m), tp_VizType := ValueString (pm_VizType m),
           tp_PositionX := ValueInt64 (pm_PositionX m), tp_PositionY := ValueInt64 (pm_PositionY m), tp_Width := ValueInt64 (pm_Width m),
           tp_Height := ValueInt64 (pm_Height m), tp_SortOrder := ValueInt64 (pm_SortOrder m),
           tp_EarliestOverride := pointer_to [] (pm_EarliestOverride m), tp_LatestOverride := pointer_to [] (pm_LatestOverride m)\<rparr> in
     if pm_VizConfig m = TfNull then Inr p
     else let raw = ValueString (pm_VizConfig m) in
       if js_compact raw = None then Inl (InvalidJSON raw) else Inr (p\<lparr>tp_VizConfig := raw\<rparr>))"

definition dashboardPanel_Create :: "(string \<Rightarrow> string option) \<Rightarrow> tf_client \<Rightarrow> (tf_panel, 's) transport \<Rightarrow> panel_model \<Rightarrow> 's \<Rightarrow> panel_model tf_resp \<times> 's" where
  "dashboardPanel_Create js_compact c http plan s = (case dashboardPanelAPIFromModel js_compact plan of
     Inl e \<Rightarrow> ((Some (''Invalid Configuration'', e), None), s)
   | Inr p \<Rightarrow> let dashboardID = ValueString (pm_DashboardID plan) in
       set_from ''Creating Dashboard Panel'' None (dashboardPanelModelFromAPI dashboardID) (createPanel c http dashboardID p s))"

definition dashboardPanel_Read :: "tf_client \<Rightarrow> (tf_dashboard, 's) transport \<Rightarrow> panel_model \<Rightarrow> 's \<Rightarrow> panel_model tf_resp \<times> 's" where
  "dashboardPanel_Read c http state s = (let dashboardID = ValueString (pm_DashboardID state) in
     read_from ''Reading Dashboard Panel'' (Some state) (dashboardPanelModelFromAPI dashboardID)
       (getPanel c http dashboardID (ValueString (pm_ID state)) s))"

definition dashboardPanel_Update :: "(string \<Rightarrow> string option) \<Rightarrow> tf_client \<Rightarrow> (tf_panel, 's) transport \<Rightarrow> panel_model \<Rightarrow> panel_model \<Rightarrow> 's
    \<Rightarrow> panel_model tf_resp \<times> 's" where
  "dashboardPanel_Update js_compact c http plan prior s = (case dashboardPanelAPIFromModel js_compact plan of
     Inl e \<Rightarrow> ((Some (''Invalid Configuration'', e), Some prior), s)
   | Inr p \<Rightarrow> let dashboardID = ValueString (pm_DashboardID plan) in
       set_from ''Updating Dashboard Panel'' (Some prior) (dashboardPanelModelFromAPI dashboardID)
         (updatePanel c http dashboardID (ValueString (pm_ID plan)) p s))"

definition dashboardPanel_Delete :: "tf_client \<Rightarrow> (tf_panel, 's) transport \<Rightarrow> panel_model \<Rightarrow> 's \<Rightarrow> panel_model tf_resp \<times> 's" where
  "dashboardPanel_Delete c http state s = delete_from ''Deleting Dashboard Panel'' (Some state)
     (deletePanel c http (ValueString (pm_DashboardID state)) (ValueString (pm_ID state)) s)"

definition dashboardPanel_DataRead :: "tf_client \<Rightarrow> (tf_dashboard, 's) transport \<Rightarrow> panel_model \<Rightarrow> 's \<Rightarrow> panel_model tf_resp \<times> 's" where
  "dashboardPanel_DataRead c http config s = (let dashboardID = ValueString (pm_DashboardID config) in
     set_from ''Reading Dashboard Panel'' None (dashboardPanelModelFromAPI dashboardID)
       (getPanel c http dashboardID (ValueString (pm_ID config)) s))"

definition splitImportID :: "string \<Rightarrow> (string \<times> string) option" where
  "splitImportID i = (if CHR ''/'' \<notin> set i then None
     else let panelID = rev (takeWhile (\<lambda>ch. ch \<noteq> CHR ''/'') (rev i)) in Some (take (length i - length panelID - 1) i, panelID))"

text \<open>The state that an import starts \<open>Read\<close> from: the identifiers known, everything else null.\<close>

definition null_panel_model :: panel_model where
  "null_panel_model = \<lparr>pm_ID = TfNull, pm_DashboardID = TfNull, pm_Title = TfNull, pm_Query = TfNull, pm_QueryLanguage = TfNull, pm_VizType = TfNull,
     pm_VizConfig = TfNull, pm_PositionX = TfNull, pm_PositionY = TfNull, pm_Width = TfNull, pm_Height = TfNull, pm_EarliestOverride = TfNull,
     pm_LatestOverride = TfNull, pm_SortOrder = TfNull, pm_CreatedAt = TfNull, pm_UpdatedAt = TfNull\<rparr>"

definition dashboardPanel_ImportState :: "string \<Rightarrow> panel_model option" where
  "dashboardPanel_ImportState i = (case splitImportID i of
     None \<Rightarrow> None
   | Some (dashboardID, panelID) \<Rightarrow> Some (null_panel_model\<lparr>pm_DashboardID := TfKnown dashboardID, pm_ID := TfKnown panelID\<rparr>))"

section \<open>Schemas\<close>

text \<open>An attribute of a schema: how a configuration may set it, whether it has a static default, and its plan modifiers
  \<open>UseStateForUnknown\<close> and \<open>RequiresReplace\<close>.\<close>

record tf_attribute =
  sa_Required :: bool
  sa_Optional :: bool
  sa_Computed :: bool
  sa_Default :: bool
  sa_UseState :: bool
  sa_Replace :: bool

definition required_attr :: tf_attribute where
  "required_attr = \<lparr>sa_Required = True, sa_Optional = False, sa_Computed = False, sa_Default = False, sa_UseState = False, sa_Replace = False\<rparr>"
definition optional_attr :: tf_attribute where
  "optional_attr = \<lparr>sa_Required = False, sa_Optional = True, sa_Computed = False, sa_Default = False, sa_UseState = False, sa_Replace = False\<rparr>"
definition computed_attr :: tf_attribute where
  "computed_attr = \<lparr>sa_Required = False, sa_Optional = False, sa_Computed = True, sa_Default = False, sa_UseState = False, sa_Replace = False\<rparr>"
definition default_attr :: tf_attribute where
  "default_attr = \<lparr>sa_Required = False, sa_Optional = True, sa_Computed = True, sa_Default = True, sa_UseState = False, sa_Replace = False\<rparr>"

type_synonym tf_schema = "(string \<times> tf_attribute) list"

definition alertRule_Schema :: tf_schema where
  "alertRule_Schema = [(''id'', computed_attr\<lparr>sa_UseState := True\<rparr>), (''tenant_id'', computed_attr\<lparr>sa_UseState := True\<rparr>),
     (''name'', required_attr\<lparr>sa_Replace := True\<rparr>), (''description'', default_attr\<lparr>sa_Replace := True\<rparr>),
     (''query'', required_attr\<lparr>sa_Replace := True\<rparr>), (''query_language'', default_attr\<lparr>sa_Replace := True\<rparr>),
     (''condition_type'', required_attr\<lparr>sa_Replace := True\<rparr>), (''comparator'', optional_attr\<lparr>sa_Replace := True\<rparr>),
     (''threshold_value'', optional_attr\<lparr>sa_Replace := True\<rparr>), (''eval_interval_seconds'', required_attr\<lparr>sa_Replace := True\<rparr>),
     (''for_minutes'', default_attr\<lparr>sa_Replace := True\<rparr>), (''renotify_interval_minutes'', optional_attr\<lparr>sa_Replace := True\<rparr>),
     (''notification_target_id'', required_attr\<lparr>sa_Replace := True\<rparr>), (''enabled'', default_attr\<lparr>sa_Replace := True\<rparr>),
     (''created_by'', computed_attr\<lparr>sa_UseState := True\<rparr>)]"

definition notificationTarget_Schema :: tf_schema where
  "notificationTarget_Schema = [(''id'', computed_attr\<lparr>sa_UseState := True\<rparr>), (''tenant_id'', computed_attr\<lparr>sa_UseState := True\<rparr>),
     (''name'', required_attr\<lparr>sa_Replace := True\<rparr>), (''kind'', required_attr\<lparr>sa_Replace := True\<rparr>),
     (''webhook_url'', required_attr\<lparr>sa_Replace := True\<rparr>), (''payload_template'', optional_attr\<lparr>sa_Replace := True\<rparr>),
     (''headers'', optional_attr\<lparr>sa_Replace := True\<rparr>), (''secret'', optional_attr\<lparr>sa_Replace := True\<rparr>),
     (''created_by'', computed_attr\<lparr>sa_UseState := True\<rparr>)]"

definition dashboard_Schema :: tf_schema where
  "dashboard_Schema = [(''id'', computed_attr\<lparr>sa_UseState := True\<rparr>), (''tenant_id'', computed_attr\<lparr>sa_UseState := True\<rparr>),
     (''name'', required_attr), (''description'', default_attr), (''default_earliest'', optional_attr\<lparr>sa_Computed := True\<rparr>),
     (''default_latest'', optional_attr\<lparr>sa_Computed := True\<rparr>), (''created_by'', computed_attr\<lparr>sa_UseState := True\<rparr>),
     (''created_at'', computed_attr\<lparr>sa_UseState := True\<rparr>), (''updated_at'', computed_attr)]"

definition dashboardPanel_Schema :: tf_schema where
  "dashboardPanel_Schema = [(''id'', computed_attr\<lparr>sa_UseState := True\<rparr>), (''dashboard_id'', required_attr\<lparr>sa_Replace := True\<rparr>),
     (''title'', default_attr), (''query'', required_attr), (''query_language'', default_attr), (''viz_type'', required_attr),
     (''viz_config'', default_attr), (''position_x'', default_attr), (''position_y'', default_attr), (''width'', default_attr),
     (''height'', default_attr), (''earliest_override'', optional_attr), (''latest_override'', optional_attr), (''sort_order'', default_attr),
     (''created_at'', computed_attr\<lparr>sa_UseState := True\<rparr>), (''updated_at'', computed_attr)]"

section \<open>Import identifiers\<close>

text \<open>Joining a dashboard's and a panel's identifier is undone by the import, whatever the dashboard's identifier holds.\<close>

lemma splitImportID_join:
  assumes "CHR ''/'' \<notin> set panelID"
  shows "splitImportID (dashboardID @ CHR ''/'' # panelID) = Some (dashboardID, panelID)"
proof -
  have "takeWhile (\<lambda>ch. ch \<noteq> CHR ''/'') (rev panelID @ CHR ''/'' # rev dashboardID) = rev panelID"
    using assms by (subst takeWhile_append2) auto
  then show ?thesis by (simp add: splitImportID_def Let_def)
qed

lemma splitImportID_parts:
  assumes "splitImportID i = Some (d, p)"
  shows "i = d @ CHR ''/'' # p" "CHR ''/'' \<notin> set p"
proof -
  obtain d' p' where "i = d' @ CHR ''/'' # p'" "CHR ''/'' \<notin> set p'"
    using assms split_list_last [of "CHR ''/''" i] by (auto simp: splitImportID_def split: if_splits)
  then show "i = d @ CHR ''/'' # p" "CHR ''/'' \<notin> set p" using assms splitImportID_join [of p' d'] by auto
qed

end
