(* ===== verification/Terraform_Apply.thy ===== *)
theory Terraform_Apply
  imports Terraform
begin

text \<open>
  The provider against the services it manages: the requests of the client are routed to the modelled handlers of
  \<open>api/dashboards\<close> and of alerting, and what Terraform demands of a provider is stated of the two together. After an apply
  every attribute that the plan knew has its planned value, an immediate refresh changes nothing, and a deleted resource
  is gone. Planning is the framework's; what a schema makes of it is the hypothesis \<open>planned_create\<close> or \<open>planned_update\<close>.
\<close>

section \<open>Plans\<close>

datatype presence = PNull | PUnknown | PKnown

fun presence_of :: "'a tf_value \<Rightarrow> presence" where
  "presence_of TfNull = PNull"
| "presence_of TfUnknown = PUnknown"
| "presence_of (TfKnown v) = PKnown"

text \<open>What an attribute can be in the plan of a new resource: required attributes and attributes with a default are known, computed
  ones unknown, optional ones null or known, and optional computed ones without a default known or unknown.\<close>

definition create_allows :: "tf_attribute \<Rightarrow> presence \<Rightarrow> bool" where
  "create_allows a p = (if sa_Required a \<or> sa_Default a then p = PKnown
     else if sa_Optional a \<and> sa_Computed a then p \<noteq> PNull
     else if sa_Computed a then p = PUnknown else p \<noteq> PUnknown)"

definition planned_create :: "tf_schema \<Rightarrow> presence list \<Rightarrow> bool" where
  "planned_create schema ps = list_all2 (\<lambda>(_, a) p. create_allows a p) schema ps"

text \<open>In the plan of an update, a computed attribute with \<open>UseStateForUnknown\<close> keeps the prior state's value, and one that forces
  replacement is unchanged. The last list says which attributes equal the prior state's.\<close>

definition update_allows :: "tf_attribute \<Rightarrow> presence \<Rightarrow> bool \<Rightarrow> bool" where
  "update_allows a p same = (if sa_Replace a \<or> sa_UseState a then same else create_allows a p)"

definition planned_update :: "tf_schema \<Rightarrow> presence list \<Rightarrow> bool list \<Rightarrow> bool" where
  "planned_update schema ps same = list_all2 (\<lambda>(_, a) (p, e). update_allows a p e) schema (zip ps same)"

text \<open>Terraform accepts the outcome of an apply when every attribute that the plan knew, null included, has its planned value;
  otherwise it fails with an inconsistent result.\<close>

definition accepted :: "presence list \<Rightarrow> bool list \<Rightarrow> bool" where
  "accepted ps same = list_all2 (\<lambda>p e. p = PUnknown \<or> e) ps same"

definition rule_presence :: "'f rule_model \<Rightarrow> presence list" where
  "rule_presence m = [presence_of (rm_ID m), presence_of (rm_TenantID m), presence_of (rm_Name m), presence_of (rm_Description m),
     presence_of (rm_Query m), presence_of (rm_QueryLanguage m), presence_of (rm_ConditionType m), presence_of (rm_Comparator m),
     presence_of (rm_ThresholdValue m), presence_of (rm_EvalIntervalSeconds m), presence_of (rm_ForMinutes m),
     presence_of (rm_RenotifyIntervalMinutes m), presence_of (rm_NotificationTargetID m), presence_of (rm_Enabled m), presence_of (rm_CreatedBy m)]"

definition rule_same :: "'f rule_model \<Rightarrow> 'f rule_model \<Rightarrow> bool list" where
  "rule_same m n = [rm_ID m = rm_ID n, rm_TenantID m = rm_TenantID n, rm_Name m = rm_Name n, rm_Description m = rm_Description n,
     rm_Query m = rm_Query n, rm_QueryLanguage m = rm_QueryLanguage n, rm_ConditionType m = rm_ConditionType n, rm_Comparator m = rm_Comparator n,
     rm_ThresholdValue m = rm_ThresholdValue n, rm_EvalIntervalSeconds m = rm_EvalIntervalSeconds n, rm_ForMinutes m = rm_ForMinutes n,
     rm_RenotifyIntervalMinutes m = rm_RenotifyIntervalMinutes n, rm_NotificationTargetID m = rm_NotificationTargetID n,
     rm_Enabled m = rm_Enabled n, rm_CreatedBy m = rm_CreatedBy n]"

definition target_presence :: "target_model \<Rightarrow> presence list" where
  "target_presence m = [presence_of (tm_ID m), presence_of (tm_TenantID m), presence_of (tm_Name m), presence_of (tm_Kind m),
     presence_of (tm_WebhookURL m), presence_of (tm_PayloadTemplate m), presence_of (tm_Headers m), presence_of (tm_Secret m),
     presence_of (tm_CreatedBy m)]"

definition target_same :: "target_model \<Rightarrow> target_model \<Rightarrow> bool list" where
  "target_same m n = [tm_ID m = tm_ID n, tm_TenantID m = tm_TenantID n, tm_Name m = tm_Name n, tm_Kind m = tm_Kind n,
     tm_WebhookURL m = tm_WebhookURL n, tm_PayloadTemplate m = tm_PayloadTemplate n, tm_Headers m = tm_Headers n, tm_Secret m = tm_Secret n,
     tm_CreatedBy m = tm_CreatedBy n]"

definition dashboard_presence :: "dashboard_model \<Rightarrow> presence list" where
  "dashboard_presence m = [presence_of (dm_ID m), presence_of (dm_TenantID m), presence_of (dm_Name m), presence_of (dm_Description m),
     presence_of (dm_DefaultEarliest m), presence_of (dm_DefaultLatest m), presence_of (dm_CreatedBy m), presence_of (dm_CreatedAt m),
     presence_of (dm_UpdatedAt m)]"

definition dashboard_same :: "dashboard_model \<Rightarrow> dashboard_model \<Rightarrow> bool list" where
  "dashboard_same m n = [dm_ID m = dm_ID n, dm_TenantID m = dm_TenantID n, dm_Name m = dm_Name n, dm_Description m = dm_Description n,
     dm_DefaultEarliest m = dm_DefaultEarliest n, dm_DefaultLatest m = dm_DefaultLatest n, dm_CreatedBy m = dm_CreatedBy n,
     dm_CreatedAt m = dm_CreatedAt n, dm_UpdatedAt m = dm_UpdatedAt n]"

definition panel_presence :: "panel_model \<Rightarrow> presence list" where
  "panel_presence m = [presence_of (pm_ID m), presence_of (pm_DashboardID m), presence_of (pm_Title m), presence_of (pm_Query m),
     presence_of (pm_QueryLanguage m), presence_of (pm_VizType m), presence_of (pm_VizConfig m), presence_of (pm_PositionX m),
     presence_of (pm_PositionY m), presence_of (pm_Width m), presence_of (pm_Height m), presence_of (pm_EarliestOverride m),
     presence_of (pm_LatestOverride m), presence_of (pm_SortOrder m), presence_of (pm_CreatedAt m), presence_of (pm_UpdatedAt m)]"

definition panel_same :: "panel_model \<Rightarrow> panel_model \<Rightarrow> bool list" where
  "panel_same m n = [pm_ID m = pm_ID n, pm_DashboardID m = pm_DashboardID n, pm_Title m = pm_Title n, pm_Query m = pm_Query n,
     pm_QueryLanguage m = pm_QueryLanguage n, pm_VizType m = pm_VizType n, pm_VizConfig m = pm_VizConfig n, pm_PositionX m = pm_PositionX n,
     pm_PositionY m = pm_PositionY n, pm_Width m = pm_Width n, pm_Height m = pm_Height n, pm_EarliestOverride m = pm_EarliestOverride n,
     pm_LatestOverride m = pm_LatestOverride n, pm_SortOrder m = pm_SortOrder n, pm_CreatedAt m = pm_CreatedAt n, pm_UpdatedAt m = pm_UpdatedAt n]"

section \<open>The wire\<close>

text \<open>A request and a response are JSON documents of the client's structure on one side and of the service's on the other; the member names
  agree. \<open>wr_compact\<close> is the compaction of raw JSON by \<open>json.Marshal\<close>, \<open>wr_fmt\<close> the text of a time and \<open>wr_parse\<close> its
  inverse.\<close>

record wire =
  wr_compact :: "string \<Rightarrow> string option"
  wr_fmt :: "gotime \<Rightarrow> string"
  wr_parse :: "string \<Rightarrow> gotime"

definition zero_gotime :: gotime where "zero_gotime = - 62135596800 * 10 ^ 9"

definition time_in :: "wire \<Rightarrow> string \<Rightarrow> gotime" where
  "time_in w s = (if s = [] then zero_gotime else wr_parse w s)"

text \<open>An empty raw message is left out; \<open>None\<close> is a failure to marshal.\<close>

definition raw_json :: "wire \<Rightarrow> string \<Rightarrow> string option" where
  "raw_json w v = (if v = [] then Some [] else wr_compact w v)"

definition condition_in :: "string \<Rightarrow> condition_type" where
  "condition_in s = (if s = ''threshold'' then ConditionThreshold else if s = ''absence'' then ConditionAbsence else ConditionOther s)"

definition condition_out :: "condition_type \<Rightarrow> string" where
  "condition_out t = (case t of ConditionThreshold \<Rightarrow> ''threshold'' | ConditionAbsence \<Rightarrow> ''absence'' | ConditionOther s \<Rightarrow> s)"

definition comparator_in :: "string \<Rightarrow> comparator" where
  "comparator_in s = (if s = ''gt'' then CmpGt else if s = ''gte'' then CmpGte else if s = ''lt'' then CmpLt else if s = ''lte'' then CmpLte
     else if s = ''eq'' then CmpEq else if s = ''ne'' then CmpNe else CmpOther s)"

definition kind_in :: "string \<Rightarrow> target_kind" where
  "kind_in s = (if s = ''webhook'' then KindWebhook else if s = ''slack'' then KindSlack else if s = ''pagerduty'' then KindPagerDuty else KindOther s)"

definition kind_out :: "target_kind \<Rightarrow> string" where
  "kind_out k = (case k of KindWebhook \<Rightarrow> ''webhook'' | KindSlack \<Rightarrow> ''slack'' | KindPagerDuty \<Rightarrow> ''pagerduty'' | KindOther s \<Rightarrow> s)"

text \<open>The outer \<open>enabled\<close> of the request hides the one of the embedded rule, which stays false.\<close>

definition rule_in :: "'f tf_rule \<Rightarrow> 'f rule \<times> bool option" where
  "rule_in r = (\<lparr>r_ID = tr_ID r, r_TenantID = tr_TenantID r, r_Name = tr_Name r, r_Description = tr_Description r, r_Query = tr_Query r,
     r_QueryLanguage = tr_QueryLanguage r, r_ConditionType = condition_in (tr_ConditionType r),
     r_Comparator = map_option comparator_in (tr_Comparator r), r_ThresholdValue = tr_ThresholdValue r,
     r_EvalIntervalSeconds = tr_EvalIntervalSeconds r, r_ForMinutes = tr_ForMinutes r, r_RenotifyIntervalMinutes = tr_RenotifyIntervalMinutes r,
     r_NotificationTargetID = tr_NotificationTargetID r, r_Enabled = False, r_CreatedBy = tr_CreatedBy r\<rparr>, tr_Enabled r)"

definition rule_out :: "'f rule \<Rightarrow> 'f tf_rule" where
  "rule_out r = \<lparr>tr_ID = r_ID r, tr_TenantID = r_TenantID r, tr_Name = r_Name r, tr_Description = r_Description r, tr_Query = r_Query r,
     tr_QueryLanguage = r_QueryLanguage r, tr_ConditionType = condition_out (r_ConditionType r),
     tr_Comparator = map_option comparator_text (r_Comparator r), tr_ThresholdValue = r_ThresholdValue r,
     tr_EvalIntervalSeconds = r_EvalIntervalSeconds r, tr_ForMinutes = r_ForMinutes r, tr_RenotifyIntervalMinutes = r_RenotifyIntervalMinutes r,
     tr_NotificationTargetID = r_NotificationTargetID r, tr_Enabled = Some (r_Enabled r), tr_CreatedBy = r_CreatedBy r\<rparr>"

definition target_in :: "wire \<Rightarrow> tf_target \<Rightarrow> target option" where
  "target_in w t = map_option (\<lambda>h. \<lparr>t_ID = tt_ID t, t_TenantID = tt_TenantID t, t_Name = tt_Name t, t_Kind = kind_in (tt_Kind t),
     t_WebhookURL = tt_WebhookURL t, t_PayloadTemplate = tt_PayloadTemplate t, t_Headers = h, t_Secret = tt_Secret t,
     t_CreatedBy = tt_CreatedBy t\<rparr>) (raw_json w (tt_Headers t))"

definition target_out :: "wire \<Rightarrow> target \<Rightarrow> tf_target option" where
  "target_out w t = map_option (\<lambda>h. \<lparr>tt_ID = t_ID t, tt_TenantID = t_TenantID t, tt_Name = t_Name t, tt_Kind = kind_out (t_Kind t),
     tt_WebhookURL = t_WebhookURL t, tt_PayloadTemplate = t_PayloadTemplate t, tt_Headers = h, tt_Secret = t_Secret t,
     tt_CreatedBy = t_CreatedBy t\<rparr>) (raw_json w (t_Headers t))"

definition panel_in :: "wire \<Rightarrow> tf_panel \<Rightarrow> panel option" where
  "panel_in w p = map_option (\<lambda>v. \<lparr>pn_ID = tp_ID p, pn_DashboardID = tp_DashboardID p, pn_Title = tp_Title p, pn_Query = tp_Query p,
     pn_QueryLanguage = tp_QueryLanguage p, pn_VizType = tp_VizType p, pn_VizConfig = v, pn_PositionX = tp_PositionX p,
     pn_PositionY = tp_PositionY p, pn_Width = tp_Width p, pn_Height = tp_Height p, pn_EarliestOverride = tp_EarliestOverride p,
     pn_LatestOverride = tp_LatestOverride p, pn_SortOrder = tp_SortOrder p, pn_CreatedAt = time_in w (tp_CreatedAt p),
     pn_UpdatedAt = time_in w (tp_UpdatedAt p)\<rparr>) (raw_json w (tp_VizConfig p))"

definition panel_out :: "wire \<Rightarrow> panel \<Rightarrow> tf_panel option" where
  "panel_out w p = map_option (\<lambda>v. \<lparr>tp_ID = pn_ID p, tp_DashboardID = pn_DashboardID p, tp_Title = pn_Title p, tp_Query = pn_Query p,
     tp_QueryLanguage = pn_QueryLanguage p, tp_VizType = pn_VizType p, tp_VizConfig = v, tp_PositionX = pn_PositionX p,
     tp_PositionY = pn_PositionY p, tp_Width = pn_Width p, tp_Height = pn_Height p, tp_EarliestOverride = pn_EarliestOverride p,
     tp_LatestOverride = pn_LatestOverride p, tp_SortOrder = pn_SortOrder p, tp_CreatedAt = wr_fmt w (pn_CreatedAt p),
     tp_UpdatedAt = wr_fmt w (pn_UpdatedAt p)\<rparr>) (raw_json w (pn_VizConfig p))"

text \<open>The provider sends dashboards without panels.\<close>

definition board_in :: "wire \<Rightarrow> tf_dashboard \<Rightarrow> dashboard" where
  "board_in w d = \<lparr>ds_ID = td_ID d, ds_TenantID = td_TenantID d, ds_Name = td_Name d, ds_Description = td_Description d,
     ds_DefaultEarliest = td_DefaultEarliest d, ds_DefaultLatest = td_DefaultLatest d, ds_CreatedBy = td_CreatedBy d,
     ds_CreatedAt = time_in w (td_CreatedAt d), ds_UpdatedAt = time_in w (td_UpdatedAt d), ds_Panels = []\<rparr>"

definition board_out :: "wire \<Rightarrow> dashboard \<Rightarrow> tf_dashboard option" where
  "board_out w d = map_option (\<lambda>ps. \<lparr>td_ID = ds_ID d, td_TenantID = ds_TenantID d, td_Name = ds_Name d, td_Description = ds_Description d,
     td_DefaultEarliest = ds_DefaultEarliest d, td_DefaultLatest = ds_DefaultLatest d, td_CreatedBy = ds_CreatedBy d,
     td_CreatedAt = wr_fmt w (ds_CreatedAt d), td_UpdatedAt = wr_fmt w (ds_UpdatedAt d), td_Panels = ps\<rparr>) (those (map (panel_out w) (ds_Panels d)))"

section \<open>The services behind the client\<close>

text \<open>The remaining segment of a URL under a prefix, for the patterns that end in an identifier.\<close>

definition seg :: "string \<Rightarrow> string \<Rightarrow> string option" where
  "seg pre url = (let rest = drop (length pre) url in
     if take (length pre) url = pre \<and> rest \<noteq> [] \<and> CHR ''/'' \<notin> set rest then Some rest else None)"

definition no_route :: "'d exchange" where "no_route = Response 404 ''404 page not found'' [] None"

text \<open>A body that the service writes, \<open>None\<close> when it fails to marshal: the status stands and the body is empty.\<close>

definition answer_with :: "nat \<Rightarrow> 'd option \<Rightarrow> 'd exchange" where
  "answer_with code d = (case d of None \<Rightarrow> Response (int code) [] [] None | Some d \<Rightarrow> Response (int code) ''{...}'' [] (Some d))"

definition respond_error :: "nat \<Rightarrow> string \<Rightarrow> 'd exchange" where
  "respond_error code msg = Response (int code) ''{...}'' msg None"

text \<open>Alerting: \<open>sv_gate\<close> is the verdict of the session check on method and credential.\<close>

record 'f alert_server =
  sv_base :: string
  sv_net :: net_env
  sv_uuid :: string
  sv_now :: gotime
  sv_gate :: "string \<Rightarrow> string \<Rightarrow> unit guarded"
  sv_text :: "'f alert_body \<Rightarrow> string"

definition alert_call :: "'f alert_server \<Rightarrow> ('f alert_body \<Rightarrow> 'd option) \<Rightarrow> string \<Rightarrow> string \<Rightarrow> 'f alerting_route option \<Rightarrow> 'f alert_db
    \<Rightarrow> 'd exchange \<times> 'f alert_db" where
  "alert_call sv out method auth route db = (case sv_gate sv method auth of
     Unauthorized \<Rightarrow> (respond_error 401 ''unauthorized'', db)
   | Forbidden \<Rightarrow> (respond_error 403 ''forbidden'', db)
   | Served _ \<Rightarrow> (case route of None \<Rightarrow> (no_route, db)
     | Some route \<Rightarrow> (case alerting_handler (sv_net sv) (sv_uuid sv) (sv_now sv) route db of
         ((code, body), db') \<Rightarrow> (if code = 204 then Response 204 [] [] None
            else if code \<ge> 300 then respond_error code (sv_text sv body) else answer_with code (out body), db'))))"

fun rule_body_out :: "'f alert_body \<Rightarrow> 'f tf_rule option" where
  "rule_body_out (RuleBody r) = Some (rule_out r)"
| "rule_body_out (RuleStateBody rs) = Some (rule_out (fst rs))"
| "rule_body_out _ = None"

definition rule_http :: "'f alert_server \<Rightarrow> ('f tf_rule, 'f alert_db) transport" where
  "rule_http sv method url auth body = alert_call sv rule_body_out method auth
     (if method = ''POST'' \<and> url = sv_base sv @ ''/rules'' then Some (AlCreateRule (map_option rule_in body))
      else case seg (sv_base sv @ ''/rules/'') url of
        None \<Rightarrow> None
      | Some i \<Rightarrow> if method = ''GET'' then Some (AlGetRule i) else if method = ''DELETE'' then Some (AlDeleteRule i) else None)"

fun target_body_out :: "wire \<Rightarrow> 'f alert_body \<Rightarrow> tf_target option" where
  "target_body_out w (TargetBody t) = target_out w t"
| "target_body_out w _ = None"

definition target_http :: "wire \<Rightarrow> 'f alert_server \<Rightarrow> (tf_target, 'f alert_db) transport" where
  "target_http w sv method url auth body db =
    (if (case body of None \<Rightarrow> False | Some t \<Rightarrow> target_in w t = None) then (Fails TfEncoding, db)
     else alert_call sv (target_body_out w) method auth
       (if method = ''POST'' \<and> url = sv_base sv @ ''/targets'' then Some (AlCreateTarget (Option.bind body (target_in w)))
        else case seg (sv_base sv @ ''/targets/'') url of
          None \<Rightarrow> None
        | Some i \<Rightarrow> if method = ''GET'' then Some (AlGetTarget i) else if method = ''DELETE'' then Some (AlDeleteTarget i) else None) db)"

text \<open>The api: the authorizer sees the credential; one request reads the clock and the UUID source once.\<close>

record 'e dash_server =
  bs_base :: string
  bs_env :: dash_env
  bs_perm :: bool
  bs_au :: "(string \<Rightarrow> ('e, identity) result) option"
  bs_text :: "dash_body \<Rightarrow> string"

definition dash_call :: "'e dash_server \<Rightarrow> (dash_body \<Rightarrow> 'd option) \<Rightarrow> string \<Rightarrow> string \<Rightarrow> dash_route option \<Rightarrow> dash_db \<Rightarrow> 'd exchange \<times> dash_db" where
  "dash_call sv out method auth route db = (case route of
     None \<Rightarrow> (no_route, db)
   | Some route \<Rightarrow> (case dash_serve (bs_env sv) (bs_perm sv) (map_option (\<lambda>f r. f (rq_Authorization r)) (bs_au sv))
         (blank_request\<lparr>rq_Method := method, rq_Authorization := auth\<rparr>) route db of
       (Unauthorized, db') \<Rightarrow> (respond_error 401 ''unauthorized'', db')
     | (Forbidden, db') \<Rightarrow> (respond_error 403 ''forbidden'', db')
     | (Served (code, body), db') \<Rightarrow> (if code = 204 then Response 204 [] [] None
          else if code \<ge> 300 then respond_error code (bs_text sv body) else answer_with code (out body), db')))"

fun board_body_out :: "wire \<Rightarrow> dash_body \<Rightarrow> tf_dashboard option" where
  "board_body_out w (BoardBody d) = board_out w d"
| "board_body_out w _ = None"

definition dashboard_http :: "wire \<Rightarrow> 'e dash_server \<Rightarrow> (tf_dashboard, dash_db) transport" where
  "dashboard_http w sv method url auth body = dash_call sv (board_body_out w) method auth
     (if method = ''POST'' \<and> url = bs_base sv @ ''/dashboards'' then Some (DCreate (map_option (board_in w) body))
      else case seg (bs_base sv @ ''/dashboards/'') url of
        None \<Rightarrow> None
      | Some i \<Rightarrow> if method = ''GET'' then Some (DGet i) else if method = ''PUT'' then Some (DUpdate i (map_option (board_in w) body))
          else if method = ''DELETE'' then Some (DDelete i) else None)"

fun panel_body_out :: "wire \<Rightarrow> dash_body \<Rightarrow> tf_panel option" where
  "panel_body_out w (PanelBody p) = panel_out w p"
| "panel_body_out w _ = None"

definition panel_route :: "string \<Rightarrow> string \<Rightarrow> string \<Rightarrow> panel option \<Rightarrow> dash_route option" where
  "panel_route base method url body =
    (let pre = base @ ''/dashboards/''; rest = drop (length pre) url;
       i = takeWhile (\<lambda>ch. ch \<noteq> CHR ''/'') rest; sub = dropWhile (\<lambda>ch. ch \<noteq> CHR ''/'') rest in
     if take (length pre) url \<noteq> pre \<or> i = [] then None
     else if method = ''POST'' \<and> sub = ''/panels'' then Some (DAddPanel i body)
     else case seg ''/panels/'' sub of
       None \<Rightarrow> None
     | Some p \<Rightarrow> if method = ''PUT'' then Some (DUpdatePanel i p body) else if method = ''DELETE'' then Some (DDeletePanel i p) else None)"

definition panel_http :: "wire \<Rightarrow> 'e dash_server \<Rightarrow> (tf_panel, dash_db) transport" where
  "panel_http w sv method url auth body db =
    (if (case body of None \<Rightarrow> False | Some p \<Rightarrow> panel_in w p = None) then (Fails TfEncoding, db)
     else dash_call sv (panel_body_out w) method auth (panel_route (bs_base sv) method url (Option.bind body (panel_in w))) db)"

section \<open>The contract\<close>

text \<open>What Terraform relies on in a resource: \<open>create\<close> either adds a diagnostic and leaves the service as it was, or sets a state that
  the plan accepts and that \<open>read\<close> then returns unchanged; \<open>read\<close> does not change the service; after \<open>delete\<close> the resource is
  not found.\<close>

locale managed_resource =
  fixes create :: "'m \<Rightarrow> 's \<Rightarrow> 'm tf_resp \<times> 's"
    and read :: "'m \<Rightarrow> 's \<Rightarrow> 'm tf_resp \<times> 's"
    and delete :: "'m \<Rightarrow> 's \<Rightarrow> 'm tf_resp \<times> 's"
    and planned :: "'m \<Rightarrow> bool"
    and accepts :: "'m \<Rightarrow> 'm \<Rightarrow> bool"
    and admit :: "'s \<Rightarrow> bool"
  assumes create_fails: "create p s = ((Some d, x), s') \<Longrightarrow> x = None \<and> s' = s"
    and create_sets: "create p s = ((None, x), s') \<Longrightarrow> \<exists>m. x = Some m"
    and create_admit: "admit s \<Longrightarrow> create p s = (y, s') \<Longrightarrow> admit s'"
    and create_accepted: "planned p \<Longrightarrow> admit s \<Longrightarrow> create p s = ((None, Some m), s') \<Longrightarrow> accepts p m"
    and create_read: "planned p \<Longrightarrow> admit s \<Longrightarrow> create p s = ((None, Some m), s') \<Longrightarrow> read m s' = ((None, Some m), s')"
    and read_pure: "snd (read m s) = s"
    and delete_read: "admit s \<Longrightarrow> read m s = ((None, Some m), s) \<Longrightarrow> delete m s = ((None, x), s') \<Longrightarrow> x = None \<and> read m s' = ((None, None), s')"
begin

lemma lifecycle:
  assumes "planned p" "admit s"
  shows "case create p s of
      ((None, Some m), s') \<Rightarrow> accepts p m \<and> read m s' = ((None, Some m), s')
        \<and> (case delete m s' of ((None, y), s2) \<Rightarrow> y = None \<and> read m s2 = ((None, None), s2) | _ \<Rightarrow> True)
    | ((d, x), s') \<Rightarrow> d \<noteq> None \<and> x = None \<and> s' = s"
proof -
  obtain d x s' where c: "create p s = ((d, x), s')" by (metis surj_pair)
  show ?thesis
  proof (cases d)
    case None
    then obtain m where m: "create p s = ((None, Some m), s')" using c create_sets by blast
    note read = create_read [OF assms m]
    obtain e y s2 where del: "delete m s' = ((e, y), s2)" by (metis surj_pair)
    show ?thesis using m create_accepted [OF assms m] read del delete_read [OF create_admit [OF assms(2) m] read, of y s2] by (simp split: option.split)
  next
    case (Some e)
    then show ?thesis using c create_fails [of p s e x s'] by simp
  qed
qed

end

section \<open>Alert rules\<close>

lemma seg_path: "i \<noteq> [] \<Longrightarrow> CHR ''/'' \<notin> set i \<Longrightarrow> seg (base @ p) (base @ p @ i) = Some i"
  by (simp add: seg_def)

lemma seg_SomeD: "seg pre url = Some i \<Longrightarrow> url = pre @ i \<and> i \<noteq> [] \<and> CHR ''/'' \<notin> set i"
  unfolding seg_def Let_def by (metis append_take_drop_id option.distinct(1) option.inject)

lemma values_simps [simp]:
  "ValueString (TfKnown v) = v" "ValueInt64 (TfKnown n) = n" "ValueBool (TfKnown b) = b"
  by (simp_all add: ValueString_def ValueInt64_def ValueBool_def)

lemma presence_simps [simp]:
  "presence_of v = PKnown \<longleftrightarrow> (\<exists>x. v = TfKnown x)" "presence_of v = PUnknown \<longleftrightarrow> v = TfUnknown" "presence_of v = PNull \<longleftrightarrow> v = TfNull"
  by (cases v; simp)+

lemma pointer_to_known [simp]: "pointer_to z (TfKnown v) = Some v"
  by (simp add: pointer_to_def)

lemma of_pointer_to [simp]: "v \<noteq> TfUnknown \<Longrightarrow> of_pointer (pointer_to z v) = v"
  by (cases v) (simp_all add: of_pointer_def pointer_to_def)

lemma condition_roundtrip [simp]: "condition_out (condition_in s) = s"
  by (simp add: condition_in_def condition_out_def)

lemma comparator_roundtrip [simp]: "comparator_text (comparator_in s) = s"
  by (simp add: comparator_in_def comparator_text_def)

lemma comparator_roundtrip_option [simp]: "map_option (comparator_text \<circ> comparator_in) c = c"
  by (cases c) simp_all

lemma kind_roundtrip [simp]: "kind_out (kind_in s) = s"
  by (simp add: kind_in_def kind_out_def)

text \<open>Every reply of \<open>alert_call\<close> to an admitted request comes from the handler.\<close>

definition bearer_of :: "tf_client \<Rightarrow> string" where
  "bearer_of c = (if cl_token c \<noteq> [] then ''Bearer '' @ cl_token c else [])"

lemma client_do_bearer:
  "client_do c http method path body zero out s =
    (case http method (cl_baseURL c @ path) (bearer_of c) body s of
       (Fails e, s') \<Rightarrow> (Inl e, s')
     | (Response status raw err dec, s') \<Rightarrow>
       if status < 200 \<or> status \<ge> 300 then (Inl (apiError status (if err \<noteq> [] then err else raw)), s')
       else if \<not> out \<or> raw = [] then (Inr zero, s')
       else (case dec of None \<Rightarrow> Inl TfDecoding | Some d \<Rightarrow> Inr d, s'))"
  unfolding client_do_def bearer_of_def by (rule refl)

text \<open>The client's three calls on rules, answered by alerting.\<close>

lemma getRule_served:
  assumes "cl_baseURL c = sv_base sv" "i \<noteq> []" "CHR ''/'' \<notin> set i" "sv_gate sv ''GET'' (bearer_of c) = Served u"
  shows "getRule c (rule_http sv) i db = (case Get i db of
      Inl e \<Rightarrow> (Inl (apiError (if e = ErrNotFound then 404 else 500) (if sv_text sv (snd (writeStoreErr e)) \<noteq> [] then sv_text sv (snd (writeStoreErr e)) else ''{...}'')), db)
    | Inr rs \<Rightarrow> (Inr (rule_out (fst rs)), db))"
proof -
  have "seg (sv_base sv @ ''/rules/'') (sv_base sv @ ''/rules/'' @ i) = Some i" by (rule seg_path [OF assms(2,3)])
  then have "rule_http sv ''GET'' (cl_baseURL c @ ''/rules/'' @ i) (bearer_of c) None db
      = alert_call sv rule_body_out ''GET'' (bearer_of c) (Some (AlGetRule i)) db"
    unfolding rule_http_def assms(1) by (simp only: option.case) simp
  then show ?thesis
    unfolding getRule_def client_do_bearer
    using assms(4) by (auto simp: alert_call_def alerting_handler_def handleGetRule_def writeStoreErr_def answer_with_def respond_error_def
        split: sum.splits store_error.splits)
qed

definition enabled_rule :: "'f tf_rule \<Rightarrow> 'f rule" where
  "enabled_rule r = (fst (rule_in r))\<lparr>r_Enabled := (tr_Enabled r = None \<or> tr_Enabled r = Some True)\<rparr>"

lemma createRule_cases:
  assumes "createRule c (rule_http sv) r db = (res, db')"
  obtains (created) rule where "res = Inr (rule_out rule)" "Create (sv_uuid sv) (sv_now sv) (enabled_rule r) db = Inr (rule, db')"
      "sv_gate sv ''POST'' (bearer_of c) = Served ()" "cl_baseURL c = sv_base sv"
  | (failed) e where "res = Inl e" "db' = db"
proof (cases "sv_gate sv ''POST'' (bearer_of c) = Served () \<and> cl_baseURL c = sv_base sv")
  case True
  then have "rule_http sv ''POST'' (cl_baseURL c @ ''/rules'') (bearer_of c) (Some r) db
      = alert_call sv rule_body_out ''POST'' (bearer_of c) (Some (AlCreateRule (Some (rule_in r)))) db"
    unfolding rule_http_def by simp
  then show ?thesis
    using assms True created failed unfolding createRule_def client_do_bearer
    by (auto simp: alert_call_def alerting_handler_def handleCreateRule_def rule_in_def enabled_rule_def answer_with_def respond_error_def Let_def
        split: sum.splits prod.splits if_splits)
next
  case False
  have "rule_http sv ''POST'' (cl_baseURL c @ ''/rules'') (bearer_of c) (Some r) db \<in>
      {(respond_error 401 ''unauthorized'', db), (respond_error 403 ''forbidden'', db), (no_route, db)}"
    using False unfolding rule_http_def alert_call_def by (auto split: guarded.splits option.splits)
  then show ?thesis
    using assms failed unfolding createRule_def client_do_bearer by (auto simp: respond_error_def no_route_def)
qed

lemma client_do_pure: "(\<And>url auth. snd (http m url auth b s) = s) \<Longrightarrow> snd (client_do c http m path b z out s) = s"
proof -
  assume pure: "\<And>url auth. snd (http m url auth b s) = s"
  obtain x s' where call: "http m (cl_baseURL c @ path) (bearer_of c) b s = (x, s')" by fastforce
  with pure [of "cl_baseURL c @ path" "bearer_of c"] have "s' = s" by simp
  with call show ?thesis unfolding client_do_bearer by (cases x) simp_all
qed

lemma getRule_pure: "snd (getRule c (rule_http sv) i db) = db"
  unfolding getRule_def
  by (rule client_do_pure) (auto simp: rule_http_def alert_call_def alerting_handler_def handleGetRule_def
      split: guarded.splits option.splits prod.splits)

text \<open>What a read that finds the rule tells about the request.\<close>

lemma seg_same: "seg (base @ p) (base @ p @ i) = Some j \<longleftrightarrow> j = i \<and> i \<noteq> [] \<and> CHR ''/'' \<notin> set i"
  by (auto simp: seg_def)

lemma getRule_found:
  assumes "getRule c (rule_http sv) i db = (Inr r, db')" "cl_baseURL c = sv_base sv"
  shows "\<exists>st. Get i db = Inr st \<and> r = rule_out (fst st) \<and> i \<noteq> [] \<and> CHR ''/'' \<notin> set i \<and> sv_gate sv ''GET'' (bearer_of c) = Served ()"
  using assms unfolding getRule_def client_do_bearer
  by (auto simp: rule_http_def alert_call_def alerting_handler_def handleGetRule_def writeStoreErr_def answer_with_def respond_error_def no_route_def
      seg_same [of _ "''/rules/''", simplified]
      split: guarded.splits option.splits exchange.splits prod.splits if_splits sum.splits store_error.splits)

text \<open>A served delete removes the rule; after it the rule is not found.\<close>

lemma deleteRule_found:
  assumes "deleteRule c (rule_http sv) i db = (res, db')" "cl_baseURL c = sv_base sv" "Get i db = Inr st" "i \<noteq> []" "CHR ''/'' \<notin> set i"
  obtains "\<exists>e. res = Inl e \<and> \<not> isNotFound e" | "res = Inr zero_rule" "Delete i db = Inr db'"
proof (cases "sv_gate sv ''DELETE'' (bearer_of c)")
  case (Served u)
  have "i \<in> r_ID ` set (db_rules db)"
  proof (rule ccontr)
    assume "i \<notin> r_ID ` set (db_rules db)"
    then have "filter (\<lambda>r. r_ID r = i) (db_rules db) = []" by (auto simp: filter_empty_conv)
    then show False using assms(3) by (simp add: Get_def with_state_def)
  qed
  then obtain d where d: "Delete i db = Inr d" by (simp add: Delete_def)
  have "rule_http sv ''DELETE'' (cl_baseURL c @ ''/rules/'' @ i) (bearer_of c) None db = (Response 204 [] [] None, d)"
    using Served d assms(2) seg_path [OF assms(4,5), of "sv_base sv" "''/rules/''"]
    unfolding rule_http_def by (simp add: alert_call_def alerting_handler_def handleDeleteRule_def)
  then show ?thesis using assms(1) d that(2) unfolding deleteRule_def client_do_bearer by simp
qed (use assms(1) that(1) in \<open>auto simp: deleteRule_def client_do_bearer rule_http_def alert_call_def respond_error_def\<close>)

lemma Get_after_Create:
  assumes "Create uuid now r db = Inr (r', db')"
  shows "\<exists>st. Get uuid db' = Inr (r', st)" and "r_ID r' = uuid"
proof -
  have u: "uuid \<notin> r_ID ` set (db_rules db)" and r': "r' = r\<lparr>r_ID := uuid, r_TenantID := default_to ''default'' (r_TenantID r),
      r_CreatedBy := default_to ''anonymous'' (r_CreatedBy r)\<rparr>"
    and db': "db_rules db' = db_rules db @ [r']" "db_states db' = db_states db @ [initial_state now uuid]"
    using assms by (auto simp: Create_def Let_def rule_constraints_def split: if_splits)
  show "r_ID r' = uuid" using r' by simp
  have "filter (\<lambda>r. r_ID r = uuid) (db_rules db') = [r']" using u r' db'(1) by (auto simp: filter_empty_conv)
  then show "\<exists>st. Get uuid db' = Inr (r', st)"
    using r' db'(2) by (cases "filter (\<lambda>s. a_RuleID s = uuid) (db_states db)") (simp_all add: Get_def with_state_def initial_state_def)
qed

lemma Get_after_Delete: "Delete i db = Inr db' \<Longrightarrow> Get i db' = Inl ErrNotFound"
  by (auto simp: Delete_def Get_def with_state_def split: if_splits)

text \<open>The created rule carries what the plan knew.\<close>

lemmas plan_unfold = planned_create_def planned_update_def create_allows_def update_allows_def accepted_def
  required_attr_def optional_attr_def computed_attr_def default_attr_def

lemma rule_accepted:
  assumes "planned_create alertRule_Schema (rule_presence p)"
    and "Create uuid now (enabled_rule (alertRuleAPIFromModel fz p)) db = Inr (r, db')"
  shows "accepted (rule_presence p) (rule_same p (alertRuleModelFromAPI (rule_out r)))"
proof -
  have r: "r = (enabled_rule (alertRuleAPIFromModel fz p))\<lparr>r_ID := uuid, r_TenantID := ''default'', r_CreatedBy := ''anonymous''\<rparr>"
    using assms(2) by (auto simp: Create_def Let_def enabled_rule_def rule_in_def alertRuleAPIFromModel_def zero_rule_def default_to_def split: if_splits)
  from assms(1) show ?thesis
    by (auto simp: r alertRule_Schema_def plan_unfold rule_presence_def rule_same_def alertRuleModelFromAPI_def rule_out_def enabled_rule_def
        rule_in_def alertRuleAPIFromModel_def zero_rule_def option.map_comp)
qed

text \<open>The client is configured with the service's address, identifiers fit a path segment, and who may write may read.\<close>

definition reaches :: "tf_client \<Rightarrow> 'f alert_server \<Rightarrow> bool" where
  "reaches c sv = (cl_baseURL c = sv_base sv \<and> sv_uuid sv \<noteq> [] \<and> CHR ''/'' \<notin> set (sv_uuid sv)
     \<and> (sv_gate sv ''POST'' (bearer_of c) = Served () \<longrightarrow> sv_gate sv ''GET'' (bearer_of c) = Served ()))"

lemma alertRule_Create_cases:
  assumes "alertRule_Create fz c (rule_http sv) p db = ((d, x), db')"
  obtains (created) r where "d = None" "x = Some (alertRuleModelFromAPI (rule_out r))"
      "Create (sv_uuid sv) (sv_now sv) (enabled_rule (alertRuleAPIFromModel fz p)) db = Inr (r, db')"
      "sv_gate sv ''POST'' (bearer_of c) = Served ()"
  | (failed) "d \<noteq> None" "x = None" "db' = db"
proof -
  obtain res db2 where call: "createRule c (rule_http sv) (alertRuleAPIFromModel fz p) db = (res, db2)" by (metis surj_pair)
  then show ?thesis
    by (cases rule: createRule_cases) (use assms call created failed in \<open>auto simp: alertRule_Create_def set_from_def\<close>)
qed

lemma alertRule_Read_eq:
  assumes "reaches c sv" "Get i db = Inr (r, st)" "sv_gate sv ''GET'' (bearer_of c) = Served ()" "i \<noteq> []" "CHR ''/'' \<notin> set i" "rm_ID m = TfKnown i"
  shows "alertRule_Read c (rule_http sv) m db = ((None, Some (alertRuleModelFromAPI (rule_out r))), db)"
  using assms getRule_served [of c sv i "()" db] by (simp add: alertRule_Read_def read_from_def reaches_def)

lemma alertRule_Read_gone:
  assumes "reaches c sv" "Get i db = Inl ErrNotFound" "sv_gate sv ''GET'' (bearer_of c) = Served ()" "i \<noteq> []" "CHR ''/'' \<notin> set i" "rm_ID m = TfKnown i"
  shows "alertRule_Read c (rule_http sv) m db = ((None, None), db)"
  using assms getRule_served [of c sv i "()" db] by (simp add: alertRule_Read_def read_from_def reaches_def)

lemma alertRule_Read_found:
  assumes "alertRule_Read c (rule_http sv) m db = ((None, Some m), db)" "reaches c sv"
  obtains i st where "rm_ID m = TfKnown i" "Get i db = Inr st" "i \<noteq> []" "CHR ''/'' \<notin> set i" "sv_gate sv ''GET'' (bearer_of c) = Served ()"
proof -
  obtain res db2 where call: "getRule c (rule_http sv) (ValueString (rm_ID m)) db = (res, db2)" by (metis surj_pair)
  then obtain r where r: "res = Inr r" "m = alertRuleModelFromAPI r"
    using assms(1) by (auto simp: alertRule_Read_def read_from_def split: sum.splits if_splits)
  then have "getRule c (rule_http sv) (tr_ID r) db = (Inr r, db2)" using call by (simp add: alertRuleModelFromAPI_def)
  then obtain st where st: "Get (ValueString (rm_ID m)) db = Inr st" "r = rule_out (fst st)" "ValueString (rm_ID m) \<noteq> []"
      "CHR ''/'' \<notin> set (ValueString (rm_ID m))" "sv_gate sv ''GET'' (bearer_of c) = Served ()"
    using getRule_found [of c sv "ValueString (rm_ID m)" db r db2] call r(1) assms(2) by (auto simp: reaches_def)
  moreover have "rm_ID m = TfKnown (ValueString (rm_ID m))" using r(2) by (simp add: alertRuleModelFromAPI_def)
  ultimately show ?thesis using that by blast
qed

interpretation tf_rule: managed_resource "alertRule_Create fz c (rule_http sv)" "alertRule_Read c (rule_http sv)" "alertRule_Delete c (rule_http sv)"
  "\<lambda>p. planned_create alertRule_Schema (rule_presence p)" "\<lambda>p m. accepted (rule_presence p) (rule_same p m)" "\<lambda>db. reaches c sv"
  for fz c sv
proof
  fix p :: "'a rule_model" and s s' d x m
  assume "alertRule_Create fz c (rule_http sv) p s = ((Some d, x), s')"
  then show "x = None \<and> s' = s" by (cases rule: alertRule_Create_cases) simp_all
next
  fix p :: "'a rule_model" and s s' x
  assume "alertRule_Create fz c (rule_http sv) p s = ((None, x), s')"
  then show "\<exists>m. x = Some m" by (cases rule: alertRule_Create_cases) simp_all
next
  fix p m :: "'a rule_model" and s s'
  assume "planned_create alertRule_Schema (rule_presence p)" "alertRule_Create fz c (rule_http sv) p s = ((None, Some m), s')"
  then show "accepted (rule_presence p) (rule_same p m)"
    by (elim alertRule_Create_cases) (auto intro: rule_accepted)
next
  fix p m :: "'a rule_model" and s s'
  assume "reaches c sv" "alertRule_Create fz c (rule_http sv) p s = ((None, Some m), s')"
  then show "alertRule_Read c (rule_http sv) m s' = ((None, Some m), s')"
  proof (elim alertRule_Create_cases)
    fix r
    assume m: "Some m = Some (alertRuleModelFromAPI (rule_out r))"
      and r: "Create (sv_uuid sv) (sv_now sv) (enabled_rule (alertRuleAPIFromModel fz p)) s = Inr (r, s')"
      and gate: "sv_gate sv ''POST'' (bearer_of c) = Served ()"
    obtain st where "Get (sv_uuid sv) s' = Inr (r, st)" "r_ID r = sv_uuid sv" using Get_after_Create [OF r] by blast
    then show "alertRule_Read c (rule_http sv) m s' = ((None, Some m), s')"
      using \<open>reaches c sv\<close> m gate alertRule_Read_eq [of c sv "sv_uuid sv" s' r st m]
      by (simp add: reaches_def alertRuleModelFromAPI_def rule_out_def)
  qed simp
next
  fix m :: "'a rule_model" and s
  show "snd (alertRule_Read c (rule_http sv) m s) = s" by (simp add: alertRule_Read_def read_from_def getRule_pure)
next
  fix m :: "'a rule_model" and s s' x
  assume r: "reaches c sv" and found: "alertRule_Read c (rule_http sv) m s = ((None, Some m), s)"
    and del: "alertRule_Delete c (rule_http sv) m s = ((None, x), s')"
  from found r obtain i st where i: "rm_ID m = TfKnown i" "Get i s = Inr st" "i \<noteq> []" "CHR ''/'' \<notin> set i" "sv_gate sv ''GET'' (bearer_of c) = Served ()"
    by (rule alertRule_Read_found)
  obtain res s2 where call: "deleteRule c (rule_http sv) i s = (res, s2)" by (metis surj_pair)
  from call _ i(2-4) have "Delete i s = Inr s' \<and> x = None"
  proof (cases rule: deleteRule_found)
    show "cl_baseURL c = sv_base sv" using r by (simp add: reaches_def)
  qed (use del call i(1) in \<open>auto simp: alertRule_Delete_def delete_from_def\<close>)
  then show "x = None \<and> alertRule_Read c (rule_http sv) m s' = ((None, None), s')"
    using alertRule_Read_gone [OF r Get_after_Delete i(5) i(3,4) i(1)] by blast
qed


text \<open>The states of a plan's whole schema must be replaced rather than updated: there is no update to call.\<close>

lemma rule_schema_replaces:
  "list_all (\<lambda>(_, a). sa_Computed a \<and> \<not> sa_Optional a \<or> sa_Replace a) alertRule_Schema"
  "list_all (\<lambda>(_, a). sa_Computed a \<and> \<not> sa_Optional a \<or> sa_Replace a) notificationTarget_Schema"
  by code_simp+

section \<open>Dashboards\<close>

definition caller :: "'e dash_server \<Rightarrow> string \<Rightarrow> role \<Rightarrow> identity option guarded" where
  "caller sv auth floor = (case bs_au sv of None \<Rightarrow> Served None
     | Some f \<Rightarrow> (case f auth of Inl _ \<Rightarrow> Unauthorized | Inr i \<Rightarrow> if Satisfies (id_Role i) floor then Served (Some i) else Forbidden))"

definition board_conf :: "'e dash_server \<Rightarrow> dash_conf" where
  "board_conf sv = \<lparr>authOn = (bs_au sv \<noteq> None), permOn = bs_perm sv\<rparr>"

lemma dash_call_eq:
  "dash_call sv out method auth (Some route) db = (case caller sv auth (dash_floor route) of
     Unauthorized \<Rightarrow> (respond_error 401 ''unauthorized'', db)
   | Forbidden \<Rightarrow> (respond_error 403 ''forbidden'', db)
   | Served ctx \<Rightarrow> (case dash_handler (bs_env sv) (board_conf sv) route ctx db of
       ((code, body), db') \<Rightarrow> (if code = 204 then Response 204 [] [] None
          else if code \<ge> 300 then respond_error code (bs_text sv body) else answer_with code (out body), db')))"
  by (cases "bs_au sv") (auto simp: dash_call_def dash_serve_def RequireRole_def caller_def board_conf_def blank_request_def
      split: sum.splits guarded.splits prod.splits)

lemma caller_editor_viewer: "caller sv auth RoleEditor = Served ctx \<Longrightarrow> caller sv auth RoleViewer = Served ctx"
  by (auto simp: caller_def Satisfies_def roleRank_def role_defs split: option.splits sum.splits if_splits)

definition panels_ok :: "wire \<Rightarrow> dash_db \<Rightarrow> bool" where
  "panels_ok w db = (\<forall>p \<in> set (dt_panels db). raw_json w (pn_VizConfig p) \<noteq> None)"

text \<open>Stored panels are JSON, so a dashboard with its panels can be sent.\<close>

lemma board_out_some:
  assumes "panels_ok w db" "GetDashboard t i db = Inr d"
  shows "\<exists>out. board_out w d = Some out \<and> dashboardModelFromAPI out = dashboardModelFromAPI (the (board_out w (d\<lparr>ds_Panels := []\<rparr>)))"
proof -
  have sub: "set (ds_Panels d) \<subseteq> set (dt_panels db)" using assms(2) by (auto simp: GetDashboard_def listPanels_def split: option.splits)
  have "\<exists>ps. those (map (panel_out w) xs) = Some ps" if "set xs \<subseteq> set (dt_panels db)" for xs
    using that assms(1) by (induction xs) (auto simp: panels_ok_def panel_out_def)
  then obtain ps where "those (map (panel_out w) (ds_Panels d)) = Some ps" using sub by blast
  then show ?thesis by (simp add: board_out_def dashboardModelFromAPI_def)
qed

definition board_reaches :: "tf_client \<Rightarrow> 'e dash_server \<Rightarrow> bool" where
  "board_reaches c sv = (cl_baseURL c = bs_base sv \<and> de_uuid (bs_env sv) 0 \<noteq> [] \<and> CHR ''/'' \<notin> set (de_uuid (bs_env sv) 0))"

lemma dashboard_http_path:
  assumes "cl_baseURL c = bs_base sv" "i \<noteq> []" "CHR ''/'' \<notin> set i"
  shows "dashboard_http w sv ''GET'' (cl_baseURL c @ ''/dashboards/'' @ i) auth b = dash_call sv (board_body_out w) ''GET'' auth (Some (DGet i))"
    and "dashboard_http w sv ''PUT'' (cl_baseURL c @ ''/dashboards/'' @ i) auth b
      = dash_call sv (board_body_out w) ''PUT'' auth (Some (DUpdate i (map_option (board_in w) b)))"
    and "dashboard_http w sv ''DELETE'' (cl_baseURL c @ ''/dashboards/'' @ i) auth b = dash_call sv (board_body_out w) ''DELETE'' auth (Some (DDelete i))"
  using seg_path [OF assms(2,3), of "bs_base sv" "''/dashboards/''"] unfolding dashboard_http_def assms(1) by simp_all

lemma createDashboard_cases:
  assumes "createDashboard c (dashboard_http w sv) d db = (res, db')"
  obtains (created) ctx e out where "CreateDashboard (bs_env sv) ((board_in w d)\<lparr>ds_TenantID := tenantID ctx, ds_CreatedBy := createdBy ctx\<rparr>) db = Inr (e, db')"
      "caller sv (bearer_of c) RoleEditor = Served ctx" "board_out w e = Some out" "res = Inr out" "ds_Panels e = []"
  | (failed) e where "res = Inl e" "db' = db"
proof (cases "cl_baseURL c = bs_base sv")
  case True
  then have http: "dashboard_http w sv ''POST'' (cl_baseURL c @ ''/dashboards'') (bearer_of c) (Some d)
      = dash_call sv (board_body_out w) ''POST'' (bearer_of c) (Some (DCreate (Some (board_in w d))))"
    unfolding dashboard_http_def by (intro ext) simp
  have panels: "ds_Panels e = []" if "CreateDashboard (bs_env sv) ((board_in w d)\<lparr>ds_TenantID := t, ds_CreatedBy := b\<rparr>) db = Inr (e, db2)" for t b e db2
    using that by (auto simp: CreateDashboard_def board_in_def Let_def split: if_splits)
  show ?thesis
    using assms created failed panels unfolding createDashboard_def client_do_bearer http dash_call_eq
    by (auto simp: handleCreate_def answer_with_def respond_error_def dash_badJSON_def board_out_def split: guarded.splits sum.splits if_splits)
next
  case False
  have "dashboard_http w sv ''POST'' (cl_baseURL c @ ''/dashboards'') (bearer_of c) (Some d) db = (no_route, db)"
    using False by (auto simp: dashboard_http_def dash_call_def split: option.splits)
  then show ?thesis using assms failed unfolding createDashboard_def client_do_bearer by (auto simp: no_route_def)
qed

text \<open>A read by an admitted caller is \<open>GetDashboard\<close> in the caller's tenant.\<close>

lemma dashboard_Read_eq:
  assumes "cl_baseURL c = bs_base sv" "i \<noteq> []" "CHR ''/'' \<notin> set i" "caller sv (bearer_of c) RoleViewer = Served ctx" "panels_ok w db"
    and "dm_ID m = TfKnown i"
  shows "dashboard_Read c (dashboard_http w sv) m db = (case GetDashboard (tenantID ctx) i db of
      Inl e \<Rightarrow> ((None, None), db)
    | Inr d \<Rightarrow> ((None, Some (dashboardModelFromAPI (the (board_out w (d\<lparr>ds_Panels := []\<rparr>))))), db))"
proof (cases "GetDashboard (tenantID ctx) i db")
  case (Inl e)
  then have "e = DashNotFound" by (auto simp: GetDashboard_def split: option.splits)
  with Inl show ?thesis
    unfolding dashboard_Read_def getDashboard_def client_do_bearer assms(6) values_simps dashboard_http_path(1) [OF assms(1-3)] dash_call_eq
    by (simp add: assms(4) handleGet_def dash_storeErr_def respond_error_def read_from_def)
next
  case (Inr d)
  obtain out where "board_out w d = Some out" "dashboardModelFromAPI out = dashboardModelFromAPI (the (board_out w (d\<lparr>ds_Panels := []\<rparr>)))"
    using board_out_some [OF assms(5) Inr] by blast
  with Inr show ?thesis
    unfolding dashboard_Read_def getDashboard_def client_do_bearer assms(6) values_simps dashboard_http_path(1) [OF assms(1-3)] dash_call_eq
    by (simp add: assms(4) handleGet_def answer_with_def read_from_def)
qed

text \<open>What a successful create leaves in the tables.\<close>

lemma Get_after_CreateDashboard:
  assumes "CreateDashboard env (d\<lparr>ds_TenantID := tenantID ctx, ds_CreatedBy := b\<rparr>) db = Inr (e, db')"
  shows "\<exists>x. GetDashboard (tenantID ctx) (de_uuid env 0) db' = Inr x \<and> x\<lparr>ds_Panels := []\<rparr> = e\<lparr>ds_Panels := []\<rparr>"
    and "ds_ID e = de_uuid env 0" and "dt_panels db' = dt_panels db"
proof -
  have e: "ds_ID e = de_uuid env 0" "ds_TenantID e = tenantID ctx" "de_uuid env 0 \<notin> ds_ID ` set (dt_boards db)"
      "db' = db\<lparr>dt_boards := dt_boards db @ [e\<lparr>ds_Panels := []\<rparr>]\<rparr>"
    using assms tenantID_nonempty [of ctx] by (auto simp: CreateDashboard_def Let_def board_constraints_def or_default_def split: if_splits)
  have "find (\<lambda>d. ds_ID d = de_uuid env 0 \<and> ds_TenantID d = tenantID ctx) (dt_boards db) = None"
    using e(3) by (auto simp: find_None_iff image_iff)
  then have "find (\<lambda>d. ds_ID d = de_uuid env 0 \<and> ds_TenantID d = tenantID ctx) (dt_boards db') = Some (e\<lparr>ds_Panels := []\<rparr>)"
    using e by (simp add: find_append)
  then show "\<exists>x. GetDashboard (tenantID ctx) (de_uuid env 0) db' = Inr x \<and> x\<lparr>ds_Panels := []\<rparr> = e\<lparr>ds_Panels := []\<rparr>"
    by (simp add: GetDashboard_def)
  show "ds_ID e = de_uuid env 0" "dt_panels db' = dt_panels db" using e by simp_all
qed

lemma board_model_panels: "board_out w e = Some out \<Longrightarrow>
    dashboardModelFromAPI out = dashboardModelFromAPI (the (board_out w (e\<lparr>ds_Panels := []\<rparr>)))"
  by (auto simp: board_out_def dashboardModelFromAPI_def)

lemma board_model:
  "dashboardModelFromAPI (the (board_out w (e\<lparr>ds_Panels := []\<rparr>))) = \<lparr>dm_ID = TfKnown (ds_ID e), dm_TenantID = TfKnown (ds_TenantID e),
     dm_Name = TfKnown (ds_Name e), dm_Description = TfKnown (ds_Description e), dm_DefaultEarliest = TfKnown (ds_DefaultEarliest e),
     dm_DefaultLatest = TfKnown (ds_DefaultLatest e), dm_CreatedBy = TfKnown (ds_CreatedBy e), dm_CreatedAt = TfKnown (wr_fmt w (ds_CreatedAt e)),
     dm_UpdatedAt = TfKnown (wr_fmt w (ds_UpdatedAt e))\<rparr>"
  by (simp add: board_out_def dashboardModelFromAPI_def)

definition board_plan :: "dashboard_model \<Rightarrow> bool" where
  "board_plan p = (dm_DefaultEarliest p \<noteq> TfKnown [] \<and> dm_DefaultLatest p \<noteq> TfKnown [])"

lemma dashboard_Create_cases:
  assumes "dashboard_Create c (dashboard_http w sv) p db = ((d, x), db')"
  obtains (created) ctx e where "d = None" "x = Some (dashboardModelFromAPI (the (board_out w (e\<lparr>ds_Panels := []\<rparr>))))"
      "CreateDashboard (bs_env sv) ((board_in w (dashboard_in p))\<lparr>ds_TenantID := tenantID ctx, ds_CreatedBy := createdBy ctx\<rparr>) db = Inr (e, db')"
      "caller sv (bearer_of c) RoleEditor = Served ctx"
  | (failed) "d \<noteq> None" "x = None" "db' = db"
proof -
  obtain res db2 where call: "createDashboard c (dashboard_http w sv) (dashboard_in p) db = (res, db2)" by (metis surj_pair)
  then show ?thesis
    by (cases rule: createDashboard_cases)
      (use assms call created failed in \<open>auto simp: dashboard_Create_def set_from_def dest: board_model_panels\<close>)
qed

lemma dashboard_accepted:
  assumes "planned_create dashboard_Schema (dashboard_presence p)" "board_plan p"
    and "CreateDashboard env ((board_in w (dashboard_in p))\<lparr>ds_TenantID := t, ds_CreatedBy := b\<rparr>) db = Inr (e, db')"
  shows "accepted (dashboard_presence p) (dashboard_same p (dashboardModelFromAPI (the (board_out w (e\<lparr>ds_Panels := []\<rparr>)))))"
proof -
  have "ds_Name e = ValueString (dm_Name p)" "ds_Description e = ValueString (dm_Description p)"
    "ds_DefaultEarliest e = or_default (ValueString (dm_DefaultEarliest p)) ''-1h''" "ds_DefaultLatest e = or_default (ValueString (dm_DefaultLatest p)) ''now''"
    using assms(3) by (auto simp: CreateDashboard_def Let_def board_in_def dashboard_in_def zero_dashboard_def split: if_splits)
  with assms(1,2) show ?thesis
    by (cases "dm_DefaultEarliest p"; cases "dm_DefaultLatest p")
      (auto simp: board_model dashboard_Schema_def plan_unfold dashboard_presence_def dashboard_same_def board_plan_def or_default_def)
qed

lemma dashboard_Read_pure: "snd (dashboard_Read c (dashboard_http w sv) m db) = db"
proof -
  have "snd (dash_call sv (board_body_out w) ''GET'' auth (Some (DGet i)) db) = db" for auth i
    by (auto simp: dash_call_eq handleGet_def split: guarded.splits sum.splits prod.splits)
  then have "snd (dashboard_http w sv ''GET'' url auth b db) = db" for url auth b
    by (auto simp: dashboard_http_def dash_call_def split: option.splits)
  then show ?thesis by (simp add: dashboard_Read_def read_from_def getDashboard_def client_do_pure)
qed

lemma dashboard_Read_known:
  assumes "dashboard_Read c http m s = ((None, Some m), s')"
  obtains i where "dm_ID m = TfKnown i"
proof (cases "getDashboard c http (ValueString (dm_ID m)) s")
  case (Pair res t)
  with assms have "\<exists>out. m = dashboardModelFromAPI out" by (auto simp: dashboard_Read_def read_from_def split: sum.splits if_splits)
  then show ?thesis using that by (auto simp: dashboardModelFromAPI_def)
qed

lemma dashboard_Read_found:
  assumes "dashboard_Read c (dashboard_http w sv) m db = ((None, Some m), db)" "cl_baseURL c = bs_base sv" "panels_ok w db"
    and "dm_ID m = TfKnown i"
  obtains ctx d where "caller sv (bearer_of c) RoleViewer = Served ctx" "GetDashboard (tenantID ctx) i db = Inr d" "i \<noteq> []" "CHR ''/'' \<notin> set i"
      "m = dashboardModelFromAPI (the (board_out w (d\<lparr>ds_Panels := []\<rparr>)))"
proof -
  have "i \<noteq> [] \<and> CHR ''/'' \<notin> set i"
  proof (rule ccontr)
    assume "\<not> (i \<noteq> [] \<and> CHR ''/'' \<notin> set i)"
    then have "seg (bs_base sv @ ''/dashboards/'') (bs_base sv @ ''/dashboards/'' @ i) = None" by (simp add: seg_def)
    then have "dashboard_http w sv ''GET'' (cl_baseURL c @ ''/dashboards/'' @ i) auth b db = (no_route, db)" for auth b
      using assms(2) by (simp add: dashboard_http_def dash_call_def)
    then have "fst (dashboard_Read c (dashboard_http w sv) m db) = (None, None)"
      unfolding dashboard_Read_def getDashboard_def client_do_bearer assms(4) values_simps by (simp add: no_route_def read_from_def)
    then show False using assms(1) by simp
  qed
  then have i: "i \<noteq> []" "CHR ''/'' \<notin> set i" by simp_all
  show ?thesis
  proof (cases "caller sv (bearer_of c) RoleViewer")
    case (Served ctx)
    from dashboard_Read_eq [OF assms(2) i Served assms(3,4)] assms(1)
    show ?thesis using that [OF Served _ i] by (cases "GetDashboard (tenantID ctx) i db") auto
  qed (use assms(1) in \<open>simp_all add: dashboard_Read_def getDashboard_def client_do_bearer assms(4) dashboard_http_path(1) [OF assms(2) i, simplified]
      dash_call_eq respond_error_def read_from_def\<close>)
qed

lemma Get_after_DeleteDashboard: "DeleteDashboard t i db = Inr db' \<Longrightarrow> GetDashboard t i db' = Inl DashNotFound"
  by (auto simp: DeleteDashboard_def GetDashboard_def find_None_iff split: if_splits option.splits)

text \<open>A served delete or update of a dashboard that the caller can see.\<close>

lemma dashboard_Delete_cases:
  assumes "dashboard_Delete c (dashboard_http w sv) m db = ((None, x), db')" "cl_baseURL c = bs_base sv" "dm_ID m = TfKnown i" "i \<noteq> []"
    "CHR ''/'' \<notin> set i" "caller sv (bearer_of c) RoleViewer = Served ctx" "GetDashboard (tenantID ctx) i db = Inr d"
  shows "x = None \<and> DeleteDashboard (tenantID ctx) i db = Inr db'"
proof -
  have "caller sv (bearer_of c) RoleEditor = Served ctx \<or> caller sv (bearer_of c) RoleEditor \<in> {Unauthorized, Forbidden}"
    using assms(6) by (auto simp: caller_def split: option.splits sum.splits if_splits)
  moreover have "dashboardTenantMatches (tenantID ctx) i db"
    using assms(7) by (auto simp: GetDashboard_def dashboardTenantMatches_def list_ex_iff split: option.splits dest: find_SomeD)
  ultimately show ?thesis
    using assms(1) unfolding dashboard_Delete_def deleteDashboard_def client_do_bearer assms(3) values_simps dashboard_http_path(3) [OF assms(2,4,5)] dash_call_eq
    by (auto simp: handleDelete_def with_board_def assms(7) DeleteDashboard_def delete_from_def respond_error_def split: if_splits)
qed

interpretation tf_board: managed_resource "dashboard_Create c (dashboard_http w sv)" "dashboard_Read c (dashboard_http w sv)"
  "dashboard_Delete c (dashboard_http w sv)" "\<lambda>p. planned_create dashboard_Schema (dashboard_presence p) \<and> board_plan p"
  "\<lambda>p m. accepted (dashboard_presence p) (dashboard_same p m)" "\<lambda>db. board_reaches c sv \<and> panels_ok w db"
  for c w sv
proof
  fix p s s' d x
  assume "dashboard_Create c (dashboard_http w sv) p s = ((Some d, x), s')"
  then show "x = None \<and> s' = s" by (cases rule: dashboard_Create_cases) simp_all
next
  fix p s s' x
  assume "dashboard_Create c (dashboard_http w sv) p s = ((None, x), s')"
  then show "\<exists>m. x = Some m" by (cases rule: dashboard_Create_cases) simp_all
next
  fix p s s' y
  assume ok: "board_reaches c sv \<and> panels_ok w s" and c: "dashboard_Create c (dashboard_http w sv) p s = (y, s')"
  obtain d x where "y = (d, x)" by fastforce
  with c have "dashboard_Create c (dashboard_http w sv) p s = ((d, x), s')" by simp
  then show "board_reaches c sv \<and> panels_ok w s'"
    by (cases rule: dashboard_Create_cases) (use ok Get_after_CreateDashboard(3) in \<open>auto simp: panels_ok_def\<close>)
next
  fix p m s s'
  assume "planned_create dashboard_Schema (dashboard_presence p) \<and> board_plan p" "dashboard_Create c (dashboard_http w sv) p s = ((None, Some m), s')"
  then show "accepted (dashboard_presence p) (dashboard_same p m)"
    by (elim dashboard_Create_cases) (auto intro: dashboard_accepted)
next
  fix p m s s'
  assume ok: "board_reaches c sv \<and> panels_ok w s" and c: "dashboard_Create c (dashboard_http w sv) p s = ((None, Some m), s')"
  from c show "dashboard_Read c (dashboard_http w sv) m s' = ((None, Some m), s')"
  proof (cases rule: dashboard_Create_cases)
    case (created ctx e)
    note get = Get_after_CreateDashboard [OF created(3)]
    have "panels_ok w s'" "dm_ID m = TfKnown (de_uuid (bs_env sv) 0)" using ok get(2,3) created(2) by (simp_all add: panels_ok_def board_model)
    then show ?thesis
      using get(1) ok created(2) dashboard_Read_eq [of c sv "de_uuid (bs_env sv) 0" ctx w s' m] caller_editor_viewer [OF created(4)]
      by (auto simp: board_reaches_def)
  qed simp
next
  fix m s
  show "snd (dashboard_Read c (dashboard_http w sv) m s) = s" by (rule dashboard_Read_pure)
next
  fix m s s' x
  assume ok: "board_reaches c sv \<and> panels_ok w s" and found: "dashboard_Read c (dashboard_http w sv) m s = ((None, Some m), s)"
    and del: "dashboard_Delete c (dashboard_http w sv) m s = ((None, x), s')"
  obtain i where i: "dm_ID m = TfKnown i" using found by (rule dashboard_Read_known)
  from found _ _ i show "x = None \<and> dashboard_Read c (dashboard_http w sv) m s' = ((None, None), s')"
  proof (rule dashboard_Read_found)
    show base: "cl_baseURL c = bs_base sv" "panels_ok w s" using ok by (simp_all add: board_reaches_def)
    fix ctx d
    assume c: "caller sv (bearer_of c) RoleViewer = Served ctx" "GetDashboard (tenantID ctx) i s = Inr d" "i \<noteq> []" "CHR ''/'' \<notin> set i"
    from dashboard_Delete_cases [OF del base(1) i c(3,4,1,2)]
    have x: "x = None" "DeleteDashboard (tenantID ctx) i s = Inr s'" by simp_all
    have "panels_ok w s'" using x(2) base(2) by (auto simp: DeleteDashboard_def panels_ok_def split: if_splits)
    then show "x = None \<and> dashboard_Read c (dashboard_http w sv) m s' = ((None, None), s')"
      using x dashboard_Read_eq [OF base(1) c(3,4,1) _ i] Get_after_DeleteDashboard [OF x(2)] by simp
  qed
qed

lemma Get_after_UpdateDashboard:
  assumes "UpdateDashboard env t e db = Inr (f, db')" "GetDashboard t (ds_ID e) db = Inr d"
  shows "\<exists>g. GetDashboard t (ds_ID e) db' = Inr g \<and> g\<lparr>ds_Panels := []\<rparr> = f\<lparr>ds_Panels := []\<rparr>"
    and "ds_ID f = ds_ID e" "ds_TenantID f = ds_TenantID d" "ds_CreatedBy f = ds_CreatedBy d" "ds_CreatedAt f = ds_CreatedAt d"
    and "ds_Name f = ds_Name e" "ds_Description f = ds_Description e" "ds_DefaultEarliest f = or_default (ds_DefaultEarliest e) ''-1h''"
    and "ds_DefaultLatest f = or_default (ds_DefaultLatest e) ''now''" "dt_panels db' = dt_panels db"
proof -
  let ?hit = "\<lambda>x. ds_ID x = ds_ID e \<and> ds_TenantID x = t"
  let ?upd = "\<lambda>x. x\<lparr>ds_Name := ds_Name e, ds_Description := ds_Description e, ds_DefaultEarliest := or_default (ds_DefaultEarliest e) ''-1h'',
      ds_DefaultLatest := or_default (ds_DefaultLatest e) ''now'', ds_UpdatedAt := de_now env\<rparr>"
  obtain x where x: "find ?hit (dt_boards db) = Some x" "d = x\<lparr>ds_Panels := listPanels (ds_ID e) db\<rparr>"
    using assms(2) by (auto simp: GetDashboard_def split: option.splits)
  have f: "f = e\<lparr>ds_DefaultEarliest := or_default (ds_DefaultEarliest e) ''-1h'', ds_DefaultLatest := or_default (ds_DefaultLatest e) ''now'',
        ds_TenantID := ds_TenantID x, ds_CreatedBy := ds_CreatedBy x, ds_CreatedAt := ds_CreatedAt x, ds_UpdatedAt := de_now env\<rparr>"
      "db' = db\<lparr>dt_boards := map (\<lambda>x. if ?hit x then ?upd x else x) (dt_boards db)\<rparr>"
    using assms(1) x(1) by (simp_all add: UpdateDashboard_def Let_def cong: if_cong)
  have "find ?hit (dt_boards db') = Some (?upd x)" using find_map_hit [of ?hit ?upd "dt_boards db"] x(1) f(2) by simp
  then show "\<exists>g. GetDashboard t (ds_ID e) db' = Inr g \<and> g\<lparr>ds_Panels := []\<rparr> = f\<lparr>ds_Panels := []\<rparr>"
    using f(1) find_SomeD [OF x(1)] by (simp add: GetDashboard_def)
  show "ds_ID f = ds_ID e" "ds_TenantID f = ds_TenantID d" "ds_CreatedBy f = ds_CreatedBy d" "ds_CreatedAt f = ds_CreatedAt d"
    "ds_Name f = ds_Name e" "ds_Description f = ds_Description e" "ds_DefaultEarliest f = or_default (ds_DefaultEarliest e) ''-1h''"
    "ds_DefaultLatest f = or_default (ds_DefaultLatest e) ''now''" "dt_panels db' = dt_panels db"
    using f x(2) by simp_all
qed

lemma dashboard_Update_cases:
  assumes "dashboard_Update c (dashboard_http w sv) p m db = ((None, x), db')" "cl_baseURL c = bs_base sv" "dm_ID p = TfKnown i" "i \<noteq> []"
    "CHR ''/'' \<notin> set i" "caller sv (bearer_of c) RoleViewer = Served ctx" "GetDashboard (tenantID ctx) i db = Inr d"
  obtains e where "UpdateDashboard (bs_env sv) (tenantID ctx) ((board_in w (dashboard_in p))\<lparr>ds_ID := i\<rparr>) db = Inr (e, db')"
      "x = Some (dashboardModelFromAPI (the (board_out w (e\<lparr>ds_Panels := []\<rparr>))))"
proof -
  let ?in = "(board_in w (dashboard_in p))\<lparr>ds_ID := i\<rparr>"
  have "caller sv (bearer_of c) RoleEditor = Served ctx \<or> caller sv (bearer_of c) RoleEditor \<in> {Unauthorized, Forbidden}"
    using assms(6) by (auto simp: caller_def split: option.splits sum.splits if_splits)
  moreover obtain e db2 where e: "UpdateDashboard (bs_env sv) (tenantID ctx) ?in db = Inr (e, db2)"
    using assms(7) by (auto simp: GetDashboard_def UpdateDashboard_def Let_def split: option.splits)
  moreover from e have "\<exists>out. board_out w e = Some out \<and> dashboardModelFromAPI out = dashboardModelFromAPI (the (board_out w (e\<lparr>ds_Panels := []\<rparr>)))"
    by (auto simp: UpdateDashboard_def Let_def board_in_def board_out_def dashboardModelFromAPI_def split: option.splits)
  ultimately show ?thesis
    using assms(1) that [of e]
    unfolding dashboard_Update_def updateDashboard_def client_do_bearer assms(3) values_simps dashboard_http_path(2) [OF assms(2,4,5)] dash_call_eq
    by (auto simp: handleUpdate_def with_board_def assms(7) set_from_def respond_error_def answer_with_def split: if_splits)
qed

text \<open>A dashboard that Terraform updates is the dashboard it planned. If the state is what a refresh returns and the plan is one
  that the schema allows (computed attributes keep their value, the default range is not set to the empty string), then an \<open>Update\<close> without
  a diagnostic records a state in which every attribute that the plan knew has its planned value, the creation time included, and a refresh returns
  exactly that state.\<close>

theorem dashboard_update_accepted:
  assumes reach: "board_reaches c sv" "panels_ok w db" and sync: "dashboard_Read c (dashboard_http w sv) m db = ((None, Some m), db)"
    and plan: "planned_update dashboard_Schema (dashboard_presence p) (dashboard_same p m)" "board_plan p"
    and upd: "dashboard_Update c (dashboard_http w sv) p m db = ((None, x), db')"
  shows "\<exists>m'. x = Some m' \<and> accepted (dashboard_presence p) (dashboard_same p m')
    \<and> dashboard_Read c (dashboard_http w sv) m' db' = ((None, Some m'), db')"
proof -
  have base: "cl_baseURL c = bs_base sv" using reach(1) by (simp add: board_reaches_def)
  obtain i where i0: "dm_ID m = TfKnown i" using sync by (rule dashboard_Read_known)
  from sync base reach(2) i0 obtain ctx d where c: "caller sv (bearer_of c) RoleViewer = Served ctx" "GetDashboard (tenantID ctx) i db = Inr d"
      "i \<noteq> []" "CHR ''/'' \<notin> set i" "m = dashboardModelFromAPI (the (board_out w (d\<lparr>ds_Panels := []\<rparr>)))"
    by (rule dashboard_Read_found)
  have p: "dm_ID p = TfKnown i" "dm_TenantID p = TfKnown (ds_TenantID d)" "dm_CreatedBy p = TfKnown (ds_CreatedBy d)"
      "dm_CreatedAt p = TfKnown (wr_fmt w (ds_CreatedAt d))" "dm_UpdatedAt p = TfUnknown" "presence_of (dm_Name p) = PKnown"
      "presence_of (dm_Description p) = PKnown" "dm_DefaultEarliest p \<noteq> TfNull" "dm_DefaultLatest p \<noteq> TfNull"
    using plan(1) i0 unfolding c(5) board_model
    by (auto simp: dashboard_Schema_def plan_unfold dashboard_presence_def dashboard_same_def)
  from upd base p(1) c(3,4,1,2) obtain e where e: "UpdateDashboard (bs_env sv) (tenantID ctx) ((board_in w (dashboard_in p))\<lparr>ds_ID := i\<rparr>) db = Inr (e, db')"
      "x = Some (dashboardModelFromAPI (the (board_out w (e\<lparr>ds_Panels := []\<rparr>))))" by (rule dashboard_Update_cases)
  have get: "GetDashboard (tenantID ctx) (ds_ID ((board_in w (dashboard_in p))\<lparr>ds_ID := i\<rparr>)) db = Inr d" using c(2) by simp
  note row = Get_after_UpdateDashboard [OF e(1) get]
  let ?m = "dashboardModelFromAPI (the (board_out w (e\<lparr>ds_Panels := []\<rparr>)))"
  have "accepted (dashboard_presence p) (dashboard_same p ?m)"
    using p plan(2) row(2-9)
    by (cases "dm_DefaultEarliest p"; cases "dm_DefaultLatest p")
      (auto simp: board_model plan_unfold dashboard_presence_def dashboard_same_def board_plan_def or_default_def board_in_def dashboard_in_def)
  moreover have "panels_ok w db'" "dm_ID ?m = TfKnown i" using reach(2) row(2,10) by (simp_all add: panels_ok_def board_model)
  then have "dashboard_Read c (dashboard_http w sv) ?m db' = ((None, Some ?m), db')"
    using dashboard_Read_eq [OF base c(3,4,1)] row(1) by auto
  ultimately show ?thesis using e(2) by blast
qed

text \<open>Creation, refresh and deletion of dashboards follow the same contract as rules.\<close>

lemma dashboard_lifecycle:
  assumes "planned_create dashboard_Schema (dashboard_presence p)" "board_plan p" "board_reaches c sv" "panels_ok w db"
  shows "case dashboard_Create c (dashboard_http w sv) p db of
      ((None, Some m), db') \<Rightarrow> accepted (dashboard_presence p) (dashboard_same p m) \<and> dashboard_Read c (dashboard_http w sv) m db' = ((None, Some m), db')
        \<and> (case dashboard_Delete c (dashboard_http w sv) m db' of
             ((None, y), db2) \<Rightarrow> y = None \<and> dashboard_Read c (dashboard_http w sv) m db2 = ((None, None), db2) | _ \<Rightarrow> True)
    | ((d, x), db') \<Rightarrow> d \<noteq> None \<and> x = None \<and> db' = db"
  by (rule tf_board.lifecycle) (simp_all add: assms)

text \<open>A default range set to the empty string is not what the service stores, so Terraform rejects the result of creating the dashboard.\<close>

lemma empty_default_rejected:
  assumes "dm_DefaultEarliest p = TfKnown []" "dashboard_Create c (dashboard_http w sv) p db = ((None, Some m), db')"
  shows "\<not> accepted (dashboard_presence p) (dashboard_same p m)"
  using assms(2)
proof (cases rule: dashboard_Create_cases)
  case (created ctx e)
  then have "ds_DefaultEarliest e = ''-1h''"
    using assms(1) by (auto simp: CreateDashboard_def Let_def board_in_def dashboard_in_def or_default_def split: if_splits)
  then show ?thesis using assms(1) created(2) by (simp add: accepted_def dashboard_presence_def dashboard_same_def board_model)
qed simp

section \<open>Notification targets\<close>

text \<open>The service fills an empty \<open>headers\<close> with \<open>{}\<close> and returns it; the provider records it although the plan said null. Every notification target
  without \<open>headers\<close> is created on the service and then rejected by Terraform as an inconsistent result.\<close>

lemma createTarget_found:
  assumes "createNotificationTarget c (target_http w sv) t db = (Inr out, db')" "tt_Headers t = []" "wr_compact w ''{}'' = Some ''{}''"
    and "cl_baseURL c = sv_base sv"
  shows "tt_Headers out = ''{}''"
proof -
  have "target_in w t \<noteq> None" using assms(2) by (simp add: target_in_def raw_json_def)
  moreover obtain t' where t': "target_in w t = Some t'" "t_Headers t' = []" using assms(2) by (auto simp: target_in_def raw_json_def)
  ultimately have "target_http w sv ''POST'' (cl_baseURL c @ ''/targets'') (bearer_of c) (Some t)
      = alert_call sv (target_body_out w) ''POST'' (bearer_of c) (Some (AlCreateTarget (Some t')))"
    using assms(4) by (intro ext) (simp add: target_http_def)
  then show ?thesis
    using assms(1,3) t'(2) unfolding createNotificationTarget_def client_do_bearer
    by (auto simp: alert_call_def alerting_handler_def handleCreateTarget_def target_Create_def default_to_def target_out_def raw_json_def
        answer_with_def respond_error_def Let_def split: guarded.splits sum.splits prod.splits if_splits option.splits)
qed

theorem target_without_headers_rejected:
  assumes "tm_Headers p = TfNull" "wr_compact w ''{}'' = Some ''{}''" "cl_baseURL c = sv_base sv"
    and "notificationTarget_Create (wr_compact w) c (target_http w sv) p db = ((None, Some m), db')"
  shows "tm_Headers m = TfKnown ''{}'' \<and> \<not> accepted (target_presence p) (target_same p m)"
proof -
  obtain t where t: "notificationTargetAPIFromModel (wr_compact w) p = Inr t" "tt_Headers t = []"
    using assms(1) by (simp add: notificationTargetAPIFromModel_def zero_target_def Let_def)
  obtain res db2 where call: "createNotificationTarget c (target_http w sv) t db = (res, db2)" by fastforce
  with assms(4) t obtain out where out: "res = Inr out" "m = notificationTargetModelFromAPI out"
    by (auto simp: notificationTarget_Create_def set_from_def split: sum.splits)
  have "tt_Headers out = ''{}''" using createTarget_found [OF _ t(2) assms(2,3)] call out(1) by blast
  then have "tm_Headers m = TfKnown ''{}''" using out(2) by (simp add: notificationTargetModelFromAPI_def)
  then show ?thesis using assms(1) by (simp add: accepted_def target_presence_def target_same_def)
qed

section \<open>Panels\<close>

lemma find_those:
  assumes "those (map f xs) = Some ys" "\<And>x y. f x = Some y \<Longrightarrow> P y = Q x"
  shows "find P ys = Option.bind (find Q xs) f"
  using assms(1)
proof (induction xs arbitrary: ys)
  case (Cons x xs)
  then obtain y zs where "f x = Some y" "those (map f xs) = Some zs" "ys = y # zs" by (auto split: option.splits)
  then show ?case using Cons.IH assms(2) by simp
qed simp

lemma slash_split:
  assumes "CHR ''/'' \<notin> set i"
  shows "takeWhile (\<lambda>ch. ch \<noteq> CHR ''/'') (i @ CHR ''/'' # r) = i" "dropWhile (\<lambda>ch. ch \<noteq> CHR ''/'') (i @ CHR ''/'' # r) = CHR ''/'' # r"
  using assms by (induction i) auto

lemma panel_route_add:
  assumes "i \<noteq> []" "CHR ''/'' \<notin> set i"
  shows "panel_route base ''POST'' (base @ ''/dashboards/'' @ i @ ''/panels'') b = Some (DAddPanel i b)"
  using assms(1) slash_split [OF assms(2)] by (simp add: panel_route_def Let_def)

lemma panel_route_update:
  assumes "i \<noteq> []" "CHR ''/'' \<notin> set i" "j \<noteq> []" "CHR ''/'' \<notin> set j"
  shows "panel_route base ''PUT'' (base @ ''/dashboards/'' @ i @ ''/panels/'' @ j) b = Some (DUpdatePanel i j b)"
  using assms(1) slash_split [OF assms(2)] seg_path [OF assms(3,4), of "[]" "''/panels/''"] by (simp add: panel_route_def Let_def)

text \<open>What is documented of the compaction: \<open>{}\<close> is compact, compact text stays as it is, and the empty text is not JSON.\<close>

definition compacts :: "wire \<Rightarrow> bool" where
  "compacts w = (wr_compact w ''{}'' = Some ''{}'' \<and> wr_compact w [] = None \<and> (\<forall>v u. wr_compact w v = Some u \<longrightarrow> u \<noteq> [] \<and> wr_compact w u = Some u))"

text \<open>The panel that the service decodes from the client's request, checked and with the defaults of \<open>validatePanel\<close>.\<close>

lemma panel_request:
  assumes "dashboardPanelAPIFromModel (wr_compact w) p = Inr t" "compacts w"
  obtains q where "panel_in w t = Some q" "pn_CreatedAt q = zero_gotime" "\<And>q'. validatePanel q = Inr q' \<Longrightarrow>
      pn_CreatedAt q' = zero_gotime \<and> wr_compact w (pn_VizConfig q') = Some (pn_VizConfig q') \<and> pn_VizConfig q' \<noteq> []"
proof -
  have created: "tp_CreatedAt t = []" and viz: "tp_VizConfig t = [] \<or> (\<exists>u. wr_compact w (tp_VizConfig t) = Some u)"
    using assms(1) by (auto simp: dashboardPanelAPIFromModel_def zero_panel_def Let_def split: if_splits)
  obtain v where v: "raw_json w (tp_VizConfig t) = Some v" "v = [] \<or> wr_compact w v = Some v"
  proof (cases "tp_VizConfig t = []")
    case False
    then obtain u where "wr_compact w (tp_VizConfig t) = Some u" using viz by blast
    then show ?thesis using that [of u] False assms(2) by (auto simp: raw_json_def compacts_def)
  qed (use that [of "[]"] in \<open>simp add: raw_json_def\<close>)
  from v(1) created obtain q where q: "panel_in w t = Some q" "pn_CreatedAt q = zero_gotime" "pn_VizConfig q = v" by (auto simp: panel_in_def time_in_def)
  show ?thesis
  proof (rule that [OF q(1,2)])
    fix q'
    assume "validatePanel q = Inr q'"
    then show "pn_CreatedAt q' = zero_gotime \<and> wr_compact w (pn_VizConfig q') = Some (pn_VizConfig q') \<and> pn_VizConfig q' \<noteq> []"
      using q v(2) assms(2) by (auto simp: validatePanel_def compacts_def split: if_splits)
  qed
qed

lemma validatePanel_idem: "validatePanel p = Inr q \<Longrightarrow> validatePanel q = Inr q"
  by (auto simp: validatePanel_def split: if_splits)

text \<open>The service answers an update of a panel with the decoded request, in which the client left out the creation time; the zero time comes back,
  and Terraform rejects every update of a panel as an inconsistent result.\<close>

theorem panel_update_rejected:
  assumes plan: "planned_update dashboardPanel_Schema (panel_presence p) (panel_same p m)" and json: "compacts w"
    and prior: "pm_ID m = TfKnown j" "pm_DashboardID m = TfKnown i" "pm_CreatedAt m = TfKnown t" "t \<noteq> wr_fmt w zero_gotime"
    and ids: "i \<noteq> []" "CHR ''/'' \<notin> set i" "j \<noteq> []" "CHR ''/'' \<notin> set j" and base: "cl_baseURL c = bs_base sv"
    and upd: "dashboardPanel_Update (wr_compact w) c (panel_http w sv) p m db = ((None, Some m'), db')"
  shows "pm_CreatedAt m' = TfKnown (wr_fmt w zero_gotime) \<and> \<not> accepted (panel_presence p) (panel_same p m')"
proof -
  have p: "pm_ID p = TfKnown j" "pm_DashboardID p = TfKnown i" "pm_CreatedAt p = TfKnown t"
    using plan prior by (simp_all add: dashboardPanel_Schema_def plan_unfold panel_presence_def panel_same_def)
  obtain t0 where t0: "dashboardPanelAPIFromModel (wr_compact w) p = Inr t0" using upd by (auto simp: dashboardPanel_Update_def split: sum.splits)
  then obtain q where q: "panel_in w t0 = Some q" "\<And>q'. validatePanel q = Inr q' \<Longrightarrow> pn_CreatedAt q' = zero_gotime
      \<and> wr_compact w (pn_VizConfig q') = Some (pn_VizConfig q') \<and> pn_VizConfig q' \<noteq> []"
    using panel_request [OF _ json] by metis
  have http: "panel_http w sv ''PUT'' (cl_baseURL c @ ''/dashboards/'' @ i @ ''/panels/'' @ j) (bearer_of c) (Some t0) db
      = dash_call sv (panel_body_out w) ''PUT'' (bearer_of c) (Some (DUpdatePanel i j (Some q))) db"
    unfolding panel_http_def base panel_route_update [OF ids] using q(1) by simp
  have created: "pm_CreatedAt m' = TfKnown (wr_fmt w zero_gotime)"
    using upd unfolding dashboardPanel_Update_def t0 sum.case Let_def p values_simps updatePanel_def client_do_bearer http dash_call_eq
    by (auto simp: handleUpdatePanel_def with_board_def dash_storeErr_def set_from_def answer_with_def respond_error_def dashboardPanelModelFromAPI_def
        panel_out_def raw_json_def Let_def dest!: q(2) split: guarded.splits sum.splits prod.splits if_splits)
  then show ?thesis using p(3) prior(4) by (simp add: accepted_def panel_presence_def panel_same_def)
qed

text \<open>A panel that has been created is read back as it was recorded, but for \<open>viz_config\<close>, which comes back as \<open>JSONB\<close> prints it.\<close>

lemma AddPanel_row:
  assumes "AddPanel env t i q db = Inr (e, db')" "validatePanel q = Inr q"
  obtains v where "de_jsonb env (pn_VizConfig q) = Some v" "e = q\<lparr>pn_ID := de_uuid env 0, pn_DashboardID := i, pn_CreatedAt := de_now env, pn_UpdatedAt := de_now env\<rparr>"
    "db' = db\<lparr>dt_panels := dt_panels db @ [e\<lparr>pn_VizConfig := v\<rparr>]\<rparr>" "de_uuid env 0 \<notin> pn_ID ` set (dt_panels db)"
proof (cases "de_jsonb env (pn_VizConfig q)")
  case None
  then show ?thesis using assms by (auto simp: AddPanel_def insert_panel_def split: if_splits)
next
  case (Some v)
  then show ?thesis using assms that [of v] by (auto simp: AddPanel_def insert_panel_def Let_def split: if_splits)
qed

lemma listPanels_find:
  assumes "dt_panels db' = dt_panels db @ [r]" "pn_DashboardID r = i" "pn_ID r \<notin> pn_ID ` set (dt_panels db)"
  shows "find (\<lambda>p. pn_ID p = pn_ID r) (listPanels i db') = Some r"
  by (rule find_only) (use assms in \<open>auto simp: listPanels_def image_iff\<close>)

lemma panel_out_ID: "panel_out w p = Some y \<Longrightarrow> (tp_ID y = j) = (pn_ID p = j)"
  by (auto simp: panel_out_def)

lemma getPanel_found:
  assumes "cl_baseURL c = bs_base sv" "i \<noteq> []" "CHR ''/'' \<notin> set i" "caller sv (bearer_of c) RoleViewer = Served ctx" "panels_ok w db"
    and "GetDashboard (tenantID ctx) i db = Inr d" "find (\<lambda>p. pn_ID p = j) (listPanels i db) = Some r"
  shows "\<exists>out. panel_out w r = Some out \<and> getPanel c (dashboard_http w sv) i j db = (Inr out, db)"
proof -
  have ps: "ds_Panels d = listPanels i db" using assms(6) by (auto simp: GetDashboard_def split: option.splits)
  obtain bo where bo: "board_out w d = Some bo" using board_out_some [OF assms(5,6)] by blast
  then have "those (map (panel_out w) (listPanels i db)) = Some (td_Panels bo)" by (auto simp: board_out_def ps)
  then have "find (\<lambda>p. tp_ID p = j) (td_Panels bo) = panel_out w r"
    using find_those [of "panel_out w" "listPanels i db" "td_Panels bo" "\<lambda>p. tp_ID p = j" "\<lambda>p. pn_ID p = j", OF _ panel_out_ID] assms(7) by simp
  moreover have "\<exists>out. panel_out w r = Some out"
    using assms(5,7) find_SomeD [of _ "listPanels i db" r] by (auto simp: panel_out_def panels_ok_def listPanels_def)
  moreover have "getDashboard c (dashboard_http w sv) i db = (Inr bo, db)"
    unfolding getDashboard_def client_do_bearer dashboard_http_path(1) [OF assms(1-3)] dash_call_eq
    by (simp add: assms(4) handleGet_def assms(6) answer_with_def bo)
  ultimately show ?thesis by (auto simp: getPanel_def)
qed

theorem panel_refresh:
  assumes json: "compacts w" "\<And>v u. de_jsonb (bs_env sv) v = Some u \<Longrightarrow> wr_compact w u \<noteq> None" and stored: "panels_ok w db"
    and ids: "pm_DashboardID p = TfKnown i" "i \<noteq> []" "CHR ''/'' \<notin> set i" and reach: "board_reaches c sv"
    and create: "dashboardPanel_Create (wr_compact w) c (panel_http w sv) p db = ((None, Some m), db')"
  shows "\<exists>v u. pm_VizConfig m = TfKnown v \<and> Option.bind (de_jsonb (bs_env sv) v) (wr_compact w) = Some u
    \<and> dashboardPanel_Read c (dashboard_http w sv) m db' = ((None, Some (m\<lparr>pm_VizConfig := TfKnown u\<rparr>)), db')"
proof -
  have base: "cl_baseURL c = bs_base sv" using reach by (simp add: board_reaches_def)
  obtain t0 where t0: "dashboardPanelAPIFromModel (wr_compact w) p = Inr t0" using create by (auto simp: dashboardPanel_Create_def split: sum.splits)
  then obtain q where q: "panel_in w t0 = Some q" "\<And>q'. validatePanel q = Inr q' \<Longrightarrow> pn_CreatedAt q' = zero_gotime
      \<and> wr_compact w (pn_VizConfig q') = Some (pn_VizConfig q') \<and> pn_VizConfig q' \<noteq> []"
    using panel_request [OF _ json(1)] by metis
  have http: "panel_http w sv ''POST'' (cl_baseURL c @ ''/dashboards/'' @ i @ ''/panels'') (bearer_of c) (Some t0) db
      = dash_call sv (panel_body_out w) ''POST'' (bearer_of c) (Some (DAddPanel i (Some q))) db"
    unfolding panel_http_def base panel_route_add [OF ids(2,3)] using q(1) by simp
  obtain ctx q' d e where served: "caller sv (bearer_of c) RoleEditor = Served ctx" "validatePanel q = Inr q'"
      "GetDashboard (tenantID ctx) i db = Inr d" "AddPanel (bs_env sv) (tenantID ctx) i q' db = Inr (e, db')"
      "\<exists>out. panel_out w e = Some out \<and> m = dashboardPanelModelFromAPI i out \<or> panel_out w e = None"
    using create unfolding dashboardPanel_Create_def t0 sum.case Let_def ids values_simps createPanel_def client_do_bearer http dash_call_eq
    by (auto simp: handleAddPanel_def with_board_def dash_storeErr_def set_from_def answer_with_def respond_error_def
        split: guarded.splits sum.splits prod.splits if_splits option.splits)
  note q' = q(2) [OF served(2)]
  from served(4) validatePanel_idem [OF served(2)] obtain v where v: "de_jsonb (bs_env sv) (pn_VizConfig q') = Some v"
      "e = q'\<lparr>pn_ID := de_uuid (bs_env sv) 0, pn_DashboardID := i, pn_CreatedAt := de_now (bs_env sv), pn_UpdatedAt := de_now (bs_env sv)\<rparr>"
      "db' = db\<lparr>dt_panels := dt_panels db @ [e\<lparr>pn_VizConfig := v\<rparr>]\<rparr>" "de_uuid (bs_env sv) 0 \<notin> pn_ID ` set (dt_panels db)"
    by (rule AddPanel_row)
  let ?r = "e\<lparr>pn_VizConfig := v\<rparr>"
  obtain u where u: "wr_compact w v = Some u" "u \<noteq> []" "v \<noteq> []" using json v(1) by (fastforce simp: compacts_def)
  have m: "m = dashboardPanelModelFromAPI i (the (panel_out w e))" "pm_VizConfig m = TfKnown (pn_VizConfig q')"
    using served(5) v(2) q' by (auto simp: panel_out_def raw_json_def dashboardPanelModelFromAPI_def)
  have "find (\<lambda>x. pn_ID x = pn_ID ?r) (listPanels i db') = Some ?r" by (rule listPanels_find [of _ db]) (use v in auto)
  moreover have "panels_ok w db'" using stored v(3) u(1) by (auto simp: panels_ok_def raw_json_def)
  moreover have "\<exists>d'. GetDashboard (tenantID ctx) i db' = Inr d'" using served(3) v(3) by (auto simp: GetDashboard_def split: option.splits)
  ultimately have "getPanel c (dashboard_http w sv) i (pn_ID ?r) db' = (Inr (the (panel_out w ?r)), db')"
    using getPanel_found [OF base ids(2,3) caller_editor_viewer [OF served(1)]] by fastforce
  moreover have "dashboardPanelModelFromAPI i (the (panel_out w ?r)) = m\<lparr>pm_VizConfig := TfKnown u\<rparr>" "pm_ID m = TfKnown (pn_ID ?r)" "pm_DashboardID m = TfKnown i"
    using m(1) u q' v(2) by (simp_all add: panel_out_def raw_json_def dashboardPanelModelFromAPI_def)
  ultimately have "dashboardPanel_Read c (dashboard_http w sv) m db' = ((None, Some (m\<lparr>pm_VizConfig := TfKnown u\<rparr>)), db')"
    by (simp add: dashboardPanel_Read_def read_from_def)
  then show ?thesis using m(2) v(1) u(1) by auto
qed

section \<open>Runs\<close>

definition demo_client :: tf_client where "demo_client = newClient ''http://c'' ''tok''"

definition demo_alerting :: "int alert_server" where
  "demo_alerting = \<lparr>sv_base = ''http://c'', sv_net = \<lparr>parse_url = (\<lambda>_. None), lookup_ip = (\<lambda>_. None)\<rparr>, sv_uuid = ''r1'', sv_now = 5,
     sv_gate = (\<lambda>m a. if a = ''Bearer tok'' then Served () else Unauthorized), sv_text = (\<lambda>_. ''failed'')\<rparr>"

definition demo_rule_plan :: "int rule_model" where
  "demo_rule_plan = \<lparr>rm_ID = TfUnknown, rm_TenantID = TfUnknown, rm_Name = TfKnown ''errors'', rm_Description = TfKnown [], rm_Query = TfKnown ''error | stats count'',
     rm_QueryLanguage = TfKnown [], rm_ConditionType = TfKnown ''threshold'', rm_Comparator = TfKnown ''gt'', rm_ThresholdValue = TfKnown 10,
     rm_EvalIntervalSeconds = TfKnown 60, rm_ForMinutes = TfKnown 0, rm_RenotifyIntervalMinutes = TfNull, rm_NotificationTargetID = TfKnown ''t1'',
     rm_Enabled = TfKnown True, rm_CreatedBy = TfUnknown\<rparr>"


definition demo_wire :: wire where
  "demo_wire = \<lparr>wr_compact = (\<lambda>s. if s = [] then None else Some s), wr_fmt = (\<lambda>t. if t = zero_gotime then ''0001'' else if t = 5 then ''t5'' else ''t9''),
     wr_parse = (\<lambda>_. 0)\<rparr>"

definition demo_board_server :: "gotime \<Rightarrow> unit dash_server" where
  "demo_board_server now = \<lparr>bs_base = ''http://c'', bs_env = \<lparr>de_now = now, de_uuid = (\<lambda>_. ''d1''), de_jsonb = Some\<rparr>, bs_perm = False,
     bs_au = Some (\<lambda>a. if a = ''Bearer tok'' then Inr \<lparr>id_TenantID = ''acme'', id_UserID = ''u1'', id_Role = RoleEditor\<rparr> else Inl ()),
     bs_text = (\<lambda>_. ''failed'')\<rparr>"

definition demo_boards :: dash_db where
  "demo_boards = \<lparr>dt_boards = [\<lparr>ds_ID = ''d1'', ds_TenantID = ''acme'', ds_Name = ''old'', ds_Description = [], ds_DefaultEarliest = ''-1h'',
       ds_DefaultLatest = ''now'', ds_CreatedBy = ''u1'', ds_CreatedAt = 5, ds_UpdatedAt = 5, ds_Panels = []\<rparr>], dt_panels = [], dt_grants = [],
     dt_tenants = [''acme''], dt_users = [''u1'']\<rparr>"

definition demo_board :: dashboard_model where
  "demo_board = \<lparr>dm_ID = TfKnown ''d1'', dm_TenantID = TfKnown ''acme'', dm_Name = TfKnown ''old'', dm_Description = TfKnown [],
     dm_DefaultEarliest = TfKnown ''-1h'', dm_DefaultLatest = TfKnown ''now'', dm_CreatedBy = TfKnown ''u1'', dm_CreatedAt = TfKnown ''t5'',
     dm_UpdatedAt = TfKnown ''t5''\<rparr>"

definition demo_board_plan :: dashboard_model where
  "demo_board_plan = demo_board\<lparr>dm_Name := TfKnown ''new'', dm_DefaultEarliest := TfUnknown, dm_DefaultLatest := TfKnown ''-5m'', dm_UpdatedAt := TfUnknown\<rparr>"

theorem dashboard_update_accepted_witness:
  "\<exists>m'. fst (dashboard_Update demo_client (dashboard_http demo_wire (demo_board_server 9)) demo_board_plan demo_board demo_boards) = (None, Some m')
     \<and> accepted (dashboard_presence demo_board_plan) (dashboard_same demo_board_plan m')"
proof -
  let ?http = "dashboard_http demo_wire (demo_board_server 9)"
  have run: "fst (fst (dashboard_Update demo_client ?http demo_board_plan demo_board demo_boards)) = None" by code_simp
  have read: "dashboard_Read demo_client ?http demo_board demo_boards = ((None, Some demo_board), demo_boards)" by code_simp
  have "planned_update dashboard_Schema (dashboard_presence demo_board_plan) (dashboard_same demo_board_plan demo_board)" "board_plan demo_board_plan"
    by code_simp+
  moreover have "board_reaches demo_client (demo_board_server 9)" "panels_ok demo_wire demo_boards" by code_simp+
  moreover obtain x db' where upd: "dashboard_Update demo_client ?http demo_board_plan demo_board demo_boards = ((None, x), db')"
    using run by (metis prod.collapse)
  ultimately show ?thesis
    using dashboard_update_accepted [of demo_client "demo_board_server 9" demo_wire demo_boards demo_board demo_board_plan x db'] read by auto
qed

text \<open>The two rejections happen.\<close>

definition demo_target_plan :: target_model where
  "demo_target_plan = \<lparr>tm_ID = TfUnknown, tm_TenantID = TfUnknown, tm_Name = TfKnown ''pager'', tm_Kind = TfKnown ''webhook'',
     tm_WebhookURL = TfKnown ''https://hooks'', tm_PayloadTemplate = TfNull, tm_Headers = TfNull, tm_Secret = TfNull, tm_CreatedBy = TfUnknown\<rparr>"

lemma target_rejection_run:
  "case notificationTarget_Create (wr_compact demo_wire) demo_client
      (target_http demo_wire (demo_alerting\<lparr>sv_net := s_net sample_env, sv_uuid := ''t2''\<rparr>)) demo_target_plan sample_log_db of
     ((None, Some m), db') \<Rightarrow> planned_create notificationTarget_Schema (target_presence demo_target_plan) \<and> length (db_targets db') = 2
       \<and> \<not> accepted (target_presence demo_target_plan) (target_same demo_target_plan m)
   | _ \<Rightarrow> False"
  by code_simp

end
