(* ===== verification/Tenant_Resource.thy ===== *)
theory Tenant_Resource
  imports Provisioning
begin

text \<open>
  The Tenant custom resource: the writes of \<open>enterprise/internal/tenantcrd\<close> after a tenant has been provisioned and the
  reconciler of \<open>deploy/operator\<close> that derives phase and conditions from them. The two run in different processes
  and share only the objects of the Kubernetes API, so the relation below interleaves their API calls with each other and with
  administrators. The API server and \<open>meta.SetStatusCondition\<close> are arguments; \<open>kube_ok\<close> and \<open>conditions_ok\<close> say what is
  documented of them, optimistic locking by resource version first.
\<close>

section \<open>Objects\<close>

datatype tenant_phase = NoPhase | PhaseProvisioning | PhaseActive | PhaseSuspended | PhaseDeprovisioning

record tenant_condition =
  cn_Type :: string
  cn_Status :: bool
  cn_Reason :: string
  cn_Message :: string
  cn_ObservedGeneration :: int

record TenantStatus =
  ts_Phase :: tenant_phase
  ts_ClickHouseDatabaseName :: string
  ts_ClickHouseSecretRef :: string
  ts_TantivyIndexPath :: string
  ts_Conditions :: "tenant_condition list"
  ts_ObservedGeneration :: int

record tenant_object =
  to_Name :: string
  to_UID :: string
  to_ResourceVersion :: string
  to_Generation :: int
  to_DisplayName :: string
  to_Suspended :: bool
  to_Status :: TenantStatus

definition no_status :: TenantStatus where
  "no_status = \<lparr>ts_Phase = NoPhase, ts_ClickHouseDatabaseName = [], ts_ClickHouseSecretRef = [], ts_TantivyIndexPath = [], ts_Conditions = [],
     ts_ObservedGeneration = 0\<rparr>"

record tenant_secret =
  sec_Name :: string
  sec_ResourceVersion :: string
  sec_ManagedBy :: string
  sec_OwnerName :: string
  sec_OwnerUID :: string
  sec_OwnerController :: bool
  sec_BlockOwnerDeletion :: bool
  sec_Type :: string
  sec_Tenant :: string
  sec_Username :: string
  sec_Password :: string
  sec_Database :: string

definition ConditionReady :: string where "ConditionReady = ''Ready''"

section \<open>The API server\<close>

text \<open>Its operations on the objects of one namespace; an error other than "not found" is only passed on. A failed write may or
  may not have been applied. \<open>k_used\<close> is the set of resource versions handed out so far.\<close>

datatype kube_error = KubeNotFound | KubeFailed

record 's kube_api =
  k_get :: "string \<Rightarrow> 's \<Rightarrow> (kube_error, tenant_object) result"
  k_create :: "tenant_object \<Rightarrow> 's \<Rightarrow> (kube_error, tenant_object) result \<times> 's"
  k_update_status :: "tenant_object \<Rightarrow> 's \<Rightarrow> kube_error option \<times> 's"
  k_get_secret :: "string \<Rightarrow> 's \<Rightarrow> (kube_error, tenant_secret) result"
  k_create_secret :: "tenant_secret \<Rightarrow> 's \<Rightarrow> kube_error option \<times> 's"
  k_update_secret :: "tenant_secret \<Rightarrow> 's \<Rightarrow> kube_error option \<times> 's"
  k_used :: "'s \<Rightarrow> string set"

section \<open>Syncing after provisioning\<close>

definition SecretName :: "string \<Rightarrow> string" where
  "SecretName tenantID = ''cairnobs-tenant-'' @ tenantID @ ''-clickhouse''"

definition new_tenant :: "string \<Rightarrow> string \<Rightarrow> tenant_object" where
  "new_tenant tenantID displayName = \<lparr>to_Name = tenantID, to_UID = [], to_ResourceVersion = [], to_Generation = 0, to_DisplayName = displayName,
     to_Suspended = False, to_Status = no_status\<rparr>"

definition upsertTenant :: "'s kube_api \<Rightarrow> string \<Rightarrow> string \<Rightarrow> 's \<Rightarrow> (kube_error, string) result \<times> 's" where
  "upsertTenant api tenantID displayName s = (case k_get api tenantID s of
     Inr existing \<Rightarrow> (Inr (to_UID existing), s)
   | Inl e \<Rightarrow> if e \<noteq> KubeNotFound then (Inl e, s)
     else (case k_create api (new_tenant tenantID displayName) s of
       (Inl e, s') \<Rightarrow> (Inl e, s') | (Inr created, s') \<Rightarrow> (Inr (to_UID created), s')))"

definition credential_secret :: "string \<Rightarrow> string \<Rightarrow> string \<Rightarrow> string \<Rightarrow> string \<Rightarrow> tenant_secret" where
  "credential_secret tenantID secretName uid username password = \<lparr>sec_Name = secretName, sec_ResourceVersion = [],
     sec_ManagedBy = ''cairnobs-enterprise-api'', sec_OwnerName = tenantID, sec_OwnerUID = uid, sec_OwnerController = True,
     sec_BlockOwnerDeletion = True, sec_Type = ''Opaque'', sec_Tenant = tenantID, sec_Username = username, sec_Password = password, sec_Database = tenantID\<rparr>"

definition upsertSecret :: "'s kube_api \<Rightarrow> string \<Rightarrow> string \<Rightarrow> string \<Rightarrow> string \<Rightarrow> string \<Rightarrow> 's \<Rightarrow> kube_error option \<times> 's" where
  "upsertSecret api tenantID secretName uid username password s =
    (let secret = credential_secret tenantID secretName uid username password in
     case k_get_secret api secretName s of
       Inr existing \<Rightarrow> k_update_secret api (secret\<lparr>sec_ResourceVersion := sec_ResourceVersion existing\<rparr>) s
     | Inl e \<Rightarrow> if e = KubeNotFound then k_create_secret api secret s else (Some e, s))"

definition patched :: "string \<Rightarrow> string \<Rightarrow> string \<Rightarrow> tenant_object \<Rightarrow> tenant_object" where
  "patched tenantID secretName path existing = existing\<lparr>to_Status := (to_Status existing)\<lparr>ts_ClickHouseDatabaseName := tenantID,
     ts_ClickHouseSecretRef := secretName, ts_TantivyIndexPath := path\<rparr>\<rparr>"

definition patchStatus :: "'s kube_api \<Rightarrow> string \<Rightarrow> string \<Rightarrow> string \<Rightarrow> 's \<Rightarrow> kube_error option \<times> 's" where
  "patchStatus api tenantID secretName path s = (case k_get api tenantID s of
     Inl e \<Rightarrow> (Some e, s)
   | Inr existing \<Rightarrow> k_update_status api (patched tenantID secretName path existing) s)"

definition Sync :: "'s kube_api \<Rightarrow> string \<Rightarrow> string \<Rightarrow> string \<Rightarrow> string \<Rightarrow> string \<Rightarrow> 's \<Rightarrow> kube_error option \<times> 's" where
  "Sync api tenantID displayName path username password s = (case upsertTenant api tenantID displayName s of
     (Inl e, s) \<Rightarrow> (Some e, s)
   | (Inr uid, s) \<Rightarrow> (let secretName = SecretName tenantID in
       case upsertSecret api tenantID secretName uid username password s of
         (Some e, s) \<Rightarrow> (Some e, s)
       | (None, s) \<Rightarrow> patchStatus api tenantID secretName path s))"

section \<open>Reconciling\<close>

type_synonym set_condition = "tenant_condition list \<Rightarrow> tenant_condition \<Rightarrow> tenant_condition list"

definition provisioned_message :: "string \<Rightarrow> string" where
  "provisioned_message db = ''ClickHouse database '' @ go_quote db @ '' is provisioned''"

text \<open>The object that \<open>Reconcile\<close> writes back for the one it read.\<close>

definition reconciled :: "set_condition \<Rightarrow> tenant_object \<Rightarrow> tenant_object" where
  "reconciled set_cond tenant =
    (let st = to_Status tenant; provisioned = (ts_ClickHouseDatabaseName st \<noteq> []);
       (phase, condStatus, reason, message) =
         (if to_Suspended tenant then (PhaseSuspended, False, ''Suspended'', ''tenant is suspended (spec.suspended=true)'')
          else if provisioned then (PhaseActive, True, ''Provisioned'', provisioned_message (ts_ClickHouseDatabaseName st))
          else (PhaseProvisioning, False, ''AwaitingProvisioning'',
            ''waiting for enterprise-api -provision-tenant to provision ClickHouse for this tenant'')) in
     tenant\<lparr>to_Status := st\<lparr>ts_Phase := phase, ts_ObservedGeneration := to_Generation tenant,
       ts_Conditions := set_cond (ts_Conditions st) \<lparr>cn_Type = ConditionReady, cn_Status = condStatus, cn_Reason = reason, cn_Message = message,
         cn_ObservedGeneration = to_Generation tenant\<rparr>\<rparr>\<rparr>)"

definition Reconcile :: "'s kube_api \<Rightarrow> set_condition \<Rightarrow> string \<Rightarrow> 's \<Rightarrow> kube_error option \<times> 's" where
  "Reconcile api set_cond name s = (case k_get api name s of
     Inl e \<Rightarrow> (if e = KubeNotFound then None else Some e, s)
   | Inr tenant \<Rightarrow> k_update_status api (reconciled set_cond tenant) s)"

section \<open>What is documented of the API\<close>

text \<open>One write of an object: it was not there, or it was there with the resource version of the request; either way it gets a fresh one.\<close>

definition gets_ok :: "'s kube_api \<Rightarrow> bool" where
  "gets_ok api \<longleftrightarrow> (\<forall>n s ob. k_get api n s = Inr ob \<longrightarrow> to_Name ob = n \<and> to_ResourceVersion ob \<in> k_used api s)"

definition updates_ok :: "'s kube_api \<Rightarrow> bool" where
  "updates_ok api \<longleftrightarrow> (\<forall>ob s r s'. k_update_status api ob s = (r, s') \<longrightarrow> s' = s \<and> r \<noteq> None \<or>
     (\<exists>cur rv. k_get api (to_Name ob) s = Inr cur \<and> to_ResourceVersion cur = to_ResourceVersion ob \<and> rv \<notin> k_used api s
       \<and> k_get api (to_Name ob) s' = Inr (cur\<lparr>to_Status := to_Status ob, to_ResourceVersion := rv\<rparr>)
       \<and> (\<forall>n. n \<noteq> to_Name ob \<longrightarrow> k_get api n s' = k_get api n s) \<and> k_used api s \<subseteq> k_used api s'))"

definition creates_ok :: "'s kube_api \<Rightarrow> bool" where
  "creates_ok api \<longleftrightarrow> (\<forall>ob s r s'. k_create api ob s = (r, s') \<longrightarrow> s' = s \<and> (\<exists>e. r = Inl e) \<or>
     (\<exists>new. k_get api (to_Name ob) s = Inl KubeNotFound \<and> k_get api (to_Name ob) s' = Inr new \<and> to_Status new = no_status
       \<and> to_Suspended new = to_Suspended ob \<and> to_ResourceVersion new \<notin> k_used api s
       \<and> (\<forall>n. n \<noteq> to_Name ob \<longrightarrow> k_get api n s' = k_get api n s) \<and> k_used api s \<subseteq> k_used api s'))"

definition secrets_ok :: "'s kube_api \<Rightarrow> bool" where
  "secrets_ok api \<longleftrightarrow> (\<forall>sec s n. k_get api n (snd (k_create_secret api sec s)) = k_get api n s \<and> k_get api n (snd (k_update_secret api sec s)) = k_get api n s
     \<and> k_used api s \<subseteq> k_used api (snd (k_create_secret api sec s)) \<and> k_used api s \<subseteq> k_used api (snd (k_update_secret api sec s)))"

definition kube_ok :: "'s kube_api \<Rightarrow> bool" where
  "kube_ok api \<longleftrightarrow> gets_ok api \<and> updates_ok api \<and> creates_ok api \<and> secrets_ok api"

definition conditions_ok :: "set_condition \<Rightarrow> bool" where
  "conditions_ok set_cond \<longleftrightarrow> (\<forall>cs c. find (\<lambda>x. cn_Type x = cn_Type c) (set_cond cs c) = Some c)"

text \<open>Administrators create objects, edit their specification and delete them; the status subresource is closed to them.\<close>

definition admin_edit :: "'s kube_api \<Rightarrow> 's \<Rightarrow> 's \<Rightarrow> bool" where
  "admin_edit api s s' \<longleftrightarrow> k_used api s \<subseteq> k_used api s' \<and> (\<forall>n. k_get api n s' = k_get api n s \<or> k_get api n s' = Inl KubeNotFound
     \<or> (\<exists>ob. k_get api n s' = Inr ob \<and> to_Name ob = n \<and> to_ResourceVersion ob \<notin> k_used api s \<and> to_ResourceVersion ob \<in> k_used api s'
         \<and> (to_Status ob = no_status \<or> (\<exists>cur. k_get api n s = Inr cur \<and> to_Status ob = to_Status cur))))"

section \<open>Interleavings\<close>

text \<open>The state of the API server, every object that some process has read so far (a controller's cache may be stale, and there may be several
  controllers), and the tenants whose data plane has been provisioned, after which alone \<open>Sync\<close> is called.\<close>

record 's cluster =
  ku_state :: 's
  ku_seen :: "tenant_object set"
  ku_provisioned :: "string set"

inductive tenant_step :: "'s kube_api \<Rightarrow> set_condition \<Rightarrow> 's cluster \<Rightarrow> 's cluster \<Rightarrow> bool"
  for api :: "'s kube_api" and set_cond :: set_condition where
  observe: "k_get api n (ku_state c) = Inr ob \<Longrightarrow> tenant_step api set_cond c (c\<lparr>ku_seen := insert ob (ku_seen c)\<rparr>)"
| reconcile: "ob \<in> ku_seen c \<Longrightarrow>
    tenant_step api set_cond c (c\<lparr>ku_state := snd (k_update_status api (reconciled set_cond ob) (ku_state c))\<rparr>)"
| provision: "t \<noteq> [] \<Longrightarrow> tenant_step api set_cond c (c\<lparr>ku_provisioned := insert t (ku_provisioned c)\<rparr>)"
| sync_create: "t \<in> ku_provisioned c \<Longrightarrow>
    tenant_step api set_cond c (c\<lparr>ku_state := snd (k_create api (new_tenant t d) (ku_state c))\<rparr>)"
| sync_new_secret: "t \<in> ku_provisioned c \<Longrightarrow>
    tenant_step api set_cond c (c\<lparr>ku_state := snd (k_create_secret api (credential_secret t (SecretName t) u nm pw) (ku_state c))\<rparr>)"
| sync_secret: "t \<in> ku_provisioned c \<Longrightarrow>
    tenant_step api set_cond c (c\<lparr>ku_state := snd (k_update_secret api ((credential_secret t (SecretName t) u nm pw)\<lparr>sec_ResourceVersion := rv\<rparr>) (ku_state c))\<rparr>)"
| sync_patch: "t \<in> ku_provisioned c \<Longrightarrow> ob \<in> ku_seen c \<Longrightarrow> to_Name ob = t \<Longrightarrow>
    tenant_step api set_cond c (c\<lparr>ku_state := snd (k_update_status api (patched t (SecretName t) path ob) (ku_state c))\<rparr>)"
| admin: "admin_edit api (ku_state c) s' \<Longrightarrow> tenant_step api set_cond c (c\<lparr>ku_state := s'\<rparr>)"

text \<open>A status claims no more than it may: a database name is the tenant's own and was provisioned, with the secret's name beside it; the tenant is
  active exactly if its Ready condition holds, and only with a database.\<close>

definition ready :: "TenantStatus \<Rightarrow> bool" where
  "ready st = (case find (\<lambda>c. cn_Type c = ConditionReady) (ts_Conditions st) of None \<Rightarrow> False | Some c \<Rightarrow> cn_Status c)"

definition status_ok :: "string set \<Rightarrow> string \<Rightarrow> TenantStatus \<Rightarrow> bool" where
  "status_ok prov n st = ((ts_ClickHouseDatabaseName st \<noteq> [] \<longrightarrow>
        ts_ClickHouseDatabaseName st = n \<and> ts_ClickHouseSecretRef st = SecretName n \<and> n \<in> prov)
     \<and> (ts_Phase st = PhaseActive \<longleftrightarrow> ready st) \<and> (ts_Phase st = PhaseActive \<longrightarrow> ts_ClickHouseDatabaseName st \<noteq> []))"

lemma status_ok_none: "status_ok prov n no_status"
  by (simp add: status_ok_def no_status_def ready_def)

lemma status_ok_mono: "status_ok prov n st \<Longrightarrow> prov \<subseteq> prov' \<Longrightarrow> status_ok prov' n st"
  by (auto simp: status_ok_def)

lemma status_ok_reconciled:
  assumes "conditions_ok set_cond" "status_ok prov n (to_Status ob)"
  shows "status_ok prov n (to_Status (reconciled set_cond ob))"
proof -
  have "ready (st\<lparr>ts_Phase := p, ts_ObservedGeneration := g, ts_Conditions := set_cond cs c\<rparr>) = cn_Status c" if "cn_Type c = ConditionReady" for st p g cs c
  proof -
    have "find (\<lambda>x. cn_Type x = ConditionReady) (set_cond cs c) = Some c" using assms(1) that unfolding conditions_ok_def by metis
    then show ?thesis by (simp add: ready_def)
  qed
  then show ?thesis using assms(2) by (auto simp: status_ok_def reconciled_def Let_def)
qed

lemma status_ok_patched:
  assumes "status_ok prov t (to_Status ob)" "t \<in> prov" "t \<noteq> []"
  shows "status_ok prov t (to_Status (patched t (SecretName t) path ob))"
  using assms by (simp add: status_ok_def patched_def ready_def)

lemma same_name [simp]: "to_Name (reconciled set_cond ob) = to_Name ob" "to_Name (patched t sn path ob) = to_Name ob"
  "to_ResourceVersion (reconciled set_cond ob) = to_ResourceVersion ob" "to_ResourceVersion (patched t sn path ob) = to_ResourceVersion ob"
  by (simp_all add: reconciled_def patched_def Let_def)

definition cluster_inv :: "'s kube_api \<Rightarrow> 's cluster \<Rightarrow> bool" where
  "cluster_inv api c \<longleftrightarrow>
     (\<forall>ob \<in> ku_seen c. to_ResourceVersion ob \<in> k_used api (ku_state c) \<and> status_ok (ku_provisioned c) (to_Name ob) (to_Status ob)
        \<and> (\<forall>cur. k_get api (to_Name ob) (ku_state c) = Inr cur \<and> to_ResourceVersion cur = to_ResourceVersion ob \<longrightarrow> cur = ob))
   \<and> (\<forall>n ob. k_get api n (ku_state c) = Inr ob \<longrightarrow> status_ok (ku_provisioned c) n (to_Status ob))
   \<and> [] \<notin> ku_provisioned c"

text \<open>The laws in the form the proofs use.\<close>

lemma kube_get: "kube_ok api \<Longrightarrow> k_get api n s = Inr ob \<Longrightarrow> to_Name ob = n \<and> to_ResourceVersion ob \<in> k_used api s"
  by (simp add: kube_ok_def gets_ok_def)

lemma kube_update:
  assumes "kube_ok api" "k_update_status api ob s = (r, s')"
  obtains (kept) "s' = s" "r \<noteq> None"
  | (written) cur rv where "k_get api (to_Name ob) s = Inr cur" "to_ResourceVersion cur = to_ResourceVersion ob" "rv \<notin> k_used api s"
      "k_get api (to_Name ob) s' = Inr (cur\<lparr>to_Status := to_Status ob, to_ResourceVersion := rv\<rparr>)"
      "\<forall>n. n \<noteq> to_Name ob \<longrightarrow> k_get api n s' = k_get api n s" "k_used api s \<subseteq> k_used api s'"
proof -
  have "updates_ok api" using assms(1) by (simp add: kube_ok_def)
  from this [unfolded updates_ok_def, rule_format, OF assms(2)] show ?thesis by (elim disjE exE conjE) (erule kept written, assumption+)+
qed

lemma kube_create:
  assumes "kube_ok api" "k_create api ob s = (r, s')"
  obtains (kept) "s' = s" "\<exists>e. r = Inl e"
  | (written) new where "k_get api (to_Name ob) s = Inl KubeNotFound" "k_get api (to_Name ob) s' = Inr new" "to_Status new = no_status"
      "to_Suspended new = to_Suspended ob" "to_ResourceVersion new \<notin> k_used api s" "\<forall>n. n \<noteq> to_Name ob \<longrightarrow> k_get api n s' = k_get api n s"
      "k_used api s \<subseteq> k_used api s'"
proof -
  have "creates_ok api" using assms(1) by (simp add: kube_ok_def)
  from this [unfolded creates_ok_def, rule_format, OF assms(2)] show ?thesis
  proof
    assume "s' = s \<and> (\<exists>e. r = Inl e)"
    then show ?thesis using kept by simp
  next
    assume "\<exists>new. k_get api (to_Name ob) s = Inl KubeNotFound \<and> k_get api (to_Name ob) s' = Inr new \<and> to_Status new = no_status
       \<and> to_Suspended new = to_Suspended ob \<and> to_ResourceVersion new \<notin> k_used api s
       \<and> (\<forall>n. n \<noteq> to_Name ob \<longrightarrow> k_get api n s' = k_get api n s) \<and> k_used api s \<subseteq> k_used api s'"
    then show ?thesis by (elim exE conjE) (rule written)
  qed
qed

lemma kube_secret:
  assumes "kube_ok api"
  shows "k_get api n (snd (k_create_secret api sec s)) = k_get api n s" "k_get api n (snd (k_update_secret api sec s)) = k_get api n s"
    "k_used api s \<subseteq> k_used api (snd (k_create_secret api sec s))" "k_used api s \<subseteq> k_used api (snd (k_update_secret api sec s))"
  using assms unfolding kube_ok_def secrets_ok_def by simp_all

text \<open>A change of the server's state keeps the invariant if every object is as before or has a fresh version and a status in order.\<close>

lemma cluster_inv_state:
  assumes "cluster_inv api c" "k_used api (ku_state c) \<subseteq> k_used api s'"
    and "\<And>n ob. k_get api n s' = Inr ob \<Longrightarrow> k_get api n (ku_state c) = Inr ob
      \<or> to_ResourceVersion ob \<notin> k_used api (ku_state c) \<and> status_ok (ku_provisioned c) n (to_Status ob)"
  shows "cluster_inv api (c\<lparr>ku_state := s'\<rparr>)"
  unfolding cluster_inv_def
proof (intro conjI ballI allI impI)
  fix ob
  assume ob: "ob \<in> ku_seen (c\<lparr>ku_state := s'\<rparr>)"
  then show "to_ResourceVersion ob \<in> k_used api (ku_state (c\<lparr>ku_state := s'\<rparr>))"
    "status_ok (ku_provisioned (c\<lparr>ku_state := s'\<rparr>)) (to_Name ob) (to_Status ob)"
    using assms(1,2) by (auto simp: cluster_inv_def)
  fix cur
  assume "k_get api (to_Name ob) (ku_state (c\<lparr>ku_state := s'\<rparr>)) = Inr cur \<and> to_ResourceVersion cur = to_ResourceVersion ob"
  then show "cur = ob" using ob assms(1) assms(3) [of "to_Name ob" cur] by (auto simp: cluster_inv_def)
next
  fix n ob
  assume "k_get api n (ku_state (c\<lparr>ku_state := s'\<rparr>)) = Inr ob"
  then show "status_ok (ku_provisioned (c\<lparr>ku_state := s'\<rparr>)) n (to_Status ob)" using assms(1) assms(3) [of n ob] by (auto simp: cluster_inv_def)
qed (use assms(1) in \<open>simp add: cluster_inv_def\<close>)

text \<open>A status write by a process that read the object before.\<close>

lemma write_inv:
  assumes "cluster_inv api c" "kube_ok api" "ob \<in> ku_seen c" "to_Name ob' = to_Name ob" "status_ok (ku_provisioned c) (to_Name ob) (to_Status ob')"
  shows "cluster_inv api (c\<lparr>ku_state := snd (k_update_status api ob' (ku_state c))\<rparr>)"
proof -
  obtain r s' where call: "k_update_status api ob' (ku_state c) = (r, s')" by fastforce
  from assms(2) call show ?thesis
  proof (cases rule: kube_update)
    case kept
    then show ?thesis using assms(1) call by simp
  next
    case (written cur rv)
    then have "cluster_inv api (c\<lparr>ku_state := s'\<rparr>)"
      using assms(1,4,5) by (intro cluster_inv_state) (metis sum.inject(2) tenant_object.select_convs(3,7) tenant_object.update_convs(3,7) tenant_object.surjective)+
    then show ?thesis using call by simp
  qed
qed

lemma tenant_step_inv:
  assumes "tenant_step api set_cond c c'" "kube_ok api" "conditions_ok set_cond" "cluster_inv api c"
  shows "cluster_inv api c'"
  using assms(1)
proof cases
  case (observe n ob)
  then show ?thesis using assms(4) kube_get [OF assms(2) observe(2)] by (auto simp: cluster_inv_def)
next
  case (reconcile ob)
  then have "status_ok (ku_provisioned c) (to_Name ob) (to_Status ob)" using assms(4) by (auto simp: cluster_inv_def)
  then show ?thesis using reconcile assms write_inv status_ok_reconciled by (metis same_name(1))
next
  case (provision t)
  have "status_ok (insert t (ku_provisioned c)) n st" if "status_ok (ku_provisioned c) n st" for n st
    using status_ok_mono [OF that subset_insertI] .
  then show ?thesis using provision assms(4) by (auto simp: cluster_inv_def)
next
  case (sync_create t d)
  obtain r s' where call: "k_create api (new_tenant t d) (ku_state c) = (r, s')" by fastforce
  from assms(2) call have "cluster_inv api (c\<lparr>ku_state := s'\<rparr>)"
  proof (cases rule: kube_create)
    case (written new)
    then show ?thesis using assms(4) status_ok_none by (intro cluster_inv_state) (metis sum.inject(2))+
  qed (use assms(4) in simp)
  then show ?thesis using sync_create call by simp
next
  case (sync_patch t ob path)
  then have "status_ok (ku_provisioned c) t (to_Status ob)" "t \<noteq> []" using assms(4) by (auto simp: cluster_inv_def)
  then show ?thesis using sync_patch assms write_inv status_ok_patched by (metis same_name(2))
next
  case (admin s')
  show ?thesis unfolding admin(1)
  proof (rule cluster_inv_state [OF assms(4)])
    show "k_used api (ku_state c) \<subseteq> k_used api s'" using admin(2) by (simp add: admin_edit_def)
    fix n ob
    assume "k_get api n s' = Inr ob"
    then show "k_get api n (ku_state c) = Inr ob \<or> to_ResourceVersion ob \<notin> k_used api (ku_state c) \<and> status_ok (ku_provisioned c) n (to_Status ob)"
      using admin(2) assms(4) status_ok_none unfolding admin_edit_def cluster_inv_def by (metis Inl_Inr_False sum.inject(2))
  qed
next
  case (sync_new_secret t u nm pw)
  show ?thesis unfolding sync_new_secret(1) by (rule cluster_inv_state [OF assms(4)]) (simp_all add: kube_secret [OF assms(2)])
next
  case (sync_secret t rv u nm pw)
  show ?thesis unfolding sync_secret(1) by (rule cluster_inv_state [OF assms(4)]) (simp_all add: kube_secret [OF assms(2)])
qed

text \<open>Once the database is recorded, no write of either process takes it away: a stale copy fails on its resource version. Only an administrator
  who deletes and recreates the object starts over.\<close>

lemma write_keeps:
  assumes "cluster_inv api c" "kube_ok api" "ob0 \<in> ku_seen c" "to_Name w = to_Name ob0" "to_ResourceVersion w = to_ResourceVersion ob0"
    and "k_get api n (ku_state c) = Inr ob" "k_get api n (snd (k_update_status api w (ku_state c))) = Inr ob'"
  shows "to_Status ob' = to_Status ob \<or> ob = ob0 \<and> to_Status ob' = to_Status w"
proof -
  obtain r s' where call: "k_update_status api w (ku_state c) = (r, s')" by fastforce
  from assms(2) call show ?thesis
  proof (cases rule: kube_update)
    case kept
    then show ?thesis using assms(6,7) call by simp
  next
    case (written cur rv)
    show ?thesis
    proof (cases "n = to_Name w")
      case True
      then have "ob = ob0" using written(1,2) assms(1,3-6) by (auto simp: cluster_inv_def)
      moreover have "to_Status ob' = to_Status w" using True written(4) assms(7) call by auto
      ultimately show ?thesis by simp
    qed (use written(5) assms(6,7) call in simp)
  qed
qed

lemma reconciled_database: "ts_ClickHouseDatabaseName (to_Status (reconciled set_cond ob)) = ts_ClickHouseDatabaseName (to_Status ob)"
  by (simp add: reconciled_def Let_def)

lemma tenant_step_keeps:
  assumes "tenant_step api set_cond c c'" "kube_ok api" "cluster_inv api c"
    and ob: "k_get api n (ku_state c) = Inr ob" "ts_ClickHouseDatabaseName (to_Status ob) \<noteq> []" "k_get api n (ku_state c') = Inr ob'"
  shows "ts_ClickHouseDatabaseName (to_Status ob') = ts_ClickHouseDatabaseName (to_Status ob) \<or> to_Status ob' = no_status"
  using assms(1)
proof cases
  case (reconcile ob0)
  then show ?thesis using write_keeps [OF assms(3,2) reconcile(2), of "reconciled set_cond ob0" n ob ob'] ob reconciled_database by auto
next
  case (sync_patch t ob0 path)
  have "ts_ClickHouseDatabaseName (to_Status ob) = n" using assms(3) ob(1,2) by (auto simp: cluster_inv_def status_ok_def)
  then show ?thesis
    using write_keeps [OF assms(3,2) sync_patch(3), of "patched t (SecretName t) path ob0" n ob ob'] ob sync_patch kube_get [OF assms(2) ob(1)]
    by (auto simp: patched_def)
next
  case (sync_create t d)
  obtain r s' where call: "k_create api (new_tenant t d) (ku_state c) = (r, s')" by fastforce
  from assms(2) call show ?thesis
  proof (cases rule: kube_create)
    case (written new)
    then show ?thesis using ob sync_create(1) call by (cases "n = t") (auto simp: new_tenant_def)
  qed (use ob sync_create(1) call in simp)
next
  case (admin s')
  then show ?thesis using ob unfolding admin_edit_def by (metis Inl_Inr_False cluster.select_convs(1) cluster.update_convs(1) cluster.surjective sum.inject(2))
qed (use ob kube_secret [OF assms(2)] in auto)

section \<open>Properties\<close>

definition start_cluster :: "'s \<Rightarrow> 's cluster" where
  "start_cluster s = \<lparr>ku_state = s, ku_seen = {}, ku_provisioned = {}\<rparr>"

lemma reachable_inv:
  assumes "(tenant_step api set_cond)\<^sup>*\<^sup>* (start_cluster s0) c" "kube_ok api" "conditions_ok set_cond" "\<And>n. k_get api n s0 = Inl KubeNotFound"
  shows "cluster_inv api c"
  using assms(1)
proof induction
  case base
  then show ?case using assms(4) by (simp add: cluster_inv_def start_cluster_def)
next
  case (step c c')
  then show ?case using tenant_step_inv assms(2,3) by blast
qed

text \<open>C11: A Tenant object never claims to be active without its data plane. However the API calls of provisioning commands, of any number of controllers with
  stale caches and of administrators interleave, every object with phase Active, and equivalently with a true Ready condition, names a ClickHouse
  database; that database is the tenant's own and has been provisioned, and the secret named beside it is the tenant's. And once a database is
  recorded, no further step loses it, unless the object itself was deleted and created anew.\<close>

theorem active_only_if_provisioned:
  assumes run: "(tenant_step api set_cond)\<^sup>*\<^sup>* (start_cluster s0) c" and api: "kube_ok api" "conditions_ok set_cond"
    and empty: "\<And>n. k_get api n s0 = Inl KubeNotFound" and ob: "k_get api n (ku_state c) = Inr ob"
  shows "(ts_Phase (to_Status ob) = PhaseActive \<longleftrightarrow> ready (to_Status ob))
    \<and> (ts_Phase (to_Status ob) = PhaseActive \<longrightarrow> ts_ClickHouseDatabaseName (to_Status ob) \<noteq> [])
    \<and> (ts_ClickHouseDatabaseName (to_Status ob) \<noteq> [] \<longrightarrow> ts_ClickHouseDatabaseName (to_Status ob) = n
        \<and> ts_ClickHouseSecretRef (to_Status ob) = SecretName n \<and> n \<in> ku_provisioned c
        \<and> (\<forall>c' ob'. tenant_step api set_cond c c' \<and> k_get api n (ku_state c') = Inr ob' \<longrightarrow>
             ts_ClickHouseDatabaseName (to_Status ob') = n \<or> to_Status ob' = no_status))"
proof -
  have inv: "cluster_inv api c" by (rule reachable_inv [OF run api empty])
  then have ok: "status_ok (ku_provisioned c) n (to_Status ob)" using ob by (auto simp: cluster_inv_def)
  moreover have "ts_ClickHouseDatabaseName (to_Status ob') = n \<or> to_Status ob' = no_status"
    if "ts_ClickHouseDatabaseName (to_Status ob) \<noteq> []" "tenant_step api set_cond c c'" "k_get api n (ku_state c') = Inr ob'" for c' ob'
    using tenant_step_keeps [OF that(2) api(1) inv ob that(1,3)] ok that(1) by (auto simp: status_ok_def)
  ultimately show ?thesis unfolding status_ok_def by blast
qed

text \<open>The two programs, run by themselves, are sequences of these steps.\<close>

lemma Reconcile_runs:
  assumes "Reconcile api set_cond n (ku_state c) = (r, s')"
  shows "\<exists>c'. (tenant_step api set_cond)\<^sup>*\<^sup>* c c' \<and> ku_state c' = s' \<and> ku_provisioned c' = ku_provisioned c"
proof (cases "k_get api n (ku_state c)")
  case (Inl e)
  then show ?thesis using assms by (auto simp: Reconcile_def)
next
  case (Inr ob)
  let ?c = "c\<lparr>ku_seen := insert ob (ku_seen c)\<rparr>"
  have "tenant_step api set_cond c ?c" by (rule observe [OF Inr])
  moreover have "tenant_step api set_cond ?c (?c\<lparr>ku_state := snd (k_update_status api (reconciled set_cond ob) (ku_state ?c))\<rparr>)" by (rule reconcile) simp
  ultimately have "(tenant_step api set_cond)\<^sup>*\<^sup>* c (?c\<lparr>ku_state := snd (k_update_status api (reconciled set_cond ob) (ku_state ?c))\<rparr>)" by simp
  then show ?thesis using assms Inr by (auto simp: Reconcile_def)
qed

lemma Sync_runs:
  assumes "Sync api t d path nm pw (ku_state c) = (r, s')" "t \<in> ku_provisioned c" "kube_ok api"
  shows "\<exists>c'. (tenant_step api set_cond)\<^sup>*\<^sup>* c c' \<and> ku_state c' = s' \<and> ku_provisioned c' = ku_provisioned c"
proof -
  let ?star = "(tenant_step api set_cond)\<^sup>*\<^sup>*" and ?at = "\<lambda>s. c\<lparr>ku_state := s\<rparr>"
  obtain r1 s1 where one: "upsertTenant api t d (ku_state c) = (r1, s1)" by fastforce
  have "s1 = ku_state c \<or> s1 = snd (k_create api (new_tenant t d) (ku_state c))"
    using one by (auto simp: upsertTenant_def split: sum.splits prod.splits if_splits)
  then have first: "?star c (?at s1)" using sync_create [OF assms(2), of api set_cond d] by auto
  show ?thesis
  proof (cases r1)
    case (Inl e)
    then show ?thesis using first one assms(1) by (intro exI [of _ "?at s1"]) (simp add: Sync_def)
  next
    case (Inr uid)
    obtain r2 s2 where two: "upsertSecret api t (SecretName t) uid nm pw s1 = (r2, s2)" by fastforce
    have "s2 = s1 \<or> (\<exists>rv. s2 = snd (k_update_secret api ((credential_secret t (SecretName t) uid nm pw)\<lparr>sec_ResourceVersion := rv\<rparr>) s1))
        \<or> s2 = snd (k_create_secret api (credential_secret t (SecretName t) uid nm pw) s1)"
      using two unfolding upsertSecret_def Let_def by (auto split: sum.splits if_splits) (metis snd_conv)+
    then have "?star (?at s1) (?at s2)"
      using sync_secret [of t "?at s1" api set_cond _ uid nm pw] sync_new_secret [of t "?at s1" api set_cond uid nm pw] assms(2) by auto
    with first have second: "?star c (?at s2)" by (rule rtranclp_trans)
    show ?thesis
    proof (cases "r2 = None \<and> (\<exists>ob. k_get api t s2 = Inr ob)")
      case True
      then obtain ob where ob: "k_get api t s2 = Inr ob" by blast
      let ?c = "(?at s2)\<lparr>ku_seen := insert ob (ku_seen c)\<rparr>"
      have "tenant_step api set_cond (?at s2) ?c" using observe [of api t "?at s2" ob set_cond] ob by simp
      moreover have "tenant_step api set_cond ?c (?c\<lparr>ku_state := snd (k_update_status api (patched t (SecretName t) path ob) s2)\<rparr>)"
        using sync_patch [of t ?c ob api set_cond path] assms(2) kube_get [OF assms(3) ob] by simp
      ultimately have "?star c (?c\<lparr>ku_state := snd (k_update_status api (patched t (SecretName t) path ob) s2)\<rparr>)" using second by simp
      moreover have "s' = snd (k_update_status api (patched t (SecretName t) path ob) s2)"
        using assms(1) one Inr two True ob by (simp add: Sync_def patchStatus_def Let_def)
      ultimately show ?thesis by (intro exI [of _ "?c\<lparr>ku_state := snd (k_update_status api (patched t (SecretName t) path ob) s2)\<rparr>"]) simp
    next
      case False
      then have "s' = s2" using assms(1) one Inr two by (auto simp: Sync_def patchStatus_def Let_def split: option.splits sum.splits)
      then show ?thesis using second by (intro exI [of _ "?at s2"]) simp
    qed
  qed
qed

text \<open>A successful \<open>Sync\<close> leaves an object that names the tenant's database and secret.\<close>

lemma Sync_records:
  assumes "kube_ok api" "Sync api t d path nm pw s = (None, s1)"
  shows "\<exists>ob. k_get api t s1 = Inr ob \<and> to_Name ob = t \<and> ts_ClickHouseDatabaseName (to_Status ob) = t \<and> ts_ClickHouseSecretRef (to_Status ob) = SecretName t"
proof -
  obtain s0 where patch: "patchStatus api t (SecretName t) path s0 = (None, s1)"
    using assms(2) by (auto simp: Sync_def Let_def split: prod.splits sum.splits option.splits)
  then obtain ob0 where ob0: "k_get api t s0 = Inr ob0" "k_update_status api (patched t (SecretName t) path ob0) s0 = (None, s1)"
    by (auto simp: patchStatus_def split: sum.splits)
  have name: "to_Name ob0 = t" using kube_get [OF assms(1) ob0(1)] by simp
  from assms(1) ob0(2) obtain rv where "k_get api t s1 = Inr (ob0\<lparr>to_Status := to_Status (patched t (SecretName t) path ob0), to_ResourceVersion := rv\<rparr>)"
    by (cases rule: kube_update) (use ob0(1) name in auto)
  then show ?thesis using name by (simp add: patched_def)
qed

text \<open>Undisturbed, a successful \<open>Sync\<close> followed by a successful \<open>Reconcile\<close> makes the tenant active, or suspended if the specification says so.\<close>

lemma sync_then_reconcile:
  assumes "kube_ok api" "Sync api t d path nm pw s = (None, s1)" "Reconcile api set_cond t s1 = (None, s2)"
  shows "\<exists>ob. k_get api t s2 = Inr ob \<and> ts_Phase (to_Status ob) = (if to_Suspended ob then PhaseSuspended else if t = [] then PhaseProvisioning else PhaseActive)
    \<and> ts_ClickHouseDatabaseName (to_Status ob) = t \<and> ts_ObservedGeneration (to_Status ob) = to_Generation ob"
proof -
  obtain ob where ob: "k_get api t s1 = Inr ob" "to_Name ob = t" "ts_ClickHouseDatabaseName (to_Status ob) = t" using Sync_records [OF assms(1,2)] by blast
  have "k_update_status api (reconciled set_cond ob) s1 = (None, s2)" using assms(3) ob(1) by (simp add: Reconcile_def)
  with assms(1) obtain rv where "k_get api t s2 = Inr (ob\<lparr>to_Status := to_Status (reconciled set_cond ob), to_ResourceVersion := rv\<rparr>)"
    by (cases rule: kube_update) (use ob in auto)
  then show ?thesis using ob(3) by (auto simp: reconciled_def Let_def)
qed

text \<open>The provisioning command with the syncer in its place: a run that exits with 0 leaves the tenant active in the database and its object with
  the database's name. That is the premise under which the relation above lets a tenant be synced.\<close>

definition crd_syncer :: "'s kube_api \<Rightarrow> 's \<Rightarrow> string \<Rightarrow> string \<Rightarrow> string \<Rightarrow> ch_credentials \<Rightarrow> bool" where
  "crd_syncer api s tenantID displayName path creds = (fst (Sync api tenantID displayName path (cc_Username creds) (cc_Password creds) s) = None)"

lemma GetTenant_active: "GetTenant env n t db = Inr tenant \<Longrightarrow> te_Status tenant = ''active'' \<Longrightarrow> tenant_active t db"
  by (auto simp: GetTenant_def tenant_active_def scan_tenant_def tenant_row_def list_ex_iff dest!: find_SomeD split: if_splits option.splits)

lemma SetTenantStatus_active:
  assumes "SetTenantStatus env n t ''active'' db = (Inr u, db1)"
  shows "tenant_active t db1"
proof -
  let ?act = "\<lambda>r. if rt_ID r = t then r\<lparr>rt_Status := ''active'', rt_UpdatedAt := rv_now env\<rparr> else r"
  obtain r where r: "r \<in> set (rb_tenants db)" "rt_ID r = t"
    using assms by (auto simp: SetTenantStatus_def tenant_row_def dest!: find_SomeD split: if_splits)
  have "rb_tenants db1 = map ?act (rb_tenants db)" using assms by (auto simp: SetTenantStatus_def update_tenant_def split: if_splits)
  then have "?act r \<in> set (rb_tenants db1)" using imageI [OF r(1), of ?act] by (simp only: set_map)
  then show ?thesis using r(2) unfolding tenant_active_def list_ex_iff by (intro bexI [of _ "?act r"]) simp_all
qed

lemma provision_tenant_active:
  "provision_tenant env t name db = (Some tenant, db1) \<Longrightarrow> te_Status tenant = ''active'' \<Longrightarrow> tenant_active t db1"
  by (auto simp: provision_tenant_def CreateTenant_def scan_tenant_def Let_def intro: GetTenant_active split: sum.splits if_splits)

lemma provision_source_tenants: "provision_source env t act db = (r, db1) \<Longrightarrow> tenant_active x db1 = tenant_active x db"
  by (auto simp: provision_source_def CreateDataSource_def tenant_active_def Let_def split: sum.splits if_splits)

lemma data_plane_active: "provision_data_plane env t ds s = (Some creds, s') \<Longrightarrow> tenant_active t (fst s')"
  by (auto simp: provision_data_plane_def intro: SetTenantStatus_active split: prod.splits sum.splits option.splits if_splits)

lemma provision_exit_0:
  assumes "runProvisionTenant env t name s = (0, s')"
  shows "tenant_active t (fst s') \<and> (\<forall>f. pe_sync env = Some f \<longrightarrow> (\<exists>d path creds. f t d path creds))"
proof -
  obtain db log where s: "s = (db, log)" by fastforce
  obtain tenant db1 where one: "provision_tenant env t name db = (Some tenant, db1)"
    using assms s by (auto simp: runProvisionTenant_def split: prod.splits option.splits if_splits)
  obtain ds db2 where two: "provision_source env t (te_Status tenant = ''active'') db1 = (Some ds, db2)"
    using assms s one by (auto simp: runProvisionTenant_def Let_def split: prod.splits option.splits if_splits)
  have run: "(case provision_tenant env t name db of (None, db) \<Rightarrow> (1, (db, log)) | (Some tenant, db) \<Rightarrow>
      (let alreadyActive = (te_Status tenant = ''active'') in case provision_source env t alreadyActive db of (None, db) \<Rightarrow> (1, (db, log)) | (Some ds, db) \<Rightarrow>
         if alreadyActive then (case (src_Username ds, src_Password ds) of
             (Some u, Some p) \<Rightarrow> (provision_sync env t tenant ds \<lparr>cc_Username = u, cc_Password = p\<rparr>, (db, log)) | _ \<Rightarrow> (1, (db, log)))
         else (case provision_data_plane env t ds (db, log) of (None, s) \<Rightarrow> (1, s) | (Some creds, s) \<Rightarrow> (provision_sync env t tenant ds creds, s)))) = (0, s')"
    using assms s unfolding runProvisionTenant_def by (simp split: if_splits)
  have sync: "pe_sync env = Some f \<Longrightarrow> provision_sync env t tenant ds creds = 0 \<Longrightarrow> \<exists>d path creds. f t d path creds" for f creds
    by (auto simp: provision_sync_def split: if_splits)
  show ?thesis
  proof (cases "te_Status tenant = ''active''")
    case True
    then have "tenant_active t db2" using provision_tenant_active [OF one] provision_source_tenants [OF two] by simp
    moreover obtain creds where "s' = (db2, log)" "provision_sync env t tenant ds creds = 0"
      using run one two True by (auto simp: Let_def split: option.splits)
    ultimately show ?thesis using sync by auto
  next
    case False
    then obtain creds where "provision_data_plane env t ds (db2, log) = (Some creds, s')" "provision_sync env t tenant ds creds = 0"
      using run one two by (auto simp: Let_def split: prod.splits option.splits)
    then show ?thesis using data_plane_active sync by blast
  qed
qed

lemma provisioned_and_synced:
  assumes "runProvisionTenant env t name s = (0, s')" "pe_sync env = Some (crd_syncer api ks)" "kube_ok api"
  shows "\<exists>ks' d path u pw ob. Sync api t d path u pw ks = (None, ks') \<and> k_get api t ks' = Inr ob \<and> ts_ClickHouseDatabaseName (to_Status ob) = t
    \<and> ts_ClickHouseSecretRef (to_Status ob) = SecretName t \<and> tenant_active t (fst s')"
proof -
  obtain d path creds where "crd_syncer api ks t d path creds" using provision_exit_0 [OF assms(1)] assms(2) by blast
  then obtain ks' where sync: "Sync api t d path (cc_Username creds) (cc_Password creds) ks = (None, ks')" unfolding crd_syncer_def by (metis prod.collapse)
  obtain ob where "k_get api t ks' = Inr ob" "ts_ClickHouseDatabaseName (to_Status ob) = t" "ts_ClickHouseSecretRef (to_Status ob) = SecretName t"
    using Sync_records [OF assms(3) sync] by blast
  with sync show ?thesis using provision_exit_0 [OF assms(1)] by metis
qed

section \<open>An API server\<close>

text \<open>A server that keeps objects in a list and hands out versions longer than all before satisfies what is assumed.\<close>

record object_store =
  os_objects :: "tenant_object list"
  os_secrets :: "tenant_secret list"
  os_versions :: "string list"

definition versions :: "object_store \<Rightarrow> string list" where
  "versions s = os_versions s @ map to_ResourceVersion (os_objects s)"

definition fresh_version :: "object_store \<Rightarrow> string" where
  "fresh_version s = replicate (Suc (sum_list (map length (versions s)))) CHR ''v''"

lemma fresh_version_new: "fresh_version s \<notin> set (versions s)"
proof
  assume "fresh_version s \<in> set (versions s)"
  then have "length (fresh_version s) \<le> sum_list (map length (versions s))" by (simp add: member_le_sum_list)
  then show False by (simp add: fresh_version_def)
qed

definition store_get :: "string \<Rightarrow> object_store \<Rightarrow> (kube_error, tenant_object) result" where
  "store_get n s = (case find (\<lambda>ob. to_Name ob = n) (os_objects s) of None \<Rightarrow> Inl KubeNotFound | Some ob \<Rightarrow> Inr ob)"

definition store_create :: "tenant_object \<Rightarrow> object_store \<Rightarrow> (kube_error, tenant_object) result \<times> object_store" where
  "store_create ob s = (if store_get (to_Name ob) s \<noteq> Inl KubeNotFound then (Inl KubeFailed, s)
     else let new = ob\<lparr>to_UID := fresh_version s, to_ResourceVersion := fresh_version s, to_Generation := 1, to_Status := no_status\<rparr> in
       (Inr new, s\<lparr>os_objects := os_objects s @ [new]\<rparr>))"

definition store_update_status :: "tenant_object \<Rightarrow> object_store \<Rightarrow> kube_error option \<times> object_store" where
  "store_update_status ob s = (case store_get (to_Name ob) s of
     Inl e \<Rightarrow> (Some e, s)
   | Inr cur \<Rightarrow> if to_ResourceVersion cur \<noteq> to_ResourceVersion ob then (Some KubeFailed, s)
     else (None, s\<lparr>os_objects := map (\<lambda>x. if to_Name x = to_Name ob then x\<lparr>to_Status := to_Status ob, to_ResourceVersion := fresh_version s\<rparr> else x) (os_objects s),
            os_versions := versions s\<rparr>))"

definition object_api :: "object_store kube_api" where
  "object_api = \<lparr>k_get = store_get, k_create = store_create, k_update_status = store_update_status,
     k_get_secret = (\<lambda>n s. case find (\<lambda>x. sec_Name x = n) (os_secrets s) of None \<Rightarrow> Inl KubeNotFound | Some x \<Rightarrow> Inr x),
     k_create_secret = (\<lambda>x s. (None, s\<lparr>os_secrets := os_secrets s @ [x]\<rparr>)),
     k_update_secret = (\<lambda>x s. (None, s\<lparr>os_secrets := map (\<lambda>y. if sec_Name y = sec_Name x then x else y) (os_secrets s)\<rparr>)),
     k_used = (\<lambda>s. set (versions s))\<rparr>"

lemma store_get_other: "n \<noteq> m \<Longrightarrow> (\<And>x. to_Name (f x) = to_Name x) \<Longrightarrow>
    find (\<lambda>ob. to_Name ob = n) (map (\<lambda>x. if to_Name x = m then f x else x) xs) = find (\<lambda>ob. to_Name ob = n) xs"
  by (induction xs) auto

lemma object_api_ok: "kube_ok object_api"
proof -
  have "gets_ok object_api"
    by (auto simp: gets_ok_def object_api_def store_get_def versions_def dest!: find_SomeD split: option.splits)
  moreover have "secrets_ok object_api" by (simp add: secrets_ok_def object_api_def store_get_def versions_def)
  moreover have "creates_ok object_api"
    unfolding creates_ok_def
  proof (intro allI impI)
    fix ob s r s'
    assume "k_create object_api ob s = (r, s')"
    then show "s' = s \<and> (\<exists>e. r = Inl e) \<or>
     (\<exists>new. k_get object_api (to_Name ob) s = Inl KubeNotFound \<and> k_get object_api (to_Name ob) s' = Inr new \<and> to_Status new = no_status
       \<and> to_Suspended new = to_Suspended ob \<and> to_ResourceVersion new \<notin> k_used object_api s
       \<and> (\<forall>n. n \<noteq> to_Name ob \<longrightarrow> k_get object_api n s' = k_get object_api n s) \<and> k_used object_api s \<subseteq> k_used object_api s')"
      using fresh_version_new [of s]
      by (auto simp: object_api_def store_create_def Let_def store_get_def find_append versions_def split: if_splits option.splits)
  qed
  moreover have "updates_ok object_api"
    unfolding updates_ok_def
  proof (intro allI impI)
    fix ob s r s'
    assume upd: "k_update_status object_api ob s = (r, s')"
    let ?f = "\<lambda>x. x\<lparr>to_Status := to_Status ob, to_ResourceVersion := fresh_version s\<rparr>"
    have map: "find (\<lambda>x. to_Name x = to_Name ob) (map (\<lambda>x. if to_Name x = to_Name ob then ?f x else x) (os_objects s))
        = map_option ?f (find (\<lambda>x. to_Name x = to_Name ob) (os_objects s))"
      by (rule find_map_hit) simp
    have other: "find (\<lambda>x. to_Name x = n) (map (\<lambda>x. if to_Name x = to_Name ob then ?f x else x) (os_objects s)) = find (\<lambda>x. to_Name x = n) (os_objects s)"
      if "n \<noteq> to_Name ob" for n using that by (rule store_get_other) simp
    show "s' = s \<and> r \<noteq> None \<or>
     (\<exists>cur rv. k_get object_api (to_Name ob) s = Inr cur \<and> to_ResourceVersion cur = to_ResourceVersion ob \<and> rv \<notin> k_used object_api s
       \<and> k_get object_api (to_Name ob) s' = Inr (cur\<lparr>to_Status := to_Status ob, to_ResourceVersion := rv\<rparr>)
       \<and> (\<forall>n. n \<noteq> to_Name ob \<longrightarrow> k_get object_api n s' = k_get object_api n s) \<and> k_used object_api s \<subseteq> k_used object_api s')"
    proof (cases "\<exists>cur. find (\<lambda>x. to_Name x = to_Name ob) (os_objects s) = Some cur \<and> to_ResourceVersion cur = to_ResourceVersion ob")
      case True
      then obtain cur where cur: "find (\<lambda>x. to_Name x = to_Name ob) (os_objects s) = Some cur" "to_ResourceVersion cur = to_ResourceVersion ob" by blast
      have "s' = s\<lparr>os_objects := map (\<lambda>x. if to_Name x = to_Name ob then ?f x else x) (os_objects s), os_versions := versions s\<rparr>"
        using upd cur by (simp add: object_api_def store_update_status_def store_get_def)
      then show ?thesis using fresh_version_new [of s] map other cur
        by (intro disjI2 exI [of _ cur] exI [of _ "fresh_version s"]) (auto simp: object_api_def store_get_def versions_def)
    next
      case False
      then show ?thesis using upd by (auto simp: object_api_def store_update_status_def store_get_def split: option.splits if_splits)
    qed
  qed
  ultimately show ?thesis by (simp add: kube_ok_def)
qed

definition set_by_type :: set_condition where
  "set_by_type cs c = c # filter (\<lambda>x. cn_Type x \<noteq> cn_Type c) cs"

lemma set_by_type_ok: "conditions_ok set_by_type"
  by (simp add: conditions_ok_def set_by_type_def)


text \<open>A tenant is provisioned on an empty server, then synced and reconciled.\<close>

definition empty_store :: object_store where
  "empty_store = \<lparr>os_objects = [], os_secrets = [], os_versions = []\<rparr>"

definition acme_synced :: object_store where
  "acme_synced = snd (Sync object_api ''acme'' ''Acme'' ''/idx/acme'' ''u'' ''p'' empty_store)"

lemma acme_sync: "Sync object_api ''acme'' ''Acme'' ''/idx/acme'' ''u'' ''p'' empty_store = (None, acme_synced)"
proof -
  have "fst (Sync object_api ''acme'' ''Acme'' ''/idx/acme'' ''u'' ''p'' empty_store) = None" by code_simp
  then show ?thesis unfolding acme_synced_def by (metis prod.collapse)
qed

lemma acme_reconcile:
  "\<exists>s. Reconcile object_api set_by_type ''acme'' acme_synced = (None, s) \<and> map_option to_Suspended (find (\<lambda>ob. to_Name ob = ''acme'') (os_objects s)) = Some False"
proof -
  have "fst (Reconcile object_api set_by_type ''acme'' acme_synced) = None" by code_simp
  moreover have "map_option to_Suspended (find (\<lambda>ob. to_Name ob = ''acme'') (os_objects (snd (Reconcile object_api set_by_type ''acme'' acme_synced)))) = Some False"
    by code_simp
  ultimately show ?thesis by (metis prod.collapse)
qed

theorem active_only_if_provisioned_witness:
  "\<exists>c ob. (tenant_step object_api set_by_type)\<^sup>*\<^sup>* (start_cluster empty_store) c \<and> k_get object_api ''acme'' (ku_state c) = Inr ob
     \<and> ts_Phase (to_Status ob) = PhaseActive \<and> ready (to_Status ob) \<and> ts_ClickHouseSecretRef (to_Status ob) = ''cairnobs-tenant-acme-clickhouse''
     \<and> ''acme'' \<in> ku_provisioned c"
proof -
  let ?star = "(tenant_step object_api set_by_type)\<^sup>*\<^sup>*"
  define c1 where "c1 = (start_cluster empty_store)\<lparr>ku_provisioned := {''acme''}\<rparr>"
  have one: "?star (start_cluster empty_store) c1"
    using provision [of "''acme''" object_api set_by_type "start_cluster empty_store"] by (simp add: c1_def start_cluster_def)
  have "ku_state c1 = empty_store" "''acme'' \<in> ku_provisioned c1" by (simp_all add: c1_def start_cluster_def)
  then obtain c2 where two: "?star c1 c2" "ku_state c2 = acme_synced"
    using Sync_runs [OF _ _ object_api_ok, of "''acme''" "''Acme''" "''/idx/acme''" "''u''" "''p''" c1] acme_sync by metis
  obtain s where rec: "Reconcile object_api set_by_type ''acme'' acme_synced = (None, s)"
      "map_option to_Suspended (find (\<lambda>ob. to_Name ob = ''acme'') (os_objects s)) = Some False" using acme_reconcile by blast
  then obtain c3 where three: "?star c2 c3" "ku_state c3 = s" using Reconcile_runs [of object_api set_by_type "''acme''" c2] two by metis
  have run: "?star (start_cluster empty_store) c3" using one two(1) three(1) by (meson rtranclp_trans)
  obtain ob where ob: "k_get object_api ''acme'' (ku_state c3) = Inr ob" "ts_Phase (to_Status ob) = (if to_Suspended ob then PhaseSuspended else PhaseActive)"
    using sync_then_reconcile [OF object_api_ok acme_sync rec(1)] three(2) by auto
  moreover have "\<not> to_Suspended ob" using ob(1) rec(2) three(2) by (auto simp: object_api_def store_get_def split: option.splits)
  ultimately have "ts_Phase (to_Status ob) = PhaseActive" by simp
  then show ?thesis
    using active_only_if_provisioned [OF run object_api_ok set_by_type_ok _ ob(1)] run ob(1)
    by (auto simp: object_api_def store_get_def empty_store_def SecretName_def)
qed

end
