(* ===== verification/Spec2Isabelle.thy ===== *)
theory Spec2Isabelle
  imports Printer Query_Meaning Query_Api Outbox Delivery Session_Check Audit_Log Dashboard_Access Fleet Ingest_Delivery Sso_Sessions Tenant_Ownership Provisioning
    Ingest_Credentials Ai_Api Deployment Terraform_Apply Tenant_Resource
begin

text \<open>
  Verification of the CairnObs log platform (Go sources under \<open>src/\<close>).

  \<^bold>\<open>The program.\<close> Agents push log records to \<open>ingest\<close>, which puts them on Redpanda; a consumer writes
  them to ClickHouse. \<open>api\<close> answers queries in a pipe syntax or a restricted SQL, keeps dashboards,
  the agents' configuration, log deletion and local accounts. \<open>alerting\<close> evaluates rules on a schedule and
  delivers notifications. \<open>enterprise\<close> adds tenants, single sign-on and a hash-chained audit log. The
  processes share PostgreSQL tables and call each other over HTTP to authorize a request.

  \<^bold>\<open>Conventions.\<close> A PostgreSQL or ClickHouse table is a list of row records inside a record of tables; a statement is a
  function on it, with the constraints of the migrations; a failing statement leaves the tables as they
  were. Go's \<open>(T, error)\<close> is \<open>'e + 'a\<close> (\<open>result\<close> of \<open>Prelude\<close>) with error values as constructors in
  place of message texts. A handler takes the identity in the request's context and the state, and
  returns status, body and new state; the route tables with their role floors are functions, so
  \<open>serve\<close>, \<open>dash_serve\<close>, \<open>agents_serve\<close> and \<open>retention_serve\<close> are whole requests through the middleware.
  A request is one step unless a lemma says otherwise; the races that the code leaves open are modelled
  as sequences of statements. Clocks, random values, UUIDs, bcrypt, SHA-256, JSON and protobuf coding, the
  JSONB input function, collations, the tz database, DNS, URL parsing and the outcomes of network
  calls are arguments, mostly collected in an environment record per component. Strings are lists of
  characters and runes are characters. \<open>time.Time\<close> is an integer number of nanoseconds, \<open>time.Duration\<close> one that wraps at 64
  bits (\<open>wrap64\<close>). Rows that an \<open>ORDER BY\<close> leaves tied come in insertion order; identifiers in a
  request are well-formed.

  \<^bold>\<open>Query language.\<close> \<open>Lexer\<close>, \<open>Ast\<close>, \<open>Parser\<close>, \<open>Planner\<close>, \<open>Sql\<close> follow \<open>api/internal/querylang\<close> and
  \<open>api/querylang/executor\<close> method by method; \<open>Printer\<close> is a canonical printer used as a specification of
  the grammar. The lexer terminates and inverts rendering; the parser inverts the printer, returns well-formed
  trees and points into the query on errors; compilation refines the declarative \<open>plan_of\<close>; the
  generated SQL scans to the intended tokens; row queries are limited. The lexer's loops and the parser's
  recursion are total functions on the remaining input, so no fuel is used. \<open>Query_Api\<close> has the cost guard and the query endpoint.
  \<open>Query_Meaning\<close> joins parser and planner; \<open>Token_Stream\<close> shows that the parser depends on its tokens alone.

  \<^bold>\<open>AI endpoints.\<close> \<open>Ai_Grounding\<close> is the sampling of a tenant's schema, \<open>Ai_Provider\<close> the provider interface, the router and the Ollama
  client with its prompts, \<open>Ai_Api\<close> the handlers of \<open>api/ai/aiapi\<close>. A caller's schema context is a function of
  its own tenant's data, whichever model answers; a translation is judged as \<open>/query\<close> would judge it; the mechanical rewrite
  restricts a query with a base search to the last hour and changes nothing else. The rewrite is not safe for every query, which two theorems show.

  \<^bold>\<open>Alerting.\<close> \<open>Alerting\<close> is the state machine of one rule, \<open>Rule_Store\<close> its tables and the evaluator, \<open>Notify\<close>
  targets, address guard and payloads, \<open>Delivery\<close> the worker and the REST surface, \<open>Outbox\<close> the guarantees
  of the whole. A rule fires exactly after its condition has held for the configured time, notifications alternate, the
  delivery log is a faithful outbox, claims are exclusive, every notification is settled
  within its attempts, and only addresses that pass the guard are contacted.

  \<^bold>\<open>Accounts.\<close> \<open>Authz\<close> has roles and middleware, \<open>Local_Auth\<close> the tables of local login, \<open>Auth_Api\<close> limiter and
  handlers, \<open>Session_Check\<close> alerting's second implementation of the session check. \<open>Auth_Invariants\<close> proves
  that an owner survives, that sessions carry the current role and that privileges do not leak,
  through one locale that every handler interprets.

  \<^bold>\<open>Dashboards.\<close> \<open>Dashboards\<close> has store, grants and handlers. \<open>Tenancy\<close> shows that the shared tables
  simulate one private database per tenant; \<open>Dashboard_Access\<close> shows who can change what, that rows stay well-formed, and that
  an export imports to the same dashboard.

  \<^bold>\<open>Audit.\<close> \<open>Audit_Log\<close> is the chain of \<open>enterprise/internal/audit\<close> with its checkpoints: an appended log
  verifies, a hash commits to the log, checkpoints tile it. The hash is an arbitrary function and a
  collision is a disjunct of the conclusion.

  \<^bold>\<open>Agents and logs.\<close> \<open>Agents\<close> is the agents' table with the API's handlers and the check-in of ingest, \<open>Agent_Paths\<close> the
  exact meaning of the path deny lists, \<open>Log_Retention\<close> the deletion of logs, \<open>Fleet\<close> the properties of these
  together: who can change a configuration, how often a restart is delivered, what retention floors protect.

  \<^bold>\<open>Ingest.\<close> \<open>Ingest\<close> has pushing, the consumer loop as a sequence of events with the outcome of each write and
  commit, the single-tenant and the per-tenant writer, and the per-tenant query runner.
  \<open>Ingest_Delivery\<close> states what a batch writer promises as a locale, interprets it for both writers, and
  proves that committed records are stored and that rows stay with the tenant whose credential
  pushed them.

  \<^bold>\<open>Processes.\<close> \<open>Configuration\<close> is what the six processes read from their environment; \<open>Deployment\<close> composes the handlers of
  the api and of alerting as the two \<open>main\<close> functions do, and shows that a configured api lets no request past
  its guards without a credential of the route's role.

  \<^bold>\<open>Terraform.\<close> \<open>Terraform\<close> is the provider under \<open>terraform/\<close>; \<open>Terraform_Apply\<close> composes it with the handlers of the services it calls and
  states Terraform's contract as a locale, interpreted for rules and dashboards: a created resource has its planned values, a refresh
  returns it unchanged, a deleted one is gone. Four theorems show where panels, targets and empty defaults break it.

  \<^bold>\<open>Tenants.\<close> \<open>Rbac_Store\<close> is \<open>enterprise/internal/rbacstore\<close> with the operator commands of \<open>enterprise-auth\<close>, each
  database call able to fail; \<open>Sso_Login\<close> the signed tokens, the endpoints other services ask and the login
  flow down to the response writer; \<open>Provisioning\<close> the ClickHouse statements for a new tenant and the
  command around them. \<open>Sso_Sessions\<close> traces an accepted identity back to a membership and an answer of the
  identity provider; \<open>Tenant_Ownership\<close> relates the two records of a tenant's owner; \<open>Provisioning\<close> shows
  that no tenant is served before it is provisioned; \<open>Ingest_Credentials\<close> follows a credential through
  three processes; \<open>Tenant_Resource\<close> has the Tenant objects in Kubernetes with the operator's \<open>Reconcile\<close>, and an invariant over all
  interleavings of its API calls. Signatures are unforgeable by hypothesis, stated on the tokens a run presents.

  \<^bold>\<open>Not modelled.\<close> The start-up of the processes beyond configuration and the composition of handlers, logging and signal handling; connection pools, gRPC and
  TLS set-up; the exchanges of the SAML, OIDC and Kubernetes libraries, which are arguments where
  their outcome matters; the command line client, which only calls other interfaces; the development
  tools under \<open>src/hack\<close>; the Rust and TypeScript parts.
\<close>

section \<open>From query text to plan\<close>





lemma filters_wf: "list_all wf_term (map snd ps) \<Longrightarrow> list_all wf_op (filters_of ps)"
proof (induction ps)
  case (Cons p ps)
  then show ?case by (cases p; cases "snd p") (auto simp: wf_op_def comparators_def)
qed simp

lemma compileAggs_funcs:
  "compileAggs seen as fs = Inr gs \<Longrightarrow> list_all (\<lambda>f. isValidAggFunc (af_Func f)) fs \<Longrightarrow>
    list_all wf_agg as \<Longrightarrow> list_all (\<lambda>f. isValidAggFunc (af_Func f)) gs"
  by (induction seen as fs rule: compileAggs.induct) (auto simp: Let_def wf_agg_def split: if_splits)

lemma pairs_terms: "set (map snd (pairs e)) \<subseteq> set (Terms e)"
  by (auto simp: pairs_def dest: set_zip_rightD)

lemma plan_of_wf:
  assumes "wf_query q"
  shows "wf_plan (plan_of pt now q)"
proof -
  let ?sts = "WhereStage (Base q) # Pipes q"
  have terms: "wf_expr e \<or> e = zero_expr \<Longrightarrow> list_all wf_term (map snd (pairs e))" for e
    using pairs_terms [of e] by (auto simp: wf_expr_def list_all_iff)
  have st: "list_all wf_term (map snd (stage_pairs st))" if "st \<in> set ?sts" for st
  proof (cases st)
    case (WhereStage e)
    with that assms have "wf_expr e \<or> e = zero_expr"
      by (fastforce simp: wf_query_def list_all_iff)
    with terms WhereStage show ?thesis by (simp add: stage_pairs_def)
  qed (simp_all add: stage_pairs_def)
  then have "list_all wf_term (map snd (concat (map stage_pairs ?sts)))"
    by (auto simp: list_all_iff)
  then have f: "list_all wf_op (Filters (plan_of pt now q))"
    by (simp only: plan_of_def add_stages_def Let_def) (simp add: filters_wf zero_plan_def)
  have ag: "list_all (\<lambda>f. isValidAggFunc (af_Func f)) (Funcs a)" if a: "a \<in> set (stage_agg st)" "wf_stage st" for a st
  proof (cases st)
    case (StatsStage aggs byf)
    with a obtain fs where "compileAggs {} aggs [] = Inr fs" "a = \<lparr>Funcs = fs, GroupBy = byf\<rparr>"
      by (cases "compileAggs {} aggs []") (auto simp: stage_agg_def compileStats_def)
    with compileAggs_funcs [of "{}" aggs "[]" fs] StatsStage a(2) show ?thesis by simp
  qed (use a in \<open>simp_all add: stage_agg_def\<close>)
  have "case last_or None (concat (map stage_agg ?sts)) of Some a \<Rightarrow>
      list_all (\<lambda>f. isValidAggFunc (af_Func f)) (Funcs a) | None \<Rightarrow> True"
  proof (cases "concat (map stage_agg ?sts)")
    case (Cons a as)
    then have "last (a # as) \<in> set (concat (map stage_agg ?sts))" by (metis last_in_set list.discI)
    then obtain st where "st \<in> set (Pipes q)" "last (a # as) \<in> set (stage_agg st)"
      by (auto simp: stage_agg_def [of "WhereStage _"])
    with ag assms have "list_all (\<lambda>f. isValidAggFunc (af_Func f)) (Funcs (last (a # as)))"
      by (auto simp: wf_query_def list_all_iff)
    then show ?thesis unfolding Cons by (simp add: last_or_def)
  qed (auto simp: last_or_def)
  then have "case Aggregation (plan_of pt now q) of Some a \<Rightarrow>
      list_all (\<lambda>f. isValidAggFunc (af_Func f)) (Funcs a) | None \<Rightarrow> True"
    by (simp only: plan_of_def add_stages_def Let_def) (simp add: zero_plan_def)
  with f show ?thesis by (simp only: wf_plan_def)
qed

text \<open>C1: Injection safety from query text to SQL. For every pipe query that compiles, and
  every list of record ids, reading the generated statement with ClickHouse's quoting rules
  gives exactly the intended tokens: record ids, attribute names and filter values are whole
  string literals whatever characters they contain, field names and aliases are whole quoted
  identifiers, and all other text is fixed, one of the six operators, one of the five
  aggregation functions, or a number.\<close>

theorem pipe_query_injection_safe:
  assumes "Compile pt s SPL now = Inr pl"
  shows "scan_sql InPlain (buildSQL pl ids) = sql_toks pl ids"
  using Compile_SPL_plan [OF assms] plan_of_wf buildSQL_structure by blast

theorem pipe_query_injection_safe_witness:
  "let pl = projr (Compile (\<lambda>_. None) (''user='' @ [CHR 0x22, CHR 0x27, CHR 0x22] @ ''| head'') SPL 7)
   in scan_sql InPlain (buildSQL pl [''id'']) = sql_toks pl [''id'']"
proof -
  have "is_ok (Compile (\<lambda>_. None) (''user='' @ [CHR 0x22, CHR 0x27, CHR 0x22] @ ''| head'') SPL 7)"
    by code_simp
  then obtain pl where "Compile (\<lambda>_. None) (''user='' @ [CHR 0x22, CHR 0x27, CHR 0x22] @ ''| head'') SPL 7 = Inr pl"
    by (auto simp: is_ok_def split: sum.splits)
  with pipe_query_injection_safe [OF this] show ?thesis by simp
qed

end
